(* ===== verification/Prelude.thy ===== *)
theory Prelude
  imports Main "HOL-Library.Multiset"
begin

text \<open>
  Vocabulary shared by every component theory: the type synonyms for the Go types the
  program uses, two's complement wrap-around for the fixed width integers, the part of
  Go's \<open>strings\<close> and \<open>strconv\<close> the program calls (decimal printing and parsing with
  Go's two error kinds), and generic lemmas on lists. Strings and byte slices are both
  \<open>char list\<close>: a Go string is a sequence of bytes and \<open>len\<close> counts bytes, exactly as
  \<open>length\<close> counts \<open>char\<close>s.
\<close>

named_theorems wrap_simps "wrap-around functions are the identity in range"

type_synonym bytes = "char list"
type_synonym address = string
type_synonym goerror = string
type_synonym duration = int
type_synonym instant = int

section \<open>Definitions\<close>

subsection \<open>Fixed width integers\<close>

definition i64 :: "int \<Rightarrow> int" where
  "i64 x = (x + 2 ^ 63) mod 2 ^ 64 - 2 ^ 63"

definition i32 :: "int \<Rightarrow> int" where
  "i32 x = (x + 2 ^ 31) mod 2 ^ 32 - 2 ^ 31"

definition u64 :: "int \<Rightarrow> int" where
  "u64 x = x mod 2 ^ 64"

definition u32 :: "int \<Rightarrow> int" where
  "u32 x = x mod 2 ^ 32"

definition in_i64 :: "int \<Rightarrow> bool" where
  "in_i64 x \<longleftrightarrow> - (2 ^ 63) \<le> x \<and> x < 2 ^ 63"

definition in_i32 :: "int \<Rightarrow> bool" where
  "in_i32 x \<longleftrightarrow> - (2 ^ 31) \<le> x \<and> x < 2 ^ 31"

text \<open>Go's \<open>/\<close> on signed integers truncates towards zero (the divisor is never 0 where
  the model uses it).\<close>

definition go_div :: "int \<Rightarrow> int \<Rightarrow> int" where
  "go_div a b = sgn a * sgn b * (\<bar>a\<bar> div \<bar>b\<bar>)"

text \<open>\<open>time.Time.Sub\<close> saturates at the ends of the \<open>int64\<close> range. An instant is the number
  of nanoseconds since Go's zero time, so \<open>IsZero\<close> is equality with 0.\<close>

definition time_sub :: "instant \<Rightarrow> instant \<Rightarrow> duration" where
  "time_sub t u = max (- (2 ^ 63)) (min (2 ^ 63 - 1) (t - u))"

definition time_is_zero :: "instant \<Rightarrow> bool" where
  "time_is_zero t \<longleftrightarrow> t = 0"

definition Second :: duration where
  "Second = 1000000000"

definition Millisecond :: duration where
  "Millisecond = 1000000"

subsection \<open>Decimal printing and parsing\<close>

definition digit_char :: "nat \<Rightarrow> char" where
  "digit_char d = char_of (48 + d)"

fun digits :: "nat \<Rightarrow> string" where
  "digits n = (if n < 10 then [digit_char n] else digits (n div 10) @ [digit_char (n mod 10)])"

declare digits.simps [simp del]

definition itoa :: "int \<Rightarrow> string" where
  "itoa i = (if i < 0 then ''-'' @ digits (nat (- i)) else digits (nat i))"

datatype numerr = ErrSyntax | ErrRange

definition digit_val :: "char \<Rightarrow> nat option" where
  "digit_val c = (let n = of_char c in if 48 \<le> n \<and> n \<le> 57 then Some (n - 48) else None)"

text \<open>\<open>strconv.ParseUint\<close> in base 10: digits are consumed left to right, a byte that is not a
  digit is a syntax error, exceeding \<open>maxVal\<close> is a range error found as soon as it happens.\<close>

fun parse_uint_loop :: "nat \<Rightarrow> nat \<Rightarrow> string \<Rightarrow> numerr + nat" where
  "parse_uint_loop maxVal n [] = Inr n"
| "parse_uint_loop maxVal n (c # cs) =
     (case digit_val c of
        None \<Rightarrow> Inl ErrSyntax
      | Some d \<Rightarrow>
          (if n * 10 + d > maxVal then Inl ErrRange
           else parse_uint_loop maxVal (n * 10 + d) cs))"

definition ParseUint :: "nat \<Rightarrow> string \<Rightarrow> nat \<times> numerr option" where
  "ParseUint bits s =
     (if s = [] then (0, Some ErrSyntax)
      else case parse_uint_loop (2 ^ bits - 1) 0 s of
        Inl ErrSyntax \<Rightarrow> (0, Some ErrSyntax)
      | Inl ErrRange \<Rightarrow> (2 ^ bits - 1, Some ErrRange)
      | Inr n \<Rightarrow> (n, None))"

definition ParseInt :: "nat \<Rightarrow> string \<Rightarrow> int \<times> numerr option" where
  "ParseInt bits s =
     (if s = [] then (0, Some ErrSyntax)
      else
        let neg = (hd s = CHR ''-'');
            body = (if hd s = CHR ''-'' \<or> hd s = CHR ''+'' then tl s else s);
            (un, err) = ParseUint bits body;
            cutoff = 2 ^ (bits - 1)
        in if err = Some ErrSyntax then (0, Some ErrSyntax)
           else if \<not> neg \<and> int un \<ge> cutoff then (cutoff - 1, Some ErrRange)
           else if neg \<and> int un > cutoff then (- cutoff, Some ErrRange)
           else (if neg then - int un else int un, None))"

subsection \<open>Strings\<close>

text \<open>\<open>strings.Split\<close> with a one-byte separator: always at least one field.\<close>

fun split_on :: "char \<Rightarrow> string \<Rightarrow> string list" where
  "split_on sep [] = [[]]"
| "split_on sep (c # cs) =
     (if c = sep then [] # split_on sep cs
      else case split_on sep cs of [] \<Rightarrow> [[c]] | f # fs \<Rightarrow> (c # f) # fs)"

definition has_prefix :: "string \<Rightarrow> string \<Rightarrow> bool" where
  "has_prefix p s \<longleftrightarrow> take (length p) s = p"

fun contains :: "string \<Rightarrow> string \<Rightarrow> bool" where
  "contains [] sub \<longleftrightarrow> sub = []"
| "contains (c # cs) sub \<longleftrightarrow> has_prefix sub (c # cs) \<or> contains cs sub"

fun join :: "string \<Rightarrow> string list \<Rightarrow> string" where
  "join sep [] = []"
| "join sep [s] = s"
| "join sep (s # t # ss) = s @ sep @ join sep (t # ss)"

definition lower_char :: "char \<Rightarrow> char" where
  "lower_char c = (let n = of_char c :: nat in if 65 \<le> n \<and> n \<le> 90 then char_of (n + 32) else c)"

definition to_lower :: "string \<Rightarrow> string" where
  "to_lower s = map lower_char s"

text \<open>UTF-8 text the program prints, given by its bytes.\<close>

definition utf8 :: "nat list \<Rightarrow> string" where
  "utf8 ns = map char_of ns"

subsection \<open>Sorting and searching\<close>

text \<open>\<open>sort.Slice\<close> promises a permutation that is ascending for the comparison and nothing about
  elements that compare equal; a definition that sorts takes the sorting function as an
  argument.\<close>

definition sorts_by :: "('a \<Rightarrow> 'b::linorder) \<Rightarrow> ('a list \<Rightarrow> 'a list) \<Rightarrow> bool" where
  "sorts_by key srt \<longleftrightarrow> (\<forall>xs. mset (srt xs) = mset xs \<and> sorted (map key (srt xs)))"

text \<open>\<open>sort.Search\<close>.\<close>

function search_loop :: "(nat \<Rightarrow> bool) \<Rightarrow> nat \<Rightarrow> nat \<Rightarrow> nat" where
  "search_loop f i j =
     (if i < j then
        let h = (i + j) div 2
        in if \<not> f h then search_loop f (h + 1) j else search_loop f i h
      else i)"
  by pat_completeness auto
termination
  by (relation "measure (\<lambda>(f, i, j). j - i)") auto

declare search_loop.simps [simp del]

definition sort_Search :: "nat \<Rightarrow> (nat \<Rightarrow> bool) \<Rightarrow> nat" where
  "sort_Search n f = search_loop f 0 n"

section \<open>Lemmas\<close>

subsection \<open>Searching\<close>

lemma search_loop_boundary:
  "i \<le> m \<Longrightarrow> m \<le> j \<Longrightarrow> (\<And>k. k < j \<Longrightarrow> f k \<longleftrightarrow> m \<le> k) \<Longrightarrow> search_loop f i j = m"
proof (induction f i j rule: search_loop.induct)
  case (1 f i j)
  show ?case
  proof (cases "i < j")
    case True
    let ?h = "(i + j) div 2"
    have h: "i \<le> ?h" "?h < j" using True by linarith+
    show ?thesis
    proof (cases "m \<le> ?h")
      case False
      have "search_loop f i j = search_loop f (?h + 1) j"
        using True False "1.prems"(3) [OF h(2)] by (subst search_loop.simps) (simp add: Let_def)
      also have "\<dots> = m" by (rule "1.IH"(1)) (use True False 1(5) h "1.prems" in simp_all)
      finally show ?thesis .
    next
      case le: True
      have "search_loop f i j = search_loop f i ?h"
        using True le "1.prems"(3) [OF h(2)] by (subst search_loop.simps) (simp add: Let_def)
      also have "\<dots> = m" by (rule "1.IH"(2)) (use True le h "1.prems" in simp_all)
      finally show ?thesis .
    qed
  next
    case False
    with 1 show ?thesis by (subst search_loop.simps) simp
  qed
qed

text \<open>For a predicate that stays true once true, the result is the first index where it holds.\<close>

lemma sort_Search_boundary:
  "m \<le> n \<Longrightarrow> (\<And>k. k < n \<Longrightarrow> f k \<longleftrightarrow> m \<le> k) \<Longrightarrow> sort_Search n f = m"
  by (simp add: sort_Search_def search_loop_boundary)

lemma sort_Search_length:
  assumes "sorted (map key xs)"
  shows "sort_Search (length xs) (\<lambda>k. a < key (xs ! k)) = length (filter (\<lambda>x. key x \<le> a) xs)"
    and "take (length (filter (\<lambda>x. key x \<le> a) xs)) xs = filter (\<lambda>x. key x \<le> a) xs"
proof -
  have *: "\<exists>ys zs. xs = ys @ zs \<and> (\<forall>y \<in> set ys. key y \<le> a) \<and> (\<forall>z \<in> set zs. a < key z)"
    using assms
  proof (induction xs)
    case (Cons x xs)
    then obtain ys zs where xs: "xs = ys @ zs" "\<forall>y \<in> set ys. key y \<le> a" "\<forall>z \<in> set zs. a < key z" by auto
    show ?case
    proof (cases "key x \<le> a")
      case True
      with xs show ?thesis by (intro exI [of _ "x # ys"] exI [of _ zs]) auto
    next
      case False
      with Cons.prems show ?thesis by (intro exI [of _ "[]"] exI [of _ "x # xs"]) force
    qed
  qed simp
  then obtain ys zs where xs: "xs = ys @ zs" "\<forall>y \<in> set ys. key y \<le> a" "\<forall>z \<in> set zs. a < key z" by blast
  then have f: "filter (\<lambda>x. key x \<le> a) xs = ys" by (auto simp: filter_empty_conv not_le)
  show "sort_Search (length xs) (\<lambda>k. a < key (xs ! k)) = length (filter (\<lambda>x. key x \<le> a) xs)"
    unfolding f by (rule sort_Search_boundary) (use xs in \<open>auto simp: nth_append not_le [symmetric]\<close>)
  show "take (length (filter (\<lambda>x. key x \<le> a) xs)) xs = filter (\<lambda>x. key x \<le> a) xs"
    unfolding f by (simp add: xs(1))
qed

subsection \<open>Integers\<close>

lemma i64_id [wrap_simps]: "in_i64 x \<Longrightarrow> i64 x = x"
  by (simp add: in_i64_def i64_def)

lemma i64_in_range: "in_i64 (i64 x)"
proof -
  have "0 \<le> (x + 2 ^ 63) mod 2 ^ 64" and "(x + 2 ^ 63) mod 2 ^ 64 < (2 ^ 64 :: int)"
    by simp_all
  then show ?thesis by (simp add: in_i64_def i64_def)
qed

lemma i32_id [wrap_simps]: "in_i32 x \<Longrightarrow> i32 x = x"
  by (simp add: in_i32_def i32_def)

lemma in_i64I: "\<bar>x\<bar> < 2 ^ 63 \<Longrightarrow> in_i64 x"
  by (auto simp: in_i64_def)

lemma i64_nonneg: "0 \<le> x \<Longrightarrow> x < 2 ^ 63 \<Longrightarrow> i64 x = x"
  by (rule i64_id) (simp add: in_i64_def)

lemma u64_id [wrap_simps]: "0 \<le> x \<Longrightarrow> x < 2 ^ 64 \<Longrightarrow> u64 x = x"
  by (simp add: u64_def)

lemma time_sub_in_range: "in_i64 (time_sub t u)"
  by (auto simp: time_sub_def in_i64_def)

lemma go_div_nonneg: "0 \<le> a \<Longrightarrow> 0 < b \<Longrightarrow> go_div a b = a div b"
  by (cases "a = 0") (simp_all add: go_div_def)

subsection \<open>Decimal round trip\<close>

lemma digit_char_simps [simp]:
  "digit_char 0 = CHR ''0''" "digit_char (Suc 0) = CHR ''1''" "digit_char 2 = CHR ''2''"
  "digit_char 3 = CHR ''3''" "digit_char 4 = CHR ''4''" "digit_char 5 = CHR ''5''"
  "digit_char 6 = CHR ''6''" "digit_char 7 = CHR ''7''" "digit_char 8 = CHR ''8''"
  "digit_char 9 = CHR ''9''"
  by (simp_all add: digit_char_def char_of_def bit_simps)

lemma digit_val_digit_char: "d < 10 \<Longrightarrow> digit_val (digit_char d) = Some d"
  by (simp add: digit_val_def digit_char_def)

lemma digits_not_Nil [simp]: "digits n \<noteq> []"
  by (subst digits.simps) simp

lemma digits_are_digits: "c \<in> set (digits n) \<Longrightarrow> \<exists>d < 10. c = digit_char d"
proof (induction n rule: digits.induct)
  case (1 n)
  show ?case
  proof (cases "n < 10")
    case True
    with "1.prems" have "c = digit_char n" by (simp add: digits.simps [of n])
    with True show ?thesis by blast
  next
    case False
    with "1.prems" have "c \<in> set (digits (n div 10)) \<or> c = digit_char (n mod 10)"
      by (auto simp: digits.simps [of n])
    moreover have "n mod 10 < 10" by simp
    ultimately show ?thesis using "1.IH" False by blast
  qed
qed

lemma digit_char_inj: "d < 10 \<Longrightarrow> e < 10 \<Longrightarrow> digit_char d = digit_char e \<Longrightarrow> d = e"
  by (metis digit_val_digit_char option.inject)

lemma digit_val_seps [simp]:
  "digit_val CHR ''-'' = None" "digit_val CHR ''+'' = None" "digit_val CHR ''/'' = None"
  "digit_val CHR ''|'' = None" "digit_val CHR ''.'' = None"
  by (simp_all add: digit_val_def)

lemma sep_notin_digits: "digit_val c = None \<Longrightarrow> c \<notin> set (digits n)"
  using digits_are_digits digit_val_digit_char by fastforce

lemma parse_uint_loop_append:
  "parse_uint_loop m n (s @ t) =
     (case parse_uint_loop m n s of Inl e \<Rightarrow> Inl e | Inr k \<Rightarrow> parse_uint_loop m k t)"
  by (induction m n s rule: parse_uint_loop.induct) (auto split: option.splits)

lemma parse_uint_loop_digits: "n \<le> m \<Longrightarrow> parse_uint_loop m 0 (digits n) = Inr n"
proof (induction n rule: digits.induct)
  case (1 n)
  show ?case
  proof (cases "n < 10")
    case True
    with 1 show ?thesis by (subst digits.simps) (simp add: digit_val_digit_char)
  next
    case False
    moreover from 1 have "n div 10 \<le> m" by linarith
    ultimately have "parse_uint_loop m 0 (digits (n div 10)) = Inr (n div 10)"
      using 1 by simp
    moreover have "n div 10 * 10 + n mod 10 = n" by simp
    ultimately show ?thesis using False 1
      by (subst digits.simps) (simp add: parse_uint_loop_append digit_val_digit_char)
  qed
qed

lemma ParseUint_digits: "n < 2 ^ bits \<Longrightarrow> ParseUint bits (digits n) = (n, None)"
  by (simp add: ParseUint_def parse_uint_loop_digits)

lemma hd_digits_not_sign: "hd (digits n) \<noteq> CHR ''-''" "hd (digits n) \<noteq> CHR ''+''"
  by (metis digits_not_Nil hd_in_set sep_notin_digits digit_val_seps(1),
      metis digits_not_Nil hd_in_set sep_notin_digits digit_val_seps(2))

lemma ParseInt_digits:
  "n < 2 ^ (bits - 1) \<Longrightarrow> ParseInt bits (digits n) = (int n, None)"
proof -
  assume n: "n < 2 ^ (bits - 1)"
  then have "n < 2 ^ bits"
    by (metis diff_le_self less_le_trans one_le_numeral power_increasing)
  moreover from n have "int n < 2 ^ (bits - 1)"
    by (metis of_nat_less_iff of_nat_numeral of_nat_power)
  ultimately show ?thesis
    by (simp add: ParseInt_def ParseUint_digits hd_digits_not_sign)
qed

lemma ParseInt_neg_digits:
  "0 < bits \<Longrightarrow> n \<le> 2 ^ (bits - 1) \<Longrightarrow> ParseInt bits (CHR ''-'' # digits n) = (- int n, None)"
proof -
  assume b: "0 < bits" and n: "n \<le> 2 ^ (bits - 1)"
  have "(2::nat) ^ (bits - 1) < 2 ^ bits" using b by simp
  with n have "n < 2 ^ bits" by linarith
  moreover from n have "int n \<le> 2 ^ (bits - 1)"
    by (metis of_nat_le_iff of_nat_numeral of_nat_power)
  ultimately show ?thesis
    by (simp add: ParseInt_def ParseUint_digits)
qed

lemma ParseInt_itoa: "in_i64 i \<Longrightarrow> ParseInt 64 (itoa i) = (i, None)"
  by (auto simp: itoa_def in_i64_def ParseInt_digits ParseInt_neg_digits)

lemma ParseInt_itoa32: "in_i32 i \<Longrightarrow> ParseInt 32 (itoa i) = (i, None)"
  by (auto simp: itoa_def in_i32_def ParseInt_digits ParseInt_neg_digits)

lemma digits_inj: "digits m = digits n \<Longrightarrow> m = n"
  by (metis max.cobounded1 max.cobounded2 parse_uint_loop_digits sum.inject(2))

lemma itoa_inj: "itoa i = itoa j \<Longrightarrow> i = j"
proof -
  assume eq: "itoa i = itoa j"
  have neg: "hd (itoa k) = CHR ''-'' \<longleftrightarrow> k < 0" for k
    by (simp add: itoa_def hd_digits_not_sign)
  from eq neg have "i < 0 \<longleftrightarrow> j < 0" by metis
  with eq show ?thesis by (auto simp: itoa_def dest!: digits_inj)
qed

lemma sep_notin_itoa: "digit_val c = None \<Longrightarrow> c \<noteq> CHR ''-'' \<Longrightarrow> c \<notin> set (itoa i)"
  by (simp add: itoa_def sep_notin_digits)

subsection \<open>Splitting\<close>

lemma split_on_not_Nil [simp]: "split_on sep s \<noteq> []"
  by (induction s) (auto split: list.splits)

lemma split_on_append:
  "sep \<notin> set s \<Longrightarrow> split_on sep (s @ sep # t) = s # split_on sep t"
  by (induction s) auto

lemma split_on_no_sep: "sep \<notin> set s \<Longrightarrow> split_on sep s = [s]"
  by (induction s) auto

lemma sep_append_inj:
  "c \<notin> set a \<Longrightarrow> c \<notin> set a' \<Longrightarrow> a @ c # b = a' @ c # b' \<Longrightarrow> a = a' \<and> b = b'"
proof (induction a arbitrary: a')
  case Nil
  then show ?case by (cases a') auto
next
  case (Cons x a)
  then show ?case by (cases a') auto
qed

subsection \<open>Lists\<close>

lemma foldl_invariant:
  "P s \<Longrightarrow> (\<And>s x. x \<in> set xs \<Longrightarrow> P s \<Longrightarrow> P (f s x)) \<Longrightarrow> P (foldl f s xs)"
  by (induction xs arbitrary: s) auto

lemma sum_list_nonneg_int: "(\<And>x. x \<in> set xs \<Longrightarrow> (0::int) \<le> f x) \<Longrightarrow> 0 \<le> (\<Sum>x\<leftarrow>xs. f x)"
  by (induction xs) auto

end
