(* ===== verification/Butils.thy ===== *)
theory Butils
  imports Prelude "HOL-Library.Finite_Map" "HOL-Library.DAList"
begin

text \<open>
  The containers of the third-party module \<open>github.com/brynbellomy/go-utils\<close> (imported as
  \<open>butils\<close>), which is not part of the repository: \<open>SortedMap\<close> and \<open>OrderedMap\<close>. The
  development does not define them. Every definition that uses such a container takes the
  container's operations as an argument (a record of functions), and a theorem that relies on
  the container's documented behaviour assumes it as the locale predicate \<open>sorted_map\<close> or
  \<open>ordered_map\<close>. Both contracts are shown satisfiable by instances built on the library's
  finite maps and association lists; the witnesses use these instances.
  (\<open>butils.Set\<close> is a Go map with unit values: the source ranges over it, takes its \<open>len\<close> and
  compares it to \<open>nil\<close>; it is modelled as a set like any Go map.)
\<close>

section \<open>Operations and contracts\<close>

record ('k, 'v, 'm) sorted_map_ops =
  sm_new :: 'm
  sm_get :: "'m \<Rightarrow> 'k \<Rightarrow> 'v option"
  sm_insert :: "'m \<Rightarrow> 'k \<Rightarrow> 'v \<Rightarrow> 'm"
  sm_iter :: "'m \<Rightarrow> ('k \<times> 'v) list"
  sm_rev_iter :: "'m \<Rightarrow> ('k \<times> 'v) list"

record ('k, 'v, 'm) ordered_map_ops =
  om_new :: 'm
  om_get :: "'m \<Rightarrow> 'k \<Rightarrow> 'v option"
  om_set :: "'m \<Rightarrow> 'k \<Rightarrow> 'v \<Rightarrow> 'm"
  om_entries :: "'m \<Rightarrow> ('k \<times> 'v) list"
  om_get_by_index :: "'m \<Rightarrow> int \<Rightarrow> ('k \<times> 'v) option"

text \<open>The instances that satisfy the contracts: finite maps iterated in key order, and
  association lists with distinct keys that keep the insertion order.\<close>

definition fmap_sorted_ops :: "('k::linorder, 'v, ('k, 'v) fmap) sorted_map_ops" where
  "fmap_sorted_ops =
     \<lparr>sm_new = fmempty, sm_get = fmlookup, sm_insert = (\<lambda>m k v. fmupd k v m),
      sm_iter = sorted_list_of_fmap, sm_rev_iter = (\<lambda>m. rev (sorted_list_of_fmap m))\<rparr>"

definition alist_ordered_ops :: "('k, 'v, ('k, 'v) alist) ordered_map_ops" where
  "alist_ordered_ops =
     \<lparr>om_new = DAList.empty, om_get = DAList.lookup, om_set = (\<lambda>m k v. DAList.update k v m),
      om_entries = DAList.impl_of,
      om_get_by_index = (\<lambda>m i. if 0 \<le> i \<and> i < int (length (DAList.impl_of m))
         then Some (DAList.impl_of m ! nat i) else None)\<rparr>"

locale sorted_map =
  fixes M :: "('k::linorder, 'v, 'm) sorted_map_ops"
  assumes get_new: "sm_get M (sm_new M) k = None"
    and get_insert: "sm_get M (sm_insert M m k v) k' = (if k' = k then Some v else sm_get M m k')"
    and iter_get: "map_of (sm_iter M m) k = sm_get M m k"
    and iter_sorted: "sorted_wrt (<) (map fst (sm_iter M m))"
    and rev_iter: "sm_rev_iter M m = rev (sm_iter M m)"
begin

lemma iter_distinct: "distinct (map fst (sm_iter M m))"
  using iter_sorted by (simp add: strict_sorted_iff)

lemma iter_mem: "(k, v) \<in> set (sm_iter M m) \<longleftrightarrow> sm_get M m k = Some v"
  using iter_get [of m k] iter_distinct [of m] by (metis map_of_eq_Some_iff)

end

locale ordered_map =
  fixes M :: "('k, 'v, 'm) ordered_map_ops"
  assumes om_get_new: "om_get M (om_new M) k = None"
    and om_get_set: "om_get M (om_set M m k v) k' = (if k' = k then Some v else om_get M m k')"
    and om_entries_get: "map_of (om_entries M m) k = om_get M m k"
    and om_entries_distinct: "distinct (map fst (om_entries M m))"
    and om_entries_append: "om_get M m k = None \<Longrightarrow>
      om_entries M (om_set M m k v) = om_entries M m @ [(k, v)]"
    and om_keys_replace: "om_get M m k \<noteq> None \<Longrightarrow>
      map fst (om_entries M (om_set M m k v)) = map fst (om_entries M m)"
    and om_index: "om_get_by_index M m i =
      (if 0 \<le> i \<and> i < int (length (om_entries M m)) then Some (om_entries M m ! nat i) else None)"
begin

lemma om_entries_mem: "(k, v) \<in> set (om_entries M m) \<longleftrightarrow> om_get M m k = Some v"
  using om_entries_get [of m k] om_entries_distinct [of m] by (metis map_of_eq_Some_iff)

lemma om_index_mem: "om_get_by_index M m i = Some (k, v) \<Longrightarrow> om_get M m k = Some v"
  by (auto simp: om_index om_entries_mem [symmetric] split: if_splits)
     (metis nat_less_iff nth_mem)

end

section \<open>The contracts can be met\<close>

interpretation fmap_sorted: sorted_map "fmap_sorted_ops :: ('k::linorder, 'v, ('k, 'v) fmap) sorted_map_ops"
proof unfold_locales
  fix m :: "('k, 'v) fmap" and k
  show "map_of (sm_iter fmap_sorted_ops m) k = sm_get fmap_sorted_ops m k"
    by (simp add: fmap_sorted_ops_def)
qed (auto simp: fmap_sorted_ops_def sorted_list_of_fmap_def comp_def sorted_list_of_fset.rep_eq)

lemma alist_update_new: "map_of al k = None \<Longrightarrow> AList.update k v al = al @ [(k, v)]"
  by (induction al) (auto split: if_splits)

interpretation alist_ordered: ordered_map "alist_ordered_ops :: ('k, 'v, ('k, 'v) alist) ordered_map_ops"
  apply unfold_locales
  subgoal by (simp add: alist_ordered_ops_def)
  subgoal by (simp add: alist_ordered_ops_def)
  subgoal by (simp add: alist_ordered_ops_def lookup.rep_eq)
  subgoal by (simp add: alist_ordered_ops_def)
  subgoal by (simp add: alist_ordered_ops_def update.rep_eq lookup.rep_eq alist_update_new)
  subgoal by (auto simp: alist_ordered_ops_def update.rep_eq lookup.rep_eq AList.update_keys
      map_of_eq_None_iff)
  subgoal by (simp add: alist_ordered_ops_def)
  done

end
