(* ===== verification/Votes.thy ===== *)
theory Votes
  imports Butils "HOL-Library.Product_Lexorder"
begin

text \<open>
  \<open>pkg/types/vote.go\<close> and \<open>pkg/types/round_data.go\<close>: the states a vote can be in and
  \<open>RoundDataMap\<close>, the two-level sorted map from height and round to what is known about one
  consensus round. CometBFT's \<open>BlockID\<close> is a record of the fields the source reads; its method
  \<open>IsZero\<close> and the containers are parameters (\<open>round_env\<close>). A pointer into the maps that the
  code mutates is modelled by writing the changed value back under its keys. The abstract
  specification of the component is a pair of functions on slots: \<open>vote_at\<close> (height, round,
  validator, vote type to block ID) and \<open>proposers_at\<close>; \<open>vote_store\<close> is the contract the rest
  of the program relies on.
\<close>

section \<open>Data\<close>

record PartSetHeader =
  psh_Total :: int
  psh_Hash :: bytes

record BlockID =
  bid_Hash :: bytes
  bid_PartSetHeader :: PartSetHeader

definition zero_BlockID :: BlockID where
  "zero_BlockID = \<lparr>bid_Hash = [], bid_PartSetHeader = \<lparr>psh_Total = 0, psh_Hash = []\<rparr>\<rparr>"

text \<open>\<open>cptypes.SignedMsgType\<close> is an \<open>int32\<close> enumeration of CometBFT; the program uses two of
  its values.\<close>

type_synonym SignedMsgType = int

definition PrevoteType :: SignedMsgType where
  "PrevoteType = 1"

definition PrecommitType :: SignedMsgType where
  "PrecommitType = 2"

datatype VoteState = VoteStateNone | VoteStateNil | VoteStateForBlock

record RoundData =
  Proposers :: "address set"
  Votes :: "address \<rightharpoonup> (SignedMsgType \<rightharpoonup> BlockID)"

record HeightAndRound =
  hr_Height :: int
  hr_Round :: int

text \<open>What the component takes from outside the repository.\<close>

record ('h, 'r) round_env =
  heights_ops :: "(int, 'r, 'h) sorted_map_ops"
  rounds_ops :: "(int, RoundData, 'r) sorted_map_ops"
  is_zero :: "BlockID \<Rightarrow> bool"

section \<open>Operations of vote.go\<close>

definition VoteStateFromCometBFT :: "('h, 'r) round_env \<Rightarrow> bool \<Rightarrow> BlockID \<Rightarrow> VoteState" where
  "VoteStateFromCometBFT B voteExists blockID =
     (if \<not> voteExists then VoteStateNone
      else if is_zero B blockID then VoteStateNil
      else VoteStateForBlock)"

text \<open>A missing key of a Go map reads as the zero value together with \<open>exists = false\<close>.\<close>

definition VoteStateFromVotesMap ::
    "('h, 'r) round_env \<Rightarrow> (SignedMsgType \<rightharpoonup> BlockID) \<Rightarrow> SignedMsgType \<Rightarrow> VoteState" where
  "VoteStateFromVotesMap B votesMap msgType =
     (case votesMap msgType of
        None \<Rightarrow> VoteStateFromCometBFT B False zero_BlockID
      | Some blockID \<Rightarrow> VoteStateFromCometBFT B True blockID)"

fun VoteState_Serialize :: "VoteState \<Rightarrow> bool \<Rightarrow> string" where
  "VoteState_Serialize v disableEmojis =
     (if disableEmojis then
        (case v of VoteStateForBlock \<Rightarrow> ''[X[]'' | VoteStateNil \<Rightarrow> ''[0[]'' | VoteStateNone \<Rightarrow> ''[ []'')
      else
        (case v of
           VoteStateForBlock \<Rightarrow> utf8 [226, 156, 133]
         | VoteStateNil \<Rightarrow> utf8 [240, 159, 164, 183]
         | VoteStateNone \<Rightarrow> utf8 [226, 157, 140]))"

section \<open>Operations of round\_data.go\<close>

definition NewRoundDataMap :: "('h, 'r) round_env \<Rightarrow> 'h" where
  "NewRoundDataMap B = sm_new (heights_ops B)"

definition copyBlockID :: "BlockID \<Rightarrow> BlockID" where
  "copyBlockID b =
     b\<lparr>bid_Hash := [] @ bid_Hash b,
       bid_PartSetHeader := (bid_PartSetHeader b)\<lparr>psh_Hash := [] @ psh_Hash (bid_PartSetHeader b)\<rparr>\<rparr>"

definition copyRoundData :: "RoundData \<Rightarrow> RoundData" where
  "copyRoundData rd =
     \<lparr>Proposers = Proposers rd,
      Votes = (\<lambda>validator. map_option (\<lambda>votesMap msgType. map_option copyBlockID (votesMap msgType))
                 (Votes rd validator))\<rparr>"

text \<open>The sequence of pairs an iterator yields to a consumer that never stops early.\<close>

definition Iter :: "('h, 'r) round_env \<Rightarrow> 'h \<Rightarrow> (HeightAndRound \<times> RoundData) list" where
  "Iter B v =
     concat (map (\<lambda>(height, heightMap).
       map (\<lambda>(rnd, roundData). (\<lparr>hr_Height = height, hr_Round = rnd\<rparr>, copyRoundData roundData))
         (sm_iter (rounds_ops B) heightMap))
       (sm_iter (heights_ops B) v))"

definition ReverseIter :: "('h, 'r) round_env \<Rightarrow> 'h \<Rightarrow> (HeightAndRound \<times> RoundData) list" where
  "ReverseIter B v =
     concat (map (\<lambda>(height, heightMap).
       map (\<lambda>(rnd, roundData). (\<lparr>hr_Height = height, hr_Round = rnd\<rparr>, copyRoundData roundData))
         (sm_rev_iter (rounds_ops B) heightMap))
       (sm_rev_iter (heights_ops B) v))"

text \<open>A range loop over the iterator that leaves at the first pair for which \<open>yield\<close> is false
  sees this prefix.\<close>

fun yielded :: "('a \<Rightarrow> bool) \<Rightarrow> 'a list \<Rightarrow> 'a list" where
  "yielded yield [] = []"
| "yielded yield (x # xs) = (if yield x then x # yielded yield xs else [x])"

definition new_RoundData :: RoundData where
  "new_RoundData = \<lparr>Proposers = {}, Votes = Map.empty\<rparr>"

text \<open>The map with the round present, the inner map of the height, and the round's data.\<close>

definition upsertRoundData :: "('h, 'r) round_env \<Rightarrow> 'h \<Rightarrow> int \<Rightarrow> int \<Rightarrow> 'h \<times> 'r \<times> RoundData" where
  "upsertRoundData B v height rnd =
     (let H = heights_ops B; R = rounds_ops B;
          (v, roundMap) = (case sm_get H v height of
             Some roundMap \<Rightarrow> (v, roundMap)
           | None \<Rightarrow> (let roundMap = sm_new R in (sm_insert H v height roundMap, roundMap)))
      in case sm_get R roundMap rnd of
           Some roundData \<Rightarrow> (v, roundMap, roundData)
         | None \<Rightarrow>
             (let roundMap = sm_insert R roundMap rnd new_RoundData
              in (sm_insert H v height roundMap, roundMap, new_RoundData)))"

text \<open>Mutation through the pointer \<open>upsertRoundData\<close> returned.\<close>

definition write_round :: "('h, 'r) round_env \<Rightarrow> 'h \<Rightarrow> 'r \<Rightarrow> int \<Rightarrow> int \<Rightarrow> RoundData \<Rightarrow> 'h" where
  "write_round B v roundMap height rnd roundData =
     sm_insert (heights_ops B) v height (sm_insert (rounds_ops B) roundMap rnd roundData)"

definition AddProposer :: "('h, 'r) round_env \<Rightarrow> 'h \<Rightarrow> int \<Rightarrow> int \<Rightarrow> address \<Rightarrow> 'h" where
  "AddProposer B v height rnd proposer =
     (let (v, roundMap, roundData) = upsertRoundData B v height rnd
      in write_round B v roundMap height rnd
           (roundData\<lparr>Proposers := insert proposer (Proposers roundData)\<rparr>))"

text \<open>The result is \<open>None\<close> where the code returns the \<open>nil\<close> set.\<close>

definition GetProposers :: "('h, 'r) round_env \<Rightarrow> 'h \<Rightarrow> int \<Rightarrow> int \<Rightarrow> address set option" where
  "GetProposers B v height rnd =
     (case sm_get (heights_ops B) v height of
        None \<Rightarrow> None
      | Some roundMap \<Rightarrow>
          (case sm_get (rounds_ops B) roundMap rnd of
             None \<Rightarrow> None
           | Some roundData \<Rightarrow> Some (Proposers roundData)))"

definition AddVote ::
    "('h, 'r) round_env \<Rightarrow> 'h \<Rightarrow> int \<Rightarrow> int \<Rightarrow> address \<Rightarrow> SignedMsgType \<Rightarrow> BlockID \<Rightarrow> 'h" where
  "AddVote B v height rnd validator msgType blockID =
     (let (v, roundMap, roundData) = upsertRoundData B v height rnd;
          votesMap = (case Votes roundData validator of None \<Rightarrow> Map.empty | Some votesMap \<Rightarrow> votesMap)
      in write_round B v roundMap height rnd
           (roundData\<lparr>Votes := (Votes roundData)(validator \<mapsto> votesMap(msgType \<mapsto> blockID))\<rparr>))"

definition GetVote ::
    "('h, 'r) round_env \<Rightarrow> 'h \<Rightarrow> int \<Rightarrow> int \<Rightarrow> address \<Rightarrow> SignedMsgType \<Rightarrow> VoteState" where
  "GetVote B v height rnd validator msgType =
     (case sm_get (heights_ops B) v height of
        None \<Rightarrow> VoteStateNone
      | Some roundMap \<Rightarrow>
          (case sm_get (rounds_ops B) roundMap rnd of
             None \<Rightarrow> VoteStateNone
           | Some roundData \<Rightarrow>
               (case Votes roundData validator of
                  None \<Rightarrow> VoteStateNone
                | Some votesMap \<Rightarrow>
                    (case votesMap msgType of
                       None \<Rightarrow> VoteStateNone
                     | Some blockID \<Rightarrow>
                         (if is_zero B blockID then VoteStateNil else VoteStateForBlock)))))"

section \<open>Abstract specification\<close>

definition round_at :: "('h, 'r) round_env \<Rightarrow> 'h \<Rightarrow> int \<Rightarrow> int \<Rightarrow> RoundData option" where
  "round_at B v height rnd =
     Option.bind (sm_get (heights_ops B) v height) (\<lambda>roundMap. sm_get (rounds_ops B) roundMap rnd)"

definition vote_at ::
    "('h, 'r) round_env \<Rightarrow> 'h \<Rightarrow> int \<times> int \<times> address \<times> SignedMsgType \<rightharpoonup> BlockID" where
  "vote_at B v =
     (\<lambda>(height, rnd, validator, msgType).
        Option.bind (round_at B v height rnd)
          (\<lambda>roundData. Option.bind (Votes roundData validator) (\<lambda>votesMap. votesMap msgType)))"

definition classify :: "(BlockID \<Rightarrow> bool) \<Rightarrow> BlockID option \<Rightarrow> VoteState" where
  "classify zero ob =
     (case ob of None \<Rightarrow> VoteStateNone | Some b \<Rightarrow> if zero b then VoteStateNil else VoteStateForBlock)"

locale vote_store =
  fixes add_vote :: "'s \<Rightarrow> int \<Rightarrow> int \<Rightarrow> address \<Rightarrow> SignedMsgType \<Rightarrow> BlockID \<Rightarrow> 's"
    and add_proposer :: "'s \<Rightarrow> int \<Rightarrow> int \<Rightarrow> address \<Rightarrow> 's"
    and get_vote :: "'s \<Rightarrow> int \<Rightarrow> int \<Rightarrow> address \<Rightarrow> SignedMsgType \<Rightarrow> VoteState"
    and get_proposers :: "'s \<Rightarrow> int \<Rightarrow> int \<Rightarrow> address set option"
    and votes :: "'s \<Rightarrow> int \<times> int \<times> address \<times> SignedMsgType \<rightharpoonup> BlockID"
    and zero :: "BlockID \<Rightarrow> bool"
  assumes votes_add_vote: "votes (add_vote s h r a t b) = (votes s)((h, r, a, t) \<mapsto> b)"
    and votes_add_proposer: "votes (add_proposer s h r p) = votes s"
    and get_vote_votes: "get_vote s h r a t = classify zero (votes s (h, r, a, t))"
    and proposers_add_proposer: "get_proposers (add_proposer s h r p) h' r' =
      (if h' = h \<and> r' = r
       then Some (insert p (case get_proposers s h r of None \<Rightarrow> {} | Some P \<Rightarrow> P))
       else get_proposers s h' r')"
    and proposers_add_vote: "get_proposers (add_vote s h r a t b) h' r' =
      (if h' = h \<and> r' = r
       then Some (case get_proposers s h r of None \<Rightarrow> {} | Some P \<Rightarrow> P)
       else get_proposers s h' r')"
begin

lemma get_add_vote:
  "get_vote (add_vote s h r a t b) h' r' a' t' =
     (if (h', r', a', t') = (h, r, a, t) then (if zero b then VoteStateNil else VoteStateForBlock)
      else get_vote s h' r' a' t')"
  by (auto simp: get_vote_votes votes_add_vote classify_def)

lemma get_add_proposer: "get_vote (add_proposer s h r p) h' r' a' t' = get_vote s h' r' a' t'"
  by (simp add: get_vote_votes votes_add_proposer)

text \<open>Votes for different slots commute.\<close>

lemma add_vote_commute:
  "(h, r, a, t) \<noteq> (h', r', a', t') \<Longrightarrow>
   votes (add_vote (add_vote s h r a t b) h' r' a' t' b') =
   votes (add_vote (add_vote s h' r' a' t' b') h r a t b)"
  by (auto simp: votes_add_vote fun_upd_twist)

end

locale lawful_rounds =
  H: sorted_map "heights_ops B" + R: sorted_map "rounds_ops B" for B :: "('h, 'r) round_env"
begin

lemma round_at_write:
  "round_at B (write_round B v rm h r rd) h' r' =
     (if h' = h then (if r' = r then Some rd else sm_get (rounds_ops B) rm r') else round_at B v h' r')"
  by (simp add: round_at_def write_round_def H.get_insert R.get_insert)

lemma upsert_spec:
  assumes "upsertRoundData B v h r = (v', rm, rd)"
  shows "rd = (case round_at B v h r of None \<Rightarrow> new_RoundData | Some rd \<Rightarrow> rd)"
    and "h' \<noteq> h \<Longrightarrow> round_at B v' h' r' = round_at B v h' r'"
    and "r' \<noteq> r \<Longrightarrow> sm_get (rounds_ops B) rm r' = round_at B v h r'"
  using assms
  by (auto simp: upsertRoundData_def round_at_def H.get_insert R.get_insert R.get_new Let_def
      split: option.splits prod.splits if_splits)

lemma round_at_AddVote:
  "round_at B (AddVote B v h r a t b) h' r' =
     (if h' = h \<and> r' = r then
        (let rd = (case round_at B v h r of None \<Rightarrow> new_RoundData | Some rd \<Rightarrow> rd);
             vm = (case Votes rd a of None \<Rightarrow> Map.empty | Some vm \<Rightarrow> vm)
         in Some (rd\<lparr>Votes := (Votes rd)(a \<mapsto> vm(t \<mapsto> b))\<rparr>))
      else round_at B v h' r')"
proof -
  obtain v' rm rd where u: "upsertRoundData B v h r = (v', rm, rd)" by (metis prod_cases3)
  note spec = upsert_spec [OF u]
  show ?thesis
    by (simp add: AddVote_def u round_at_write spec(1) spec(2) [of h'] spec(3) [of r'] Let_def)
qed

lemma round_at_AddProposer:
  "round_at B (AddProposer B v h r p) h' r' =
     (if h' = h \<and> r' = r then
        (let rd = (case round_at B v h r of None \<Rightarrow> new_RoundData | Some rd \<Rightarrow> rd)
         in Some (rd\<lparr>Proposers := insert p (Proposers rd)\<rparr>))
      else round_at B v h' r')"
proof -
  obtain v' rm rd where u: "upsertRoundData B v h r = (v', rm, rd)" by (metis prod_cases3)
  note spec = upsert_spec [OF u]
  show ?thesis
    by (simp add: AddProposer_def u round_at_write spec(1) spec(2) [of h'] spec(3) [of r'] Let_def)
qed

lemma GetVote_classify: "GetVote B v h r a t = classify (is_zero B) (vote_at B v (h, r, a, t))"
  by (simp add: GetVote_def classify_def vote_at_def round_at_def split: option.split)

lemma GetProposers_round_at: "GetProposers B v h r = map_option Proposers (round_at B v h r)"
  by (simp add: GetProposers_def round_at_def split: option.split)

lemma round_at_new: "round_at B (NewRoundDataMap B) h r = None"
  by (simp add: round_at_def NewRoundDataMap_def H.get_new)

lemma copyRoundData_id: "copyRoundData rd = rd"
proof -
  have b: "map_option copyBlockID x = x" for x
    by (cases x) (simp_all add: copyBlockID_def)
  have "map_option (\<lambda>votesMap msgType. map_option copyBlockID (votesMap msgType)) y = y"
    for y :: "(SignedMsgType \<rightharpoonup> BlockID) option"
    by (cases y) (simp_all add: b)
  then show ?thesis by (simp add: copyRoundData_def)
qed

text \<open>Iteration visits the keys in ascending order, each once.\<close>

lemma Iter_keys:
  "map (\<lambda>(hr, _). (hr_Height hr, hr_Round hr)) (Iter B v) =
     concat (map (\<lambda>(h, rm). map (\<lambda>r. (h, r)) (map fst (sm_iter (rounds_ops B) rm)))
       (sm_iter (heights_ops B) v))"
  by (simp add: Iter_def map_concat comp_def case_prod_unfold)

lemma sorted_pairs:
  "sorted_wrt (<) (map fst xs) \<Longrightarrow> (\<And>h rm. (h, rm) \<in> set xs \<Longrightarrow> sorted_wrt (<) (f rm)) \<Longrightarrow>
   sorted_wrt (<) (concat (map (\<lambda>(h, rm). map (\<lambda>r. (h :: int, r :: int)) (f rm)) xs))"
  by (induction xs) (fastforce simp: sorted_wrt_append sorted_wrt_map)+

lemma Iter_sorted: "sorted_wrt (<) (map (\<lambda>(hr, _). (hr_Height hr, hr_Round hr)) (Iter B v))"
  unfolding Iter_keys by (intro sorted_pairs H.iter_sorted R.iter_sorted)

lemma ReverseIter_rev: "ReverseIter B v = rev (Iter B v)"
  by (simp add: ReverseIter_def Iter_def H.rev_iter R.rev_iter rev_concat rev_map comp_def
      case_prod_unfold)

lemma Iter_mem:
  "(hr, rd) \<in> set (Iter B v) \<longleftrightarrow> round_at B v (hr_Height hr) (hr_Round hr) = Some rd"
  by (cases hr) (force simp: Iter_def round_at_def copyRoundData_id H.iter_mem R.iter_mem
      bind_eq_Some_conv)

end

sublocale lawful_rounds \<subseteq> store: vote_store
  "AddVote B" "AddProposer B" "GetVote B" "GetProposers B" "vote_at B" "is_zero B"
proof unfold_locales
  fix v h r a t b
  show "vote_at B (AddVote B v h r a t b) = (vote_at B v)((h, r, a, t) \<mapsto> b)"
    by (auto simp: vote_at_def fun_eq_iff round_at_AddVote Let_def new_RoundData_def
        split: option.splits)
next
  fix v h r p
  show "vote_at B (AddProposer B v h r p) = vote_at B v"
    by (auto simp: vote_at_def fun_eq_iff round_at_AddProposer Let_def new_RoundData_def
        split: option.splits)
next
  fix v h r a t
  show "GetVote B v h r a t = classify (is_zero B) (vote_at B v (h, r, a, t))"
    by (rule GetVote_classify)
qed (auto simp: GetProposers_round_at round_at_AddProposer round_at_AddVote new_RoundData_def Let_def
      split: option.splits)

context lawful_rounds
begin

lemma contract:
  "vote_store (AddVote B) (AddProposer B) (GetVote B) (GetProposers B) (vote_at B) (is_zero B)"
  by unfold_locales

end

text \<open>The instance used by the witnesses: finite maps, and CometBFT's documented \<open>IsZero\<close>
  (an empty hash and a zero part set header).\<close>

definition fmap_env :: "((int, (int, RoundData) fmap) fmap, (int, RoundData) fmap) round_env" where
  "fmap_env = \<lparr>heights_ops = fmap_sorted_ops, rounds_ops = fmap_sorted_ops,
     is_zero = (\<lambda>b. bid_Hash b = [] \<and> psh_Total (bid_PartSetHeader b) = 0
       \<and> psh_Hash (bid_PartSetHeader b) = [])\<rparr>"

interpretation fmap_rounds: lawful_rounds fmap_env
  by (simp add: lawful_rounds_def fmap_env_def fmap_sorted.sorted_map_axioms)

section \<open>Properties\<close>

text \<open>After \<open>AddVote\<close>, \<open>GetVote\<close> on the same height, round, validator and vote type reports
  the new vote (nil when the block ID is zero, for-block otherwise), and every other slot reads as
  before: the last vote of a slot wins and no other slot is disturbed.\<close>

theorem GetVote_AddVote:
  assumes "lawful_rounds B"
  shows "GetVote B (AddVote B v h r a t b) h' r' a' t' =
    (if (h', r', a', t') = (h, r, a, t)
     then (if is_zero B b then VoteStateNil else VoteStateForBlock)
     else GetVote B v h' r' a' t')"
  by (rule vote_store.get_add_vote [OF lawful_rounds.contract [OF assms]])

theorem GetVote_AddVote_witness:
  "GetVote fmap_env (AddVote fmap_env (NewRoundDataMap fmap_env) 7 0 ''A'' PrevoteType zero_BlockID)
     7 0 ''A'' PrevoteType = VoteStateNil"
  by (subst GetVote_AddVote [OF fmap_rounds.lawful_rounds_axioms])
     (simp add: fmap_env_def zero_BlockID_def)

text \<open>C1: \<open>RoundDataMap\<close> refines the finite map from (height, round, validator, vote type) to
  block IDs: \<open>AddVote\<close> is a map update, \<open>AddProposer\<close> leaves the votes alone, \<open>GetVote\<close> is the
  classified lookup, and a new map is empty.\<close>

theorem RoundDataMap_refines:
  assumes "lawful_rounds B"
  shows "vote_at B (AddVote B v h r a t b) = (vote_at B v)((h, r, a, t) \<mapsto> b)
    \<and> vote_at B (AddProposer B v h r p) = vote_at B v
    \<and> GetVote B v h r a t = classify (is_zero B) (vote_at B v (h, r, a, t))
    \<and> vote_at B (NewRoundDataMap B) = Map.empty"
  using vote_store.votes_add_vote [OF lawful_rounds.contract [OF assms]] vote_store.votes_add_proposer [OF lawful_rounds.contract [OF assms]]
    lawful_rounds.GetVote_classify [OF assms] lawful_rounds.round_at_new [OF assms]
  by (auto simp: vote_at_def fun_eq_iff)

theorem RoundDataMap_refines_witness:
  "vote_at fmap_env (AddVote fmap_env (NewRoundDataMap fmap_env) 7 0 ''A'' PrevoteType zero_BlockID)
     (7, 0, ''A'', PrevoteType) = Some zero_BlockID"
  by (simp add: RoundDataMap_refines [OF fmap_rounds.lawful_rounds_axioms])

text \<open>The proposers of a round are exactly the addresses added to it; a round that only ever
  received votes has the empty set of proposers, and a round never touched has none (the code's
  \<open>nil\<close>).\<close>

theorem GetProposers_spec:
  assumes "lawful_rounds B"
  shows "GetProposers B (AddProposer B v h r p) h' r' =
      (if h' = h \<and> r' = r
       then Some (insert p (case GetProposers B v h r of None \<Rightarrow> {} | Some P \<Rightarrow> P))
       else GetProposers B v h' r')
    \<and> GetProposers B (AddVote B v h r a t b) h' r' =
      (if h' = h \<and> r' = r then Some (case GetProposers B v h r of None \<Rightarrow> {} | Some P \<Rightarrow> P)
       else GetProposers B v h' r')
    \<and> GetProposers B (NewRoundDataMap B) h' r' = None"
  using vote_store.proposers_add_proposer [OF lawful_rounds.contract [OF assms]]
    vote_store.proposers_add_vote [OF lawful_rounds.contract [OF assms]]
    lawful_rounds.GetProposers_round_at [OF assms] lawful_rounds.round_at_new [OF assms]
  by simp

theorem GetProposers_spec_witness:
  "GetProposers fmap_env (AddProposer fmap_env (NewRoundDataMap fmap_env) 7 0 ''A'') 7 0 = Some {''A''}"
  by (simp add: GetProposers_spec [OF fmap_rounds.lawful_rounds_axioms])

text \<open>\<open>Iter\<close> yields every stored round exactly once, in strictly ascending (height, round)
  order, with the data stored for it; \<open>ReverseIter\<close> yields the same sequence backwards.\<close>

theorem Iter_spec:
  assumes "lawful_rounds B"
  shows "sorted_wrt (<) (map (\<lambda>(hr, _). (hr_Height hr, hr_Round hr)) (Iter B v))
    \<and> ((hr, rd) \<in> set (Iter B v) \<longleftrightarrow> round_at B v (hr_Height hr) (hr_Round hr) = Some rd)
    \<and> ReverseIter B v = rev (Iter B v)"
  using lawful_rounds.Iter_sorted [OF assms] lawful_rounds.Iter_mem [OF assms]
    lawful_rounds.ReverseIter_rev [OF assms] by simp

theorem Iter_spec_witness:
  "(\<lparr>hr_Height = 7, hr_Round = 0\<rparr>, new_RoundData\<lparr>Proposers := {''A''}\<rparr>)
     \<in> set (Iter fmap_env (AddProposer fmap_env (NewRoundDataMap fmap_env) 7 0 ''A''))"
  using Iter_spec [OF fmap_rounds.lawful_rounds_axioms]
  by (simp add: fmap_rounds.round_at_AddProposer fmap_rounds.round_at_new
      new_RoundData_def)

end
