(* ===== verification/GoFloat.thy ===== *)
theory GoFloat
  imports Prelude Complex_Main "HOL-Library.Log_Nat"
begin

text \<open>
  Go's \<open>float64\<close> and 53-bit \<open>big.Float\<close> arithmetic. A finite float is the rational number
  it denotes; every operation is the exact rational operation followed by \<open>fl\<close>, rounding to
  a 53-bit significand, ties to even. The exponent is unbounded: the quantities the program
  computes (voting powers, percentages, nanoseconds and their squares) stay far inside the
  normal range of \<open>float64\<close>, so neither overflow nor subnormals occur. \<open>fexp\<close> is the binary
  exponent, \<open>rne\<close> rounds a rational to the nearest integer with ties to even. The lemmas show
  that \<open>fl\<close> is monotone, odd, exact on integers up to \<open>2 ^ 53\<close>, and has relative error at most
  \<open>2 ^ - 53\<close>. Printing with a fixed number of decimals (\<open>fmt_fixed\<close>) rounds the exact value,
  ties to even, as \<open>strconv\<close> does.
\<close>

section \<open>Definitions\<close>

definition rne :: "rat \<Rightarrow> int" where
  "rne x =
     (let f = \<lfloor>x\<rfloor>; d = x - of_int f
      in if d < 1 / 2 then f else if 1 / 2 < d then f + 1 else if even f then f else f + 1)"

definition fexp :: "rat \<Rightarrow> int" where
  "fexp q =
     (let nd = quotient_of q;
          e = int (floorlog 2 (nat (fst nd))) - int (floorlog 2 (nat (snd nd)))
      in if power_int 2 e \<le> q then e else e - 1)"

definition flpos :: "rat \<Rightarrow> rat" where
  "flpos q = (let u = fexp q - 52 in of_int (rne (q / power_int 2 u)) * power_int 2 u)"

definition fl :: "rat \<Rightarrow> rat" where
  "fl q = (if q = 0 then 0 else if 0 < q then flpos q else - flpos (- q))"

definition float_of_int :: "int \<Rightarrow> rat" where
  "float_of_int i = fl (of_int i)"

definition fadd :: "rat \<Rightarrow> rat \<Rightarrow> rat" where
  "fadd x y = fl (x + y)"

definition fsub :: "rat \<Rightarrow> rat \<Rightarrow> rat" where
  "fsub x y = fl (x - y)"

definition fmul :: "rat \<Rightarrow> rat \<Rightarrow> rat" where
  "fmul x y = fl (x * y)"

definition fdiv :: "rat \<Rightarrow> rat \<Rightarrow> rat" where
  "fdiv x y = fl (x / y)"

text \<open>Conversion of a float to an integer type truncates towards zero.\<close>

definition ftrunc :: "rat \<Rightarrow> int" where
  "ftrunc q = (if 0 \<le> q then \<lfloor>q\<rfloor> else - \<lfloor>- q\<rfloor>)"

text \<open>\<open>time.Duration.Seconds\<close>: whole seconds plus the remaining nanoseconds over \<open>1e9\<close>.\<close>

definition duration_seconds :: "duration \<Rightarrow> rat" where
  "duration_seconds d =
     (let s = go_div d Second; ns = d - s * Second
      in fadd (float_of_int s) (fdiv (float_of_int ns) (float_of_int Second)))"

text \<open>\<open>%.nf\<close>: sign, integer part, point, exactly \<open>n\<close> digits.\<close>

definition pad_zeros :: "nat \<Rightarrow> string \<Rightarrow> string" where
  "pad_zeros n s = replicate (n - length s) CHR ''0'' @ s"

definition fmt_fixed :: "nat \<Rightarrow> rat \<Rightarrow> string" where
  "fmt_fixed n q =
     (let m = nat (rne (\<bar>q\<bar> * 10 ^ n));
          ip = digits (m div 10 ^ n);
          fp = pad_zeros n (digits (m mod 10 ^ n))
      in (if q < 0 then ''-'' else '''') @ ip @ (if n = 0 then '''' else ''.'' @ fp))"

section \<open>Lemmas\<close>

subsection \<open>Rounding to an integer\<close>

lemma rne_bounds: "\<lfloor>x\<rfloor> \<le> rne x" "rne x \<le> \<lfloor>x\<rfloor> + 1"
  by (simp_all add: rne_def Let_def)

lemma rne_of_int [simp]: "rne (of_int i) = i"
  by (simp add: rne_def)

lemma rne_mono: "x \<le> y \<Longrightarrow> rne x \<le> rne y"
proof -
  assume xy: "x \<le> y"
  then have le: "\<lfloor>x\<rfloor> \<le> \<lfloor>y\<rfloor>" by (rule floor_mono)
  show ?thesis
  proof (cases "\<lfloor>x\<rfloor> = \<lfloor>y\<rfloor>")
    case True
    with xy show ?thesis by (auto simp: rne_def Let_def)
  next
    case False
    with le have "\<lfloor>x\<rfloor> + 1 \<le> \<lfloor>y\<rfloor>" by simp
    then show ?thesis using rne_bounds(2) [of x] rne_bounds(1) [of y] by linarith
  qed
qed

lemma rne_error: "\<bar>of_int (rne x) - x\<bar> \<le> 1 / 2"
proof -
  have "x - of_int \<lfloor>x\<rfloor> < 1" and "0 \<le> x - of_int \<lfloor>x\<rfloor>" by linarith+
  then show ?thesis by (auto simp: rne_def Let_def)
qed

lemma rne_int_bounds: "of_int i \<le> x \<Longrightarrow> i \<le> rne x" "x \<le> of_int i \<Longrightarrow> rne x \<le> i"
  by (metis rne_mono rne_of_int)+

subsection \<open>The exponent\<close>

lemma floorlog2_bounds:
  "0 < n \<Longrightarrow> (2::rat) ^ (floorlog 2 n - 1) \<le> of_nat n \<and> of_nat n < (2::rat) ^ floorlog 2 n"
proof -
  assume "0 < n"
  then have b: "2 ^ (floorlog 2 n - 1) \<le> n" "n < 2 ^ floorlog 2 n"
    using floorlog_bounds [of n 2] by simp_all
  have "of_nat (2 ^ (floorlog 2 n - 1)) \<le> (of_nat n :: rat)" using b(1) by (rule of_nat_mono)
  moreover have "(of_nat n :: rat) < of_nat (2 ^ floorlog 2 n)" using b(2) by (rule of_nat_less_iff [THEN iffD2])
  ultimately show ?thesis by simp
qed

lemma pow2_pos [simp]: "0 < power_int (2::rat) k"
  by (simp add: zero_less_power_int)

lemma pow2_not_neg [simp]: "\<not> power_int (2::rat) k < 0"
  using pow2_pos [of k] by linarith

lemma fexp_bounds:
  assumes "0 < q"
  shows "power_int 2 (fexp q) \<le> q \<and> q < power_int 2 (fexp q + 1)"
proof -
  obtain n d where nd: "quotient_of q = (n, d)" by fastforce
  have d: "0 < d" using nd by (rule quotient_of_denom_pos)
  have q: "q = of_int n / of_int d" using nd by (rule quotient_of_div)
  with assms d have n: "0 < n" by (simp add: zero_less_divide_iff)
  let ?a = "floorlog 2 (nat n)" and ?b = "floorlog 2 (nat d)"
  have a: "(2::rat) ^ (?a - 1) \<le> of_int n" "of_int n < (2::rat) ^ ?a"
    using floorlog2_bounds [of "nat n"] n by simp_all
  have b: "(2::rat) ^ (?b - 1) \<le> of_int d" "of_int d < (2::rat) ^ ?b"
    using floorlog2_bounds [of "nat d"] d by simp_all
  have pos: "0 < ?a" "0 < ?b" using n d by (simp_all add: floorlog_def)
  let ?e = "int ?a - int ?b"
  have hi: "q < power_int 2 (?e + 1)"
  proof -
    have "q < 2 ^ ?a / of_int d" unfolding q using a(2) d by (simp add: divide_strict_right_mono)
    also have "\<dots> \<le> 2 ^ ?a / 2 ^ (?b - 1)" using b(1) d by (intro divide_left_mono mult_pos_pos) auto
    also have "\<dots> = power_int 2 (int ?a - int (?b - 1))"
      by (simp add: power_int_diff power_int_of_nat)
    also have "int ?a - int (?b - 1) = ?e + 1" using pos by simp
    finally show ?thesis .
  qed
  have lo: "power_int 2 (?e - 1) \<le> q"
  proof -
    have "power_int 2 (?e - 1) = power_int (2::rat) (int (?a - 1) - int ?b)"
      using pos by (auto simp: of_nat_diff intro: arg_cong [where f = "power_int 2"])
    also have "\<dots> = 2 ^ (?a - 1) / 2 ^ ?b" by (simp add: power_int_diff power_int_of_nat)
    also have "\<dots> \<le> of_int n / 2 ^ ?b" using a(1) by (simp add: divide_right_mono)
    also have "\<dots> \<le> q" unfolding q using b(2) d n by (intro divide_left_mono) auto
    finally show ?thesis .
  qed
  show ?thesis using lo hi by (auto simp: fexp_def nd Let_def)
qed

lemma power_int_2_mono: "a \<le> b \<Longrightarrow> power_int (2::rat) a \<le> power_int 2 b"
  by (rule power_int_increasing) auto

lemma fexp_mono:
  assumes "0 < q" "q \<le> r"
  shows "fexp q \<le> fexp r"
proof (rule ccontr)
  assume "\<not> fexp q \<le> fexp r"
  then have "power_int (2::rat) (fexp r + 1) \<le> power_int 2 (fexp q)"
    by (intro power_int_2_mono) simp
  with fexp_bounds [of q] fexp_bounds [of r] assms show False by simp
qed

subsection \<open>Rounding to a float\<close>

lemma power_int_split: "power_int (2::rat) (e + k) = power_int 2 e * power_int 2 k"
  by (simp add: power_int_add)

lemma power_int_unit:
  "power_int (2::rat) e = 2 ^ 52 * power_int 2 (e - 52)"
  "power_int (2::rat) (e + 1) = 2 ^ 53 * power_int 2 (e - 52)"
proof -
  have "power_int (2::rat) e = power_int 2 (e - 52 + 52)"
    and "power_int (2::rat) (e + 1) = power_int 2 (e - 52 + 53)"
    by (auto intro: arg_cong [where f = "power_int 2"])
  then show "power_int (2::rat) e = 2 ^ 52 * power_int 2 (e - 52)"
    and "power_int (2::rat) (e + 1) = 2 ^ 53 * power_int 2 (e - 52)"
    by (simp_all only: power_int_split) simp_all
qed

lemma flpos_bounds:
  assumes "0 < q"
  shows "power_int 2 (fexp q) \<le> flpos q \<and> flpos q \<le> power_int 2 (fexp q + 1)"
proof -
  let ?u = "fexp q - 52"
  have u: "0 < power_int (2::rat) ?u" by simp
  note s = power_int_unit [of "fexp q"]
  have "of_int (2 ^ 52) \<le> q / power_int 2 ?u" "q / power_int 2 ?u \<le> of_int (2 ^ 53)"
    using fexp_bounds [OF assms] u s by (simp_all add: field_simps)
  then have "2 ^ 52 \<le> rne (q / power_int 2 ?u)" "rne (q / power_int 2 ?u) \<le> 2 ^ 53"
    using rne_int_bounds by blast+
  then have "(2 ^ 52 :: rat) \<le> of_int (rne (q / power_int 2 ?u))"
      "of_int (rne (q / power_int 2 ?u)) \<le> (2 ^ 53 :: rat)"
    by (metis of_int_le_iff of_int_numeral of_int_power)+
  then show ?thesis unfolding flpos_def Let_def s using u by (simp add: mult_right_mono)
qed

lemma flpos_mono:
  assumes "0 < q" "q \<le> r"
  shows "flpos q \<le> flpos r"
proof (cases "fexp q = fexp r")
  case True
  have "rne (q / power_int 2 (fexp r - 52)) \<le> rne (r / power_int 2 (fexp r - 52))"
    using assms by (intro rne_mono divide_right_mono) auto
  with True show ?thesis by (simp add: flpos_def Let_def mult_right_mono)
next
  case False
  with fexp_mono [OF assms] have "fexp q + 1 \<le> fexp r" by simp
  then have "power_int (2::rat) (fexp q + 1) \<le> power_int 2 (fexp r)" by (rule power_int_2_mono)
  with flpos_bounds [of q] flpos_bounds [of r] assms show ?thesis by simp
qed

lemma flpos_pos: "0 < q \<Longrightarrow> 0 < flpos q"
  using flpos_bounds [of q] pow2_pos [of "fexp q"] by linarith

lemma fl_0 [simp]: "fl 0 = 0"
  by (simp add: fl_def)

lemma fl_minus: "fl (- q) = - fl q"
  by (auto simp: fl_def)

lemma fl_pos: "0 < q \<Longrightarrow> 0 < fl q"
  by (simp add: fl_def flpos_pos)

lemma fl_nonneg: "0 \<le> q \<Longrightarrow> 0 \<le> fl q"
  using fl_pos [of q] by (cases "q = 0") auto

lemma fl_mono: "q \<le> r \<Longrightarrow> fl q \<le> fl r"
proof -
  assume qr: "q \<le> r"
  consider "0 < q" | "q \<le> 0" "0 \<le> r" | "r < 0" by linarith
  then show ?thesis
  proof cases
    case 1
    with qr show ?thesis by (simp add: fl_def flpos_mono)
  next
    case 2
    have "fl q \<le> 0" using fl_nonneg [of "- q"] 2 by (simp add: fl_minus)
    moreover have "0 \<le> fl r" using 2 by (simp add: fl_nonneg)
    ultimately show ?thesis by simp
  next
    case 3
    with qr show ?thesis using flpos_mono [of "- r" "- q"] by (simp add: fl_def)
  qed
qed

text \<open>Every number with at most 53 significant bits is a float.\<close>

lemma flpos_exact:
  assumes "0 < m" "m \<le> 2 ^ 53" and q: "q = of_int m * power_int 2 k"
  shows "flpos q = q"
proof -
  let ?u = "fexp q - 52"
  have q0: "0 < q" using assms by simp
  have "q \<le> 2 ^ 53 * power_int 2 k"
    unfolding q using assms(2) by (intro mult_right_mono) (metis of_int_le_iff of_int_numeral of_int_power, simp)
  also have "\<dots> = power_int 2 (k + 53)" using power_int_split [of k 53] by simp
  finally have top: "q \<le> power_int 2 (k + 53)" .
  have uk: "?u \<le> k + 1"
  proof (rule ccontr)
    assume "\<not> ?u \<le> k + 1"
    then have "power_int (2::rat) (k + 53 + 1) \<le> power_int 2 (fexp q)"
      by (intro power_int_2_mono) simp
    moreover have "power_int (2::rat) (k + 53 + 1) = 2 * power_int 2 (k + 53)"
      by (subst power_int_split) simp
    ultimately show False using fexp_bounds [OF q0] top pow2_pos [of "k + 53"] by linarith
  qed
  have "\<exists>i. q / power_int 2 ?u = of_int i"
  proof (cases "?u \<le> k")
    case True
    have "q / power_int 2 ?u = of_int m * power_int 2 (k - ?u)"
      by (simp add: q power_int_diff)
    also have "\<dots> = of_int (m * 2 ^ nat (k - ?u))" using True by (simp add: power_int_def)
    finally show ?thesis by blast
  next
    case False
    with uk have u: "?u = k + 1" by simp
    then have "power_int 2 (k + 53) \<le> q" using fexp_bounds [OF q0] by (simp add: algebra_simps)
    with top u have "q = power_int 2 (fexp q)" by (simp add: algebra_simps)
    then have "q = 2 ^ 52 * power_int 2 ?u" using power_int_unit(1) [of "fexp q"] by simp
    then have "q / power_int 2 ?u = 2 ^ 52" using pow2_pos [of ?u]
      by (simp only: nonzero_divide_eq_eq [OF less_imp_neq [OF pow2_pos, symmetric]])
    then have "q / power_int 2 ?u = of_int (2 ^ 52)" by simp
    then show ?thesis by blast
  qed
  then obtain i where "q / power_int 2 ?u = of_int i" by blast
  moreover have "q / power_int 2 ?u * power_int 2 ?u = q"
    using less_imp_neq [OF pow2_pos [of ?u]] by simp
  ultimately show ?thesis by (simp add: flpos_def Let_def)
qed

lemma fl_exact: "\<bar>m\<bar> \<le> 2 ^ 53 \<Longrightarrow> fl (of_int m * power_int 2 k) = of_int m * power_int 2 k"
proof -
  assume m: "\<bar>m\<bar> \<le> 2 ^ 53"
  consider "m = 0" | "0 < m" | "m < 0" by linarith
  then show ?thesis
  proof cases
    case 2
    with m show ?thesis using flpos_exact [of m _ k] by (simp add: fl_def zero_less_mult_iff)
  next
    case 3
    have "0 < power_int (2::rat) k" by simp
    moreover from 3 m have "flpos (- (of_int m * power_int 2 k)) = - (of_int m * power_int 2 k)"
      by (intro flpos_exact [of "- m" _ k]) auto
    ultimately show ?thesis using 3 by (simp add: fl_def zero_less_mult_iff mult_less_0_iff)
  qed simp
qed

lemma fl_of_int: "\<bar>m\<bar> \<le> 2 ^ 53 \<Longrightarrow> fl (of_int m) = of_int m"
  using fl_exact [of m 0] by simp

lemma fl_numeral [simp]: "fl 1 = 1" "fl 2 = 2" "fl 3 = 3" "fl 7 = 7" "fl 100 = 100"
  using fl_of_int [of 1] fl_of_int [of 2] fl_of_int [of 3] fl_of_int [of 7] fl_of_int [of 100] by simp_all

lemma fl_int_bounds:
  "\<bar>m\<bar> \<le> 2 ^ 53 \<Longrightarrow> q \<le> of_int m \<Longrightarrow> fl q \<le> of_int m"
  "\<bar>m\<bar> \<le> 2 ^ 53 \<Longrightarrow> of_int m \<le> q \<Longrightarrow> of_int m \<le> fl q"
  by (metis fl_mono fl_of_int)+

lemma flpos_error: "0 < q \<Longrightarrow> \<bar>flpos q - q\<bar> \<le> q / 2 ^ 53"
proof -
  assume q: "0 < q"
  let ?u = "fexp q - 52"
  have u: "0 < power_int (2::rat) ?u" by simp
  have "flpos q - q = (of_int (rne (q / power_int 2 ?u)) - q / power_int 2 ?u) * power_int 2 ?u"
    by (simp add: flpos_def Let_def left_diff_distrib)
  then have "\<bar>flpos q - q\<bar> \<le> 1 / 2 * power_int 2 ?u"
    using u rne_error [of "q / power_int 2 ?u"] by (simp add: abs_mult mult_right_mono)
  also have "\<dots> = power_int 2 (fexp q) / 2 ^ 53"
    using power_int_split [of ?u 52] by (simp add: field_simps)
  also have "\<dots> \<le> q / 2 ^ 53" using fexp_bounds [OF q] by (simp add: divide_right_mono)
  finally show ?thesis .
qed

lemma fl_error: "\<bar>fl q - q\<bar> \<le> \<bar>q\<bar> / 2 ^ 53"
proof -
  consider "q = 0" | "0 < q" | "q < 0" by linarith
  then show ?thesis
  proof cases
    case 2
    then show ?thesis using flpos_error [of q] by (simp add: fl_def)
  next
    case 3
    then have "\<bar>flpos (- q) - - q\<bar> \<le> - q / 2 ^ 53" using flpos_error [of "- q"] by simp
    moreover have "fl q - q = - (flpos (- q) - - q)" using 3 by (simp add: fl_def)
    ultimately show ?thesis using 3 by (simp only: abs_minus_cancel abs_of_neg)
  qed simp
qed

subsection \<open>Derived operations\<close>

lemma float_of_int_mono: "i \<le> j \<Longrightarrow> float_of_int i \<le> float_of_int j"
  by (simp add: float_of_int_def fl_mono)

lemma float_of_int_nonneg: "0 \<le> i \<Longrightarrow> 0 \<le> float_of_int i"
  by (simp add: float_of_int_def fl_nonneg)

lemma float_of_int_pos: "0 < i \<Longrightarrow> 0 < float_of_int i"
  by (simp add: float_of_int_def fl_pos)

lemma float_of_int_0 [simp]: "float_of_int 0 = 0"
  by (simp add: float_of_int_def)

lemma ftrunc_nonneg: "0 \<le> q \<Longrightarrow> 0 \<le> ftrunc q"
  by (simp add: ftrunc_def)

lemma ftrunc_of_int [simp]: "ftrunc (of_int i) = i"
  by (simp add: ftrunc_def)

lemma ftrunc_numeral [simp]: "ftrunc (numeral n) = numeral n" "ftrunc 0 = 0" "ftrunc 1 = 1"
  using ftrunc_of_int [of "numeral n"] ftrunc_of_int [of 0] ftrunc_of_int [of 1] by simp_all

lemma ftrunc_mono: "p \<le> q \<Longrightarrow> ftrunc p \<le> ftrunc q"
proof -
  assume pq: "p \<le> q"
  show ?thesis
  proof (cases "0 \<le> p \<or> q < 0")
    case True
    with pq show ?thesis by (auto simp: ftrunc_def intro: floor_mono)
  next
    case False
    then have "0 \<le> \<lfloor>- p\<rfloor>" "0 \<le> \<lfloor>q\<rfloor>" by simp_all
    then have "- \<lfloor>- p\<rfloor> \<le> \<lfloor>q\<rfloor>" by linarith
    with False show ?thesis by (simp add: ftrunc_def)
  qed
qed

lemma float_of_int_exact: "\<bar>i\<bar> \<le> 2 ^ 53 \<Longrightarrow> float_of_int i = of_int i"
  by (simp add: float_of_int_def fl_of_int)

text \<open>A quotient of ordered non-negative numbers stays in the unit interval, and scaling it by
  100 gives a percentage.\<close>

lemma fdiv_unit: "0 \<le> x \<Longrightarrow> x \<le> y \<Longrightarrow> 0 < y \<Longrightarrow> 0 \<le> fdiv x y \<and> fdiv x y \<le> 1"
  using fl_int_bounds [of 1 "x / y"] by (simp add: fdiv_def fl_nonneg divide_le_eq_1)

lemma fmul_100_unit: "0 \<le> x \<Longrightarrow> x \<le> 1 \<Longrightarrow> 0 \<le> fmul x 100 \<and> fmul x 100 \<le> 100"
  using fl_int_bounds [of 100 "x * 100"] by (simp add: fmul_def fl_nonneg)

lemma fdiv_mono: "x \<le> x' \<Longrightarrow> 0 < y \<Longrightarrow> fdiv x y \<le> fdiv x' y"
  by (simp add: fdiv_def fl_mono divide_right_mono)

lemma fmul_mono: "x \<le> x' \<Longrightarrow> 0 \<le> y \<Longrightarrow> fmul x y \<le> fmul x' y"
  by (simp add: fmul_def fl_mono mult_right_mono)

lemma fadd_nonneg: "0 \<le> x \<Longrightarrow> 0 \<le> y \<Longrightarrow> 0 \<le> fadd x y"
  by (simp add: fadd_def fl_nonneg)

lemma fadd_ge_left: "0 \<le> y \<Longrightarrow> fl x = x \<Longrightarrow> x \<le> fadd x y"
  unfolding fadd_def by (metis add.right_neutral add_left_mono fl_mono)

lemma fl_idem [simp]: "fl (fl q) = fl q"
proof -
  have pos: "fl (flpos r) = flpos r" if "0 < r" for r
  proof -
    let ?u = "fexp r - 52"
    from power_int_unit(2) [of "fexp r"] flpos_bounds [OF that] flpos_pos [OF that]
    have "of_int (rne (r / power_int 2 ?u)) * power_int 2 ?u \<le> 2 ^ 53 * power_int (2::rat) ?u"
      and "0 < of_int (rne (r / power_int 2 ?u)) * power_int (2::rat) ?u"
      by (simp_all add: flpos_def Let_def)
    then have "of_int (rne (r / power_int 2 ?u)) \<le> (2 ^ 53 :: rat)"
      and "0 < rne (r / power_int 2 ?u)"
      by (simp_all add: zero_less_mult_iff)
    then have "\<bar>rne (r / power_int 2 ?u)\<bar> \<le> 2 ^ 53"
      by (metis abs_of_pos of_int_le_iff of_int_numeral of_int_power)
    then show ?thesis unfolding flpos_def Let_def by (rule fl_exact)
  qed
  show ?thesis using pos [of q] pos [of "- q"] by (auto simp: fl_def [of q] fl_minus)
qed

end
