(* ===== verification/Validators.thy ===== *)
theory Validators
  imports Votes GoFloat
begin

text \<open>
  \<open>pkg/types/validator.go\<close> and \<open>validator.cosmos.go\<close>: a validator as the program shows it, the
  union of what CometBFT and the Cosmos SDK say about it. Pointers that may be \<open>nil\<close> are
  options. Of the third-party types \<open>ctypes.Validator\<close> and \<open>PubKey\<close> the records keep the values
  the source reads: the rendered address, the rendered address of the public key, the key's
  bytes and the voting power. A \<open>big.Float\<close> percentage is the rational it denotes.
\<close>

section \<open>Data\<close>

record CometValidator =
  cv_Address :: address
  cv_PubKeyAddress :: address
  cv_PubKeyBytes :: bytes
  cv_VotingPower :: int

record CosmosValidator =
  cos_Moniker :: string
  cos_ConsensusPubkey :: "address option"
  cos_OperatorAddress :: string
  cos_ConsensusAddress :: string
  cos_AssignedAddress :: string
  cos_RawAssignedAddress :: string

record TMValidator =
  tv_CometValidator :: "CometValidator option"
  tv_CosmosValidator :: "CosmosValidator option"
  tv_Index :: int
  tv_VotingPowerPercent :: "rat option"
  tv_PeerID :: string

type_synonym TMValidators = "TMValidator list"

section \<open>Operations\<close>

definition GetDisplayAddress :: "TMValidator \<Rightarrow> address" where
  "GetDisplayAddress v =
     (case tv_CometValidator v of
        Some c \<Rightarrow> cv_Address c
      | None \<Rightarrow>
          (case tv_CosmosValidator v of
             Some c \<Rightarrow> cos_OperatorAddress c
           | None \<Rightarrow> ''''))"

definition truncated_address :: "address \<Rightarrow> string" where
  "truncated_address addr =
     (if length addr > 10 then take 6 addr @ ''...'' @ drop (length addr - 4) addr else addr)"

definition GetDisplayName :: "TMValidator \<Rightarrow> string" where
  "GetDisplayName v =
     (case tv_CosmosValidator v of
        Some c \<Rightarrow>
          (if cos_Moniker c \<noteq> '''' then cos_Moniker c else truncated_address (GetDisplayAddress v))
      | None \<Rightarrow> truncated_address (GetDisplayAddress v))"

definition HasAssignedKey :: "TMValidator \<Rightarrow> bool" where
  "HasAssignedKey v \<longleftrightarrow>
     (case tv_CosmosValidator v of None \<Rightarrow> False | Some c \<Rightarrow> cos_AssignedAddress c \<noteq> '''')"

text \<open>The validator of the witnesses.\<close>

definition sample_validator :: "address \<Rightarrow> int \<Rightarrow> TMValidator" where
  "sample_validator a p =
     \<lparr>tv_CometValidator = Some \<lparr>cv_Address = a, cv_PubKeyAddress = a, cv_PubKeyBytes = [], cv_VotingPower = p\<rparr>,
      tv_CosmosValidator = None, tv_Index = 0, tv_VotingPowerPercent = None, tv_PeerID = ''''\<rparr>"

section \<open>Properties\<close>

text \<open>The display name is the moniker when the Cosmos side has a non-empty one; otherwise it is
  the display address, shortened to at most 13 bytes that keep its first six and last four.\<close>

theorem GetDisplayName_spec:
  "(\<exists>c. tv_CosmosValidator v = Some c \<and> cos_Moniker c \<noteq> '''' \<and> GetDisplayName v = cos_Moniker c)
   \<or> ((\<forall>c. tv_CosmosValidator v = Some c \<longrightarrow> cos_Moniker c = '''')
      \<and> length (GetDisplayName v) \<le> 13
      \<and> take 6 (GetDisplayName v) = take 6 (GetDisplayAddress v)
      \<and> drop (length (GetDisplayName v) - 4) (GetDisplayName v)
          = drop (length (GetDisplayAddress v) - 4) (GetDisplayAddress v))"
proof (cases "\<exists>c. tv_CosmosValidator v = Some c \<and> cos_Moniker c \<noteq> ''''")
  case True
  then show ?thesis by (auto simp: GetDisplayName_def)
next
  case False
  then have n: "GetDisplayName v = truncated_address (GetDisplayAddress v)"
    by (auto simp: GetDisplayName_def split: option.splits)
  show ?thesis using False unfolding n by (simp add: truncated_address_def)
qed

theorem GetDisplayName_spec_witness:
  "length (GetDisplayName (sample_validator ''0123456789ABCDEF'' 1)) \<le> 13"
  using GetDisplayName_spec [of "sample_validator ''0123456789ABCDEF'' 1"]
  by (simp add: sample_validator_def)

end
