(* ===== verification/NetInfo.thy ===== *)
theory NetInfo
  imports GoFloat
begin

text \<open>
  \<open>pkg/types/net_info.go\<close>: what \<open>/net_info\<close> reports about the peers of a node, with the decoders
  and printers of its scalar types. \<open>net/url\<close> parsing and \<open>time.Parse\<close> are parameters
  (\<open>url_port\<close> is the port of the parsed URL, \<open>None\<close> on a parse error).
\<close>

section \<open>Data\<close>

type_synonym NanoDuration = duration
type_synonym ByteSize = int
type_synonym Percent = int

record FlowStatus =
  fs_Bytes :: ByteSize
  fs_InstRate :: ByteSize
  fs_CurRate :: ByteSize
  fs_AvgRate :: ByteSize
  fs_PeakRate :: ByteSize
  fs_BytesRem :: ByteSize
  fs_Duration :: NanoDuration
  fs_Idle :: NanoDuration
  fs_TimeRem :: NanoDuration
  fs_Progress :: Percent
  fs_Active :: bool

record ConnectionStatus =
  cs_Duration :: NanoDuration
  cs_SendMonitor :: FlowStatus
  cs_RecvMonitor :: FlowStatus

record ProtocolVersion =
  pv_P2P :: int
  pv_Block :: int
  pv_App :: int

record DefaultNodeInfo =
  ni_ProtocolVersion :: ProtocolVersion
  ni_DefaultNodeID :: string
  ni_ListenAddr :: string
  ni_Network :: string
  ni_Version :: string
  ni_Moniker :: string
  ni_TxIndex :: string
  ni_RPCAddress :: string

record Peer =
  peer_NodeInfo :: DefaultNodeInfo
  peer_IsOutbound :: bool
  peer_ConnectionStatus :: ConnectionStatus
  peer_RemoteIP :: string

record NetInfo =
  net_Listening :: bool
  net_Listeners :: "string list"
  net_NPeers :: string
  net_Peers :: "Peer list"

section \<open>Operations\<close>

definition Peer_URL :: "(string \<Rightarrow> string option) \<Rightarrow> Peer \<Rightarrow> string" where
  "Peer_URL url_port p =
     (case url_port (ni_RPCAddress (peer_NodeInfo p)) of
        None \<Rightarrow> ''http://'' @ peer_RemoteIP p @ '':26657''
      | Some port \<Rightarrow> ''http'' @ ''://'' @ peer_RemoteIP p @ '':'' @ port)"

text \<open>\<open>Inl\<close> is the returned error.\<close>

definition NanoDuration_UnmarshalJSON :: "bytes \<Rightarrow> goerror + NanoDuration" where
  "NanoDuration_UnmarshalJSON b =
     (let s = b;
          s = (if 2 \<le> length s \<and> hd s = CHR 0x22 \<and> last s = CHR 0x22
               then butlast (tl s) else s);
          (nanos, err) = ParseInt 64 s
      in if err \<noteq> None then Inl ''invalid duration: '' else Inr nanos)"

definition CustomTime_UnmarshalJSON :: "(string \<Rightarrow> goerror + instant) \<Rightarrow> bytes \<Rightarrow> (goerror + instant) option" where
  "CustomTime_UnmarshalJSON time_parse b =
     (if length b < 2 then None \<comment> \<open>the slice expression panics\<close>
      else Some (time_parse (butlast (tl b))))"

definition Percent_Float :: "Percent \<Rightarrow> rat" where
  "Percent_Float p = fmul (float_of_int p) (fl (1 / 1000))"

text \<open>The digits of \<open>p / 1000\<close>, then those of \<open>1000 + p % 1000\<close> whose leading 1 is overwritten by
  a point at the position where they start.\<close>

definition Percent_String :: "Percent \<Rightarrow> string" where
  "Percent_String p =
     (let b = digits (nat (p div 1000));
          n = length b;
          b = b @ digits (nat (1000 + p mod 1000));
          b = b[n := CHR ''.'']
      in b @ ''%'')"

definition KB :: ByteSize where "KB = 2 ^ 10"
definition MB :: ByteSize where "MB = 2 ^ 20"
definition GB :: ByteSize where "GB = 2 ^ 30"
definition TB :: ByteSize where "TB = 2 ^ 40"
definition PB :: ByteSize where "PB = 2 ^ 50"

definition ByteSize_String :: "ByteSize \<Rightarrow> string" where
  "ByteSize_String b =
     (if b \<ge> PB then fmt_fixed 2 (fdiv (float_of_int b) (float_of_int PB)) @ ''pb''
      else if b \<ge> TB then fmt_fixed 2 (fdiv (float_of_int b) (float_of_int TB)) @ ''tb''
      else if b \<ge> GB then fmt_fixed 2 (fdiv (float_of_int b) (float_of_int GB)) @ ''gb''
      else if b \<ge> MB then fmt_fixed 2 (fdiv (float_of_int b) (float_of_int MB)) @ ''mb''
      else if b \<ge> KB then fmt_fixed 2 (fdiv (float_of_int b) (float_of_int KB)) @ ''kb''
      else itoa b @ ''b'')"

section \<open>Lemmas\<close>

lemma digits_step: "10 \<le> n \<Longrightarrow> digits n = digits (n div 10) @ [digit_char (n mod 10)]"
  by (subst digits.simps) simp

lemma digits_small: "n < 10 \<Longrightarrow> digits n = [digit_char n]"
  by (subst digits.simps) simp

lemma digits_4:
  assumes "k < 1000"
  shows "digits (1000 + k) =
    [CHR ''1'', digit_char (k div 100), digit_char (k div 10 mod 10), digit_char (k mod 10)]"
proof -
  have "(1000 + k) div 10 = 100 + k div 10" "(1000 + k) mod 10 = k mod 10"
    using div_mult_self1 [of 10 k 100] mod_mult_self1 [of k 100 10] by (simp_all add: ac_simps)
  moreover have "(100 + k div 10) div 10 = 10 + k div 100" "(100 + k div 10) mod 10 = k div 10 mod 10"
    using div_mult_self1 [of 10 "k div 10" 10] mod_mult_self1 [of "k div 10" 10 10]
    by (simp_all add: ac_simps div_mult2_eq [symmetric])
  moreover have "(10 + k div 100) div 10 = 1" "(10 + k div 100) mod 10 = k div 100"
    using assms by (simp_all add: div_add1_eq)
  ultimately show ?thesis
    by (simp add: digits_step [of "1000 + k"] digits_step [of "100 + k div 10"]
        digits_step [of "10 + k div 100"] digits_small)
qed

text \<open>The three decimal digits of a number below 1000.\<close>

lemma three_digits:
  "(k::nat) < 1000 \<Longrightarrow> k = 100 * (k div 100) + 10 * (k div 10 mod 10) + k mod 10"
proof -
  have "k = 10 * (k div 10) + k mod 10" by simp
  moreover have "k div 10 = 10 * (k div 10 div 10) + k div 10 mod 10" by (rule mult_div_mod_eq [symmetric])
  moreover have "k div 10 div 10 = k div 100" by (simp add: div_mult2_eq [symmetric])
  ultimately show ?thesis by linarith
qed

lemma quote_not_digit: "digit_val CHR 0x22 = None"
  by (simp add: digit_val_def)

lemma itoa_not_quote: "CHR 0x22 \<notin> set (itoa i)"
  by (simp add: itoa_def sep_notin_digits quote_not_digit)

section \<open>Properties\<close>

text \<open>\<open>NanoDuration\<close> decodes every \<open>int64\<close> count of nanoseconds, written as a JSON number or
  as a JSON string, to exactly that duration.\<close>

theorem NanoDuration_roundtrip:
  assumes "in_i64 n"
  shows "NanoDuration_UnmarshalJSON (itoa n) = Inr n
    \<and> NanoDuration_UnmarshalJSON (CHR 0x22 # itoa n @ [CHR 0x22]) = Inr n"
proof -
  have "itoa n \<noteq> []" by (simp add: itoa_def)
  then have "hd (itoa n) \<noteq> CHR 0x22" using itoa_not_quote [of n] by (metis hd_in_set)
  then show ?thesis using assms
    by (simp add: NanoDuration_UnmarshalJSON_def ParseInt_itoa)
qed

theorem NanoDuration_roundtrip_witness:
  "NanoDuration_UnmarshalJSON (CHR 0x22 # itoa 699569204788255 @ [CHR 0x22]) = Inr 699569204788255"
proof -
  have "in_i64 699569204788255" by (simp add: in_i64_def)
  from NanoDuration_roundtrip [OF this] show ?thesis by blast
qed

text \<open>A \<open>Percent\<close> prints as its whole percents, a point, exactly three decimals and a percent
  sign, so the number of thousandths can be read back from the text.\<close>

theorem Percent_String_spec:
  assumes "0 \<le> p" "p < 2 ^ 32"
  shows "\<exists>d1 d2 d3. Percent_String p =
      digits (nat (p div 1000)) @ [CHR ''.'', digit_char d1, digit_char d2, digit_char d3, CHR ''%'']
    \<and> d1 < 10 \<and> d2 < 10 \<and> d3 < 10
    \<and> p = p div 1000 * 1000 + 100 * int d1 + 10 * int d2 + int d3"
proof -
  define k where "k = nat (p mod 1000)"
  have k: "k < 1000" and k': "int k = p mod 1000" by (simp_all add: k_def)
  have "nat (1000 + p mod 1000) = 1000 + k" by (simp add: k_def nat_add_distrib)
  then have str: "Percent_String p = digits (nat (p div 1000)) @
      [CHR ''.'', digit_char (k div 100), digit_char (k div 10 mod 10), digit_char (k mod 10), CHR ''%'']"
    by (simp add: Percent_String_def digits_4 [OF k] Let_def)
  have "int k = 100 * int (k div 100) + 10 * int (k div 10 mod 10) + int (k mod 10)"
    using arg_cong [OF three_digits [OF k], of int] by (simp only: of_nat_add of_nat_mult of_nat_numeral)
  then have val: "p = p div 1000 * 1000 + 100 * int (k div 100) + 10 * int (k div 10 mod 10) + int (k mod 10)"
    using k' div_mult_mod_eq [of p 1000] by linarith
  have "k div 100 < 10" "k div 10 mod 10 < 10" "k mod 10 < 10" using k by simp_all
  with str val show ?thesis by blast
qed

theorem Percent_String_spec_witness:
  "\<exists>d1 d2 d3. Percent_String 12345 =
     digits (nat (12345 div 1000)) @ [CHR ''.'', digit_char d1, digit_char d2, digit_char d3, CHR ''%'']"
proof -
  have "(0::int) \<le> 12345" "(12345::int) < 2 ^ 32" by simp_all
  from Percent_String_spec [OF this] show ?thesis by blast
qed

end
