(* ===== verification/HealthTypes.thy ===== *)
theory HealthTypes
  imports GoFloat
begin

text \<open>
  \<open>pkg/metrics/types.go\<close>: the values the metrics pipeline produces and the display shows. A
  \<open>float64\<close> is the rational it denotes, a \<open>time.Duration\<close> its nanoseconds, and the zero value of
  a struct is the value Go gives a field that is never written.
\<close>

record ASNShare =
  as_ASN :: int
  as_Description :: string
  as_Validators :: int
  as_PowerPct :: rat

record EquivocationEvent =
  ev_ValidatorAddress :: string
  ev_Moniker :: string
  ev_Height :: int
  ev_Round :: int
  ev_VoteType :: string
  ev_BlockIDA :: string
  ev_BlockIDB :: string
  ev_DetectedAt :: instant

record NetworkHealth =
  ChainHalted :: bool
  SecondsSinceHeight :: rat
  CurrentMaxRound :: int
  OfflineCount :: int
  OfflinePowerPct :: rat
  RoundsPerBlockAvg :: rat
  RoundZeroCommitPct :: rat
  AvgBlockTime :: duration
  BlockTimeStdDev :: duration
  BlockIntervals :: "duration list"
  AvgProposeTime :: duration
  AvgPrevoteTime :: duration
  AvgPrecommitTime :: duration
  StepTimingSample :: int
  MempoolTxs :: int
  MempoolBytes :: int
  MempoolKnown :: bool
  Nakamoto33 :: int
  Nakamoto66 :: int
  Gini :: rat
  Top10Pct :: rat
  TopASNs :: "ASNShare list"
  Equivocations :: "EquivocationEvent list"

definition zero_NetworkHealth :: NetworkHealth where
  "zero_NetworkHealth =
     \<lparr>ChainHalted = False, SecondsSinceHeight = 0, CurrentMaxRound = 0, OfflineCount = 0,
      OfflinePowerPct = 0, RoundsPerBlockAvg = 0, RoundZeroCommitPct = 0, AvgBlockTime = 0,
      BlockTimeStdDev = 0, BlockIntervals = [], AvgProposeTime = 0, AvgPrevoteTime = 0,
      AvgPrecommitTime = 0, StepTimingSample = 0, MempoolTxs = 0, MempoolBytes = 0,
      MempoolKnown = False, Nakamoto33 = 0, Nakamoto66 = 0, Gini = 0, Top10Pct = 0,
      TopASNs = [], Equivocations = []\<rparr>"

record ValidatorHealthRow =
  vh_Address :: string
  vh_Moniker :: string
  vh_VotingPowerPct :: rat
  vh_HasHistory :: bool
  vh_SigningRatePct :: rat
  vh_BlocksMissed :: int
  vh_PrevoteRatePct :: rat
  vh_PrecommitRatePct :: rat
  vh_ProposerSharePct :: rat
  vh_HasLatency :: bool
  vh_AvgPrevoteArrival :: duration
  vh_AvgPrecommitArrival :: duration
  vh_MaxPrecommitArrival :: duration
  vh_Online :: bool
  vh_ASN :: int
  vh_ASNOrg :: string
  vh_Equivocated :: bool

definition zero_ValidatorHealthRow :: ValidatorHealthRow where
  "zero_ValidatorHealthRow =
     \<lparr>vh_Address = '''', vh_Moniker = '''', vh_VotingPowerPct = 0, vh_HasHistory = False,
      vh_SigningRatePct = 0, vh_BlocksMissed = 0, vh_PrevoteRatePct = 0, vh_PrecommitRatePct = 0,
      vh_ProposerSharePct = 0, vh_HasLatency = False, vh_AvgPrevoteArrival = 0,
      vh_AvgPrecommitArrival = 0, vh_MaxPrecommitArrival = 0, vh_Online = False, vh_ASN = 0,
      vh_ASNOrg = '''', vh_Equivocated = False\<rparr>"

end
