(* ===== verification/State.thy ===== *)
theory State
  imports Validators NetInfo HealthTypes
begin

text \<open>
  \<open>pkg/types/state.go\<close>: the central store. \<open>State\<close> holds its fields; every accessor takes or
  releases one mutex around a few assignments, so an operation is one atomic state transformer.
  Of CometBFT's \<open>ResultStatus\<close> and event types the values the source reads are kept. The fields
  no code writes (\<open>validatorsByPeerID\<close>, \<open>ProposalsByRound\<close>, \<open>ChainValidatorsError\<close>) keep their
  initial value; the first is a field because it is read.
\<close>

section \<open>Data\<close>

record RPC =
  rpc_ID :: string
  rpc_IP :: string
  rpc_URL :: string
  rpc_Moniker :: string
  rpc_ValidatorAddress :: string
  rpc_ValidatorMoniker :: string

record Upgrade =
  up_Name :: string
  up_Height :: int

record ResultStatus =
  rs_NodeID :: string
  rs_Moniker :: string
  rs_Network :: string
  rs_Version :: string
  rs_ValidatorAddress :: address

record Vote =
  vote_Height :: int
  vote_Round :: int
  vote_ValidatorAddress :: address
  vote_Type :: SignedMsgType
  vote_BlockID :: BlockID

text \<open>The dynamic types a \<open>TMEventData\<close> can have, the ones the program does not name as one.
  A new round carries its height, round and proposer, a vote is a pointer, and of a round state
  the name of the step is read.\<close>

datatype TMEventData =
    EventDataNewRound int int address
  | EventDataVote "Vote option"
  | EventDataRoundState string
  | OtherEventData

record ('h, 'r, 'k, 'p) state_env = "('h, 'r) round_env" +
  rpcs_ops :: "(string, RPC, 'k) ordered_map_ops"
  peers_ops :: "(string, Peer list, 'p) ordered_map_ops"
  url_port :: "string \<Rightarrow> string option"

record ('h, 'k, 'p) State =
  st_Height :: int
  st_Round :: int
  st_Step :: int
  st_StartTime :: instant
  st_TMValidators :: TMValidators
  st_validatorsByPeerID :: "string \<rightharpoonup> TMValidator"
  st_ChainInfo :: "ResultStatus option"
  st_Upgrade :: "Upgrade option"
  st_BlockTime :: duration
  st_NetInfo :: "NetInfo option"
  st_networkHealth :: "NetworkHealth option"
  st_validatorHealth :: "ValidatorHealthRow list option"
  st_mempoolTxs :: int
  st_mempoolBytes :: int
  st_mempoolKnown :: bool
  VotesByRound :: 'h
  st_currentRPC :: string
  st_knownRPCs :: 'k
  st_rpcPeers :: 'p
  st_ConsensusStateError :: "goerror option"
  st_ValidatorsError :: "goerror option"
  st_UpgradePlanError :: "goerror option"
  st_ChainInfoError :: "goerror option"

section \<open>Operations\<close>

subsection \<open>Construction and RPC bookkeeping\<close>

definition zero_RPC :: RPC where
  "zero_RPC = \<lparr>rpc_ID = '''', rpc_IP = '''', rpc_URL = '''', rpc_Moniker = '''',
     rpc_ValidatorAddress = '''', rpc_ValidatorMoniker = ''''\<rparr>"

definition NewRPCFromPeer :: "(string \<Rightarrow> string option) \<Rightarrow> Peer \<Rightarrow> RPC" where
  "NewRPCFromPeer port peer =
     zero_RPC\<lparr>rpc_ID := ni_DefaultNodeID (peer_NodeInfo peer), rpc_IP := peer_RemoteIP peer,
       rpc_URL := Peer_URL port peer, rpc_Moniker := ni_Moniker (peer_NodeInfo peer)\<rparr>"

definition NewState ::
    "('h, 'r, 'k, 'p, 'z) state_env_scheme \<Rightarrow> string \<Rightarrow> instant \<Rightarrow> ('h, 'k, 'p) State" where
  "NewState E firstRPC now =
     \<lparr>st_Height = 0, st_Round = 0, st_Step = 0, st_StartTime = now, st_TMValidators = [],
      st_validatorsByPeerID = Map.empty, st_ChainInfo = None, st_Upgrade = None, st_BlockTime = 0,
      st_NetInfo = None, st_networkHealth = None, st_validatorHealth = None, st_mempoolTxs = 0,
      st_mempoolBytes = 0, st_mempoolKnown = False,
      VotesByRound = NewRoundDataMap (round_env.truncate E),
      st_currentRPC = firstRPC, st_knownRPCs = om_new (rpcs_ops E), st_rpcPeers = om_new (peers_ops E),
      st_ConsensusStateError = None, st_ValidatorsError = None, st_UpgradePlanError = None,
      st_ChainInfoError = None\<rparr>"

definition CurrentRPC :: "('h, 'r, 'k, 'p, 'z) state_env_scheme \<Rightarrow> ('h, 'k, 'p) State \<Rightarrow> RPC" where
  "CurrentRPC E s =
     (case om_get (rpcs_ops E) (st_knownRPCs s) (st_currentRPC s) of
        None \<Rightarrow> zero_RPC\<lparr>rpc_URL := st_currentRPC s\<rparr>
      | Some rpc \<Rightarrow> rpc)"

definition SetCurrentRPCURL :: "string \<Rightarrow> ('h, 'k, 'p) State \<Rightarrow> ('h, 'k, 'p) State" where
  "SetCurrentRPCURL rpcURL s = s\<lparr>st_currentRPC := rpcURL\<rparr>"

definition KnownRPCByURL ::
    "('h, 'r, 'k, 'p, 'z) state_env_scheme \<Rightarrow> ('h, 'k, 'p) State \<Rightarrow> string \<Rightarrow> RPC option" where
  "KnownRPCByURL E s url = om_get (rpcs_ops E) (st_knownRPCs s) url"

definition KnownRPCs :: "('h, 'k, 'p) State \<Rightarrow> 'k" where
  "KnownRPCs s = st_knownRPCs s"

definition AddKnownRPC ::
    "('h, 'r, 'k, 'p, 'z) state_env_scheme \<Rightarrow> RPC \<Rightarrow> ('h, 'k, 'p) State \<Rightarrow> ('h, 'k, 'p) State" where
  "AddKnownRPC E rpc s = s\<lparr>st_knownRPCs := om_set (rpcs_ops E) (st_knownRPCs s) (rpc_URL rpc) rpc\<rparr>"

definition IsKnownRPC ::
    "('h, 'r, 'k, 'p, 'z) state_env_scheme \<Rightarrow> ('h, 'k, 'p) State \<Rightarrow> string \<Rightarrow> bool" where
  "IsKnownRPC E s rpcURL \<longleftrightarrow> om_get (rpcs_ops E) (st_knownRPCs s) rpcURL \<noteq> None"

definition RPCAtIndex ::
    "('h, 'r, 'k, 'p, 'z) state_env_scheme \<Rightarrow> ('h, 'k, 'p) State \<Rightarrow> int \<Rightarrow> RPC option" where
  "RPCAtIndex E s index = map_option snd (om_get_by_index (rpcs_ops E) (st_knownRPCs s) index)"

definition AddRPCPeers ::
    "('h, 'r, 'k, 'p, 'z) state_env_scheme \<Rightarrow> string \<Rightarrow> Peer list \<Rightarrow> ('h, 'k, 'p) State \<Rightarrow> ('h, 'k, 'p) State"
  where
  "AddRPCPeers E rpcURL peers s = s\<lparr>st_rpcPeers := om_set (peers_ops E) (st_rpcPeers s) rpcURL peers\<rparr>"

definition RPCPeers ::
    "('h, 'r, 'k, 'p, 'z) state_env_scheme \<Rightarrow> ('h, 'k, 'p) State \<Rightarrow> string \<Rightarrow> Peer list" where
  "RPCPeers E s rpcURL =
     (case om_get (peers_ops E) (st_rpcPeers s) rpcURL of None \<Rightarrow> [] | Some peers \<Rightarrow> peers)"

definition ValidatorByPeerID :: "('h, 'k, 'p) State \<Rightarrow> string \<Rightarrow> TMValidator option" where
  "ValidatorByPeerID s peerID = st_validatorsByPeerID s (to_lower peerID)"

definition ValidatorsByPeerID :: "('h, 'k, 'p) State \<Rightarrow> (string \<rightharpoonup> TMValidator)" where
  "ValidatorsByPeerID s = st_validatorsByPeerID s"

subsection \<open>Consensus events\<close>

text \<open>One turn of the loop of \<open>AddCometBFTEvents\<close>; a \<open>nil\<close> vote panics.\<close>

definition add_event ::
    "('h, 'r) round_env \<Rightarrow> 'h \<Rightarrow> TMEventData \<Rightarrow> 'h option" where
  "add_event B v event =
     (case event of
        EventDataNewRound h r proposer \<Rightarrow> Some (AddProposer B v h r proposer)
      | EventDataVote None \<Rightarrow> None
      | EventDataVote (Some x) \<Rightarrow>
          Some (AddVote B v (vote_Height x) (vote_Round x) (vote_ValidatorAddress x) (vote_Type x)
            (vote_BlockID x))
      | EventDataRoundState _ \<Rightarrow> Some v
      | OtherEventData \<Rightarrow> Some v)"

fun add_events :: "('h, 'r) round_env \<Rightarrow> 'h \<Rightarrow> TMEventData list \<Rightarrow> 'h option" where
  "add_events B v [] = Some v"
| "add_events B v (event # events) =
     (case add_event B v event of None \<Rightarrow> None | Some v' \<Rightarrow> add_events B v' events)"

definition AddCometBFTEvents ::
    "('h, 'r, 'k, 'p, 'z) state_env_scheme \<Rightarrow> TMEventData list \<Rightarrow> ('h, 'k, 'p) State
      \<Rightarrow> ('h, 'k, 'p) State option" where
  "AddCometBFTEvents E events s =
     map_option (\<lambda>v. s\<lparr>VotesByRound := v\<rparr>) (add_events (round_env.truncate E) (VotesByRound s) events)"

subsection \<open>Accessors\<close>

definition SetChainInfo :: "ResultStatus option \<Rightarrow> ('h, 'k, 'p) State \<Rightarrow> ('h, 'k, 'p) State" where
  "SetChainInfo info s = s\<lparr>st_ChainInfo := info\<rparr>"

definition GetChainInfo :: "('h, 'k, 'p) State \<Rightarrow> ResultStatus option" where
  "GetChainInfo s = st_ChainInfo s"

definition SetUpgrade :: "Upgrade option \<Rightarrow> ('h, 'k, 'p) State \<Rightarrow> ('h, 'k, 'p) State" where
  "SetUpgrade upgrade s = s\<lparr>st_Upgrade := upgrade\<rparr>"

definition GetUpgrade :: "('h, 'k, 'p) State \<Rightarrow> Upgrade option" where
  "GetUpgrade s = st_Upgrade s"

definition SetBlockTime :: "duration \<Rightarrow> ('h, 'k, 'p) State \<Rightarrow> ('h, 'k, 'p) State" where
  "SetBlockTime blockTime s = s\<lparr>st_BlockTime := blockTime\<rparr>"

definition GetBlockTime :: "('h, 'k, 'p) State \<Rightarrow> duration" where
  "GetBlockTime s = st_BlockTime s"

definition SetNetInfo :: "NetInfo option \<Rightarrow> ('h, 'k, 'p) State \<Rightarrow> ('h, 'k, 'p) State" where
  "SetNetInfo info s = s\<lparr>st_NetInfo := info\<rparr>"

definition GetNetInfo :: "('h, 'k, 'p) State \<Rightarrow> NetInfo option" where
  "GetNetInfo s = st_NetInfo s"

definition SetNetworkHealth :: "NetworkHealth option \<Rightarrow> ('h, 'k, 'p) State \<Rightarrow> ('h, 'k, 'p) State" where
  "SetNetworkHealth h s = s\<lparr>st_networkHealth := h\<rparr>"

definition GetNetworkHealth :: "('h, 'k, 'p) State \<Rightarrow> NetworkHealth option" where
  "GetNetworkHealth s = st_networkHealth s"

definition SetValidatorHealth ::
    "ValidatorHealthRow list option \<Rightarrow> ('h, 'k, 'p) State \<Rightarrow> ('h, 'k, 'p) State" where
  "SetValidatorHealth rows s = s\<lparr>st_validatorHealth := rows\<rparr>"

definition GetValidatorHealth :: "('h, 'k, 'p) State \<Rightarrow> ValidatorHealthRow list option" where
  "GetValidatorHealth s = st_validatorHealth s"

definition SetMempool :: "int \<Rightarrow> int \<Rightarrow> ('h, 'k, 'p) State \<Rightarrow> ('h, 'k, 'p) State" where
  "SetMempool txs bytes s =
     s\<lparr>st_mempoolTxs := txs, st_mempoolBytes := bytes, st_mempoolKnown := True\<rparr>"

definition GetMempool :: "('h, 'k, 'p) State \<Rightarrow> int \<times> int \<times> bool" where
  "GetMempool s = (st_mempoolTxs s, st_mempoolBytes s, st_mempoolKnown s)"

definition SetConsensusStateError :: "goerror option \<Rightarrow> ('h, 'k, 'p) State \<Rightarrow> ('h, 'k, 'p) State" where
  "SetConsensusStateError err s = s\<lparr>st_ConsensusStateError := err\<rparr>"

definition GetConsensusStateError :: "('h, 'k, 'p) State \<Rightarrow> goerror option" where
  "GetConsensusStateError s = st_ConsensusStateError s"

definition SetValidatorsError :: "goerror option \<Rightarrow> ('h, 'k, 'p) State \<Rightarrow> ('h, 'k, 'p) State" where
  "SetValidatorsError err s = s\<lparr>st_ValidatorsError := err\<rparr>"

definition SetUpgradePlanError :: "goerror option \<Rightarrow> ('h, 'k, 'p) State \<Rightarrow> ('h, 'k, 'p) State" where
  "SetUpgradePlanError err s = s\<lparr>st_UpgradePlanError := err\<rparr>"

definition GetUpgradePlanError :: "('h, 'k, 'p) State \<Rightarrow> goerror option" where
  "GetUpgradePlanError s = st_UpgradePlanError s"

definition SetChainInfoError :: "goerror option \<Rightarrow> ('h, 'k, 'p) State \<Rightarrow> ('h, 'k, 'p) State" where
  "SetChainInfoError err s = s\<lparr>st_ChainInfoError := err\<rparr>"

definition GetChainInfoError :: "('h, 'k, 'p) State \<Rightarrow> goerror option" where
  "GetChainInfoError s = st_ChainInfoError s"

definition SetConsensusHeight ::
    "int \<Rightarrow> int \<Rightarrow> int \<Rightarrow> instant \<Rightarrow> ('h, 'k, 'p) State \<Rightarrow> ('h, 'k, 'p) State" where
  "SetConsensusHeight height rnd step startTime s =
     s\<lparr>st_Height := height, st_Round := rnd, st_Step := step, st_StartTime := startTime\<rparr>"

definition GetConsensusHeight :: "('h, 'k, 'p) State \<Rightarrow> int \<times> int \<times> int \<times> instant" where
  "GetConsensusHeight s = (st_Height s, st_Round s, st_Step s, st_StartTime s)"

definition GetTMValidators :: "('h, 'k, 'p) State \<Rightarrow> TMValidators" where
  "GetTMValidators s = st_TMValidators s"

definition SetTMValidators :: "TMValidators \<Rightarrow> ('h, 'k, 'p) State \<Rightarrow> ('h, 'k, 'p) State" where
  "SetTMValidators validators s = s\<lparr>st_TMValidators := validators\<rparr>"

subsection \<open>Voting power\<close>

text \<open>The accumulating loop over the validators, with the vote state of a validator as an
  argument. A validator without CometBFT data is a \<open>nil\<close> dereference.\<close>

fun tally ::
    "(address \<Rightarrow> VoteState) \<Rightarrow> bool \<Rightarrow> TMValidators \<Rightarrow> int \<Rightarrow> int \<Rightarrow> (int \<times> int) option" where
  "tally vote countDisagreeing [] voted totalVP = Some (voted, totalVP)"
| "tally vote countDisagreeing (validator # validators) voted totalVP =
     (case tv_CometValidator validator of
        None \<Rightarrow> None
      | Some c \<Rightarrow>
          (let totalVP = totalVP + cv_VotingPower c;
               state = vote (GetDisplayAddress validator);
               voted = (if state = VoteStateForBlock \<or> (countDisagreeing \<and> state = VoteStateNil)
                        then voted + cv_VotingPower c else voted)
           in tally vote countDisagreeing validators voted totalVP))"

definition percent_of :: "int \<Rightarrow> int \<Rightarrow> rat" where
  "percent_of voted totalVP = fmul (fdiv (float_of_int voted) (float_of_int totalVP)) 100"

definition votingPowerPercent ::
    "('h, 'r) round_env \<Rightarrow> TMValidators \<Rightarrow> 'h \<Rightarrow> int \<Rightarrow> int \<Rightarrow> SignedMsgType \<Rightarrow> bool \<Rightarrow> rat option" where
  "votingPowerPercent B validators votes height rnd msgType countDisagreeing =
     (if validators = [] then Some 0
      else case tally (\<lambda>a. GetVote B votes height rnd a msgType) countDisagreeing validators 0 0 of
        None \<Rightarrow> None
      | Some (voted, totalVP) \<Rightarrow>
          (if totalVP = 0 then Some 0 else Some (percent_of voted totalVP)))"

definition GetTotalVotingPowerPrevotedPercent ::
    "('h, 'r, 'k, 'p, 'z) state_env_scheme \<Rightarrow> ('h, 'k, 'p) State \<Rightarrow> bool \<Rightarrow> rat option" where
  "GetTotalVotingPowerPrevotedPercent E s countDisagreeing =
     votingPowerPercent (round_env.truncate E) (st_TMValidators s) (VotesByRound s) (st_Height s)
       (i32 (st_Round s)) PrevoteType countDisagreeing"

definition GetTotalVotingPowerPrecommittedPercent ::
    "('h, 'r, 'k, 'p, 'z) state_env_scheme \<Rightarrow> ('h, 'k, 'p) State \<Rightarrow> bool \<Rightarrow> rat option" where
  "GetTotalVotingPowerPrecommittedPercent E s countDisagreeing =
     votingPowerPercent (round_env.truncate E) (st_TMValidators s) (VotesByRound s) (st_Height s)
       (i32 (st_Round s)) PrecommitType countDisagreeing"

section \<open>Specification\<close>

text \<open>The slots written by a list of events, in order, and the voting power of a validator.\<close>

definition event_votes ::
    "TMEventData list \<Rightarrow> ((int \<times> int \<times> address \<times> SignedMsgType) \<times> BlockID) list" where
  "event_votes events =
     concat (map (\<lambda>e. case e of
         EventDataVote (Some x) \<Rightarrow>
           [((vote_Height x, vote_Round x, vote_ValidatorAddress x, vote_Type x), vote_BlockID x)]
       | _ \<Rightarrow> []) events)"

definition well_formed_validators :: "TMValidators \<Rightarrow> bool" where
  "well_formed_validators validators \<longleftrightarrow>
     (\<forall>v \<in> set validators. case tv_CometValidator v of None \<Rightarrow> False | Some c \<Rightarrow> 0 \<le> cv_VotingPower c)"

definition power_of :: "TMValidator \<Rightarrow> int" where
  "power_of v = (case tv_CometValidator v of None \<Rightarrow> 0 | Some c \<Rightarrow> cv_VotingPower c)"

definition counted :: "bool \<Rightarrow> VoteState \<Rightarrow> bool" where
  "counted countDisagreeing state \<longleftrightarrow>
     state = VoteStateForBlock \<or> (countDisagreeing \<and> state = VoteStateNil)"

text \<open>The instance of the witnesses.\<close>

definition fmap_state_env where
  "fmap_state_env = round_env.extend fmap_env
     \<lparr>rpcs_ops = alist_ordered_ops, peers_ops = alist_ordered_ops, url_port = (\<lambda>_. None)\<rparr>"

section \<open>Lemmas\<close>

lemma power_of_nonneg:
  "well_formed_validators vs \<Longrightarrow> v \<in> set vs \<Longrightarrow> 0 \<le> power_of v"
  by (fastforce simp: well_formed_validators_def power_of_def split: option.splits)

lemma tally_sums:
  "well_formed_validators vs \<Longrightarrow>
   tally vote cd vs x y =
     Some (x + (\<Sum>v \<leftarrow> vs. if counted cd (vote (GetDisplayAddress v)) then power_of v else 0),
           y + (\<Sum>v \<leftarrow> vs. power_of v))"
  by (induction vs arbitrary: x y)
     (auto simp: well_formed_validators_def power_of_def counted_def Let_def split: option.splits)

lemma percent_of_bounds:
  "0 \<le> a \<Longrightarrow> a \<le> b \<Longrightarrow> 0 < b \<Longrightarrow> 0 \<le> percent_of a b \<and> percent_of a b \<le> 100"
  unfolding percent_of_def
  using fdiv_unit [of "float_of_int a" "float_of_int b"] fmul_100_unit
  by (simp add: float_of_int_nonneg float_of_int_mono float_of_int_pos)

lemma percent_of_mono: "a \<le> a' \<Longrightarrow> 0 < b \<Longrightarrow> percent_of a b \<le> percent_of a' b"
  unfolding percent_of_def
  by (intro fmul_mono fdiv_mono float_of_int_mono) (simp_all add: float_of_int_pos)

lemma percent_of_full: "0 < b \<Longrightarrow> percent_of b b = 100"
  using float_of_int_pos [of b] by (simp add: percent_of_def fdiv_def fmul_def)

lemma sum_list_counted_le:
  "(\<And>x. x \<in> set xs \<Longrightarrow> 0 \<le> f x) \<Longrightarrow> (\<And>x. x \<in> set xs \<Longrightarrow> P x \<Longrightarrow> Q x) \<Longrightarrow>
   (\<Sum>x \<leftarrow> xs. if P x then f x else (0::int)) \<le> (\<Sum>x \<leftarrow> xs. if Q x then f x else 0)"
  by (intro sum_list_mono) auto

lemma sum_list_counted_full:
  "(\<And>x. x \<in> set xs \<Longrightarrow> 0 \<le> f x) \<Longrightarrow>
   (\<Sum>x \<leftarrow> xs. if P x then f x else (0::int)) = (\<Sum>x \<leftarrow> xs. f x)
     \<longleftrightarrow> (\<forall>x \<in> set xs. 0 < f x \<longrightarrow> P x)"
proof (induction xs)
  case (Cons a xs)
  let ?f = "\<lambda>x. if P x then f x else 0"
  have "(\<Sum>x \<leftarrow> xs. ?f x) \<le> (\<Sum>x \<leftarrow> xs. f x)" using Cons.prems by (intro sum_list_mono) auto
  with Cons show ?case by force
qed simp

lemma votingPowerPercent_sums:
  assumes "well_formed_validators vs"
  shows "votingPowerPercent B vs votes h r t cd =
    (let voted = (\<Sum>v \<leftarrow> vs. if counted cd (GetVote B votes h r (GetDisplayAddress v) t)
                    then power_of v else 0);
         tot = (\<Sum>v \<leftarrow> vs. power_of v)
     in Some (if tot = 0 then 0 else percent_of voted tot))"
  by (simp add: votingPowerPercent_def tally_sums [OF assms] Let_def)

text \<open>One vote short of unanimity does not print as 100 per cent, as long as the total power is
  exactly representable.\<close>

lemma percent_of_less_100:
  assumes "0 \<le> a" "a < b" "b \<le> 2 ^ 53"
  shows "percent_of a b < 100"
proof -
  let ?e = "1 / 2 ^ 53 :: rat"
  have b: "float_of_int b = of_int b" "float_of_int a = of_int a"
    using assms by (simp_all add: float_of_int_exact)
  have "(of_int b :: rat) \<le> 2 ^ 53" using assms(3) by (metis of_int_le_iff of_int_numeral of_int_power)
  then have e: "?e \<le> 1 / of_int b" using assms by (intro divide_left_mono) auto
  have "of_int a \<le> (of_int b - 1 :: rat)" using assms(2) by (metis int_one_le_iff_zero_less of_int_1 of_int_diff of_int_le_iff zle_diff1_eq)
  then have "of_int a / of_int b \<le> (of_int b - 1) / (of_int b :: rat)"
    using assms by (simp add: divide_right_mono)
  also have "\<dots> = 1 - 1 / of_int b" using assms by (simp add: diff_divide_distrib)
  also have "\<dots> \<le> 1 - ?e" using e by simp
  finally have le: "of_int a / of_int b \<le> 1 - ?e" .
  have "fl (of_int (2 ^ 53 - 1) * power_int 2 (- 53)) = of_int (2 ^ 53 - 1) * power_int 2 (- 53)"
    by (rule fl_exact) simp
  then have "fl (1 - ?e) = 1 - ?e" by (simp add: power_int_minus field_simps)
  with fl_mono [OF le] have d: "fdiv (float_of_int a) (float_of_int b) \<le> 1 - ?e"
    by (simp add: fdiv_def b)
  let ?q = "fdiv (float_of_int a) (float_of_int b) * 100"
  have q: "0 \<le> ?q" "?q \<le> 100 - 100 * ?e"
    using d fdiv_unit [of "float_of_int a" "float_of_int b"] assms
    by (simp_all add: float_of_int_nonneg float_of_int_mono float_of_int_pos)
  have "fl ?q \<le> ?q + \<bar>?q\<bar> / 2 ^ 53" using fl_error [of ?q] by linarith
  also have "\<dots> = ?q * (1 + ?e)" using q by (simp add: field_simps)
  also have "\<dots> \<le> (100 - 100 * ?e) * (1 + ?e)" using q(2) by (rule mult_right_mono) simp
  also have "\<dots> < 100" by simp
  finally show ?thesis by (simp add: percent_of_def fmul_def)
qed

lemma add_event_votes:
  assumes "lawful_rounds B" "add_event B v e = Some v'"
  shows "vote_at B v' = vote_at B v ++ map_of (rev (event_votes [e]))"
  using assms(2) vote_store.votes_add_vote [OF lawful_rounds.contract [OF assms(1)]]
    vote_store.votes_add_proposer [OF lawful_rounds.contract [OF assms(1)]]
  by (auto simp: add_event_def event_votes_def split: TMEventData.splits option.splits)

lemma event_votes_Cons: "event_votes (e # es) = event_votes [e] @ event_votes es"
  by (simp add: event_votes_def)

lemma add_events_votes:
  assumes "lawful_rounds B"
  shows "add_events B v es = Some v' \<Longrightarrow> vote_at B v' = vote_at B v ++ map_of (rev (event_votes es))"
proof (induction es arbitrary: v)
  case (Cons e es)
  then obtain v1 where e: "add_event B v e = Some v1" and rest: "add_events B v1 es = Some v'"
    by (auto split: option.splits)
  from Cons.IH [OF rest] add_event_votes [OF assms e] show ?case
    by (simp add: event_votes_Cons [of e es])
qed (simp add: event_votes_def)

lemma add_events_total:
  "EventDataVote None \<notin> set es \<longleftrightarrow> (\<exists>v'. add_events B v es = Some v')"
  by (induction es arbitrary: v) (auto simp: add_event_def split: option.splits TMEventData.splits)

section \<open>Properties\<close>

text \<open>C3: the voted power of a height and round, in per cent, lies between 0 and 100; counting
  nil votes never lowers it; and it is 100 exactly when every validator with power voted (for the
  block, or nil where those count), as long as the total power is exactly representable.\<close>

theorem votingPowerPercent_spec:
  assumes "well_formed_validators vs" "0 < (\<Sum>v \<leftarrow> vs. power_of v)" "(\<Sum>v \<leftarrow> vs. power_of v) \<le> 2 ^ 53"
  shows "\<exists>p q. votingPowerPercent B vs votes h r t False = Some p
    \<and> votingPowerPercent B vs votes h r t True = Some q
    \<and> 0 \<le> p \<and> p \<le> q \<and> q \<le> 100
    \<and> (q = 100 \<longleftrightarrow> (\<forall>v \<in> set vs. 0 < power_of v \<longrightarrow>
          GetVote B votes h r (GetDisplayAddress v) t \<noteq> VoteStateNone))"
proof -
  let ?S = "\<lambda>cd. \<Sum>v \<leftarrow> vs. if counted cd (GetVote B votes h r (GetDisplayAddress v) t) then power_of v else 0"
  let ?T = "\<Sum>v \<leftarrow> vs. power_of v"
  note pos = power_of_nonneg [OF assms(1)]
  have le: "?S False \<le> ?S True" by (rule sum_list_counted_le) (auto simp: pos counted_def)
  have leT: "?S True \<le> ?T" using pos by (intro sum_list_mono) auto
  have nn: "0 \<le> ?S cd" for cd by (intro sum_list_nonneg_int) (simp add: pos)
  have full: "?S True = ?T \<longleftrightarrow> (\<forall>v \<in> set vs. 0 < power_of v \<longrightarrow>
      GetVote B votes h r (GetDisplayAddress v) t \<noteq> VoteStateNone)"
    by (subst sum_list_counted_full) (auto simp: pos counted_def intro: VoteState.exhaust)
  have "percent_of (?S True) ?T = 100 \<longleftrightarrow> ?S True = ?T"
    using percent_of_less_100 [OF nn [of True] _ assms(3)] leT percent_of_full [OF assms(2)]
    by (cases "?S True = ?T") (force, force)
  with full have iff: "percent_of (?S True) ?T = 100 \<longleftrightarrow> (\<forall>v \<in> set vs. 0 < power_of v \<longrightarrow>
      GetVote B votes h r (GetDisplayAddress v) t \<noteq> VoteStateNone)" by simp
  have "0 \<le> percent_of (?S False) ?T" "percent_of (?S True) ?T \<le> 100"
    using percent_of_bounds [OF nn [of False] _ assms(2)] percent_of_bounds [OF nn [of True] leT assms(2)]
      le leT by simp_all
  moreover have "percent_of (?S False) ?T \<le> percent_of (?S True) ?T"
    using le assms(2) by (rule percent_of_mono)
  ultimately show ?thesis using assms(2) iff
    by (simp add: votingPowerPercent_sums [OF assms(1)] Let_def)
qed

theorem votingPowerPercent_spec_witness:
  "\<exists>q. votingPowerPercent fmap_env [sample_validator ''A'' 10, sample_validator ''B'' 20]
      (NewRoundDataMap fmap_env) 7 0 PrevoteType True = Some q \<and> q \<le> 100 \<and> q \<noteq> 100"
proof -
  let ?vs = "[sample_validator ''A'' 10, sample_validator ''B'' 20]"
  have "well_formed_validators ?vs" "0 < (\<Sum>v \<leftarrow> ?vs. power_of v)" "(\<Sum>v \<leftarrow> ?vs. power_of v) \<le> 2 ^ 53"
    by (simp_all add: well_formed_validators_def sample_validator_def power_of_def)
  from votingPowerPercent_spec [OF this, of fmap_env "NewRoundDataMap fmap_env" 7 0 PrevoteType]
  obtain q where "votingPowerPercent fmap_env ?vs (NewRoundDataMap fmap_env) 7 0 PrevoteType True = Some q"
    "q \<le> 100" "q = 100 \<longleftrightarrow> (\<forall>v \<in> set ?vs. 0 < power_of v \<longrightarrow>
      GetVote fmap_env (NewRoundDataMap fmap_env) 7 0 (GetDisplayAddress v) PrevoteType \<noteq> VoteStateNone)"
    by blast
  then show ?thesis
    by (simp add: sample_validator_def power_of_def GetVote_def NewRoundDataMap_def fmap_env_def
        fmap_sorted_ops_def)
qed



end
