(* ===== verification/Utils.thy ===== *)
theory Utils
  imports GoFloat
begin

text \<open>
  \<open>pkg/utils/utils.go\<close>: padding and trimming of table cells, duration rounding, the estimate of
  the time of a future block, search in a slice, and hex decoding (Go's \<open>encoding/hex\<close>). A
  slice expression that panics in Go is \<open>None\<close>. The functions of that file that only wrap
  third-party cryptography are not modelled; Bech32 decoding is a parameter.
\<close>

section \<open>Definitions\<close>

definition ZeroOrPositiveDuration :: "duration \<Rightarrow> duration" where
  "ZeroOrPositiveDuration d = (if d < 0 then 0 else d)"

function pad_loop :: "bool \<Rightarrow> int \<Rightarrow> string \<Rightarrow> string" where
  "pad_loop padLeft desiredLength result =
     (if int (length result) < desiredLength
      then pad_loop padLeft desiredLength (if padLeft then result @ '' '' else '' '' @ result)
      else result)"
  by pat_completeness auto
termination
  by (relation "measure (\<lambda>(_, n, s). nat (n - int (length s)))") auto

declare pad_loop.simps [simp del]

definition PadAndTrim :: "string \<Rightarrow> int \<Rightarrow> bool \<Rightarrow> string option" where
  "PadAndTrim source desiredLength padLeft =
     (if int (length source) < desiredLength then Some (pad_loop padLeft desiredLength source)
      else if int (length source) > desiredLength then
        (if desiredLength - 3 < 0 then None else Some (take (nat (desiredLength - 3)) source @ ''...''))
      else Some source)"

definition RightPadAndTrim :: "string \<Rightarrow> int \<Rightarrow> string option" where
  "RightPadAndTrim source desiredLength = PadAndTrim source desiredLength False"

definition LeftPadAndTrim :: "string \<Rightarrow> int \<Rightarrow> string option" where
  "LeftPadAndTrim source desiredLength = PadAndTrim source desiredLength True"

text \<open>The arguments end with the current time, which the code reads from the clock.\<close>

definition CalculateTimeTillBlock :: "int \<Rightarrow> int \<Rightarrow> duration \<Rightarrow> instant \<Rightarrow> instant" where
  "CalculateTimeTillBlock currentHeight requiredHeight blockTime now =
     (let blocksTillEstimatedBlock = i64 (requiredHeight - currentHeight);
          secondsTillEstimatedBlock =
            ftrunc (fmul (float_of_int blocksTillEstimatedBlock) (duration_seconds blockTime));
          durationTillEstimatedBlock = i64 (secondsTillEstimatedBlock * Second)
      in now + durationTillEstimatedBlock)"

text \<open>\<open>time.Duration.Round\<close> for a positive multiple: to the nearest, halves away from zero,
  saturating at the ends of the range.\<close>

definition duration_round :: "duration \<Rightarrow> duration \<Rightarrow> duration" where
  "duration_round d m =
     (if m \<le> 0 then d
      else let r = \<bar>d\<bar> mod m in
        if d < 0 then
          (if r + r < m then d + r
           else if i64 (d - m + r) < d then i64 (d - m + r) else - (2 ^ 63))
        else
          (if r + r < m then d - r
           else if i64 (d + m - r) > d then i64 (d + m - r) else 2 ^ 63 - 1))"

definition SerializeDuration :: "duration \<Rightarrow> duration" where
  "SerializeDuration d =
     (let denom = 1000
      in if d > Second then duration_round d (go_div Second denom)
         else duration_round d (go_div Millisecond denom))"

fun Find :: "'a list \<Rightarrow> ('a \<Rightarrow> bool) \<Rightarrow> 'a option" where
  "Find [] f = None"
| "Find (elt # slice) f = (if f elt then Some elt else Find slice f)"

text \<open>\<open>decode\<close> stands for \<open>bech32.Decode\<close> (human readable part dropped).\<close>

definition CompareTwoBech32 :: "(string \<Rightarrow> goerror + bytes) \<Rightarrow> string \<Rightarrow> string \<Rightarrow> goerror + bool" where
  "CompareTwoBech32 decode first second =
     (case decode first of
        Inl err \<Rightarrow> Inl err
      | Inr firstBytes \<Rightarrow>
          (case decode second of
             Inl err \<Rightarrow> Inl err
           | Inr secondBytes \<Rightarrow> Inr (firstBytes = secondBytes)))"

subsection \<open>encoding/hex\<close>

definition hex_digit_val :: "char \<Rightarrow> nat option" where
  "hex_digit_val c =
     (let n = of_char c
      in if 48 \<le> n \<and> n \<le> 57 then Some (n - 48)
         else if 97 \<le> n \<and> n \<le> 102 then Some (n - 87)
         else if 65 \<le> n \<and> n \<le> 70 then Some (n - 55)
         else None)"

fun hex_DecodeString :: "string \<Rightarrow> bytes option" where
  "hex_DecodeString [] = Some []"
| "hex_DecodeString [_] = None"
| "hex_DecodeString (a # b # s) =
     (case (hex_digit_val a, hex_digit_val b) of
        (Some x, Some y) \<Rightarrow> map_option (\<lambda>bs. char_of (16 * x + y) # bs) (hex_DecodeString s)
      | _ \<Rightarrow> None)"

definition HexToBytes :: "string \<Rightarrow> bytes option" where
  "HexToBytes hexStr =
     (let hexStr = (if 2 \<le> length hexStr \<and> take 2 hexStr = ''0x'' then drop 2 hexStr else hexStr)
      in hex_DecodeString hexStr)"

definition hex_digit :: "bool \<Rightarrow> nat \<Rightarrow> char" where
  "hex_digit upper d = char_of (if d < 10 then 48 + d else if upper then 55 + d else 87 + d)"

definition hex_encode :: "bool \<Rightarrow> bytes \<Rightarrow> string" where
  "hex_encode upper bs =
     concat (map (\<lambda>b. [hex_digit upper (of_char b div 16), hex_digit upper (of_char b mod 16)]) bs)"

section \<open>Lemmas\<close>

lemma pad_loop_closed:
  "pad_loop padLeft n s =
     (if padLeft then s @ replicate (nat n - length s) CHR '' ''
      else replicate (nat n - length s) CHR '' '' @ s)"
proof (induction padLeft n s rule: pad_loop.induct)
  case (1 padLeft n s)
  show ?case
  proof (cases "int (length s) < n")
    case True
    then have "nat n - length s = Suc (nat n - Suc (length s))" by linarith
    then show ?thesis using 1 True
      by (subst pad_loop.simps) (simp add: replicate_append_same)
  next
    case False
    then have "nat n - length s = 0" by linarith
    with False show ?thesis by (subst pad_loop.simps) simp
  qed
qed

lemma PadAndTrim_Some: "3 \<le> n \<Longrightarrow> \<exists>r. PadAndTrim s n p = Some r"
  by (simp add: PadAndTrim_def)

lemma Find_find: "Find xs f = List.find f xs"
  by (induction xs) auto

lemma hex_digit_val_hex_digit: "d < 16 \<Longrightarrow> hex_digit_val (hex_digit upper d) = Some d"
  by (auto simp: hex_digit_def hex_digit_val_def Let_def)

lemma hex_DecodeString_encode: "hex_DecodeString (hex_encode upper bs) = Some bs"
proof (induction bs)
  case (Cons b bs)
  have "of_char b div 16 < (16::nat)"
    by (simp add: less_mult_imp_div_less)
  moreover have "16 * (of_char b div 16) + of_char b mod 16 = (of_char b :: nat)" by simp
  ultimately show ?case using Cons
    by (simp add: hex_encode_def hex_digit_val_hex_digit)
qed (simp add: hex_encode_def)

lemma hex_DecodeString_length: "hex_DecodeString s = Some bs \<Longrightarrow> length s = 2 * length bs"
  by (induction s arbitrary: bs rule: hex_DecodeString.induct) (auto split: option.splits)

section \<open>Properties\<close>

text \<open>For every width of at least 3, \<open>PadAndTrim\<close> returns a cell of exactly the requested
  number of bytes: the source padded with spaces (after it when \<open>padLeft\<close> is set, before it
  otherwise) or its first \<open>desiredLength - 3\<close> bytes followed by an ellipsis.\<close>

theorem PadAndTrim_exact:
  assumes "3 \<le> n"
  shows "\<exists>r. PadAndTrim s n padLeft = Some r \<and> int (length r) = n
    \<and> (int (length s) \<le> n \<longrightarrow>
        r = (if padLeft then s @ replicate (nat n - length s) CHR '' ''
             else replicate (nat n - length s) CHR '' '' @ s))
    \<and> (int (length s) > n \<longrightarrow> r = take (nat (n - 3)) s @ ''...'')"
  using assms by (auto simp: PadAndTrim_def pad_loop_closed)

theorem PadAndTrim_exact_witness:
  "\<exists>r. PadAndTrim ''validator-one'' 6 False = Some r \<and> int (length r) = 6"
proof -
  have "(3::int) \<le> 6" by simp
  from PadAndTrim_exact [OF this] show ?thesis by blast
qed

end
