(* ===== verification/Panels.thy ===== *)
theory Panels
  imports State Utils
begin

text \<open>
  The text panels of \<open>pkg/display\<close>: \<open>progressbar.go\<close>, \<open>state_renderer.go\<close> and
  \<open>network_health_renderer.go\<close>. A panel is the string written to its text view. Modelled of the
  standard library are the verbs the panels use (\<open>%d\<close>, \<open>%s\<close>, \<open>%.nf\<close>, \<open>%-ns\<close>, which pads by
  runes) and \<open>time.Duration.String\<close>. The shortest decimal form of a float (\<open>%v\<close>) and the rendering of
  a time in the configured zone are the arguments in \<open>panel_env\<close>; every reading of the clock is an
  argument. \<open>None\<close> is the panic of the vote aggregation on a validator without CometBFT data.
\<close>

section \<open>Formatting\<close>

record panel_env =
  pe_float :: "rat \<Rightarrow> string"
  pe_time :: "instant \<Rightarrow> string"

definition newline :: string where
  "newline = [CHR 0x0A]"

text \<open>\<open>rune_length\<close>: the bytes of the first rune, one for a byte that starts no valid encoding;
  \<open>rune_count\<close> is \<open>utf8.RuneCountInString\<close>.\<close>

fun rune_length :: "nat list \<Rightarrow> nat" where
  "rune_length [] = 0"
| "rune_length (b # bs) =
     (let second = (\<lambda>lo hi. bs \<noteq> [] \<and> lo \<le> hd bs \<and> hd bs \<le> hi);
          cont = (\<lambda>i. i < length bs \<and> 0x80 \<le> bs ! i \<and> bs ! i \<le> 0xBF)
      in if 0xC2 \<le> b \<and> b \<le> 0xDF \<and> cont 0 then 2
         else if 0xE0 \<le> b \<and> b \<le> 0xEF \<and> cont 1
           \<and> second (if b = 0xE0 then 0xA0 else 0x80) (if b = 0xED then 0x9F else 0xBF) then 3
         else if 0xF0 \<le> b \<and> b \<le> 0xF4 \<and> cont 1 \<and> cont 2
           \<and> second (if b = 0xF0 then 0x90 else 0x80) (if b = 0xF4 then 0x8F else 0xBF) then 4
         else 1)"

function count_runes :: "nat list \<Rightarrow> nat" where
  "count_runes [] = 0"
| "count_runes (b # bs) = Suc (count_runes (drop (rune_length (b # bs) - 1) bs))"
  by pat_completeness auto
termination
  by (relation "measure length") auto

definition rune_count :: "string \<Rightarrow> nat" where
  "rune_count s = count_runes (map of_char s)"

definition pad_right :: "nat \<Rightarrow> string \<Rightarrow> string" where
  "pad_right n s = s @ replicate (n - rune_count s) CHR '' ''"

text \<open>The conversion of a byte to a string encodes it as a rune.\<close>

definition byte_string :: "char \<Rightarrow> string" where
  "byte_string c =
     (let n = of_char c :: nat in if n < 128 then [c] else utf8 [192 + n div 64, 128 + n mod 64])"

text \<open>\<open>time.Duration.String\<close>: the fraction in \<open>prec\<close> digits without trailing zeros, then the units.\<close>

definition frac_string :: "nat \<Rightarrow> nat \<Rightarrow> string" where
  "frac_string prec v =
     (let ds = rev (dropWhile (\<lambda>c. c = CHR ''0'') (rev (pad_zeros prec (digits (v mod 10 ^ prec)))))
      in if ds = [] then [] else CHR ''.'' # ds)"

definition Duration_String :: "duration \<Rightarrow> string" where
  "Duration_String d =
     (let u = nat \<bar>d\<bar>;
          body = (if u = 0 then ''0s''
            else if u < 1000 then digits u @ ''ns''
            else if u < 1000000 then digits (u div 1000) @ frac_string 3 u @ utf8 [0xC2, 0xB5] @ ''s''
            else if u < 1000000000 then digits (u div 1000000) @ frac_string 6 u @ ''ms''
            else
              let secs = u div 1000000000; mins = secs div 60; hours = mins div 60
              in (if hours > 0 then digits hours @ ''h'' else '''') @
                 (if mins > 0 then digits (mins mod 60) @ ''m'' else '''') @
                 digits (secs mod 60) @ frac_string 9 u @ ''s'')
      in (if d < 0 then ''-'' else '''') @ body)"

definition em_dash :: string where
  "em_dash = utf8 [0xE2, 0x80, 0x94]"

definition ellipsis :: string where
  "ellipsis = utf8 [0xE2, 0x80, 0xA6]"

definition middle_dot :: string where
  "middle_dot = utf8 [0xC2, 0xB7]"

definition warning_sign :: string where
  "warning_sign = utf8 [0xE2, 0x9A, 0xA0]"

section \<open>progressbar.go\<close>

record ProgressBar =
  pb_Width :: int
  pb_Height :: int
  pb_Progress :: int
  pb_Prefix :: string

definition percent_text :: "ProgressBar \<Rightarrow> string" where
  "percent_text p = pb_Prefix p @ '' '' @ itoa (pb_Progress p) @ ''%''"

definition percentTextStart :: "ProgressBar \<Rightarrow> int" where
  "percentTextStart p = go_div (pb_Width p - int (length (percent_text p))) 2"

definition percentTextLine :: "ProgressBar \<Rightarrow> int" where
  "percentTextLine p = go_div (pb_Height p + 1) 2 - 1"

text \<open>One cell of a line: its colour and its text.\<close>

definition isBackgroundColored :: "ProgressBar \<Rightarrow> int \<Rightarrow> bool" where
  "isBackgroundColored p index \<longleftrightarrow>
     ftrunc (fmul (fdiv (float_of_int index) (float_of_int (pb_Width p))) 100) \<le> pb_Progress p"

definition cell_text :: "ProgressBar \<Rightarrow> int \<Rightarrow> int \<Rightarrow> string" where
  "cell_text p lineIndex index =
     (if lineIndex = percentTextLine p \<and> index \<ge> percentTextStart p
         \<and> index < percentTextStart p + int (length (percent_text p))
      then byte_string (percent_text p ! nat (index - percentTextStart p)) else '' '')"

definition color_tag :: "bool \<Rightarrow> string" where
  "color_tag colored = ''[white:'' @ (if colored then ''green'' else ''-'') @ '']''"

fun bar_line :: "ProgressBar \<Rightarrow> int \<Rightarrow> int list \<Rightarrow> string \<Rightarrow> string" where
  "bar_line p lineIndex [] format = ''''"
| "bar_line p lineIndex (index # rest) format =
     (let newFormat = color_tag (isBackgroundColored p index)
      in (if format \<noteq> newFormat then newFormat else '''') @ cell_text p lineIndex index
         @ bar_line p lineIndex rest newFormat)"

definition ProgressBar_Serialize :: "ProgressBar \<Rightarrow> string" where
  "ProgressBar_Serialize p =
     concat (map (\<lambda>lineIndex. bar_line p lineIndex [0..pb_Width p - 1] '''' @ newline) [0..pb_Height p - 1])"

section \<open>state\_renderer.go\<close>

definition SerializeConsensus ::
    "panel_env \<Rightarrow> ('h, 'r, 'k, 'p, 'z) state_env_scheme \<Rightarrow> instant \<Rightarrow> instant \<Rightarrow> ('h, 'k, 'p) State \<Rightarrow> string option" where
  "SerializeConsensus P E now1 now2 s =
     (case GetConsensusStateError s of
        Some err \<Rightarrow> Some ('' consensus state error: '' @ err)
      | None \<Rightarrow>
          (if GetTMValidators s = [] then Some ''''
           else
             let (height, rnd, step, startTime) = GetConsensusHeight s
             in case (GetTotalVotingPowerPrevotedPercent E s True, GetTotalVotingPowerPrevotedPercent E s False,
                      GetTotalVotingPowerPrecommittedPercent E s True, GetTotalVotingPowerPrecommittedPercent E s False) of
                (Some pv, Some pva, Some pc, Some pca) \<Rightarrow>
                  Some ('' height='' @ itoa height @ '' round='' @ itoa rnd @ '' step='' @ itoa step @ newline @
                    '' block time: '' @
                      Duration_String (ZeroOrPositiveDuration (SerializeDuration (time_sub now1 startTime))) @
                      '' ('' @ pe_time P startTime @ '')'' @ newline @
                    '' prevote consensus (total/agreeing): '' @ fmt_fixed 2 pv @ '' / '' @ fmt_fixed 2 pva @ newline @
                    '' precommit consensus (total/agreeing): '' @ fmt_fixed 2 pc @ '' / '' @ fmt_fixed 2 pca @ newline @
                    '' last updated at: '' @ pe_time P now2 @ newline)
              | _ \<Rightarrow> None))"

text \<open>\<open>now1\<close> is read by \<open>CalculateTimeTillBlock\<close>, \<open>now2\<close> by \<open>time.Since\<close> or \<open>time.Until\<close>.\<close>

definition serializeUpgradeInfo ::
    "panel_env \<Rightarrow> instant \<Rightarrow> instant \<Rightarrow> Upgrade \<Rightarrow> int \<Rightarrow> duration \<Rightarrow> string" where
  "serializeUpgradeInfo P now1 now2 upgrade height blockTime =
     (if i64 (up_Height upgrade + 1) = height then '' upgrade in progress...'' @ newline
      else if i64 (up_Height upgrade + 1) < height then
        '' chain upgrade '' @ up_Name upgrade @ '' applied at block '' @ itoa (up_Height upgrade) @ newline @
        '' blocks since upgrade: '' @ itoa (i64 (height - up_Height upgrade)) @ newline @
        (if blockTime = 0 then ''''
         else
           let upgradeTime = CalculateTimeTillBlock height (up_Height upgrade) blockTime now1
           in '' time since upgrade: '' @ Duration_String (SerializeDuration (time_sub now2 upgradeTime)) @ newline @
              '' upgrade approximate time: '' @ pe_time P upgradeTime @ newline)
      else
        '' chain upgrade '' @ up_Name upgrade @ '' scheduled at block '' @ itoa (up_Height upgrade) @ newline @
        '' blocks till upgrade: '' @ itoa (i64 (up_Height upgrade - height)) @ newline @
        (if blockTime = 0 then ''''
         else
           let upgradeTime = CalculateTimeTillBlock height (up_Height upgrade) blockTime now1
           in '' time till upgrade: '' @ Duration_String (SerializeDuration (time_sub upgradeTime now2)) @ newline @
              '' upgrade estimated time: '' @ pe_time P upgradeTime @ newline))"

definition SerializeChainInfo ::
    "panel_env \<Rightarrow> ('h, 'r, 'k, 'p, 'z) state_env_scheme \<Rightarrow> instant \<Rightarrow> instant \<Rightarrow> ('h, 'k, 'p) State \<Rightarrow> string" where
  "SerializeChainInfo P E now1 now2 s =
     (let rpc = CurrentRPC E s;
          blockTime = GetBlockTime s
      in '' rpc: '' @ rpc_URL rpc @ newline @ '' ('' @ rpc_Moniker rpc @ '')'' @ newline @ newline @
         (case GetChainInfoError s of
            Some err \<Rightarrow> '' chain info fetch error: '' @ err @ newline
          | None \<Rightarrow>
              (case GetChainInfo s of
                 None \<Rightarrow> ''''
               | Some chainInfo \<Rightarrow>
                   '' chain name: '' @ rs_Network chainInfo @ newline @
                   '' tendermint version: v'' @ rs_Version chainInfo @ newline @
                   (if blockTime \<noteq> 0 then '' avg block time: '' @ Duration_String (SerializeDuration blockTime) @ newline
                    else ''''))) @
         (case st_UpgradePlanError s of
            Some err \<Rightarrow> '' upgrade plan fetch error: '' @ err @ newline
          | None \<Rightarrow>
              (case GetUpgrade s of
                 None \<Rightarrow> '' no chain upgrade scheduled'' @ newline
               | Some upgrade \<Rightarrow>
                   serializeUpgradeInfo P now1 now2 upgrade (fst (GetConsensusHeight s)) blockTime)))"

definition progressBar :: "int \<Rightarrow> int \<Rightarrow> string \<Rightarrow> int \<Rightarrow> string" where
  "progressBar width height prefix progress =
     ProgressBar_Serialize \<lparr>pb_Width = width, pb_Height = height, pb_Progress = progress, pb_Prefix = prefix\<rparr>"

definition SerializePrevotesProgressbar ::
    "('h, 'r, 'k, 'p, 'z) state_env_scheme \<Rightarrow> int \<Rightarrow> int \<Rightarrow> ('h, 'k, 'p) State \<Rightarrow> string option" where
  "SerializePrevotesProgressbar E width height s =
     (if GetTMValidators s = [] then Some ''''
      else map_option (\<lambda>q. progressBar width height ''Prevotes: '' (ftrunc (fl q)))
             (GetTotalVotingPowerPrevotedPercent E s True))"

definition SerializePrecommitsProgressbar ::
    "('h, 'r, 'k, 'p, 'z) state_env_scheme \<Rightarrow> int \<Rightarrow> int \<Rightarrow> ('h, 'k, 'p) State \<Rightarrow> string option" where
  "SerializePrecommitsProgressbar E width height s =
     (if GetTMValidators s = [] then Some ''''
      else map_option (\<lambda>q. progressBar width height ''Precommits: '' (ftrunc (fl q)))
             (GetTotalVotingPowerPrecommittedPercent E s True))"

section \<open>network\_health\_renderer.go\<close>

text \<open>\<open>dash\<close> at its integer types, at \<open>time.Duration\<close> and at \<open>float64\<close>.\<close>

definition dash :: "('a::zero \<Rightarrow> string) \<Rightarrow> 'a \<Rightarrow> string" where
  "dash fmt v = (if v = 0 then em_dash else fmt v)"

definition fmtDuration :: "duration \<Rightarrow> string" where
  "fmtDuration d = fmt_fixed 1 (duration_seconds d) @ ''s''"

definition bars :: "bool \<Rightarrow> string list" where
  "bars disableEmojis =
     (if disableEmojis then map (\<lambda>c. [c]) ''.:-=+*#@''
      else map (\<lambda>n. utf8 [0xE2, 0x96, n]) [0x81, 0x82, 0x83, 0x84, 0x85, 0x86, 0x87, 0x88])"

text \<open>The level of one interval between the least and the greatest.\<close>

definition bar_index :: "duration \<Rightarrow> duration \<Rightarrow> int \<Rightarrow> duration \<Rightarrow> int" where
  "bar_index minV maxV nBars d =
     (if maxV > minV then
        let ratio = fdiv (float_of_int (i64 (d - minV))) (float_of_int (i64 (maxV - minV)));
            idx = ftrunc (fmul ratio (float_of_int (nBars - 1)))
        in if idx \<ge> nBars then nBars - 1 else idx
      else 0)"

text \<open>\<open>None\<close> is the panic of a level out of range.\<close>

definition bar_rune :: "string list \<Rightarrow> int \<Rightarrow> string option" where
  "bar_rune runes idx = (if 0 \<le> idx \<and> idx < int (length runes) then Some (runes ! nat idx) else None)"

fun render_bars :: "(duration \<Rightarrow> string option) \<Rightarrow> duration list \<Rightarrow> string option" where
  "render_bars f [] = Some ''''"
| "render_bars f (d # ds) =
     (case f d of None \<Rightarrow> None | Some r \<Rightarrow> map_option (\<lambda>rest. r @ rest) (render_bars f ds))"

definition sparkline :: "duration list \<Rightarrow> bool \<Rightarrow> string option" where
  "sparkline intervals disableEmojis =
     (if intervals = [] then Some ''''
      else
        let minV = foldl (\<lambda>m d. if d < m then d else m) (hd intervals) (tl intervals);
            maxV = foldl (\<lambda>m d. if d > m then d else m) (hd intervals) (tl intervals);
            runes = bars disableEmojis
        in render_bars (\<lambda>d. bar_rune runes (bar_index minV maxV (int (length runes)) d)) intervals)"

text \<open>The blocks of \<open>SerializeNetworkHealth\<close>, in its order.\<close>

definition liveness_block :: "panel_env \<Rightarrow> NetworkHealth \<Rightarrow> bool \<Rightarrow> string" where
  "liveness_block P nh disableEmojis =
     (let stalled = ''STALLED ('' @ fmt_fixed 1 (SecondsSinceHeight nh) @ ''s since last height)'';
          heightStatus = (if ChainHalted nh
            then (if disableEmojis then stalled else warning_sign @ '' '' @ stalled) else ''yes'');
          offlineStr = (if OfflineCount nh > 0
            then itoa (OfflineCount nh) @ '' vals / '' @ fmt_fixed 1 (OfflinePowerPct nh) @ ''% power''
            else dash itoa (OfflineCount nh));
          offlinePctStr = (if OfflineCount nh > 0 then '''' else dash (pe_float P) (OfflinePowerPct nh))
      in '' LIVENESS'' @ newline @
         ''   height advancing: '' @ pad_right 30 heightStatus @
         ''offline: '' @ (if offlinePctStr = '''' then offlineStr else offlinePctStr) @ newline @
         ''   current round: '' @ pad_right 33 (dash itoa (CurrentMaxRound nh)) @ newline)"

definition quality_block :: "panel_env \<Rightarrow> NetworkHealth \<Rightarrow> bool \<Rightarrow> string option" where
  "quality_block P nh disableEmojis =
     (let rpb = (if RoundsPerBlockAvg nh \<noteq> 0 then fmt_fixed 2 (RoundsPerBlockAvg nh) else dash (pe_float P) (RoundsPerBlockAvg nh));
          r0c = (if RoundZeroCommitPct nh \<noteq> 0 then fmt_fixed 1 (RoundZeroCommitPct nh) @ ''%''
                 else dash (pe_float P) (RoundZeroCommitPct nh));
          timing = (\<lambda>d. if d \<noteq> 0 then fmtDuration d else dash Duration_String d)
      in case (if BlockIntervals nh \<noteq> []
               then map_option (\<lambda>bars. '' ['' @ bars @ '']'') (sparkline (BlockIntervals nh) disableEmojis)
               else Some '''') of
           None \<Rightarrow> None
         | Some spark \<Rightarrow> Some
             ('' CONSENSUS QUALITY'' @ newline @
              ''   rounds/block (avg): '' @ pad_right 22 rpb @ '' round-0 commits: '' @ r0c @ newline @
              ''   block time: '' @ timing (AvgBlockTime nh) @ '' '' @ utf8 [0xC2, 0xB1] @ '' '' @
                timing (BlockTimeStdDev nh) @ spark @ newline @
              ''   step timing (avg): propose '' @ timing (AvgProposeTime nh) @ '' '' @ middle_dot @
                '' prevote '' @ timing (AvgPrevoteTime nh) @ '' '' @ middle_dot @
                '' precommit '' @ timing (AvgPrecommitTime nh) @ newline))"

definition mempool_block :: "NetworkHealth \<Rightarrow> string" where
  "mempool_block nh =
     '' MEMPOOL'' @ newline @
     (if \<not> MempoolKnown nh then ''   unconfirmed txs: '' @ em_dash @ newline
      else ''   unconfirmed txs: '' @ itoa (MempoolTxs nh) @ '' ('' @
        fmt_fixed 0 (fdiv (float_of_int (MempoolBytes nh)) 1024) @ '' KB)'' @ newline)"

text \<open>At most three providers; a fourth is announced by an ellipsis.\<close>

fun hosting_list :: "nat \<Rightarrow> ASNShare list \<Rightarrow> string" where
  "hosting_list i [] = ''''"
| "hosting_list i (asn # asns) =
     (if i > 0 then '' '' @ middle_dot @ '' '' else '''') @
     (if i \<ge> 3 then ellipsis
      else ''AS'' @ itoa (as_ASN asn) @ '' '' @ as_Description asn @ '' '' @ fmt_fixed 1 (as_PowerPct asn) @ ''%''
           @ hosting_list (i + 1) asns)"

definition decentralization_block :: "panel_env \<Rightarrow> NetworkHealth \<Rightarrow> string" where
  "decentralization_block P nh =
     (let n33 = (if Nakamoto33 nh \<noteq> 0 then itoa (Nakamoto33 nh) else dash itoa (Nakamoto33 nh));
          n66 = (if Nakamoto66 nh \<noteq> 0 then itoa (Nakamoto66 nh) else dash itoa (Nakamoto66 nh));
          gini = (if Gini nh \<noteq> 0 then fmt_fixed 2 (Gini nh) else dash (pe_float P) (Gini nh));
          top10 = (if Top10Pct nh \<noteq> 0 then fmt_fixed 1 (Top10Pct nh) @ ''%'' else dash (pe_float P) (Top10Pct nh))
      in '' DECENTRALIZATION'' @ newline @
         ''   nakamoto: '' @ n33 @ '' to halt (>'' @ utf8 [0xE2, 0x85, 0x93] @ '') '' @ middle_dot @ '' '' @
           n66 @ '' to control (>'' @ utf8 [0xE2, 0x85, 0x94] @ '')'' @ newline @
         ''   gini: '' @ pad_right 12 gini @ '' top-10 power: '' @ top10 @ newline @
         (if TopASNs nh \<noteq> [] then ''   top hosting: '' @ hosting_list 0 (TopASNs nh) @ newline else ''''))"

definition equivocation_line :: "bool \<Rightarrow> EquivocationEvent \<Rightarrow> string" where
  "equivocation_line disableEmojis ev =
     (let addr = (if length (ev_ValidatorAddress ev) > 8 then take 8 (ev_ValidatorAddress ev) @ ellipsis
                  else ev_ValidatorAddress ev);
          warn = (if disableEmojis then ''!'' else warning_sign)
      in ''   '' @ warn @ '' equivocation detected (val '' @ addr @ '' h='' @ itoa (ev_Height ev) @
         '' r='' @ itoa (ev_Round ev) @ '' '' @ ev_VoteType ev @ '')'' @ newline)"

definition security_block :: "NetworkHealth \<Rightarrow> bool \<Rightarrow> string" where
  "security_block nh disableEmojis =
     '' SECURITY'' @ newline @
     (if Equivocations nh = [] then ''   no equivocations detected (same-round only)'' @ newline
      else concat (map (equivocation_line disableEmojis) (Equivocations nh)))"

definition SerializeNetworkHealth :: "panel_env \<Rightarrow> bool \<Rightarrow> ('h, 'k, 'p) State \<Rightarrow> string option" where
  "SerializeNetworkHealth P disableEmojis s =
     (case GetNetworkHealth s of
        None \<Rightarrow> Some ('' network health: computing'' @ ellipsis @ newline)
      | Some nh \<Rightarrow>
          (case quality_block P nh disableEmojis of
             None \<Rightarrow> None
           | Some quality \<Rightarrow>
               Some (liveness_block P nh disableEmojis @ quality @ mempool_block nh @
                 decentralization_block P nh @ security_block nh disableEmojis)))"

section \<open>Specification\<close>

definition green_cells :: "ProgressBar \<Rightarrow> bool list" where
  "green_cells p = map (isBackgroundColored p) [0..pb_Width p - 1]"

definition sample_bar :: ProgressBar where
  "sample_bar = \<lparr>pb_Width = 20, pb_Height = 3, pb_Progress = 50, pb_Prefix = ''Prevotes: ''\<rparr>"

text \<open>The level of an interval in exact arithmetic.\<close>

definition level_of :: "duration list \<Rightarrow> nat \<Rightarrow> duration \<Rightarrow> rat" where
  "level_of ds n d = of_int (d - Min (set ds)) / of_int (Max (set ds) - Min (set ds)) * of_nat (n - 1)"

section \<open>Lemmas\<close>

lemma fold_min: "foldl (\<lambda>m d. if d < m then d else m) (a :: int) ds = Min (insert a (set ds))"
proof (induction ds arbitrary: a)
  case (Cons d ds)
  have "Min (insert (if d < a then d else a) (set ds)) = Min (insert a (insert d (set ds)))"
    by (cases "set ds = {}") (auto simp: min_def)
  then show ?case by (simp add: Cons)
qed simp

lemma fold_max: "foldl (\<lambda>m d. if d > m then d else m) (a :: int) ds = Max (insert a (set ds))"
proof (induction ds arbitrary: a)
  case (Cons d ds)
  have "Max (insert (if d > a then d else a) (set ds)) = Max (insert a (insert d (set ds)))"
    by (cases "set ds = {}") (auto simp: max_def)
  then show ?case by (simp add: Cons)
qed simp

lemma render_bars_Some: "(\<And>d. d \<in> set ds \<Longrightarrow> f d \<noteq> None) \<Longrightarrow> render_bars f ds = Some (concat (map (\<lambda>d. the (f d)) ds))"
proof (induction ds)
  case (Cons d ds)
  then obtain r where "f d = Some r" by fastforce
  with Cons show ?case by simp
qed simp

lemma bars_length [simp]: "length (bars b) = 8"
  by (simp add: bars_def)

lemma bar_index_bounds:
  assumes "lo \<le> d" "d \<le> hi" "hi - lo < 2 ^ 63" "lo < hi"
  shows "bar_index lo hi 8 d \<in> {0..7}" "bar_index lo hi 8 lo = 0" "bar_index lo hi 8 hi = 7"
    and "d \<le> d' \<Longrightarrow> d' \<le> hi \<Longrightarrow> bar_index lo hi 8 d \<le> bar_index lo hi 8 d'"
proof -
  have w: "i64 (e - lo) = e - lo" if "lo \<le> e" "e \<le> hi" for e using that assms(3) by (simp add: i64_def)
  have y: "0 < float_of_int (hi - lo)"
    using float_of_int_mono [of 1 "hi - lo"] assms(4) by (simp add: float_of_int_def)
  have seven: "float_of_int 7 = 7" by (simp add: float_of_int_def)
  let ?r = "\<lambda>e. fdiv (float_of_int (e - lo)) (float_of_int (hi - lo))"
  have r: "0 \<le> ?r e \<and> ?r e \<le> 1" if "lo \<le> e" "e \<le> hi" for e
    using that y float_of_int_mono [of "e - lo" "hi - lo"] float_of_int_mono [of 0 "e - lo"]
    by (intro fdiv_unit) (simp_all add: float_of_int_def)
  have x: "0 \<le> fmul (?r e) 7 \<and> fmul (?r e) 7 \<le> 7" if "lo \<le> e" "e \<le> hi" for e
    using r [OF that] fl_int_bounds(1) [of 7 "?r e * 7"] by (simp add: fmul_def fl_nonneg)
  have t: "ftrunc (fmul (?r e) 7) \<in> {0..7}" if "lo \<le> e" "e \<le> hi" for e
    using x [OF that] ftrunc_mono [of "fmul (?r e) 7" "7"] ftrunc_nonneg by auto
  have idx: "bar_index lo hi 8 e = ftrunc (fmul (?r e) 7)" if "lo \<le> e" "e \<le> hi" for e
    using that assms(4) w [OF that] w [of hi] t [OF that] by (simp add: bar_index_def seven Let_def)
  show "bar_index lo hi 8 d \<in> {0..7}" using idx t assms(1,2) by simp
  have "?r lo = 0" by (simp add: fdiv_def float_of_int_def)
  then show "bar_index lo hi 8 lo = 0" using idx [of lo] assms(4) by (simp add: fmul_def ftrunc_def)
  have "?r hi = 1" using y by (simp add: fdiv_def)
  then have "fmul (?r hi) 7 = 7" by (simp add: fmul_def)
  then show "bar_index lo hi 8 hi = 7" using idx [of hi] assms(4) by simp
  show "bar_index lo hi 8 d \<le> bar_index lo hi 8 d'" if "d \<le> d'" "d' \<le> hi"
    using that assms(1,2) y idx [of d] idx [of d']
    by (simp add: ftrunc_mono fmul_mono fdiv_mono float_of_int_mono)
qed

lemma bar_line_append:
  "bar_line p l (xs @ ys) fmt =
     bar_line p l xs fmt @ bar_line p l ys (if xs = [] then fmt else color_tag (isBackgroundColored p (last xs)))"
  by (induction xs arbitrary: fmt) (auto simp: Let_def)

lemma bar_line_uniform:
  "\<forall>i \<in> set xs. isBackgroundColored p i = c \<Longrightarrow> bar_line p l xs fmt =
     (if xs = [] then '''' else (if fmt \<noteq> color_tag c then color_tag c else '''') @ concat (map (cell_text p l) xs))"
  by (induction xs arbitrary: fmt) (auto simp: Let_def)

lemma isBackgroundColored_antimono:
  assumes "0 < pb_Width p" "i \<le> j" "isBackgroundColored p j"
  shows "isBackgroundColored p i"
proof -
  have y: "0 < float_of_int (pb_Width p)"
    using float_of_int_mono [of 1 "pb_Width p"] assms(1) by (simp add: float_of_int_def)
  have "ftrunc (fmul (fdiv (float_of_int i) (float_of_int (pb_Width p))) 100)
      \<le> ftrunc (fmul (fdiv (float_of_int j) (float_of_int (pb_Width p))) 100)"
    using y assms(2) by (simp add: ftrunc_mono fmul_mono fdiv_mono float_of_int_mono)
  then show ?thesis using assms(3) by (simp add: isBackgroundColored_def)
qed

lemma antimono_cut:
  fixes W :: int
  assumes "0 \<le> W" "\<And>i j. 0 \<le> i \<Longrightarrow> i \<le> j \<Longrightarrow> j < W \<Longrightarrow> P j \<Longrightarrow> P i"
  shows "\<exists>k. 0 \<le> k \<and> k \<le> W \<and> (\<forall>i. 0 \<le> i \<and> i < W \<longrightarrow> (P i \<longleftrightarrow> i < k))"
proof -
  define k where "k = int (card {i. 0 \<le> i \<and> i < W \<and> P i})"
  have fin: "finite {i. 0 \<le> i \<and> i < W \<and> P i}" by (rule finite_subset [of _ "{0..<W}"]) auto
  have "card {i. 0 \<le> i \<and> i < W \<and> P i} \<le> card {0..<W}" by (rule card_mono) auto
  then have "0 \<le> k" "k \<le> W" using assms(1) by (simp_all add: k_def)
  moreover have "P i \<longleftrightarrow> i < k" if i: "0 \<le> i" "i < W" for i
  proof
    assume "P i"
    then have "{0..i} \<subseteq> {i. 0 \<le> i \<and> i < W \<and> P i}" using assms(2) i by auto
    from card_mono [OF fin this] i show "i < k" by (simp add: k_def)
  next
    assume lt: "i < k"
    show "P i"
    proof (rule ccontr)
      assume "\<not> P i"
      then have "{j. 0 \<le> j \<and> j < W \<and> P j} \<subseteq> {0..<i}"
        using assms(2) i by (auto simp: not_le) (metis assms(2) i linorder_not_le order_less_imp_le)
      from card_mono [OF _ this] i lt show False by (simp add: k_def)
    qed
  qed
  ultimately show ?thesis by blast
qed

lemma colored_bounds:
  assumes "0 < pb_Width p" "0 \<le> i" "i < pb_Width p"
  shows "0 \<le> ftrunc (fmul (fdiv (float_of_int i) (float_of_int (pb_Width p))) 100)
    \<and> ftrunc (fmul (fdiv (float_of_int i) (float_of_int (pb_Width p))) 100) \<le> 100"
proof -
  have y: "0 < float_of_int (pb_Width p)"
    using float_of_int_mono [of 1 "pb_Width p"] assms(1) by (simp add: float_of_int_def)
  then have "0 \<le> fdiv (float_of_int i) (float_of_int (pb_Width p)) \<and> fdiv (float_of_int i) (float_of_int (pb_Width p)) \<le> 1"
    using assms float_of_int_mono [of i "pb_Width p"] float_of_int_mono [of 0 i]
    by (intro fdiv_unit) (simp_all add: float_of_int_def)
  then have "0 \<le> fmul (fdiv (float_of_int i) (float_of_int (pb_Width p))) 100"
    "fmul (fdiv (float_of_int i) (float_of_int (pb_Width p))) 100 \<le> 100" using fmul_100_unit by blast+
  then show ?thesis using ftrunc_mono [of _ 100] ftrunc_nonneg by auto
qed

lemma label_line:
  assumes "0 \<le> a" "a + int (length t) \<le> W" "percentTextLine p = l" "percentTextStart p = a" "percent_text p = t"
    and "\<forall>c \<in> set t. (of_char c :: nat) < 128"
  shows "concat (map (cell_text p l) [0..W - 1]) =
    replicate (nat a) CHR '' '' @ t @ replicate (nat (W - a - int (length t))) CHR '' ''"
proof -
  let ?n = "int (length t)"
  have cut: "[0..W - 1] = [0..a - 1] @ [a..a + ?n - 1] @ [a + ?n..W - 1]"
  proof -
    have "[0..W - 1] = [0..a - 1] @ [a..W - 1]"
      using assms(1,2) by (cases "a = W") (auto intro: upto_split1)
    moreover have "[a..W - 1] = [a..a + ?n - 1] @ [a + ?n..W - 1]"
      using assms(1,2) by (cases "a + ?n = W") (auto intro: upto_split1)
    ultimately show ?thesis by simp
  qed
  have blank: "concat (map (cell_text p l) xs) = replicate (length xs) CHR '' ''" if "\<forall>i \<in> set xs. i < a \<or> a + ?n \<le> i" for xs
    using that assms(3-5) by (induction xs) (auto simp: cell_text_def)
  have mid: "concat (map (cell_text p l) [a..a + int m - 1]) = take m t" if "m \<le> length t" for m
    using that
  proof (induction m)
    case (Suc m)
    have "[a..a + int (Suc m) - 1] = [a..a + int m - 1] @ [a + int m]" by (simp add: upto_rec2)
    moreover have "cell_text p l (a + int m) = [t ! m]"
      using Suc.prems assms(3-6) by (simp add: cell_text_def byte_string_def)
    ultimately show ?case using Suc by (simp add: take_Suc_conv_app_nth)
  qed simp
  have "concat (map (cell_text p l) [0..a - 1]) = replicate (nat a) CHR '' ''"
    using assms(1) by (subst blank) auto
  moreover have "concat (map (cell_text p l) [a + ?n..W - 1]) = replicate (nat (W - a - ?n)) CHR '' ''"
    by (subst blank) (auto simp: algebra_simps)
  ultimately show ?thesis using mid [of "length t"] by (simp add: cut del: upto.simps)
qed

lemma sparkline_levels:
  assumes "ds \<noteq> []" "Max (set ds) - Min (set ds) < 2 ^ 63"
  shows "\<exists>idx. sparkline ds ascii = Some (concat (map (\<lambda>d. bars ascii ! idx d) ds))
    \<and> (\<forall>d \<in> set ds. idx d < 8) \<and> (\<forall>d \<in> set ds. \<forall>e \<in> set ds. d \<le> e \<longrightarrow> idx d \<le> idx e)
    \<and> (Min (set ds) < Max (set ds) \<longrightarrow> idx (Min (set ds)) = 0 \<and> idx (Max (set ds)) = 7)"
proof -
  let ?lo = "Min (set ds)" and ?hi = "Max (set ds)"
  define idx where "idx d = nat (bar_index ?lo ?hi 8 d)" for d
  obtain a es where ds: "ds = a # es" using assms(1) by (cases ds) auto
  have mm: "foldl (\<lambda>m d. if d < m then d else m) (hd ds) (tl ds) = ?lo" "foldl (\<lambda>m d. if d > m then d else m) (hd ds) (tl ds) = ?hi"
    unfolding ds by (simp_all add: fold_min fold_max)
  have in_range: "?lo \<le> d" "d \<le> ?hi" if "d \<in> set ds" for d using that by simp_all
  have b: "bar_index ?lo ?hi 8 d \<in> {0..7}" if "d \<in> set ds" for d
  proof (cases "?lo < ?hi")
    case True
    then show ?thesis using bar_index_bounds(1) [OF in_range [OF that] assms(2)] by simp
  next
    case False
    then show ?thesis by (simp add: bar_index_def)
  qed
  then have r: "bar_rune (bars ascii) (bar_index ?lo ?hi 8 d) = Some (bars ascii ! idx d)" if "d \<in> set ds" for d
    using b [OF that] by (simp add: bar_rune_def idx_def)
  have "render_bars (\<lambda>d. bar_rune (bars ascii) (bar_index ?lo ?hi 8 d)) ds =
      Some (concat (map (\<lambda>d. the (bar_rune (bars ascii) (bar_index ?lo ?hi 8 d))) ds))"
    by (rule render_bars_Some) (simp add: r)
  also have "map (\<lambda>d. the (bar_rune (bars ascii) (bar_index ?lo ?hi 8 d))) ds = map (\<lambda>d. bars ascii ! idx d) ds"
    by (simp add: r)
  finally have out: "sparkline ds ascii = Some (concat (map (\<lambda>d. bars ascii ! idx d) ds))"
    using assms(1) unfolding sparkline_def Let_def mm by simp
  have lt: "idx d < 8" if "d \<in> set ds" for d using b [OF that] by (simp add: idx_def nat_less_iff)
  have mono: "idx d \<le> idx e" if "d \<in> set ds" "e \<in> set ds" "d \<le> e" for d e
  proof (cases "?lo < ?hi")
    case True
    from bar_index_bounds(4) [OF in_range [OF that(1)] assms(2) True that(3) in_range(2) [OF that(2)]]
    show ?thesis by (simp add: idx_def nat_mono)
  next
    case False
    then show ?thesis by (simp add: idx_def bar_index_def)
  qed
  have ends: "idx ?lo = 0 \<and> idx ?hi = 7" if lt: "?lo < ?hi"
    using bar_index_bounds(2,3) [of ?lo ?lo ?hi] lt assms(2) by (simp add: idx_def)
  from out lt mono ends show ?thesis by blast
qed

lemma sparkline_total:
  "ds \<noteq> [] \<Longrightarrow> Max (set ds) - Min (set ds) < 2 ^ 63 \<Longrightarrow> sparkline ds ascii \<noteq> None"
  using sparkline_levels by fastforce

section \<open>Properties\<close>

text \<open>A progress bar of positive width is a green prefix and an uncoloured rest: it is empty only for a
  negative progress, full from 100 on, the two colour tags are the only ones in a line, and the label
  stands whole and centred in its line when it fits.\<close>

theorem ProgressBar_layout:
  assumes "0 < pb_Width p" "0 \<le> percentTextStart p" "\<forall>c \<in> set (percent_text p). (of_char c :: nat) < 128"
    and "int (length (percent_text p)) \<le> pb_Width p"
  shows "\<exists>k. 0 \<le> k \<and> k \<le> pb_Width p \<and> (k = 0 \<longleftrightarrow> pb_Progress p < 0) \<and> (100 \<le> pb_Progress p \<longrightarrow> k = pb_Width p)
    \<and> (\<forall>l. bar_line p l [0..pb_Width p - 1] '''' =
        (if 0 < k then color_tag True @ concat (map (cell_text p l) [0..k - 1]) else '''') @
        (if k < pb_Width p then color_tag False @ concat (map (cell_text p l) [k..pb_Width p - 1]) else ''''))
    \<and> concat (map (cell_text p (percentTextLine p)) [0..pb_Width p - 1]) =
        replicate (nat (percentTextStart p)) CHR '' '' @ percent_text p @
        replicate (nat (pb_Width p - percentTextStart p - int (length (percent_text p)))) CHR '' ''"
proof -
  let ?W = "pb_Width p" and ?col = "isBackgroundColored p"
  obtain k where k: "0 \<le> k" "k \<le> ?W" "\<And>i. 0 \<le> i \<Longrightarrow> i < ?W \<Longrightarrow> ?col i \<longleftrightarrow> i < k"
    using antimono_cut [of ?W ?col] isBackgroundColored_antimono [OF assms(1)] assms(1) by auto
  have "?col 0 \<longleftrightarrow> 0 \<le> pb_Progress p" by (simp add: isBackgroundColored_def fdiv_def fmul_def float_of_int_def)
  then have zero: "k = 0 \<longleftrightarrow> pb_Progress p < 0" using k(3) [of 0] k(1) assms(1) by auto
  have full: "k = ?W" if "100 \<le> pb_Progress p"
  proof (rule ccontr)
    assume "k \<noteq> ?W"
    with k(1,2) have "0 \<le> k" "k < ?W" by auto
    with k(3) [of k] colored_bounds [OF assms(1) this] that show False by (simp add: isBackgroundColored_def)
  qed
  have line: "bar_line p l [0..?W - 1] '''' =
        (if 0 < k then color_tag True @ concat (map (cell_text p l) [0..k - 1]) else '''') @
        (if k < ?W then color_tag False @ concat (map (cell_text p l) [k..?W - 1]) else '''')" for l
  proof -
    have cut: "[0..?W - 1] = [0..k - 1] @ [k..?W - 1]"
      using k(1,2) by (cases "k = ?W") (auto intro: upto_split1)
    have g: "bar_line p l [0..k - 1] fmt = (if [0..k - 1] = [] then '''' else
        (if fmt \<noteq> color_tag True then color_tag True else '''') @ concat (map (cell_text p l) [0..k - 1]))" for fmt
      using k by (intro bar_line_uniform) auto
    have u: "bar_line p l [k..?W - 1] fmt = (if [k..?W - 1] = [] then '''' else
        (if fmt \<noteq> color_tag False then color_tag False else '''') @ concat (map (cell_text p l) [k..?W - 1]))" for fmt
      using k by (intro bar_line_uniform) auto
    have ne: "[0..k - 1] = [] \<longleftrightarrow> \<not> 0 < k" "[k..?W - 1] = [] \<longleftrightarrow> \<not> k < ?W" by auto
    have "0 < k \<Longrightarrow> last [0..k - 1] = k - 1" by (simp add: upto_rec2)
    then have "0 < k \<Longrightarrow> ?col (last [0..k - 1])" using k by simp
    then show ?thesis unfolding cut bar_line_append g u ne
      by (auto simp: color_tag_def)
  qed
  have "concat (map (cell_text p (percentTextLine p)) [0..?W - 1]) =
        replicate (nat (percentTextStart p)) CHR '' '' @ percent_text p @
        replicate (nat (?W - percentTextStart p - int (length (percent_text p)))) CHR '' ''"
  proof (rule label_line [OF assms(2) _ refl refl refl assms(3)])
    show "percentTextStart p + int (length (percent_text p)) \<le> ?W"
      using assms(2,4)
      by (cases "pb_Width p = int (length (percent_text p))") (simp_all add: percentTextStart_def go_div_def)
  qed
  with k(1,2) zero full line show ?thesis by blast
qed

theorem ProgressBar_layout_witness:
  "concat (map (cell_text sample_bar 1) [0..19]) = ''   Prevotes:  50%   ''"
proof -
  have t: "percent_text sample_bar = ''Prevotes:  50%''"
    by (simp add: percent_text_def sample_bar_def itoa_def digits.simps digit_char_def char_of_def bit_0)
  then have s: "percentTextStart sample_bar = 3" "percentTextLine sample_bar = 1" "pb_Width sample_bar = 20"
    by (simp_all add: percentTextStart_def percentTextLine_def sample_bar_def go_div_def)
  have "\<forall>c \<in> set (percent_text sample_bar). (of_char c :: nat) < 128" by (simp add: t)
  with ProgressBar_layout [of sample_bar] show ?thesis by (auto simp: s t eval_nat_numeral simp del: upto.simps)
qed

text \<open>The sparkline never runs off its eight levels, whatever the intervals (as long as their spread is
  an \<open>int64\<close>): there is one bar per interval, longer intervals get no lower bars, the shortest gets the
  first level and the longest the last.\<close>

theorem sparkline_spec:
  assumes "ds \<noteq> []" "Max (set ds) - Min (set ds) < 2 ^ 63"
  shows "\<exists>idx. sparkline ds ascii = Some (concat (map (\<lambda>d. bars ascii ! idx d) ds))
    \<and> (\<forall>d \<in> set ds. idx d < 8) \<and> (\<forall>d \<in> set ds. \<forall>e \<in> set ds. d \<le> e \<longrightarrow> idx d \<le> idx e)
    \<and> (Min (set ds) < Max (set ds) \<longrightarrow> idx (Min (set ds)) = 0 \<and> idx (Max (set ds)) = 7)"
  using assms by (rule sparkline_levels)

theorem sparkline_spec_witness:
  "\<exists>idx. sparkline [6000000000, 5000000000, 9000000000] True = Some (concat (map (\<lambda>d. bars True ! idx d) [6000000000, 5000000000, 9000000000]))
    \<and> idx 5000000000 = (0 :: nat) \<and> idx (9000000000 :: int) = 7"
  using sparkline_spec [of "[6000000000, 5000000000, 9000000000]" True] by auto

end
