(* ===== verification/Grids.thy ===== *)
theory Grids
  imports Panels
begin

text \<open>
  The tables of \<open>pkg/display\<close>: \<open>last_round_table.go\<close>, \<open>all_rounds_table.go\<close>, \<open>net_info_table.go\<close>,
  \<open>rpcs_table.go\<close> and \<open>validator_health_table.go\<close>. Each keeps a grid of cells that its setters rebuild
  and that tview reads through \<open>GetCell\<close>, \<open>GetRowCount\<close> and \<open>GetColumnCount\<close>; this contract is the
  locale \<open>table_content\<close>. Of a cell its text, its highlight (the dim grey background), its alignment,
  its bold face and whether it is selectable are kept. tview asks for non-negative rows and columns
  only. \<open>None\<close> is a panic, of \<open>PadAndTrim\<close> or of \<open>make\<close> on a negative length.
\<close>

section \<open>Cells\<close>

record TableCell =
  tc_Text :: string
  tc_Highlight :: bool
  tc_AlignRight :: bool
  tc_Bold :: bool
  tc_Selectable :: bool

definition NewTableCell :: "string \<Rightarrow> TableCell" where
  "NewTableCell t = \<lparr>tc_Text = t, tc_Highlight = False, tc_AlignRight = False, tc_Bold = False, tc_Selectable = True\<rparr>"

definition right_cell :: "string \<Rightarrow> TableCell" where
  "right_cell t = (NewTableCell t)\<lparr>tc_AlignRight := True\<rparr>"

definition grid_cell :: "TableCell list list \<Rightarrow> nat \<Rightarrow> nat \<Rightarrow> TableCell option" where
  "grid_cell cells row column =
     (if length cells \<le> row then None
      else if length (cells ! row) \<le> column then None
      else Some (cells ! row ! column))"

definition grid_columns :: "TableCell list list \<Rightarrow> nat" where
  "grid_columns cells = (if cells = [] then 0 else length (cells ! 0))"

text \<open>Sequencing over a list of steps any of which may panic.\<close>

fun all_Some :: "'a option list \<Rightarrow> 'a list option" where
  "all_Some [] = Some []"
| "all_Some (x # xs) = (case x of None \<Rightarrow> None | Some y \<Rightarrow> map_option (\<lambda>ys. y # ys) (all_Some xs))"

section \<open>last\_round\_table.go\<close>

record 'h LastRoundTableData =
  lr_TMValidators :: TMValidators
  lr_RoundData :: 'h
  lr_CurrentHeight :: int
  lr_CurrentRound :: int
  lr_ConsensusError :: "goerror option"
  lr_ColumnsCount :: int
  lr_DisableEmojis :: bool
  lr_Transpose :: bool
  lr_cells :: "TableCell list list"

definition NewLastRoundTableData :: "('h, 'r) round_env \<Rightarrow> int \<Rightarrow> bool \<Rightarrow> bool \<Rightarrow> 'h LastRoundTableData" where
  "NewLastRoundTableData B columnsCount disableEmojis transposed =
     \<lparr>lr_TMValidators = [], lr_RoundData = NewRoundDataMap B, lr_CurrentHeight = 0, lr_CurrentRound = 0,
      lr_ConsensusError = None, lr_ColumnsCount = columnsCount, lr_DisableEmojis = disableEmojis,
      lr_Transpose = transposed, lr_cells = []\<rparr>"

definition lr_GetCell :: "'h LastRoundTableData \<Rightarrow> nat \<Rightarrow> nat \<Rightarrow> TableCell option" where
  "lr_GetCell d = grid_cell (lr_cells d)"

definition lr_GetRowCount :: "'h LastRoundTableData \<Rightarrow> nat" where
  "lr_GetRowCount d = length (lr_cells d)"

definition lr_GetColumnCount :: "'h LastRoundTableData \<Rightarrow> nat" where
  "lr_GetColumnCount d = grid_columns (lr_cells d)"

definition generateValidatorDisplayText ::
    "('h, 'r) round_env \<Rightarrow> 'h LastRoundTableData \<Rightarrow> TMValidator \<Rightarrow> string option" where
  "generateValidatorDisplayText B d validator =
     (let emoji = (if lr_DisableEmojis d then ''[k]'' else utf8 [0xF0, 0x9F, 0x94, 0x91]);
          name = (if HasAssignedKey validator then emoji @ '' '' @ GetDisplayName validator else GetDisplayName validator);
          missing = (if lr_DisableEmojis d then ''[ ]'' else utf8 [0xE2, 0x9D, 0x8C]);
          state = (\<lambda>t. if lr_CurrentHeight d > 0
            then VoteState_Serialize (GetVote B (lr_RoundData d) (lr_CurrentHeight d) (lr_CurrentRound d)
                   (GetDisplayAddress validator) t) (lr_DisableEmojis d)
            else missing);
          votingPowerStr = (case tv_VotingPowerPercent validator of None \<Rightarrow> ''0.00'' | Some q \<Rightarrow> fmt_fixed 2 q)
      in case (RightPadAndTrim (itoa (tv_Index validator + 1)) 3, RightPadAndTrim votingPowerStr 6, LeftPadAndTrim name 25) of
           (Some i, Some vp, Some n) \<Rightarrow>
             Some ('' '' @ state PrevoteType @ '' '' @ state PrecommitType @ '' '' @ i @ '' '' @ vp @ ''% '' @ n @ '' '')
         | _ \<Rightarrow> None)"

text \<open>The cell that shows a validator, and the blank cell past the last one.\<close>

definition lr_cell :: "('h, 'r) round_env \<Rightarrow> 'h LastRoundTableData \<Rightarrow> nat \<Rightarrow> TableCell option" where
  "lr_cell B d index =
     (if index < length (lr_TMValidators d) then
        let validator = lr_TMValidators d ! index;
            isProposer = (case GetProposers B (lr_RoundData d) (lr_CurrentHeight d) (lr_CurrentRound d) of
              None \<Rightarrow> False | Some proposers \<Rightarrow> GetDisplayAddress validator \<in> proposers)
        in map_option (\<lambda>text. (NewTableCell text)\<lparr>tc_Highlight := isProposer\<rparr>) (generateValidatorDisplayText B d validator)
      else Some (NewTableCell ''''))"

text \<open>The index shown in a cell: row by row, or column by column with the number of rows of the \<^emph>\<open>old\<close> grid.\<close>

definition cell_index :: "'h LastRoundTableData \<Rightarrow> nat \<Rightarrow> nat \<Rightarrow> nat \<Rightarrow> nat" where
  "cell_index d columns row column =
     (if lr_Transpose d then column * lr_GetRowCount d + row else row * columns + column)"

definition lr_rowsCount :: "int \<Rightarrow> int \<Rightarrow> int" where
  "lr_rowsCount validatorCount columns =
     (let q = go_div validatorCount columns in if validatorCount - q * columns = 0 then q else q + 1)"

definition lr_makeCells :: "('h, 'r) round_env \<Rightarrow> 'h LastRoundTableData \<Rightarrow> TableCell list list option" where
  "lr_makeCells B d =
     (case lr_ConsensusError d of
        Some err \<Rightarrow> Some [[NewTableCell ('' Error fetching consensus: '' @ err)]]
      | None \<Rightarrow>
          (if lr_ColumnsCount d = 0 then Some []
           else
             let rowsCount = lr_rowsCount (int (length (lr_TMValidators d))) (lr_ColumnsCount d)
             in if rowsCount < 0 \<or> (0 < rowsCount \<and> lr_ColumnsCount d < 0) then None
                else
                  let columns = nat (lr_ColumnsCount d)
                  in all_Some (map (\<lambda>row. all_Some (map (\<lambda>column. lr_cell B d (cell_index d columns row column))
                       [0..<columns])) [0..<nat rowsCount])))"

definition lr_redrawData :: "('h, 'r) round_env \<Rightarrow> 'h LastRoundTableData \<Rightarrow> 'h LastRoundTableData option" where
  "lr_redrawData B d = map_option (\<lambda>cells. d\<lparr>lr_cells := cells\<rparr>) (lr_makeCells B d)"

definition SetColumnsCount :: "('h, 'r) round_env \<Rightarrow> int \<Rightarrow> 'h LastRoundTableData \<Rightarrow> 'h LastRoundTableData option" where
  "SetColumnsCount B columns d = lr_redrawData B (d\<lparr>lr_ColumnsCount := columns\<rparr>)"

definition lr_SetTranspose :: "('h, 'r) round_env \<Rightarrow> bool \<Rightarrow> 'h LastRoundTableData \<Rightarrow> 'h LastRoundTableData option" where
  "lr_SetTranspose B transposed d = lr_redrawData B (d\<lparr>lr_Transpose := transposed\<rparr>)"

definition lr_SetTMValidators ::
    "('h, 'r) round_env \<Rightarrow> TMValidators \<Rightarrow> goerror option \<Rightarrow> 'h LastRoundTableData \<Rightarrow> 'h LastRoundTableData option" where
  "lr_SetTMValidators B validators consensusError d =
     lr_redrawData B (d\<lparr>lr_TMValidators := validators, lr_ConsensusError := consensusError\<rparr>)"

definition lr_SetRoundData :: "('h, 'r) round_env \<Rightarrow> 'h \<Rightarrow> 'h LastRoundTableData \<Rightarrow> 'h LastRoundTableData option" where
  "lr_SetRoundData B roundData d = lr_redrawData B (d\<lparr>lr_RoundData := roundData\<rparr>)"

definition lr_SetCurrentRound :: "('h, 'r) round_env \<Rightarrow> int \<Rightarrow> int \<Rightarrow> 'h LastRoundTableData \<Rightarrow> 'h LastRoundTableData option" where
  "lr_SetCurrentRound B height rnd d = lr_redrawData B (d\<lparr>lr_CurrentHeight := height, lr_CurrentRound := rnd\<rparr>)"

section \<open>all\_rounds\_table.go\<close>

text \<open>\<open>ar_RoundData\<close> is a \<open>nil\<close> pointer until it is set.\<close>

record 'h AllRoundsTableData =
  ar_RoundData :: "'h option"
  ar_Validators :: TMValidators
  ar_DisableEmojis :: bool
  ar_Transpose :: bool
  ar_CurrentHeight :: int
  ar_CurrentRound :: int
  ar_cells :: "TableCell list list"

definition NewAllRoundsTableData :: "bool \<Rightarrow> bool \<Rightarrow> 'h AllRoundsTableData" where
  "NewAllRoundsTableData disableEmojis transposed =
     \<lparr>ar_RoundData = None, ar_Validators = [], ar_DisableEmojis = disableEmojis, ar_Transpose = transposed,
      ar_CurrentHeight = 0, ar_CurrentRound = 0, ar_cells = []\<rparr>"

definition ar_GetCell :: "'h AllRoundsTableData \<Rightarrow> nat \<Rightarrow> nat \<Rightarrow> TableCell option" where
  "ar_GetCell d = grid_cell (ar_cells d)"

definition ar_GetRowCount :: "'h AllRoundsTableData \<Rightarrow> nat" where
  "ar_GetRowCount d = length (ar_cells d)"

definition ar_GetColumnCount :: "'h AllRoundsTableData \<Rightarrow> nat" where
  "ar_GetColumnCount d = grid_columns (ar_cells d)"

definition ar_SetTMValidators :: "TMValidators \<Rightarrow> int \<Rightarrow> 'h AllRoundsTableData \<Rightarrow> 'h AllRoundsTableData" where
  "ar_SetTMValidators validators height d =
     (let d = (if ar_CurrentHeight d = 0 \<and> height > 0 then d\<lparr>ar_CurrentHeight := height\<rparr> else d)
      in d\<lparr>ar_Validators := validators\<rparr>)"

definition ar_SetCurrentRound :: "int \<Rightarrow> int \<Rightarrow> 'h AllRoundsTableData \<Rightarrow> 'h AllRoundsTableData" where
  "ar_SetCurrentRound height rnd d = d\<lparr>ar_CurrentHeight := height, ar_CurrentRound := rnd\<rparr>"

definition ar_SetRoundData :: "'h \<Rightarrow> 'h AllRoundsTableData \<Rightarrow> 'h AllRoundsTableData" where
  "ar_SetRoundData roundData d = d\<lparr>ar_RoundData := Some roundData\<rparr>"

definition ar_SetTranspose :: "bool \<Rightarrow> 'h AllRoundsTableData \<Rightarrow> 'h AllRoundsTableData" where
  "ar_SetTranspose transposed d = d\<lparr>ar_Transpose := transposed\<rparr>"

definition header_cell :: "string \<Rightarrow> bool \<Rightarrow> TableCell" where
  "header_cell t bold = (NewTableCell t)\<lparr>tc_Selectable := False, tc_Bold := bold\<rparr>"

definition round_header :: "HeightAndRound \<Rightarrow> TableCell" where
  "round_header hr =
     (let heightStr = itoa (hr_Height hr);
          heightStr = (if length heightStr > 4 then drop (length heightStr - 4) heightStr else heightStr)
      in header_cell (heightStr @ ''.'' @ itoa (hr_Round hr)) True)"

definition round_cell :: "('h, 'r) round_env \<Rightarrow> bool \<Rightarrow> bool \<Rightarrow> address \<Rightarrow> RoundData \<Rightarrow> TableCell" where
  "round_cell B disableEmojis isCurrentProposer addr roundData =
     (let valVotes = (case Votes roundData addr of None \<Rightarrow> Map.empty | Some m \<Rightarrow> m);
          prevoteState = VoteStateFromVotesMap B valVotes PrevoteType;
          precommitState = VoteStateFromVotesMap B valVotes PrecommitType
      in (NewTableCell ('' '' @ VoteState_Serialize precommitState disableEmojis @
            VoteState_Serialize prevoteState disableEmojis @ '' ''))
         \<lparr>tc_Highlight := isCurrentProposer \<or> addr \<in> Proposers roundData\<rparr>)"

definition validator_row ::
    "('h, 'r) round_env \<Rightarrow> 'h \<Rightarrow> 'h AllRoundsTableData \<Rightarrow> nat \<times> TMValidator \<Rightarrow> TableCell list" where
  "validator_row B roundData d = (\<lambda>(i, validator).
     (let isCurrentProposer = (case GetProposers B roundData (ar_CurrentHeight d) (ar_CurrentRound d) of
            None \<Rightarrow> False | Some proposers \<Rightarrow> GetDisplayAddress validator \<in> proposers);
          vp = (case tv_VotingPowerPercent validator of None \<Rightarrow> ''<nil>'' | Some q \<Rightarrow> fmt_fixed 2 q)
      in [(NewTableCell (itoa (int i + 1) @ ''. '' @ GetDisplayName validator))\<lparr>tc_Highlight := isCurrentProposer\<rparr>,
          (NewTableCell (''('' @ vp @ ''%)''))\<lparr>tc_Highlight := isCurrentProposer\<rparr>] @
         map (\<lambda>(_, rd). round_cell B (ar_DisableEmojis d) isCurrentProposer (GetDisplayAddress validator) rd)
           (ReverseIter B roundData)))"

definition createCells :: "('h, 'r) round_env \<Rightarrow> 'h AllRoundsTableData \<Rightarrow> TableCell list list option" where
  "createCells B d =
     (if ar_Validators d = [] then Some []
      else case ar_RoundData d of
        None \<Rightarrow> None
      | Some roundData \<Rightarrow>
          Some (([header_cell ''Validator'' True, header_cell '''' False] @
                  map (\<lambda>(hr, _). round_header hr) (ReverseIter B roundData))
                # map (validator_row B roundData d) (enumerate 0 (ar_Validators d))))"

definition ar_Update :: "('h, 'r) round_env \<Rightarrow> 'h AllRoundsTableData \<Rightarrow> 'h AllRoundsTableData option" where
  "ar_Update B d = map_option (\<lambda>cells. d\<lparr>ar_cells := cells\<rparr>) (createCells B d)"

section \<open>net\_info\_table.go\<close>

record NetInfoTableData =
  nt_NetInfo :: "NetInfo option"
  nt_cells :: "TableCell list list"

definition NewNetInfoTableData :: NetInfoTableData where
  "NewNetInfoTableData = \<lparr>nt_NetInfo = None, nt_cells = []\<rparr>"

definition nt_GetCell :: "NetInfoTableData \<Rightarrow> nat \<Rightarrow> nat \<Rightarrow> TableCell option" where
  "nt_GetCell d = grid_cell (nt_cells d)"

definition nt_GetRowCount :: "NetInfoTableData \<Rightarrow> nat" where
  "nt_GetRowCount d = length (nt_cells d)"

definition nt_GetColumnCount :: "NetInfoTableData \<Rightarrow> nat" where
  "nt_GetColumnCount d = grid_columns (nt_cells d)"

definition peer_row :: "Peer \<Rightarrow> TableCell list" where
  "peer_row peer =
     (let c = peer_ConnectionStatus peer; n = peer_NodeInfo peer; v = ni_ProtocolVersion n
      in [NewTableCell (if peer_IsOutbound peer then ''out'' else ''in''),
          NewTableCell (peer_RemoteIP peer),
          NewTableCell (ni_Moniker n),
          NewTableCell (hd (split_on CHR ''.'' (Duration_String (cs_Duration c)))),
          right_cell (ByteSize_String (fs_CurRate (cs_SendMonitor c)) @ ''/s''),
          right_cell (ByteSize_String (fs_CurRate (cs_RecvMonitor c)) @ ''/s''),
          right_cell (ByteSize_String (fs_AvgRate (cs_SendMonitor c)) @ ''/s''),
          right_cell (ByteSize_String (fs_AvgRate (cs_RecvMonitor c)) @ ''/s''),
          NewTableCell (ni_DefaultNodeID n),
          NewTableCell (ni_Version n),
          NewTableCell (itoa (pv_P2P v) @ ''/'' @ itoa (pv_Block v) @ ''/'' @ itoa (pv_App v)),
          NewTableCell (ni_RPCAddress n)])"

definition net_info_header :: "TableCell list list" where
  "net_info_header =
     [map NewTableCell ['''', ''IP'', ''Moniker'', ''Duration'', ''Send (cur)'', ''Recv (cur)'', ''Send (avg)'',
        ''Recv (avg)'', ''Node ID'', ''Version'', ''Proto'', ''RPC''],
      map (\<lambda>n. NewTableCell (replicate n CHR ''='')) [0, 2, 8, 8, 10, 10, 10, 10, 40, 7, 5, 3]]"

text \<open>\<open>srt\<close> is \<open>slices.SortFunc\<close> with the comparison by average receive rate, which is no strict order
  (it calls equal rates greater): only that the result is a permutation may be relied on. The peers are
  sorted in place, so the first component is the new \<open>NetInfo\<close>.\<close>

definition nt_makeCells :: "(Peer list \<Rightarrow> Peer list) \<Rightarrow> NetInfoTableData \<Rightarrow> NetInfo option \<times> TableCell list list" where
  "nt_makeCells srt d =
     (case nt_NetInfo d of
        None \<Rightarrow> (None, [])
      | Some netInfo \<Rightarrow>
          (let peers = srt (net_Peers netInfo)
           in (Some (netInfo\<lparr>net_Peers := peers\<rparr>), net_info_header @ map peer_row peers)))"

definition nt_redrawData :: "(Peer list \<Rightarrow> Peer list) \<Rightarrow> NetInfoTableData \<Rightarrow> NetInfoTableData" where
  "nt_redrawData srt d = (let (netInfo, cells) = nt_makeCells srt d in d\<lparr>nt_NetInfo := netInfo, nt_cells := cells\<rparr>)"

definition nt_SetNetInfo :: "(Peer list \<Rightarrow> Peer list) \<Rightarrow> NetInfo option \<Rightarrow> NetInfoTableData \<Rightarrow> NetInfoTableData" where
  "nt_SetNetInfo srt netInfo d = nt_redrawData srt (d\<lparr>nt_NetInfo := netInfo\<rparr>)"

section \<open>rpcs\_table.go\<close>

record RPCsTableData =
  rt_knownRPCs :: "RPC list"
  rt_cells :: "TableCell list list"

definition NewRPCsTableData :: RPCsTableData where
  "NewRPCsTableData = \<lparr>rt_knownRPCs = [], rt_cells = []\<rparr>"

definition rt_GetCell :: "RPCsTableData \<Rightarrow> nat \<Rightarrow> nat \<Rightarrow> TableCell option" where
  "rt_GetCell d = grid_cell (rt_cells d)"

definition rt_GetRowCount :: "RPCsTableData \<Rightarrow> nat" where
  "rt_GetRowCount d = length (rt_cells d)"

definition rt_GetColumnCount :: "RPCsTableData \<Rightarrow> nat" where
  "rt_GetColumnCount d = grid_columns (rt_cells d)"

definition rt_redrawData :: "RPCsTableData \<Rightarrow> RPCsTableData" where
  "rt_redrawData d =
     d\<lparr>rt_cells := map (\<lambda>rpc. [NewTableCell (rpc_URL rpc), NewTableCell (rpc_Moniker rpc)]) (rt_knownRPCs d)\<rparr>"

definition SetKnownRPCs :: "RPC list \<Rightarrow> RPCsTableData \<Rightarrow> RPCsTableData" where
  "SetKnownRPCs rpcs d = rt_redrawData (d\<lparr>rt_knownRPCs := rpcs\<rparr>)"

section \<open>validator\_health\_table.go\<close>

record ValidatorHealthTableData =
  ht_rows :: "ValidatorHealthRow list"
  ht_disableEmojis :: bool
  ht_cells :: "TableCell list list"

definition NewValidatorHealthTableData :: "bool \<Rightarrow> ValidatorHealthTableData" where
  "NewValidatorHealthTableData disableEmojis = \<lparr>ht_rows = [], ht_disableEmojis = disableEmojis, ht_cells = []\<rparr>"

definition ht_GetCell :: "ValidatorHealthTableData \<Rightarrow> nat \<Rightarrow> nat \<Rightarrow> TableCell option" where
  "ht_GetCell d = grid_cell (ht_cells d)"

definition ht_GetRowCount :: "ValidatorHealthTableData \<Rightarrow> nat" where
  "ht_GetRowCount d = length (ht_cells d)"

definition ht_GetColumnCount :: "ValidatorHealthTableData \<Rightarrow> nat" where
  "ht_GetColumnCount d = grid_columns (ht_cells d)"

definition serializeStatus :: "bool \<Rightarrow> bool \<Rightarrow> bool \<Rightarrow> string" where
  "serializeStatus disableEmojis online equivocated =
     (if online then (if disableEmojis then ''[on]'' else utf8 [0xE2, 0x9C, 0x85])
      else (if disableEmojis then ''[off]'' else utf8 [0xE2, 0x9D, 0x8C])) @
     (if equivocated then (if disableEmojis then ''[!]'' else warning_sign) else '''')"

definition health_header :: "TableCell list list" where
  "health_header =
     [map NewTableCell [''#'', ''Moniker'', ''VP%'', ''Sign%'', ''Missed'', ''Prevote%'', ''Precommit%'', ''Prop%'',
        ''ArrPrevote'', ''ArrPrecommit'', ''ASN'', ''Status''],
      map (\<lambda>n. NewTableCell (replicate n CHR ''='')) [1, 7, 4, 5, 6, 8, 10, 5, 10, 12, 3, 6]]"

definition health_row :: "bool \<Rightarrow> nat \<times> ValidatorHealthRow \<Rightarrow> TableCell list option" where
  "health_row disableEmojis = (\<lambda>(i, row).
     (case (RightPadAndTrim (vh_Moniker row) 20,
            if vh_ASN row \<noteq> 0 then
              (if vh_ASNOrg row \<noteq> '''' then RightPadAndTrim (vh_ASNOrg row) 12 else Some (''AS'' @ itoa (vh_ASN row)))
            else Some em_dash) of
        (Some moniker, Some asnText) \<Rightarrow> Some
          ([right_cell (itoa (int i + 1)), NewTableCell moniker, right_cell (fmt_fixed 2 (vh_VotingPowerPct row))] @
           (if vh_HasHistory row then
              [right_cell (fmt_fixed 2 (vh_SigningRatePct row)), right_cell (itoa (vh_BlocksMissed row)),
               right_cell (fmt_fixed 2 (vh_PrevoteRatePct row)), right_cell (fmt_fixed 2 (vh_PrecommitRatePct row)),
               right_cell (fmt_fixed 2 (vh_ProposerSharePct row))]
            else replicate 5 (right_cell em_dash)) @
           (if vh_HasLatency row then
              [right_cell (Duration_String (vh_AvgPrevoteArrival row)),
               right_cell (Duration_String (vh_AvgPrecommitArrival row))]
            else replicate 2 (right_cell em_dash)) @
           [NewTableCell asnText, NewTableCell (serializeStatus disableEmojis (vh_Online row) (vh_Equivocated row))])
      | _ \<Rightarrow> None))"

definition ht_makeCells :: "ValidatorHealthTableData \<Rightarrow> TableCell list list option" where
  "ht_makeCells d =
     map_option (\<lambda>rows. health_header @ rows) (all_Some (map (health_row (ht_disableEmojis d)) (enumerate 0 (ht_rows d))))"

definition ht_redrawData :: "ValidatorHealthTableData \<Rightarrow> ValidatorHealthTableData option" where
  "ht_redrawData d = map_option (\<lambda>cells. d\<lparr>ht_cells := cells\<rparr>) (ht_makeCells d)"

definition SetRows :: "ValidatorHealthRow list \<Rightarrow> ValidatorHealthTableData \<Rightarrow> ValidatorHealthTableData option" where
  "SetRows rows d = ht_redrawData (d\<lparr>ht_rows := rows\<rparr>)"

section \<open>Specification\<close>

definition rectangular :: "'a list list \<Rightarrow> bool" where
  "rectangular cells \<longleftrightarrow> (\<forall>row \<in> set cells. length row = length (hd cells))"

definition sample_table :: "(int, (int, RoundData) fmap) fmap LastRoundTableData" where
  "sample_table = (NewLastRoundTableData fmap_env 2 True True)\<lparr>lr_TMValidators :=
     [sample_validator ''A'' 1, sample_validator ''B'' 1, sample_validator ''C'' 1]\<rparr>"

text \<open>\<open>tview.TableContent\<close>: a table is asked for its size and then for the cells inside it; a well-formed
  table answers every such question with a cell.\<close>

locale table_content =
  fixes ok :: "'t \<Rightarrow> bool"
    and GetCell :: "'t \<Rightarrow> nat \<Rightarrow> nat \<Rightarrow> TableCell option"
    and GetRowCount :: "'t \<Rightarrow> nat" and GetColumnCount :: "'t \<Rightarrow> nat"
  assumes inside: "ok t \<Longrightarrow> GetCell t row column \<noteq> None \<longleftrightarrow> row < GetRowCount t \<and> column < GetColumnCount t"
begin

text \<open>What a full redraw of tview shows.\<close>

definition drawn :: "'t \<Rightarrow> TableCell option list list" where
  "drawn t = map (\<lambda>row. map (GetCell t row) [0..<GetColumnCount t]) [0..<GetRowCount t]"

lemma drawn_full: "ok t \<Longrightarrow> cells \<in> set (drawn t) \<Longrightarrow> c \<in> set cells \<Longrightarrow> c \<noteq> None"
  using inside by (auto simp: drawn_def)

lemma drawn_rectangular: "cells \<in> set (drawn t) \<Longrightarrow> length cells = GetColumnCount t"
  by (auto simp: drawn_def)

end

section \<open>Lemmas\<close>

lemma grid_cell_inside:
  assumes "rectangular cells"
  shows "grid_cell cells row column \<noteq> None \<longleftrightarrow> row < length cells \<and> column < grid_columns cells"
proof (cases "row < length cells")
  case True
  then have "cells \<noteq> []" "cells ! row \<in> set cells" by auto
  then have "length (cells ! row) = length (hd cells)" using assms unfolding rectangular_def by blast
  then have "length (cells ! row) = grid_columns cells"
    using \<open>cells \<noteq> []\<close> hd_conv_nth [of cells] by (simp add: grid_columns_def)
  with True show ?thesis by (simp add: grid_cell_def)
qed (simp add: grid_cell_def)

interpretation last_round: table_content "\<lambda>d. rectangular (lr_cells d)" lr_GetCell lr_GetRowCount lr_GetColumnCount
  by unfold_locales (unfold lr_GetCell_def lr_GetRowCount_def lr_GetColumnCount_def, rule grid_cell_inside)

interpretation all_rounds: table_content "\<lambda>d. rectangular (ar_cells d)" ar_GetCell ar_GetRowCount ar_GetColumnCount
  by unfold_locales (unfold ar_GetCell_def ar_GetRowCount_def ar_GetColumnCount_def, rule grid_cell_inside)

interpretation net_info: table_content "\<lambda>d. rectangular (nt_cells d)" nt_GetCell nt_GetRowCount nt_GetColumnCount
  by unfold_locales (unfold nt_GetCell_def nt_GetRowCount_def nt_GetColumnCount_def, rule grid_cell_inside)

interpretation rpc_list: table_content "\<lambda>d. rectangular (rt_cells d)" rt_GetCell rt_GetRowCount rt_GetColumnCount
  by unfold_locales (unfold rt_GetCell_def rt_GetRowCount_def rt_GetColumnCount_def, rule grid_cell_inside)

interpretation health: table_content "\<lambda>d. rectangular (ht_cells d)" ht_GetCell ht_GetRowCount ht_GetColumnCount
  by unfold_locales (unfold ht_GetCell_def ht_GetRowCount_def ht_GetColumnCount_def, rule grid_cell_inside)

lemma all_Some_iff: "all_Some xs = Some ys \<longleftrightarrow> xs = map Some ys"
  by (induction xs arbitrary: ys) (auto split: option.split)

lemma all_Some_total: "(\<And>x. x \<in> set xs \<Longrightarrow> x \<noteq> None) \<Longrightarrow> all_Some xs = Some (map the xs)"
  by (induction xs) (auto split: option.split)

lemma RightPadAndTrim_Some: "3 \<le> n \<Longrightarrow> \<exists>r. RightPadAndTrim s n = Some r"
  by (simp add: RightPadAndTrim_def PadAndTrim_Some)

lemma lr_cell_Some: "lr_cell B d i \<noteq> None"
proof -
  have "generateValidatorDisplayText B d v \<noteq> None" for v
  proof -
    obtain x where x: "RightPadAndTrim (itoa (tv_Index v + 1)) 3 = Some x" using RightPadAndTrim_Some [of 3] by fastforce
    obtain y where y: "RightPadAndTrim (case tv_VotingPowerPercent v of None \<Rightarrow> ''0.00'' | Some q \<Rightarrow> fmt_fixed 2 q) 6 = Some y"
      using RightPadAndTrim_Some [of 6] by fastforce
    have "\<exists>z. LeftPadAndTrim s 25 = Some z" for s by (simp add: LeftPadAndTrim_def PadAndTrim_Some)
    then obtain z where "LeftPadAndTrim (if HasAssignedKey v
        then (if lr_DisableEmojis d then ''[k]'' else utf8 [0xF0, 0x9F, 0x94, 0x91]) @ '' '' @ GetDisplayName v
        else GetDisplayName v) 25 = Some z" by blast
    then show ?thesis unfolding generateValidatorDisplayText_def Let_def by (simp only: x y) simp
  qed
  then show ?thesis by (simp add: lr_cell_def Let_def)
qed

lemma lr_rowsCount_bounds:
  assumes "0 < c"
  shows "0 \<le> lr_rowsCount (int n) c" "int n \<le> lr_rowsCount (int n) c * c"
proof -
  have q: "go_div (int n) c = int n div c" using assms by (cases "n = 0") (simp_all add: go_div_def)
  have m: "int n - int n div c * c = int n mod c" by (simp add: minus_div_mult_eq_mod)
  have "0 \<le> int n div c" using assms by (simp add: pos_imp_zdiv_nonneg_iff)
  then show "0 \<le> lr_rowsCount (int n) c" by (simp add: lr_rowsCount_def q Let_def)
  have "int n \<le> int n div c * c + c" "int n mod c = 0 \<Longrightarrow> int n = int n div c * c"
    using div_mult_mod_eq [of "int n" c] pos_mod_bound [of c "int n"] assms by linarith+
  then show "int n \<le> lr_rowsCount (int n) c * c"
    by (simp add: lr_rowsCount_def q m Let_def distrib_right)
qed

lemma lr_makeCells_grid:
  assumes "lr_ConsensusError d = None" "0 < lr_ColumnsCount d"
  shows "lr_makeCells B d = Some (map (\<lambda>row. map (\<lambda>column.
      the (lr_cell B d (cell_index d (nat (lr_ColumnsCount d)) row column))) [0..<nat (lr_ColumnsCount d)])
      [0..<nat (lr_rowsCount (int (length (lr_TMValidators d))) (lr_ColumnsCount d))])"
proof -
  have row: "all_Some (map (\<lambda>column. lr_cell B d (f column)) [0..<n]) =
      Some (map (\<lambda>column. the (lr_cell B d (f column))) [0..<n])" for f n
    using all_Some_total [of "map (\<lambda>column. lr_cell B d (f column)) [0..<n]"] lr_cell_Some by (auto simp: comp_def)
  have "all_Some (map (\<lambda>row. Some (g row)) xs) = Some (map g xs)" for g and xs :: "nat list"
    by (simp add: all_Some_iff)
  then show ?thesis
    using assms lr_rowsCount_bounds(1) [OF assms(2), of "length (lr_TMValidators d)"]
    by (simp add: lr_makeCells_def row Let_def not_less)
qed

lemma lr_redrawData_total: "0 \<le> lr_ColumnsCount d \<Longrightarrow> \<exists>d'. lr_redrawData B d = Some d' \<and> rectangular (lr_cells d')"
proof (cases "lr_ConsensusError d")
  case None
  assume c: "0 \<le> lr_ColumnsCount d"
  show ?thesis
  proof (cases "lr_ColumnsCount d = 0")
    case True
    with None show ?thesis by (simp add: lr_redrawData_def lr_makeCells_def rectangular_def)
  next
    case False
    with c None show ?thesis
      by (cases "nat (lr_rowsCount (int (length (lr_TMValidators d))) (lr_ColumnsCount d))")
         (auto simp: lr_redrawData_def lr_makeCells_grid rectangular_def hd_map simp del: upt_Suc)
  qed
qed (simp add: lr_redrawData_def lr_makeCells_def rectangular_def)

lemma health_row_Some: "\<exists>cells. health_row e (i, row) = Some cells \<and> length cells = 12"
proof -
  obtain x where x: "RightPadAndTrim (vh_Moniker row) 20 = Some x" using RightPadAndTrim_Some [of 20] by fastforce
  obtain y where y: "(if vh_ASN row \<noteq> 0 then
      (if vh_ASNOrg row \<noteq> '''' then RightPadAndTrim (vh_ASNOrg row) 12 else Some (''AS'' @ itoa (vh_ASN row)))
      else Some em_dash) = Some y" using RightPadAndTrim_Some [of 12] by fastforce
  show ?thesis unfolding health_row_def split_conv x y by simp
qed

lemma SetRows_total: "\<exists>d'. SetRows rows d = Some d' \<and> rectangular (ht_cells d')"
proof -
  have "x \<noteq> None" if "x \<in> set (map (health_row e) ps)" for x e ps
    using that health_row_Some [of e] by (force simp: image_iff)
  then have "all_Some (map (health_row e) ps) = Some (map (the \<circ> health_row e) ps)" for e ps
    using all_Some_total [of "map (health_row e) ps"] by simp
  moreover have "length (the (health_row e (i, row))) = 12" for e i row using health_row_Some [of e i row] by auto
  ultimately show ?thesis
    by (auto simp: SetRows_def ht_redrawData_def ht_makeCells_def rectangular_def health_header_def)
qed

lemma createCells_rectangular: "createCells B d = Some cells \<Longrightarrow> rectangular cells"
  by (auto simp: createCells_def rectangular_def validator_row_def Let_def split: if_splits option.splits)

lemma makeCells_shown:
  assumes "lr_ConsensusError d = None" "0 < lr_ColumnsCount d" "lr_redrawData B d = Some d'"
    and "row < lr_GetRowCount d'" "column < nat (lr_ColumnsCount d)"
  shows "lr_GetCell d' row column = lr_cell B d (cell_index d (nat (lr_ColumnsCount d)) row column)"
proof -
  obtain c where "lr_cell B d (cell_index d (nat (lr_ColumnsCount d)) row column) = Some c" using lr_cell_Some by fastforce
  with assms show ?thesis
    by (auto simp: lr_redrawData_def lr_makeCells_grid lr_GetCell_def grid_cell_def lr_GetRowCount_def)
qed

lemma redraw_rows:
  assumes "lr_ConsensusError d = None" "0 < lr_ColumnsCount d" "lr_redrawData B d = Some d'"
  shows "lr_GetRowCount d' = nat (lr_rowsCount (int (length (lr_TMValidators d))) (lr_ColumnsCount d))"
    and "d' = d\<lparr>lr_cells := lr_cells d'\<rparr>"
  using assms by (auto simp: lr_redrawData_def lr_makeCells_grid lr_GetRowCount_def)

lemma index_unique:
  fixes i m n :: nat
  assumes "i < m * n"
  shows "\<exists>!p. fst p < m \<and> snd p < n \<and> fst p * n + snd p = i"
proof (rule ex1I [of _ "(i div n, i mod n)"])
  have "0 < n" using assms by (cases n) auto
  then show "fst (i div n, i mod n) < m \<and> snd (i div n, i mod n) < n \<and> fst (i div n, i mod n) * n + snd (i div n, i mod n) = i"
    using assms by (simp add: less_mult_imp_div_less)
  show "p = (i div n, i mod n)" if "fst p < m \<and> snd p < n \<and> fst p * n + snd p = i" for p
    using that by (cases p) auto
qed

section \<open>Properties\<close>

text \<open>C34: no setter of a table panics (the column count being non-negative and the rounds set), and tview
  then finds a cell at every position inside the size the table reports, and none outside.\<close>

theorem tables_answer_tview:
  assumes "0 \<le> lr_ColumnsCount d" "ar_RoundData a \<noteq> None"
  shows "(\<exists>d'. lr_redrawData B d = Some d' \<and>
        (\<forall>r c. lr_GetCell d' r c \<noteq> None \<longleftrightarrow> r < lr_GetRowCount d' \<and> c < lr_GetColumnCount d'))
    \<and> (\<exists>a'. ar_Update B a = Some a' \<and>
        (\<forall>r c. ar_GetCell a' r c \<noteq> None \<longleftrightarrow> r < ar_GetRowCount a' \<and> c < ar_GetColumnCount a'))
    \<and> (\<forall>r c. nt_GetCell (nt_SetNetInfo srt ni n) r c \<noteq> None \<longleftrightarrow>
        r < nt_GetRowCount (nt_SetNetInfo srt ni n) \<and> c < nt_GetColumnCount (nt_SetNetInfo srt ni n))
    \<and> (\<forall>r c. rt_GetCell (SetKnownRPCs rpcs t) r c \<noteq> None \<longleftrightarrow>
        r < rt_GetRowCount (SetKnownRPCs rpcs t) \<and> c < rt_GetColumnCount (SetKnownRPCs rpcs t))
    \<and> (\<exists>v'. SetRows rows v = Some v' \<and>
        (\<forall>r c. ht_GetCell v' r c \<noteq> None \<longleftrightarrow> r < ht_GetRowCount v' \<and> c < ht_GetColumnCount v'))"
proof -
  have "createCells B a \<noteq> None" using assms(2) by (auto simp: createCells_def)
  then obtain cells where "createCells B a = Some cells" by blast
  then have ar: "\<exists>a'. ar_Update B a = Some a' \<and> rectangular (ar_cells a')"
    by (simp add: ar_Update_def createCells_rectangular)
  have nt: "rectangular (nt_cells (nt_SetNetInfo srt ni n))"
    by (auto simp: nt_SetNetInfo_def nt_redrawData_def nt_makeCells_def rectangular_def net_info_header_def peer_row_def
        Let_def split: option.split)
  have rt: "rectangular (rt_cells (SetKnownRPCs rpcs t))"
    by (cases rpcs) (auto simp: SetKnownRPCs_def rt_redrawData_def rectangular_def)
  show ?thesis
    using lr_redrawData_total [OF assms(1), of B] ar nt rt SetRows_total [of rows v]
      last_round.inside all_rounds.inside net_info.inside [OF nt] rpc_list.inside [OF rt] health.inside by meson
qed

theorem tables_answer_tview_witness:
  "\<exists>d'. lr_redrawData fmap_env sample_table = Some d' \<and>
     (\<forall>r c. lr_GetCell d' r c \<noteq> None \<longleftrightarrow> r < lr_GetRowCount d' \<and> c < lr_GetColumnCount d')"
  using tables_answer_tview [of sample_table "NewAllRoundsTableData True True\<lparr>ar_RoundData := Some (NewRoundDataMap fmap_env)\<rparr>" fmap_env]
  by (simp add: sample_table_def NewLastRoundTableData_def)

text \<open>C35: the last-round table shows every validator in exactly one cell, whether it is laid out by rows or
  by columns, as soon as it has been redrawn twice (by columns the first redraw still uses the number of
  rows of the previous grid).\<close>

theorem last_round_layout:
  assumes "lr_ConsensusError d = None" "0 < lr_ColumnsCount d" "i < length (lr_TMValidators d)"
    and "lr_redrawData B d = Some d1" "lr_redrawData B d1 = Some d2"
  shows "(\<exists>!p. fst p < lr_GetRowCount d2 \<and> snd p < nat (lr_ColumnsCount d)
        \<and> cell_index d1 (nat (lr_ColumnsCount d)) (fst p) (snd p) = i)
    \<and> (\<forall>r c. r < lr_GetRowCount d2 \<and> c < nat (lr_ColumnsCount d) \<longrightarrow>
        lr_GetCell d2 r c = lr_cell B d1 (cell_index d1 (nat (lr_ColumnsCount d)) r c))"
proof -
  let ?cols = "nat (lr_ColumnsCount d)"
  define R where "R = nat (lr_rowsCount (int (length (lr_TMValidators d))) (lr_ColumnsCount d))"
  have d1: "d1 = d\<lparr>lr_cells := lr_cells d1\<rparr>" "lr_GetRowCount d1 = R"
    using redraw_rows [OF assms(1,2,4)] by (simp_all add: R_def)
  have same: "lr_ConsensusError d1 = None" "lr_ColumnsCount d1 = lr_ColumnsCount d" "lr_TMValidators d1 = lr_TMValidators d"
    "lr_Transpose d1 = lr_Transpose d"
    using assms(1) by (subst d1(1), simp)+
  have R: "lr_GetRowCount d2 = R" using redraw_rows(1) [of d1 B d2] assms(2,5) same by (simp add: R_def)
  have "int (length (lr_TMValidators d)) \<le> int R * int ?cols"
    using lr_rowsCount_bounds [OF assms(2), of "length (lr_TMValidators d)"] assms(2) by (simp add: R_def)
  then have i: "i < R * ?cols" using assms(3) by (metis of_nat_mult of_nat_le_iff order_less_le_trans)
  have "\<exists>!p. fst p < R \<and> snd p < ?cols \<and> cell_index d1 ?cols (fst p) (snd p) = i"
  proof (cases "lr_Transpose d")
    case False
    then show ?thesis using index_unique [OF i] by (simp add: cell_index_def same)
  next
    case True
    obtain p where p: "fst p < ?cols" "snd p < R" "fst p * R + snd p = i"
      and u: "\<And>q. fst q < ?cols \<and> snd q < R \<and> fst q * R + snd q = i \<Longrightarrow> q = p"
      using index_unique [of i ?cols R] i by (auto simp: mult.commute)
    show ?thesis
    proof (rule ex1I [of _ "(snd p, fst p)"])
      show "fst (snd p, fst p) < R \<and> snd (snd p, fst p) < ?cols \<and> cell_index d1 ?cols (fst (snd p, fst p)) (snd (snd p, fst p)) = i"
        using p True by (simp add: cell_index_def same d1(2))
      fix q assume "fst q < R \<and> snd q < ?cols \<and> cell_index d1 ?cols (fst q) (snd q) = i"
      then have "(snd q, fst q) = p" using True by (intro u) (simp add: cell_index_def same d1(2))
      then show "q = (snd p, fst p)" by auto
    qed
  qed
  then show ?thesis using R makeCells_shown [of d1 B d2] assms(2,5) same by simp
qed

theorem last_round_layout_witness:
  "\<exists>d1 d2. lr_redrawData fmap_env sample_table = Some d1 \<and> lr_redrawData fmap_env d1 = Some d2
    \<and> (\<exists>!p. fst p < lr_GetRowCount d2 \<and> snd p < 2 \<and> cell_index d1 2 (fst p) (snd p) = 2)"
proof -
  have t: "lr_ConsensusError sample_table = None" "lr_ColumnsCount sample_table = 2" "length (lr_TMValidators sample_table) = 3"
    by (simp_all add: sample_table_def NewLastRoundTableData_def)
  obtain d1 where d1: "lr_redrawData fmap_env sample_table = Some d1"
    using lr_redrawData_total [of sample_table fmap_env] t by auto
  then have "lr_ColumnsCount d1 = 2" using redraw_rows(2) [of sample_table fmap_env d1] t by (metis
        LastRoundTableData.select_convs(6) LastRoundTableData.surjective LastRoundTableData.update_convs(9) zero_less_numeral)
  then obtain d2 where d2: "lr_redrawData fmap_env d1 = Some d2" using lr_redrawData_total [of d1 fmap_env] by auto
  from last_round_layout [OF t(1) _ _ d1 d2, of 2] d1 d2 t show ?thesis by simp
qed

text \<open>After one redraw by columns the third validator is not shown: the previous grid had no rows.\<close>

lemma one_redraw_is_not_enough:
  "\<not> (\<exists>r < 2. \<exists>c < 2. cell_index sample_table 2 r c = 2)"
  by (simp add: cell_index_def sample_table_def NewLastRoundTableData_def lr_GetRowCount_def)

end
