(* ===== verification/Config.thy ===== *)
theory Config
  imports Prelude
begin

text \<open>
  \<open>pkg/config/config.go\<close> and \<open>pkg/refresher/refresher.go\<close>: validation of the command line and the
  polling loop every refresh of the application runs in. A time zone is opaque (\<open>'tz\<close>), with
  \<open>time.Local\<close> and \<open>time.LoadLocation\<close> as arguments.
\<close>

section \<open>Data\<close>

record InputConfig =
  in_RPCHost :: string
  in_ProviderRPCHost :: string
  in_ConsumerID :: string
  in_RefreshRate :: duration
  in_ValidatorsRefreshRate :: duration
  in_ChainInfoRefreshRate :: duration
  in_UpgradeRefreshRate :: duration
  in_BlockTimeRefreshRate :: duration
  in_ChainType :: string
  in_Verbose :: bool
  in_DisableEmojis :: bool
  in_DebugFile :: string
  in_HaltHeight :: int
  in_BlocksBehind :: nat
  in_LCDHost :: string
  in_Timezone :: string
  in_WithTopologyAPI :: bool
  in_TopologyListenAddr :: string
  in_DatabasePath :: string
  in_MaxRetainBlocks :: int
  in_MaxRetainDays :: int
  in_AnalyticsMode :: bool
  in_AnalyticsValidator :: string
  in_AnalyticsTimeWindow :: string
  in_AnalyticsCommand :: string
  in_HealthRefreshRate :: duration
  in_HealthWindowBlocks :: int
  in_ASNDatabasePath :: string

datatype ChainType = ChainTypeCosmosRPC | ChainTypeCosmosLCD | ChainTypeTendermint

record 'tz Config =
  cfg_RPCHost :: string
  cfg_ProviderRPCHost :: string
  cfg_ConsumerID :: string
  cfg_RefreshRate :: duration
  cfg_ValidatorsRefreshRate :: duration
  cfg_ChainInfoRefreshRate :: duration
  cfg_UpgradeRefreshRate :: duration
  cfg_BlockTimeRefreshRate :: duration
  cfg_ChainType :: ChainType
  cfg_Verbose :: bool
  cfg_DisableEmojis :: bool
  cfg_DebugFile :: string
  cfg_HaltHeight :: int
  cfg_BlocksBehind :: nat
  cfg_LCDHost :: string
  cfg_Timezone :: 'tz
  cfg_WithTopologyAPI :: bool
  cfg_TopologyListenAddr :: string
  cfg_DatabasePath :: string
  cfg_MaxRetainBlocks :: int
  cfg_MaxRetainDays :: int
  cfg_AnalyticsMode :: bool
  cfg_AnalyticsValidator :: string
  cfg_AnalyticsTimeWindow :: string
  cfg_AnalyticsCommand :: string
  cfg_HealthRefreshRate :: duration
  cfg_HealthWindowBlocks :: int
  cfg_ASNDatabasePath :: string

section \<open>Operations of config.go\<close>

fun ChainType_String :: "ChainType \<Rightarrow> string" where
  "ChainType_String ChainTypeCosmosRPC = ''cosmos-rpc''"
| "ChainType_String ChainTypeCosmosLCD = ''cosmos-lcd''"
| "ChainType_String ChainTypeTendermint = ''tendermint''"

definition ParseChainType :: "string \<Rightarrow> goerror + ChainType" where
  "ParseChainType v =
     (if v = ''cosmos-rpc'' \<or> v = '''' then Inr ChainTypeCosmosRPC
      else if v = ''cosmos-lcd'' then Inr ChainTypeCosmosLCD
      else if v = ''tendermint'' then Inr ChainTypeTendermint
      else Inl (''expected chain-type to be one of 'cosmos-rpc', 'cosmos-lcd', 'tendermint', but got ''
                @ CHR 0x27 # v @ [CHR 0x27]))"

definition ParseAndValidateConfig ::
    "'tz \<Rightarrow> (string \<Rightarrow> goerror + 'tz) \<Rightarrow> InputConfig \<Rightarrow> goerror + 'tz Config" where
  "ParseAndValidateConfig local LoadLocation i =
     (case ParseChainType (in_ChainType i) of
        Inl err \<Rightarrow> Inl err
      | Inr chainType \<Rightarrow>
          (if in_ProviderRPCHost i \<noteq> '''' \<and> in_ConsumerID i = ''''
           then Inl ''chain is consumer, but consumer-id is not set''
           else if chainType = ChainTypeCosmosLCD \<and> in_LCDHost i = ''''
           then Inl (''chain-type is 'cosmos-lcd', but lcd-host is not set'')
           else if in_BlocksBehind i \<le> 0 then Inl ''cannot run with a negative blocks-behind''
           else case (if in_Timezone i \<noteq> '''' then LoadLocation (in_Timezone i) else Inr local) of
             Inl err \<Rightarrow> Inl err
           | Inr timezone \<Rightarrow> Inr
               \<lparr>cfg_RPCHost = in_RPCHost i, cfg_ProviderRPCHost = in_ProviderRPCHost i,
                cfg_ConsumerID = in_ConsumerID i, cfg_RefreshRate = in_RefreshRate i,
                cfg_ValidatorsRefreshRate = in_ValidatorsRefreshRate i,
                cfg_ChainInfoRefreshRate = in_ChainInfoRefreshRate i,
                cfg_UpgradeRefreshRate = in_UpgradeRefreshRate i,
                cfg_BlockTimeRefreshRate = in_BlockTimeRefreshRate i, cfg_ChainType = chainType,
                cfg_Verbose = in_Verbose i, cfg_DisableEmojis = in_DisableEmojis i,
                cfg_DebugFile = in_DebugFile i, cfg_HaltHeight = in_HaltHeight i,
                cfg_BlocksBehind = in_BlocksBehind i, cfg_LCDHost = in_LCDHost i,
                cfg_Timezone = timezone, cfg_WithTopologyAPI = in_WithTopologyAPI i,
                cfg_TopologyListenAddr = in_TopologyListenAddr i, cfg_DatabasePath = in_DatabasePath i,
                cfg_MaxRetainBlocks = in_MaxRetainBlocks i, cfg_MaxRetainDays = in_MaxRetainDays i,
                cfg_AnalyticsMode = in_AnalyticsMode i, cfg_AnalyticsValidator = in_AnalyticsValidator i,
                cfg_AnalyticsTimeWindow = in_AnalyticsTimeWindow i,
                cfg_AnalyticsCommand = in_AnalyticsCommand i, cfg_HealthRefreshRate = in_HealthRefreshRate i,
                cfg_HealthWindowBlocks = in_HealthWindowBlocks i,
                cfg_ASNDatabasePath = in_ASNDatabasePath i\<rparr>))"

definition GetProviderOrConsumerHost :: "'tz Config \<Rightarrow> string" where
  "GetProviderOrConsumerHost c =
     (if cfg_ProviderRPCHost c \<noteq> '''' then cfg_ProviderRPCHost c else cfg_RPCHost c)"

definition IsConsumer :: "'tz Config \<Rightarrow> bool" where
  "IsConsumer c \<longleftrightarrow> cfg_ProviderRPCHost c \<noteq> ''''"

section \<open>Operations of refresher.go\<close>

text \<open>What the select statement receives; when both channels are ready either may come first.\<close>

datatype select_event = StopClosed | TickerFired

text \<open>\<open>refresh\<close> transforms the state of the application; the loop runs until the stop channel
  closes, or as long as events arrive.\<close>

fun refresher_loop :: "('s \<Rightarrow> 's) \<Rightarrow> select_event list \<Rightarrow> 's \<Rightarrow> 's" where
  "refresher_loop refresh [] s = s"
| "refresher_loop refresh (StopClosed # evs) s = s"
| "refresher_loop refresh (TickerFired # evs) s = refresher_loop refresh evs (refresh s)"

definition refresher_Run :: "duration \<Rightarrow> ('s \<Rightarrow> 's) \<Rightarrow> select_event list \<Rightarrow> 's \<Rightarrow> 's" where
  "refresher_Run interval refresh evs s =
     (let s = refresh s
      in if interval \<le> 0 then s else refresher_loop refresh evs s)"

text \<open>The input of the witnesses.\<close>

definition sample_input :: InputConfig where
  "sample_input =
     \<lparr>in_RPCHost = ''http://localhost:26657'', in_ProviderRPCHost = '''', in_ConsumerID = '''',
      in_RefreshRate = Second, in_ValidatorsRefreshRate = Second, in_ChainInfoRefreshRate = Second,
      in_UpgradeRefreshRate = Second, in_BlockTimeRefreshRate = Second, in_ChainType = ''tendermint'',
      in_Verbose = False, in_DisableEmojis = False, in_DebugFile = '''', in_HaltHeight = 0,
      in_BlocksBehind = 100, in_LCDHost = '''', in_Timezone = '''', in_WithTopologyAPI = False,
      in_TopologyListenAddr = '''', in_DatabasePath = '''', in_MaxRetainBlocks = 0,
      in_MaxRetainDays = 0, in_AnalyticsMode = False, in_AnalyticsValidator = '''',
      in_AnalyticsTimeWindow = '''', in_AnalyticsCommand = '''', in_HealthRefreshRate = Second,
      in_HealthWindowBlocks = 100, in_ASNDatabasePath = ''''\<rparr>"

section \<open>Lemmas\<close>

lemma ParseChainType_String: "ParseChainType (ChainType_String t) = Inr t"
  by (cases t) (simp_all add: ParseChainType_def)

lemma ChainType_String_range: "range ChainType_String = {''cosmos-rpc'', ''cosmos-lcd'', ''tendermint''}"
proof -
  have "(UNIV :: ChainType set) = {ChainTypeCosmosRPC, ChainTypeCosmosLCD, ChainTypeTendermint}"
    by (auto intro: ChainType.exhaust)
  then have "range ChainType_String = ChainType_String ` {ChainTypeCosmosRPC, ChainTypeCosmosLCD, ChainTypeTendermint}"
    by (rule arg_cong)
  then show ?thesis by (simp only: image_insert image_empty ChainType_String.simps)
qed

lemma refresher_loop_ticks:
  "refresher_loop refresh evs s = (refresh ^^ length (takeWhile (\<lambda>e. e = TickerFired) evs)) s"
  by (induction refresh evs s rule: refresher_loop.induct) (simp_all add: funpow_swap1)

section \<open>Properties\<close>

text \<open>C16: validation accepts a configuration exactly when the chain type is one of the three (empty
  meaning cosmos-rpc), a consumer has an ID, an LCD chain has an LCD host, \<open>blocks-behind\<close> is
  positive and the time zone can be loaded; the accepted configuration keeps these guarantees.\<close>

theorem ParseAndValidateConfig_spec:
  "((\<exists>c. ParseAndValidateConfig local ll i = Inr c) \<longleftrightarrow>
     (in_ChainType i = '''' \<or> in_ChainType i \<in> range ChainType_String)
     \<and> (in_ProviderRPCHost i \<noteq> '''' \<longrightarrow> in_ConsumerID i \<noteq> '''')
     \<and> (in_ChainType i = ChainType_String ChainTypeCosmosLCD \<longrightarrow> in_LCDHost i \<noteq> '''')
     \<and> 0 < in_BlocksBehind i
     \<and> (in_Timezone i \<noteq> '''' \<longrightarrow> (\<exists>tz. ll (in_Timezone i) = Inr tz)))
   \<and> (\<forall>c. ParseAndValidateConfig local ll i = Inr c \<longrightarrow>
     (IsConsumer c \<longrightarrow> cfg_ConsumerID c \<noteq> '''' \<and> GetProviderOrConsumerHost c = in_ProviderRPCHost i)
     \<and> (\<not> IsConsumer c \<longrightarrow> GetProviderOrConsumerHost c = in_RPCHost i)
     \<and> (cfg_ChainType c = ChainTypeCosmosLCD \<longrightarrow> cfg_LCDHost c \<noteq> '''') \<and> 0 < cfg_BlocksBehind c)"
proof (intro conjI allI impI)
  show "(\<exists>c. ParseAndValidateConfig local ll i = Inr c) \<longleftrightarrow>
     (in_ChainType i = '''' \<or> in_ChainType i \<in> range ChainType_String)
     \<and> (in_ProviderRPCHost i \<noteq> '''' \<longrightarrow> in_ConsumerID i \<noteq> '''')
     \<and> (in_ChainType i = ChainType_String ChainTypeCosmosLCD \<longrightarrow> in_LCDHost i \<noteq> '''')
     \<and> 0 < in_BlocksBehind i
     \<and> (in_Timezone i \<noteq> '''' \<longrightarrow> (\<exists>tz. ll (in_Timezone i) = Inr tz))"
    unfolding ChainType_String_range
    by (auto simp: ParseAndValidateConfig_def ParseChainType_def split: sum.splits if_splits)
qed (auto simp: ParseAndValidateConfig_def IsConsumer_def GetProviderOrConsumerHost_def
        split: sum.splits if_splits)

theorem ParseAndValidateConfig_spec_witness:
  "\<exists>c. ParseAndValidateConfig ''local'' Inl sample_input = Inr c \<and> 0 < cfg_BlocksBehind c"
proof -
  have "\<exists>c. ParseAndValidateConfig ''local'' Inl sample_input = Inr c"
    by (simp add: ParseAndValidateConfig_def sample_input_def ParseChainType_def)
  then show ?thesis using ParseAndValidateConfig_spec [of "''local''" Inl sample_input] by blast
qed

text \<open>A refresher fetches once at once and then once per tick received before the stop channel
  closes; with a non-positive interval it fetches exactly once.\<close>

theorem refresher_Run_spec:
  "refresher_Run interval refresh evs s =
     (refresh ^^ (if interval \<le> 0 then 1
                  else Suc (length (takeWhile (\<lambda>e. e = TickerFired) evs)))) s"
  by (simp add: refresher_Run_def refresher_loop_ticks Let_def funpow_swap1)

end
