(* ===== verification/Display.thy ===== *)
theory Display
  imports Grids Config
begin

text \<open>
  \<open>pkg/display/wrapper.go\<close>: the state of the terminal interface, its key bindings and \<open>SetState\<close>.
  tview's grid is a value of an arbitrary type \<open>'g\<close> with the operations of \<open>grid_ops\<close>; a text view is
  the string written to it since it was cleared, the pages are the set of names shown on top of the
  grid. What the code asks tview about the screen is the record \<open>screen\<close>. \<open>SetState\<close> queues a function
  on the UI thread; the definition is that function. Fonts, colours, titles and the restoring of the
  terminal are not modelled. \<open>None\<close> is a panic.
\<close>

section \<open>State\<close>

datatype Mode = ModeLastRound | ModeAllRounds | ModeNetInfo | ModeValidatorHealth | ModeNetworkHealth

datatype widget = ConsensusInfoTextView | ChainInfoTextView | ProgressTextView | DebugTextView | LastRoundTable
  | AllRoundsTable | NetInfoTable | ValidatorHealthTable | NetworkHealthTextView | RPCsTable

text \<open>A grid item: the widget, its row and column, and how many rows and columns it spans.\<close>

record grid_item =
  it_widget :: widget
  it_row :: int
  it_column :: int
  it_rows :: int
  it_columns :: int

record 'g grid_ops =
  g_empty :: 'g
  g_add :: "grid_item \<Rightarrow> 'g \<Rightarrow> 'g"
  g_remove :: "widget \<Rightarrow> 'g \<Rightarrow> 'g"
  g_items :: "'g \<Rightarrow> grid_item list"

record screen =
  sc_last_width :: int
  sc_consensus_width :: int
  sc_consensus_height :: int
  sc_pages_width :: int
  sc_pages_height :: int

datatype key_event = Rune char | KeyTab | KeyCtrlC | OtherKey

record ('h, 'k, 'p, 'g) Wrapper =
  wr_ConsensusInfo :: string
  wr_ChainInfo :: string
  wr_Progress :: string
  wr_Debug :: string
  wr_NetworkHealth :: string
  wr_LastRound :: "'h LastRoundTableData"
  wr_AllRounds :: "'h AllRoundsTableData"
  wr_NetInfo :: NetInfoTableData
  wr_ValidatorHealth :: ValidatorHealthTableData
  wr_RPCs :: RPCsTableData
  wr_Grid :: 'g
  wr_Pages :: "string set"
  wr_Focus :: widget
  wr_RPCRect :: "int \<times> int \<times> int \<times> int"
  wr_InfoBlockWidth :: int
  wr_ColumnsCount :: int
  wr_Mode :: Mode
  wr_DebugEnabled :: bool
  wr_State :: "('h, 'k, 'p) State"
  wr_paused :: bool
  wr_IsRPCListDisplayed :: bool
  wr_IsHelpDisplayed :: bool
  wr_DisableEmojis :: bool
  wr_Transpose :: bool
  wr_stopped :: bool

definition DefaultColumnsCount :: int where
  "DefaultColumnsCount = 3"

definition RowsAmount :: int where
  "RowsAmount = 10"

definition DebugBlockHeight :: int where
  "DebugBlockHeight = 8"

definition DefaultMode :: Mode where
  "DefaultMode = ModeAllRounds"

section \<open>Operations\<close>

definition NewWrapper ::
    "('h, 'r, 'k, 'p, 'z) state_env_scheme \<Rightarrow> 'g grid_ops \<Rightarrow> 'tz Config \<Rightarrow> ('h, 'k, 'p) State \<Rightarrow> bool
      \<Rightarrow> ('h, 'k, 'p, 'g) Wrapper" where
  "NewWrapper E G config state paused =
     \<lparr>wr_ConsensusInfo = '''', wr_ChainInfo = '''', wr_Progress = '''', wr_Debug = '''', wr_NetworkHealth = '''',
      wr_LastRound = NewLastRoundTableData (round_env.truncate E) DefaultColumnsCount (cfg_DisableEmojis config) False,
      wr_AllRounds = NewAllRoundsTableData (cfg_DisableEmojis config) False, wr_NetInfo = NewNetInfoTableData,
      wr_ValidatorHealth = NewValidatorHealthTableData (cfg_DisableEmojis config), wr_RPCs = NewRPCsTableData,
      wr_Grid = g_empty G, wr_Pages = {}, wr_Focus = LastRoundTable, wr_RPCRect = (0, 0, 0, 0),
      wr_InfoBlockWidth = 2, wr_ColumnsCount = DefaultColumnsCount, wr_Mode = DefaultMode, wr_DebugEnabled = False,
      wr_State = state, wr_paused = paused, wr_IsRPCListDisplayed = False, wr_IsHelpDisplayed = False,
      wr_DisableEmojis = cfg_DisableEmojis config, wr_Transpose = False, wr_stopped = False\<rparr>"

definition main_widget :: "Mode \<Rightarrow> widget" where
  "main_widget m =
     (case m of ModeAllRounds \<Rightarrow> AllRoundsTable | ModeNetInfo \<Rightarrow> NetInfoTable | ModeValidatorHealth \<Rightarrow> ValidatorHealthTable
        | ModeNetworkHealth \<Rightarrow> NetworkHealthTextView | ModeLastRound \<Rightarrow> LastRoundTable)"

definition grid_item_of :: "widget \<Rightarrow> int \<Rightarrow> int \<Rightarrow> int \<Rightarrow> int \<Rightarrow> grid_item" where
  "grid_item_of w row column rows columns =
     \<lparr>it_widget = w, it_row = row, it_column = column, it_rows = rows, it_columns = columns\<rparr>"

text \<open>The widgets \<open>Redraw\<close> removes before it adds the current ones; \<open>NetInfoTable\<close> is not among them.\<close>

definition removed_widgets :: "widget list" where
  "removed_widgets = [ConsensusInfoTextView, ChainInfoTextView, ProgressTextView, LastRoundTable, AllRoundsTable,
     ValidatorHealthTable, NetworkHealthTextView, DebugTextView]"

definition added_items :: "int \<Rightarrow> bool \<Rightarrow> widget \<Rightarrow> grid_item list" where
  "added_items info debug mainWidget =
     [grid_item_of ConsensusInfoTextView 0 0 info 3, grid_item_of ChainInfoTextView 0 3 info 2,
      grid_item_of ProgressTextView 0 5 info 1] @
     (if debug then
        [grid_item_of mainWidget info 0 (RowsAmount - info - DebugBlockHeight) 6,
         grid_item_of DebugTextView (RowsAmount - DebugBlockHeight) 0 DebugBlockHeight 6]
      else [grid_item_of mainWidget info 0 (RowsAmount - info) 6])"

definition Redraw :: "'g grid_ops \<Rightarrow> screen \<Rightarrow> ('h, 'k, 'p, 'g) Wrapper \<Rightarrow> ('h, 'k, 'p, 'g) Wrapper" where
  "Redraw G sc w =
     (let mainWidget = main_widget (wr_Mode w);
          grid = foldl (\<lambda>g x. g_remove G x g) (wr_Grid w) removed_widgets;
          grid = foldl (\<lambda>g it. g_add G it g) grid (added_items (wr_InfoBlockWidth w) (wr_DebugEnabled w) mainWidget);
          w = w\<lparr>wr_Grid := grid, wr_Focus := mainWidget\<rparr>;
          w = w\<lparr>wr_Pages := (if wr_IsHelpDisplayed w then insert ''modal'' (wr_Pages w) else wr_Pages w - {''modal''})\<rparr>
      in if wr_IsRPCListDisplayed w then
           let width = ftrunc (fdiv (float_of_int (sc_pages_width sc)) (5 / 2));
               height = sc_pages_height sc - 8;
               x = go_div (sc_pages_width sc - width) 2;
               y = go_div (sc_pages_height sc - height) 2
           in w\<lparr>wr_RPCRect := (x, y, width, height), wr_Pages := insert ''rpclist'' (wr_Pages w), wr_Focus := RPCsTable\<rparr>
         else w\<lparr>wr_Pages := wr_Pages w - {''rpclist''}, wr_Focus := mainWidget\<rparr>)"

definition ToggleDebug :: "'g grid_ops \<Rightarrow> screen \<Rightarrow> ('h, 'k, 'p, 'g) Wrapper \<Rightarrow> ('h, 'k, 'p, 'g) Wrapper" where
  "ToggleDebug G sc w = Redraw G sc (w\<lparr>wr_DebugEnabled := \<not> wr_DebugEnabled w\<rparr>)"

definition ToggleRPCList :: "'g grid_ops \<Rightarrow> screen \<Rightarrow> ('h, 'k, 'p, 'g) Wrapper \<Rightarrow> ('h, 'k, 'p, 'g) Wrapper" where
  "ToggleRPCList G sc w = Redraw G sc (w\<lparr>wr_IsRPCListDisplayed := \<not> wr_IsRPCListDisplayed w\<rparr>)"

definition ToggleHelp :: "'g grid_ops \<Rightarrow> screen \<Rightarrow> ('h, 'k, 'p, 'g) Wrapper \<Rightarrow> ('h, 'k, 'p, 'g) Wrapper" where
  "ToggleHelp G sc w = Redraw G sc (w\<lparr>wr_IsHelpDisplayed := \<not> wr_IsHelpDisplayed w\<rparr>)"

definition ChangeInfoBlockHeight ::
    "'g grid_ops \<Rightarrow> screen \<Rightarrow> bool \<Rightarrow> ('h, 'k, 'p, 'g) Wrapper \<Rightarrow> ('h, 'k, 'p, 'g) Wrapper" where
  "ChangeInfoBlockHeight G sc increase w =
     Redraw G sc
       (if increase \<and> wr_InfoBlockWidth w + 1 \<le> RowsAmount - DebugBlockHeight - 1
        then w\<lparr>wr_InfoBlockWidth := wr_InfoBlockWidth w + 1\<rparr>
        else if \<not> increase \<and> wr_InfoBlockWidth w - 1 \<ge> 1 then w\<lparr>wr_InfoBlockWidth := wr_InfoBlockWidth w - 1\<rparr>
        else w)"

text \<open>\<open>set_columns\<close>: the column count of the wrapper and of its last-round table.\<close>

definition set_columns ::
    "('h, 'r, 'k, 'p, 'z) state_env_scheme \<Rightarrow> int \<Rightarrow> ('h, 'k, 'p, 'g) Wrapper \<Rightarrow> ('h, 'k, 'p, 'g) Wrapper option" where
  "set_columns E columns w =
     map_option (\<lambda>t. w\<lparr>wr_ColumnsCount := columns, wr_LastRound := t\<rparr>)
       (SetColumnsCount (round_env.truncate E) columns (wr_LastRound w))"

definition ChangeColumnsCount ::
    "('h, 'r, 'k, 'p, 'z) state_env_scheme \<Rightarrow> 'g grid_ops \<Rightarrow> screen \<Rightarrow> bool \<Rightarrow> ('h, 'k, 'p, 'g) Wrapper
      \<Rightarrow> ('h, 'k, 'p, 'g) Wrapper option" where
  "ChangeColumnsCount E G sc increase w =
     map_option (Redraw G sc) (set_columns E
       (if increase then wr_ColumnsCount w + 1
        else if wr_ColumnsCount w - 1 \<ge> 1 then wr_ColumnsCount w - 1 else wr_ColumnsCount w) w)"

text \<open>The columns computed from the width of the table, once it has one.\<close>

definition fit_columns ::
    "('h, 'r, 'k, 'p, 'z) state_env_scheme \<Rightarrow> int \<Rightarrow> ('h, 'k, 'p, 'g) Wrapper \<Rightarrow> ('h, 'k, 'p, 'g) Wrapper option" where
  "fit_columns E width w =
     (if width > 0 then
        let columns = go_div width 50; columns = (if columns < 1 then 1 else columns)
        in set_columns E columns w
      else Some w)"

fun next_mode :: "Mode \<Rightarrow> Mode" where
  "next_mode ModeAllRounds = ModeNetInfo"
| "next_mode ModeNetInfo = ModeValidatorHealth"
| "next_mode ModeValidatorHealth = ModeNetworkHealth"
| "next_mode ModeNetworkHealth = ModeLastRound"
| "next_mode ModeLastRound = ModeAllRounds"

definition ChangeMode ::
    "('h, 'r, 'k, 'p, 'z) state_env_scheme \<Rightarrow> 'g grid_ops \<Rightarrow> screen \<Rightarrow> ('h, 'k, 'p, 'g) Wrapper
      \<Rightarrow> ('h, 'k, 'p, 'g) Wrapper option" where
  "ChangeMode E G sc w =
     (let w = Redraw G sc (w\<lparr>wr_Mode := next_mode (wr_Mode w)\<rparr>)
      in if wr_Mode w = ModeLastRound then fit_columns E (sc_last_width sc) w else Some w)"

definition toggle_transpose ::
    "('h, 'r, 'k, 'p, 'z) state_env_scheme \<Rightarrow> ('h, 'k, 'p, 'g) Wrapper \<Rightarrow> ('h, 'k, 'p, 'g) Wrapper option" where
  "toggle_transpose E w =
     (let transposed = \<not> wr_Transpose w
      in map_option (\<lambda>t. w\<lparr>wr_Transpose := transposed, wr_LastRound := t,
             wr_AllRounds := ar_SetTranspose transposed (wr_AllRounds w)\<rparr>)
           (lr_SetTranspose (round_env.truncate E) transposed (wr_LastRound w)))"

text \<open>The input capture of \<open>Start\<close>.\<close>

definition handle_key ::
    "('h, 'r, 'k, 'p, 'z) state_env_scheme \<Rightarrow> 'g grid_ops \<Rightarrow> screen \<Rightarrow> key_event \<Rightarrow> ('h, 'k, 'p, 'g) Wrapper
      \<Rightarrow> ('h, 'k, 'p, 'g) Wrapper option" where
  "handle_key E G sc event w =
     (if event = Rune CHR ''q'' \<or> event = KeyCtrlC then Some (w\<lparr>wr_stopped := True\<rparr>)
      else if event = Rune CHR ''d'' then Some (ToggleDebug G sc w)
      else if event = Rune CHR ''b'' then Some (ChangeInfoBlockHeight G sc True w)
      else if event = Rune CHR ''s'' then Some (ChangeInfoBlockHeight G sc False w)
      else if event = Rune CHR ''h'' then Some (ToggleHelp G sc w)
      else if event = Rune CHR ''r'' then Some (ToggleRPCList G sc w)
      else if event = Rune CHR ''m'' then ChangeColumnsCount E G sc True w
      else if event = Rune CHR ''l'' then ChangeColumnsCount E G sc False w
      else if event = Rune CHR ''t'' then toggle_transpose E w
      else if event = Rune CHR ''p'' then Some (w\<lparr>wr_paused := \<not> wr_paused w\<rparr>)
      else if event = KeyTab then ChangeMode E G sc w
      else Some w)"

text \<open>The function \<open>Start\<close> installs for a selected row of the RPC list, and what it draws first.\<close>

definition select_rpc ::
    "('h, 'r, 'k, 'p, 'z) state_env_scheme \<Rightarrow> 'g grid_ops \<Rightarrow> screen \<Rightarrow> int \<Rightarrow> ('h, 'k, 'p, 'g) Wrapper
      \<Rightarrow> ('h, 'k, 'p, 'g) Wrapper" where
  "select_rpc E G sc row w =
     (let w = (case RPCAtIndex E (wr_State w) row of
            None \<Rightarrow> w
          | Some rpc \<Rightarrow> w\<lparr>wr_State := SetCurrentRPCURL (rpc_URL rpc) (wr_State w)\<rparr>)
      in ToggleRPCList G sc w)"

text \<open>The last step is the hook after the first draw: \<open>sc_last_width\<close> is the width it gave the table.\<close>

definition wrapper_Start ::
    "('h, 'r, 'k, 'p, 'z) state_env_scheme \<Rightarrow> 'g grid_ops \<Rightarrow> screen \<Rightarrow> ('h, 'k, 'p, 'g) Wrapper \<Rightarrow> ('h, 'k, 'p, 'g) Wrapper option" where
  "wrapper_Start E G sc w =
     (let w = Redraw G sc w;
          w = w\<lparr>wr_ChainInfo := wr_ChainInfo w @ ''Loading...'', wr_ConsensusInfo := wr_ConsensusInfo w @ ''Loading...'',
                wr_Progress := wr_Progress w @ ''Loading...''\<rparr>
      in fit_columns E (sc_last_width sc) w)"

definition DebugText :: "string \<Rightarrow> ('h, 'k, 'p, 'g) Wrapper \<Rightarrow> ('h, 'k, 'p, 'g) Wrapper" where
  "DebugText text w = w\<lparr>wr_Debug := wr_Debug w @ text @ newline\<rparr>"

section \<open>SetState\<close>

text \<open>The readings of the clock by the two blocks of text.\<close>

record clock =
  ck_consensus :: "instant \<times> instant"
  ck_chain :: "instant \<times> instant"

definition update_last_round ::
    "('h, 'r, 'k, 'p, 'z) state_env_scheme \<Rightarrow> ('h, 'k, 'p) State \<Rightarrow> 'h LastRoundTableData \<Rightarrow> 'h LastRoundTableData option" where
  "update_last_round E state t =
     (let B = round_env.truncate E; (height, rnd, _, _) = GetConsensusHeight state
      in Option.bind (lr_SetTMValidators B (GetTMValidators state) (GetConsensusStateError state) t) (\<lambda>t.
         Option.bind (lr_SetRoundData B (VotesByRound state) t) (\<lambda>t. lr_SetCurrentRound B height (i32 rnd) t)))"

definition update_all_rounds ::
    "('h, 'r, 'k, 'p, 'z) state_env_scheme \<Rightarrow> ('h, 'k, 'p) State \<Rightarrow> 'h AllRoundsTableData \<Rightarrow> 'h AllRoundsTableData option" where
  "update_all_rounds E state t =
     (let (height, rnd, _, _) = GetConsensusHeight state;
          t = ar_SetTMValidators (GetTMValidators state) height t;
          t = ar_SetCurrentRound height (i32 rnd) t;
          t = ar_SetRoundData (VotesByRound state) t
      in ar_Update (round_env.truncate E) t)"

definition progress_text ::
    "('h, 'r, 'k, 'p, 'z) state_env_scheme \<Rightarrow> screen \<Rightarrow> ('h, 'k, 'p) State \<Rightarrow> string option" where
  "progress_text E sc state =
     (let width = sc_consensus_width sc; height = go_div (sc_consensus_height sc) 2
      in case (SerializePrevotesProgressbar E width height state, SerializePrecommitsProgressbar E width height state) of
           (Some pv, Some pc) \<Rightarrow> Some (pv @ newline @ pc)
         | _ \<Rightarrow> None)"

definition SetState ::
    "panel_env \<Rightarrow> ('h, 'r, 'k, 'p, 'z) state_env_scheme \<Rightarrow> (Peer list \<Rightarrow> Peer list) \<Rightarrow> screen \<Rightarrow> clock
      \<Rightarrow> ('h, 'k, 'p) State \<Rightarrow> ('h, 'k, 'p, 'g) Wrapper \<Rightarrow> ('h, 'k, 'p, 'g) Wrapper option" where
  "SetState P E srt sc ck state w =
     (let w = w\<lparr>wr_State := state\<rparr>
      in Option.bind (update_last_round E state (wr_LastRound w)) (\<lambda>last_round.
         Option.bind (update_all_rounds E state (wr_AllRounds w)) (\<lambda>all_rounds.
         Option.bind (case GetValidatorHealth state of None \<Rightarrow> Some (wr_ValidatorHealth w)
                      | Some rows \<Rightarrow> SetRows rows (wr_ValidatorHealth w)) (\<lambda>health.
         Option.bind (SerializeNetworkHealth P (wr_DisableEmojis w) state) (\<lambda>network.
         Option.bind (SerializeConsensus P E (fst (ck_consensus ck)) (snd (ck_consensus ck)) state) (\<lambda>consensus.
         Option.bind (progress_text E sc state) (\<lambda>progress.
           Some (w\<lparr>wr_LastRound := last_round, wr_AllRounds := all_rounds,
             wr_NetInfo := nt_SetNetInfo srt (GetNetInfo state) (wr_NetInfo w),
             wr_ValidatorHealth := health,
             wr_RPCs := SetKnownRPCs (map snd (om_entries (rpcs_ops E) (KnownRPCs state))) (wr_RPCs w),
             wr_NetworkHealth := network, wr_ConsensusInfo := consensus,
             wr_ChainInfo := SerializeChainInfo P E (fst (ck_chain ck)) (snd (ck_chain ck)) state,
             wr_Progress := progress\<rparr>))))))))"

section \<open>Specification\<close>

text \<open>tview's documented grid: adding appends an item, removing drops every item of a widget.\<close>

definition lawful_grid :: "'g grid_ops \<Rightarrow> bool" where
  "lawful_grid G \<longleftrightarrow> g_items G (g_empty G) = []
     \<and> (\<forall>it g. g_items G (g_add G it g) = g_items G g @ [it])
     \<and> (\<forall>x g. g_items G (g_remove G x g) = filter (\<lambda>it. it_widget it \<noteq> x) (g_items G g))"

definition list_grid :: "grid_item list grid_ops" where
  "list_grid = \<lparr>g_empty = [], g_add = (\<lambda>it g. g @ [it]), g_remove = (\<lambda>x g. filter (\<lambda>it. it_widget it \<noteq> x) g), g_items = id\<rparr>"

text \<open>What the keys can change and what they cannot.\<close>

definition wrapper_ok :: "('h, 'k, 'p, 'g) Wrapper \<Rightarrow> bool" where
  "wrapper_ok w \<longleftrightarrow> 1 \<le> wr_InfoBlockWidth w \<and> wr_InfoBlockWidth w \<le> 2 \<and> 1 \<le> wr_ColumnsCount w
     \<and> lr_ColumnsCount (wr_LastRound w) = wr_ColumnsCount w
     \<and> lr_Transpose (wr_LastRound w) = wr_Transpose w \<and> ar_Transpose (wr_AllRounds w) = wr_Transpose w
     \<and> wr_Pages w = (if wr_IsHelpDisplayed w then {''modal''} else {}) \<union> (if wr_IsRPCListDisplayed w then {''rpclist''} else {})"

text \<open>Keys pressed one after the other, until the application stops.\<close>

fun handle_keys ::
    "('h, 'r, 'k, 'p, 'z) state_env_scheme \<Rightarrow> 'g grid_ops \<Rightarrow> (screen \<times> key_event) list \<Rightarrow> ('h, 'k, 'p, 'g) Wrapper
      \<Rightarrow> ('h, 'k, 'p, 'g) Wrapper option" where
  "handle_keys E G [] w = Some w"
| "handle_keys E G ((sc, event) # es) w =
     (if wr_stopped w then Some w else Option.bind (handle_key E G sc event w) (handle_keys E G es))"

definition kept_items :: "grid_item list \<Rightarrow> grid_item list" where
  "kept_items = filter (\<lambda>it. it_widget it \<in> {NetInfoTable, RPCsTable})"

definition sample_screen :: screen where
  "sample_screen = \<lparr>sc_last_width = 120, sc_consensus_width = 20, sc_consensus_height = 4, sc_pages_width = 80, sc_pages_height = 24\<rparr>"

definition sample_wrapper where
  "sample_wrapper = NewWrapper fmap_state_env list_grid (projr (ParseAndValidateConfig ''local'' Inl sample_input))
     (NewState fmap_state_env '''' 0) False"

section \<open>Lemmas\<close>

lemma Redraw_frame:
  "wr_InfoBlockWidth (Redraw G sc w) = wr_InfoBlockWidth w" "wr_ColumnsCount (Redraw G sc w) = wr_ColumnsCount w"
  "wr_LastRound (Redraw G sc w) = wr_LastRound w" "wr_AllRounds (Redraw G sc w) = wr_AllRounds w"
  "wr_Mode (Redraw G sc w) = wr_Mode w" "wr_Transpose (Redraw G sc w) = wr_Transpose w"
  "wr_DebugEnabled (Redraw G sc w) = wr_DebugEnabled w" "wr_State (Redraw G sc w) = wr_State w"
  "wr_paused (Redraw G sc w) = wr_paused w" "wr_IsRPCListDisplayed (Redraw G sc w) = wr_IsRPCListDisplayed w"
  "wr_IsHelpDisplayed (Redraw G sc w) = wr_IsHelpDisplayed w"
  by (simp_all add: Redraw_def Let_def)

lemma Redraw_pages:
  "wr_Pages (Redraw G sc w) = (wr_Pages w - {''modal'', ''rpclist''}) \<union>
     (if wr_IsHelpDisplayed w then {''modal''} else {}) \<union> (if wr_IsRPCListDisplayed w then {''rpclist''} else {})"
  by (auto simp: Redraw_def Let_def)

lemma Redraw_grid:
  "wr_Grid (Redraw G sc w) = foldl (\<lambda>g it. g_add G it g) (foldl (\<lambda>g x. g_remove G x g) (wr_Grid w) removed_widgets)
     (added_items (wr_InfoBlockWidth w) (wr_DebugEnabled w) (main_widget (wr_Mode w)))"
  by (simp add: Redraw_def Let_def)

lemma lr_setters_total:
  assumes "0 \<le> lr_ColumnsCount t"
  shows "\<exists>t'. lr_redrawData B t = Some t' \<and> lr_ColumnsCount t' = lr_ColumnsCount t \<and> lr_Transpose t' = lr_Transpose t"
  using lr_redrawData_total [OF assms, of B] by (auto simp: lr_redrawData_def)

lemma set_columns_ok:
  assumes "1 \<le> n"
  shows "\<exists>t. set_columns E n w = Some (w\<lparr>wr_ColumnsCount := n, wr_LastRound := t\<rparr>) \<and> lr_ColumnsCount t = n
    \<and> lr_Transpose t = lr_Transpose (wr_LastRound w)"
  using lr_setters_total [of "(wr_LastRound w)\<lparr>lr_ColumnsCount := n\<rparr>" "round_env.truncate E"] assms
  by (auto simp: set_columns_def SetColumnsCount_def)

lemma NewWrapper_ok: "wrapper_ok (NewWrapper E G config state paused)"
  by (simp add: wrapper_ok_def NewWrapper_def DefaultColumnsCount_def NewLastRoundTableData_def NewAllRoundsTableData_def)

lemma Redraw_ok:
  assumes "1 \<le> wr_InfoBlockWidth w" "wr_InfoBlockWidth w \<le> 2" "1 \<le> wr_ColumnsCount w"
    and "lr_ColumnsCount (wr_LastRound w) = wr_ColumnsCount w"
    and "lr_Transpose (wr_LastRound w) = wr_Transpose w" "ar_Transpose (wr_AllRounds w) = wr_Transpose w"
    and "wr_Pages w \<subseteq> {''modal'', ''rpclist''}"
  shows "wrapper_ok (Redraw G sc w)"
  using assms by (auto simp: wrapper_ok_def Redraw_frame Redraw_pages)

lemma wrapper_okD:
  "wrapper_ok w \<Longrightarrow> wr_Pages w \<subseteq> {''modal'', ''rpclist''}"
  by (auto simp: wrapper_ok_def split: if_splits)

lemma Redraw_keeps_ok: "wrapper_ok w \<Longrightarrow> wrapper_ok (Redraw G sc w)"
  using Redraw_ok [of w] wrapper_okD [of w] unfolding wrapper_ok_def [of w] by blast

lemma set_columns_wrapper_ok:
  assumes "wrapper_ok w" "1 \<le> n"
  shows "\<exists>w'. set_columns E n w = Some w' \<and> wrapper_ok w' \<and> wr_InfoBlockWidth w' = wr_InfoBlockWidth w \<and> wr_State w' = wr_State w"
  using set_columns_ok [OF assms(2), of E w] assms by (auto simp: wrapper_ok_def)

lemma chosen_branch:
  "\<exists>x \<in> {a, b, c, d, e, f, g, h}. (if p then Some a else if q then Some b else if r then Some c else if s then Some d
    else if t then Some e else if u then Some f else if v then Some g else Some h) = Some x"
  by simp

lemma handle_key_ok:
  assumes "wrapper_ok w"
  shows "\<exists>w'. handle_key E G sc event w = Some w' \<and> wrapper_ok w' \<and> wr_InfoBlockWidth w' \<le> wr_InfoBlockWidth w
    \<and> wr_State w' = wr_State w"
proof -
  note ok = assms [unfolded wrapper_ok_def] and pages = wrapper_okD [OF assms]
  have toggles: "wrapper_ok (ToggleDebug G sc w)" "wrapper_ok (ToggleHelp G sc w)" "wrapper_ok (ToggleRPCList G sc w)"
    using ok pages by (simp_all add: ToggleDebug_def ToggleHelp_def ToggleRPCList_def Redraw_ok)
  have info: "wrapper_ok (ChangeInfoBlockHeight G sc inc w)
      \<and> wr_InfoBlockWidth (ChangeInfoBlockHeight G sc inc w) \<le> wr_InfoBlockWidth w
      \<and> wr_State (ChangeInfoBlockHeight G sc inc w) = wr_State w" for inc
    using ok pages by (auto simp: ChangeInfoBlockHeight_def RowsAmount_def DebugBlockHeight_def Redraw_frame intro!: Redraw_ok)
  have cols: "\<exists>w'. ChangeColumnsCount E G sc inc w = Some w' \<and> wrapper_ok w' \<and> wr_InfoBlockWidth w' = wr_InfoBlockWidth w
      \<and> wr_State w' = wr_State w" for inc
  proof -
    let ?n = "if inc then wr_ColumnsCount w + 1 else if wr_ColumnsCount w - 1 \<ge> 1 then wr_ColumnsCount w - 1 else wr_ColumnsCount w"
    have "1 \<le> ?n" using ok by simp
    from set_columns_wrapper_ok [OF assms this, of E] obtain w' where
      w': "set_columns E ?n w = Some w'" "wrapper_ok w'" "wr_InfoBlockWidth w' = wr_InfoBlockWidth w" "wr_State w' = wr_State w"
      by blast
    from Redraw_keeps_ok [OF w'(2)] have "wrapper_ok (Redraw G sc w')" .
    then show ?thesis unfolding ChangeColumnsCount_def w'(1) using w'(3,4) by (simp add: Redraw_frame)
  qed
  have mode: "\<exists>w'. ChangeMode E G sc w = Some w' \<and> wrapper_ok w' \<and> wr_InfoBlockWidth w' = wr_InfoBlockWidth w
      \<and> wr_State w' = wr_State w"
  proof -
    let ?w = "Redraw G sc (w\<lparr>wr_Mode := next_mode (wr_Mode w)\<rparr>)"
    have w: "wrapper_ok ?w" using ok pages by (simp add: Redraw_ok)
    have f: "wr_InfoBlockWidth ?w = wr_InfoBlockWidth w" "wr_State ?w = wr_State w" by (simp_all add: Redraw_frame)
    have "\<exists>w'. fit_columns E (sc_last_width sc) ?w = Some w' \<and> wrapper_ok w' \<and> wr_InfoBlockWidth w' = wr_InfoBlockWidth ?w
        \<and> wr_State w' = wr_State ?w"
      using set_columns_wrapper_ok [OF w, of 1 E] set_columns_wrapper_ok [OF w, of "go_div (sc_last_width sc) 50" E] w
      by (auto simp: fit_columns_def Let_def)
    then show ?thesis using w f by (auto simp: ChangeMode_def Let_def)
  qed
  have trans: "\<exists>w'. toggle_transpose E w = Some w' \<and> wrapper_ok w' \<and> wr_InfoBlockWidth w' = wr_InfoBlockWidth w
      \<and> wr_State w' = wr_State w"
  proof -
    let ?u = "(wr_LastRound w)\<lparr>lr_Transpose := \<not> wr_Transpose w\<rparr>"
    have "0 \<le> lr_ColumnsCount ?u" using ok by simp
    from lr_setters_total [OF this, of "round_env.truncate E"] obtain t where
      t: "lr_redrawData (round_env.truncate E) ?u = Some t" "lr_ColumnsCount t = lr_ColumnsCount ?u" "lr_Transpose t = lr_Transpose ?u"
      by (elim exE conjE)
    let ?w = "w\<lparr>wr_Transpose := \<not> wr_Transpose w, wr_LastRound := t,
      wr_AllRounds := ar_SetTranspose (\<not> wr_Transpose w) (wr_AllRounds w)\<rparr>"
    have "toggle_transpose E w = Some ?w" by (simp add: toggle_transpose_def lr_SetTranspose_def t(1) Let_def)
    moreover have "wrapper_ok ?w" using ok t(2,3) by (simp add: wrapper_ok_def ar_SetTranspose_def)
    ultimately show ?thesis by (intro exI [of _ ?w]) simp
  qed
  have frames: "wr_InfoBlockWidth (ToggleDebug G sc w) = wr_InfoBlockWidth w" "wr_State (ToggleDebug G sc w) = wr_State w"
    "wr_InfoBlockWidth (ToggleHelp G sc w) = wr_InfoBlockWidth w" "wr_State (ToggleHelp G sc w) = wr_State w"
    "wr_InfoBlockWidth (ToggleRPCList G sc w) = wr_InfoBlockWidth w" "wr_State (ToggleRPCList G sc w) = wr_State w"
    by (simp_all add: ToggleDebug_def ToggleHelp_def ToggleRPCList_def Redraw_frame)
  have plain: "wrapper_ok (w\<lparr>wr_stopped := True\<rparr>)" "wrapper_ok (w\<lparr>wr_paused := \<not> wr_paused w\<rparr>)"
    using assms by (simp_all add: wrapper_ok_def)
  show ?thesis
  proof (cases "event = KeyTab \<or> (\<exists>c \<in> set ''mlt''. event = Rune c)")
    case True
    then consider "event = KeyTab" | "event = Rune CHR ''m''" | "event = Rune CHR ''l''" | "event = Rune CHR ''t''" by auto
    then show ?thesis
    proof cases
      case 1
      then have "handle_key E G sc event w = ChangeMode E G sc w" by (simp add: handle_key_def)
      then show ?thesis using mode by auto
    next
      case 2
      then have "handle_key E G sc event w = ChangeColumnsCount E G sc True w" by (simp add: handle_key_def)
      then show ?thesis using cols [of True] by auto
    next
      case 3
      then have "handle_key E G sc event w = ChangeColumnsCount E G sc False w" by (simp add: handle_key_def)
      then show ?thesis using cols [of False] by auto
    next
      case 4
      then have "handle_key E G sc event w = toggle_transpose E w" by (simp add: handle_key_def)
      then show ?thesis using trans by auto
    qed
  next
    case False
    let ?S = "{w\<lparr>wr_stopped := True\<rparr>, ToggleDebug G sc w, ChangeInfoBlockHeight G sc True w,
      ChangeInfoBlockHeight G sc False w, ToggleHelp G sc w, ToggleRPCList G sc w, w\<lparr>wr_paused := \<not> wr_paused w\<rparr>, w}"
    from False have other: "event \<noteq> KeyTab" "event \<noteq> Rune CHR ''m''" "event \<noteq> Rune CHR ''l''" "event \<noteq> Rune CHR ''t''" by auto
    have "\<exists>w' \<in> ?S. handle_key E G sc event w = Some w'"
      unfolding handle_key_def if_not_P [OF other(1)] if_not_P [OF other(2)] if_not_P [OF other(3)] if_not_P [OF other(4)]
      by (rule chosen_branch)
    then obtain w' where w': "w' \<in> ?S" "handle_key E G sc event w = Some w'" by (rule bexE)
    let ?P = "\<lambda>x. wrapper_ok x \<and> wr_InfoBlockWidth x \<le> wr_InfoBlockWidth w \<and> wr_State x = wr_State w"
    have "?P (w\<lparr>wr_stopped := True\<rparr>)" "?P (w\<lparr>wr_paused := \<not> wr_paused w\<rparr>)" "?P w"
      "?P (ToggleDebug G sc w)" "?P (ToggleHelp G sc w)" "?P (ToggleRPCList G sc w)"
      using plain assms toggles frames by simp_all
    with info have "\<forall>x \<in> ?S. ?P x" by (intro ballI) (elim insertE emptyE, simp_all only:)
    then have "?P w'" using w'(1) by (rule bspec)
    with w'(2) show ?thesis by blast
  qed
qed

lemma handle_keys_kept:
  "wrapper_ok w \<Longrightarrow> \<exists>w'. handle_keys E G es w = Some w' \<and> wrapper_ok w' \<and> wr_InfoBlockWidth w' \<le> wr_InfoBlockWidth w
    \<and> wr_State w' = wr_State w"
proof (induction es arbitrary: w)
  case (Cons x es)
  obtain sc event where x: "x = (sc, event)" by (cases x)
  from handle_key_ok [OF Cons.prems, of E G sc event] obtain w1 where
    w1: "handle_key E G sc event w = Some w1" "wrapper_ok w1" "wr_InfoBlockWidth w1 \<le> wr_InfoBlockWidth w" "wr_State w1 = wr_State w"
    by blast
  with Cons.IH [OF w1(2)] Cons.prems show ?case by (auto simp: x)
qed simp

lemma g_items_foldl_remove:
  "lawful_grid G \<Longrightarrow> g_items G (foldl (\<lambda>g x. g_remove G x g) g xs) = filter (\<lambda>it. it_widget it \<notin> set xs) (g_items G g)"
  by (induction xs arbitrary: g) (auto simp: lawful_grid_def intro: filter_cong)

lemma g_items_foldl_add:
  "lawful_grid G \<Longrightarrow> g_items G (foldl (\<lambda>g it. g_add G it g) g its) = g_items G g @ its"
  by (induction its arbitrary: g) (auto simp: lawful_grid_def)

lemma kept_items_removed: "filter (\<lambda>it. it_widget it \<notin> set removed_widgets) its = kept_items its"
proof -
  have "x \<notin> set removed_widgets \<longleftrightarrow> x \<in> {NetInfoTable, RPCsTable}" for x
    by (cases x) (simp_all add: removed_widgets_def)
  then show ?thesis by (simp add: kept_items_def)
qed

lemma list_grid_lawful: "lawful_grid list_grid"
  by (simp add: lawful_grid_def list_grid_def)

section \<open>SetState\<close>

lemma update_last_round_total:
  assumes "0 \<le> lr_ColumnsCount t"
  shows "\<exists>t'. update_last_round E state t = Some t' \<and> lr_ColumnsCount t' = lr_ColumnsCount t \<and> lr_Transpose t' = lr_Transpose t"
proof -
  let ?B = "round_env.truncate E"
  have step: "\<exists>t'. lr_redrawData ?B u = Some t' \<and> lr_ColumnsCount t' = lr_ColumnsCount t \<and> lr_Transpose t' = lr_Transpose t"
    if "lr_ColumnsCount u = lr_ColumnsCount t" "lr_Transpose u = lr_Transpose t" for u
    using lr_setters_total [of u ?B] that assms by simp
  let ?u1 = "t\<lparr>lr_TMValidators := GetTMValidators state, lr_ConsensusError := GetConsensusStateError state\<rparr>"
  obtain t1 where t1: "lr_redrawData ?B ?u1 = Some t1" "lr_ColumnsCount t1 = lr_ColumnsCount t" "lr_Transpose t1 = lr_Transpose t"
    using step [of ?u1] by auto
  let ?u2 = "t1\<lparr>lr_RoundData := VotesByRound state\<rparr>"
  obtain t2 where t2: "lr_redrawData ?B ?u2 = Some t2" "lr_ColumnsCount t2 = lr_ColumnsCount t" "lr_Transpose t2 = lr_Transpose t"
    using step [of ?u2] t1 by auto
  obtain h r x y where c: "GetConsensusHeight state = (h, r, x, y)" by (metis prod_cases4)
  let ?u3 = "t2\<lparr>lr_CurrentHeight := h, lr_CurrentRound := i32 r\<rparr>"
  obtain t3 where t3: "lr_redrawData ?B ?u3 = Some t3" "lr_ColumnsCount t3 = lr_ColumnsCount t" "lr_Transpose t3 = lr_Transpose t"
    using step [of ?u3] t2 by auto
  show ?thesis using t1(1) t2(1) t3
    by (simp add: update_last_round_def c lr_SetTMValidators_def lr_SetRoundData_def lr_SetCurrentRound_def Let_def)
qed

lemma update_all_rounds_total: "\<exists>t'. update_all_rounds E state t = Some t' \<and> ar_Transpose t' = ar_Transpose t"
proof -
  obtain h r x y where c: "GetConsensusHeight state = (h, r, x, y)" by (metis prod_cases4)
  show ?thesis
    by (auto simp: update_all_rounds_def c ar_SetTMValidators_def ar_SetCurrentRound_def ar_SetRoundData_def ar_Update_def
        createCells_def Let_def)
qed

lemma update_all_rounds_size:
  assumes "update_all_rounds E state t = Some t'" "GetTMValidators state \<noteq> []"
  shows "ar_GetRowCount t' = Suc (length (GetTMValidators state))
    \<and> ar_GetColumnCount t' = 2 + length (ReverseIter (round_env.truncate E) (VotesByRound state))"
proof -
  obtain h r x y where c: "GetConsensusHeight state = (h, r, x, y)" by (metis prod_cases4)
  from assms show ?thesis
    by (auto simp add: update_all_rounds_def c ar_SetTMValidators_def ar_SetCurrentRound_def ar_SetRoundData_def ar_Update_def
        createCells_def ar_GetRowCount_def ar_GetColumnCount_def grid_columns_def Let_def)
qed

lemma percents_total:
  assumes "well_formed_validators (GetTMValidators state)"
  shows "\<exists>q. GetTotalVotingPowerPrevotedPercent E state b = Some q" "\<exists>q. GetTotalVotingPowerPrecommittedPercent E state b = Some q"
  using assms [unfolded GetTMValidators_def]
  by (simp_all add: GetTotalVotingPowerPrevotedPercent_def GetTotalVotingPowerPrecommittedPercent_def
      votingPowerPercent_sums Let_def)

lemma panels_total:
  assumes "well_formed_validators (GetTMValidators state)"
  shows "SerializeConsensus P E n1 n2 state \<noteq> None" "progress_text E sc state \<noteq> None"
proof -
  obtain h r x y where c: "GetConsensusHeight state = (h, r, x, y)" by (metis prod_cases4)
  obtain a b c' d where p: "GetTotalVotingPowerPrevotedPercent E state True = Some a" "GetTotalVotingPowerPrevotedPercent E state False = Some b"
    "GetTotalVotingPowerPrecommittedPercent E state True = Some c'" "GetTotalVotingPowerPrecommittedPercent E state False = Some d"
    using percents_total [OF assms, of E True] percents_total [OF assms, of E False] by blast
  show "SerializeConsensus P E n1 n2 state \<noteq> None"
  proof (cases "GetConsensusStateError state")
    case None
    then show ?thesis
      by (cases "GetTMValidators state = []")
         (simp_all only: SerializeConsensus_def None c p Let_def option.simps prod.simps if_True if_False simp_thms)
  qed (simp add: SerializeConsensus_def)
  show "progress_text E sc state \<noteq> None"
    by (auto simp: progress_text_def SerializePrevotesProgressbar_def SerializePrecommitsProgressbar_def p Let_def)
qed

lemma network_health_total:
  assumes "\<forall>nh. GetNetworkHealth state = Some nh \<longrightarrow> (\<forall>d \<in> set (BlockIntervals nh). 0 \<le> d \<and> d < 2 ^ 63)"
  shows "SerializeNetworkHealth P e state \<noteq> None"
proof (cases "GetNetworkHealth state")
  case (Some nh)
  have "sparkline (BlockIntervals nh) e \<noteq> None"
  proof (cases "BlockIntervals nh = []")
    case False
    have "Min (set (BlockIntervals nh)) \<in> set (BlockIntervals nh)" "Max (set (BlockIntervals nh)) \<in> set (BlockIntervals nh)"
      using False by simp_all
    then have "0 \<le> Min (set (BlockIntervals nh))" "Max (set (BlockIntervals nh)) < 2 ^ 63" using assms Some by simp_all
    then have "Max (set (BlockIntervals nh)) - Min (set (BlockIntervals nh)) < 2 ^ 63" by linarith
    from sparkline_total [OF False this] show ?thesis .
  qed (simp add: sparkline_def)
  then obtain spark where spark: "sparkline (BlockIntervals nh) e = Some spark" by blast
  have "\<exists>q. quality_block P nh e = Some q"
    by (cases "BlockIntervals nh = []") (simp_all only: quality_block_def Let_def spark option.simps option.map if_True if_False simp_thms)
  then show ?thesis by (auto simp only: SerializeNetworkHealth_def Some option.simps)
qed (simp add: SerializeNetworkHealth_def)

lemma SetState_kept:
  assumes "wrapper_ok w" "well_formed_validators (GetTMValidators state)"
    and "\<forall>nh. GetNetworkHealth state = Some nh \<longrightarrow> (\<forall>d \<in> set (BlockIntervals nh). 0 \<le> d \<and> d < 2 ^ 63)"
  shows "\<exists>w'. SetState P E srt sc ck state w = Some w' \<and> wrapper_ok w' \<and> wr_State w' = state
    \<and> rt_GetRowCount (wr_RPCs w') = length (om_entries (rpcs_ops E) (KnownRPCs state))
    \<and> (GetTMValidators state \<noteq> [] \<longrightarrow>
        ar_GetRowCount (wr_AllRounds w') = Suc (length (GetTMValidators state))
      \<and> ar_GetColumnCount (wr_AllRounds w') = 2 + length (ReverseIter (round_env.truncate E) (VotesByRound state)))"
proof -
  obtain t where t: "update_last_round E state (wr_LastRound w) = Some t" "lr_ColumnsCount t = lr_ColumnsCount (wr_LastRound w)"
    "lr_Transpose t = lr_Transpose (wr_LastRound w)"
    using update_last_round_total [of "wr_LastRound w" E state] assms(1) by (auto simp: wrapper_ok_def)
  obtain a where a: "update_all_rounds E state (wr_AllRounds w) = Some a" "ar_Transpose a = ar_Transpose (wr_AllRounds w)"
    using update_all_rounds_total by blast
  have rows: "GetTMValidators state \<noteq> [] \<longrightarrow> ar_GetRowCount a = Suc (length (GetTMValidators state))
      \<and> ar_GetColumnCount a = 2 + length (ReverseIter (round_env.truncate E) (VotesByRound state))"
    using update_all_rounds_size [OF a(1)] by simp
  obtain h where h: "(case GetValidatorHealth state of None \<Rightarrow> Some (wr_ValidatorHealth w)
      | Some rows \<Rightarrow> SetRows rows (wr_ValidatorHealth w)) = Some h"
    using SetRows_total by (cases "GetValidatorHealth state") fastforce+
  obtain n where n: "SerializeNetworkHealth P (wr_DisableEmojis w) state = Some n"
    using network_health_total [OF assms(3)] by fastforce
  obtain c where c: "SerializeConsensus P E (fst (ck_consensus ck)) (snd (ck_consensus ck)) state = Some c"
    using panels_total(1) [OF assms(2)] by fastforce
  obtain p where p: "progress_text E sc state = Some p" using panels_total(2) [OF assms(2)] by fastforce
  let ?w = "w\<lparr>wr_State := state, wr_LastRound := t, wr_AllRounds := a,
    wr_NetInfo := nt_SetNetInfo srt (GetNetInfo state) (wr_NetInfo w), wr_ValidatorHealth := h,
    wr_RPCs := SetKnownRPCs (map snd (om_entries (rpcs_ops E) (KnownRPCs state))) (wr_RPCs w),
    wr_NetworkHealth := n, wr_ConsensusInfo := c,
    wr_ChainInfo := SerializeChainInfo P E (fst (ck_chain ck)) (snd (ck_chain ck)) state, wr_Progress := p\<rparr>"
  have h': "(case GetValidatorHealth state of None \<Rightarrow> Some (wr_ValidatorHealth (w\<lparr>wr_State := state\<rparr>))
      | Some rows \<Rightarrow> SetRows rows (wr_ValidatorHealth (w\<lparr>wr_State := state\<rparr>))) = Some h"
    using h by (cases "GetValidatorHealth state") simp_all
  have "SetState P E srt sc ck state w = Some ?w"
    by (simp add: SetState_def t(1) a(1) h' n c p Let_def)
  moreover have "wrapper_ok ?w" using assms(1) t(2,3) a(2) by (simp add: wrapper_ok_def)
  moreover have "rt_GetRowCount (wr_RPCs ?w) = length (om_entries (rpcs_ops E) (KnownRPCs state))"
    by (simp add: SetKnownRPCs_def rt_redrawData_def rt_GetRowCount_def)
  ultimately show ?thesis using rows by (intro exI [of _ ?w]) simp
qed

lemma handle_keys_stopped: "wr_stopped w \<Longrightarrow> handle_keys E G es w = Some w"
  by (cases es) auto

lemma handle_keys_append:
  "handle_keys E G (es1 @ es2) w = Option.bind (handle_keys E G es1 w) (handle_keys E G es2)"
proof (induction es1 arbitrary: w)
  case (Cons x es1)
  obtain sc event where x: "x = (sc, event)" by (cases x)
  show ?case by (cases "handle_key E G sc event w") (simp_all add: x Cons.IH handle_keys_stopped)
qed simp

section \<open>Properties\<close>


text \<open>C33: a redraw replaces every item of the grid by the ones of the current mode, stacked without gap over
  the ten rows, except that earlier items of the network table are never removed; with the debug panel on
  and an information block of two rows the main table is left without any row.\<close>

theorem Redraw_layout:
  assumes "lawful_grid G" "wrapper_ok w"
  defines "info \<equiv> wr_InfoBlockWidth w" and "debug \<equiv> wr_DebugEnabled w"
  shows "g_items G (wr_Grid (Redraw G sc w)) =
      kept_items (g_items G (wr_Grid w)) @ added_items info debug (main_widget (wr_Mode w))
    \<and> (\<exists>main \<in> set (added_items info debug (main_widget (wr_Mode w))).
        it_widget main = main_widget (wr_Mode w) \<and> it_row main = info
        \<and> it_row main + it_rows main + (if debug then DebugBlockHeight else 0) = RowsAmount
        \<and> (it_rows main = 0 \<longleftrightarrow> debug \<and> info = 2))
    \<and> (wr_Mode w = ModeNetInfo \<longrightarrow>
        length (filter (\<lambda>it. it_widget it = NetInfoTable) (g_items G (wr_Grid (Redraw G sc w)))) =
        Suc (length (filter (\<lambda>it. it_widget it = NetInfoTable) (g_items G (wr_Grid w)))))"
proof -
  have items: "g_items G (wr_Grid (Redraw G sc w)) =
      kept_items (g_items G (wr_Grid w)) @ added_items info debug (main_widget (wr_Mode w))"
    using assms(1) by (simp add: Redraw_grid g_items_foldl_add g_items_foldl_remove kept_items_removed info_def debug_def)
  have "1 \<le> info" "info \<le> 2" using assms(2) by (simp_all add: wrapper_ok_def info_def)
  then have "\<exists>main \<in> set (added_items info debug (main_widget (wr_Mode w))).
        it_widget main = main_widget (wr_Mode w) \<and> it_row main = info
        \<and> it_row main + it_rows main + (if debug then DebugBlockHeight else 0) = RowsAmount
        \<and> (it_rows main = 0 \<longleftrightarrow> debug \<and> info = 2)"
    by (cases debug) (auto simp: added_items_def grid_item_of_def RowsAmount_def DebugBlockHeight_def)
  moreover have "length (filter (\<lambda>it. it_widget it = NetInfoTable) (kept_items its @ added_items info debug NetInfoTable)) =
      Suc (length (filter (\<lambda>it. it_widget it = NetInfoTable) its))" for its
  proof -
    have "filter (\<lambda>it. it_widget it = NetInfoTable) (kept_items its) = filter (\<lambda>it. it_widget it = NetInfoTable) its"
      by (induction its) (simp_all add: kept_items_def)
    then show ?thesis by (cases debug) (simp_all add: added_items_def grid_item_of_def)
  qed
  ultimately show ?thesis using items by (simp add: main_widget_def)
qed

theorem Redraw_layout_witness:
  "length (filter (\<lambda>it. it_widget it = NetInfoTable) (g_items list_grid (wr_Grid
     (Redraw list_grid sample_screen (sample_wrapper\<lparr>wr_Mode := ModeNetInfo\<rparr>))))) = 1"
proof -
  have "wrapper_ok sample_wrapper" unfolding sample_wrapper_def by (rule NewWrapper_ok)
  then have "wrapper_ok (sample_wrapper\<lparr>wr_Mode := ModeNetInfo\<rparr>)" by (simp add: wrapper_ok_def)
  note Redraw_layout [OF list_grid_lawful this, of sample_screen, THEN conjunct2, THEN conjunct2, rule_format]
  moreover have "g_items list_grid (wr_Grid (sample_wrapper\<lparr>wr_Mode := ModeNetInfo\<rparr>)) = []"
    by (simp add: sample_wrapper_def NewWrapper_def list_grid_def)
  ultimately show ?thesis by simp
qed

end
