(* ===== verification/CometRpc.thy ===== *)
theory CometRpc
  imports State Utils Config
begin

text \<open>
  \<open>pkg/http/http.go\<close> and \<open>pkg/fetcher/comet_rpc.go\<close>: the HTTP client and the CometBFT RPC client
  on top of it. A call may change the outside world \<open>'w\<close> and may fail: it maps a world to
  \<open>Some (Inl err, w)\<close> or \<open>Some (Inr x, w)\<close>; \<open>None\<close> is a call that does not return (a nil
  dereference, or a loop that never ends). The network, \<open>net/url\<close>'s parser and the JSON decoders
  of the third-party message types are fields of \<open>http_env\<close> and \<open>comet_env\<close>; of the messages
  the records keep what the source reads.
\<close>

section \<open>Data\<close>

type_synonym ('w, 'a) io = "'w \<Rightarrow> ((goerror + 'a) \<times> 'w) option"

record URL =
  url_Base :: string
  url_Path :: string
  url_RawQuery :: string
  url_Fragment :: string

text \<open>A response body: what reading it yields and what closing it reports.\<close>

record http_body =
  body_read :: "goerror + bytes"
  body_close :: "goerror option"

record 'w http_env =
  he_parse :: "string \<Rightarrow> URL option"
  he_string :: "URL \<Rightarrow> string"
  he_Do :: "string \<Rightarrow> 'w \<Rightarrow> (goerror + http_body) \<times> 'w"

record Client =
  cl_Host :: string

record RPCResponse =
  rr_Error :: "goerror option"
  rr_Result :: bytes

record RoundStateSimple =
  rss_HeightRoundStep :: string
  rss_StartTime :: instant
  rss_Proposer :: address

record RoundState =
  rst_Height :: int
  rst_Round :: int
  rst_Step :: int
  rst_StartTime :: instant
  rst_Proposer :: address

record ResultValidators =
  rv_Validators :: "CometValidator list"
  rv_Total :: int

record Block =
  blk_Height :: int
  blk_Time :: instant

record 'w comet_env = "'w http_env" +
  ce_envelope :: "bytes \<Rightarrow> goerror + RPCResponse"
  ce_consensus_state :: "bytes \<Rightarrow> goerror + bytes"
  ce_round_state_simple :: "bytes \<Rightarrow> goerror + RoundStateSimple"
  ce_validators :: "bytes \<Rightarrow> goerror + ResultValidators"
  ce_dump :: "bytes \<Rightarrow> goerror + bytes option"
  ce_round_state :: "bytes \<Rightarrow> goerror + CometValidator list option"
  ce_status :: "bytes \<Rightarrow> goerror + ResultStatus"
  ce_block :: "bytes \<Rightarrow> goerror + Block option"
  ce_net_info :: "bytes \<Rightarrow> goerror + NetInfo"
  ce_unconfirmed :: "bytes \<Rightarrow> goerror + string \<times> string"

record 'w CometRPC =
  rpc_getURL :: "'w \<Rightarrow> string"
  rpc_blocksBehind :: int

section \<open>HTTP client\<close>

text \<open>\<open>path.Clean\<close>: empty and \<open>.\<close> elements vanish, \<open>..\<close> removes the element before it, and at the
  root it vanishes too. The accumulator holds the elements kept so far, last first.\<close>

fun clean_elems :: "bool \<Rightarrow> string list \<Rightarrow> string list \<Rightarrow> string list" where
  "clean_elems rooted acc [] = rev acc"
| "clean_elems rooted acc (e # es) =
     (if e = '''' \<or> e = ''.'' then clean_elems rooted acc es
      else if e = ''..'' then
        (case acc of
           [] \<Rightarrow> clean_elems rooted (if rooted then [] else [''..'']) es
         | a # acc' \<Rightarrow> clean_elems rooted (if a = ''..'' then ''..'' # acc else acc') es)
      else clean_elems rooted (e # acc) es)"

definition path_Clean :: "string \<Rightarrow> string" where
  "path_Clean p =
     (let rooted = (p \<noteq> '''' \<and> hd p = CHR ''/'');
          body = join ''/'' (clean_elems rooted [] (split_on CHR ''/'' p))
      in if rooted then CHR ''/'' # body else if body = '''' then ''.'' else body)"

definition path_Join :: "string \<Rightarrow> string \<Rightarrow> string" where
  "path_Join a b =
     (if a = '''' \<and> b = '''' then ''''
      else path_Clean (if a = '''' then b else if b = '''' then a else a @ ''/'' @ b))"

definition NewClient :: "string \<Rightarrow> Client" where
  "NewClient host = \<lparr>cl_Host = host\<rparr>"

text \<open>\<open>None\<close>: a URL does not parse and its \<open>nil\<close> is dereferenced.\<close>

definition client_join :: "('w, 'z) http_env_scheme \<Rightarrow> string \<Rightarrow> string \<Rightarrow> string option" where
  "client_join H host rest =
     (case (he_parse H host, he_parse H rest) of
        (Some base, Some ref) \<Rightarrow>
          Some (he_string H (base\<lparr>url_Path := path_Join (url_Path base) (url_Path ref),
                                  url_RawQuery := url_RawQuery ref, url_Fragment := url_Fragment ref\<rparr>))
      | _ \<Rightarrow> None)"

definition GetInternal :: "('w, 'z) http_env_scheme \<Rightarrow> Client \<Rightarrow> string \<Rightarrow> ('w, http_body) io" where
  "GetInternal H c relativeURL w =
     (case client_join H (cl_Host c) relativeURL of
        None \<Rightarrow> None
      | Some fullURL \<Rightarrow> Some (he_Do H fullURL w))"

definition client_Get ::
    "('w, 'z) http_env_scheme \<Rightarrow> (goerror + bytes \<Rightarrow> goerror + 'a) \<Rightarrow> Client \<Rightarrow> string \<Rightarrow> ('w, 'a) io" where
  "client_Get H decode c relativeURL w =
     (case client_join H (cl_Host c) relativeURL of
        None \<Rightarrow> None
      | Some fullURL \<Rightarrow>
          Option.bind (GetInternal H c relativeURL w) (\<lambda>(res, w).
            case res of
              Inl err \<Rightarrow> Some (Inl (''GET '' @ fullURL @ '': '' @ err), w)
            | Inr body \<Rightarrow>
                (case decode (body_read body) of
                   Inl err \<Rightarrow> Some (Inl (''decoding JSON from '' @ fullURL @ '': '' @ err), w)
                 | Inr x \<Rightarrow> Some (Inr x, w))))"

definition GetPlain :: "('w, 'z) http_env_scheme \<Rightarrow> Client \<Rightarrow> string \<Rightarrow> ('w, bytes) io" where
  "GetPlain H c relativeURL w =
     (case client_join H (cl_Host c) relativeURL of
        None \<Rightarrow> None
      | Some fullURL \<Rightarrow>
          Option.bind (GetInternal H c relativeURL w) (\<lambda>(res, w).
            case res of
              Inl err \<Rightarrow> Some (Inl (''GET '' @ fullURL @ '': '' @ err), w)
            | Inr body \<Rightarrow>
                (case body_read body of
                   Inl err \<Rightarrow> Some (Inl (''reading body from '' @ fullURL @ '': '' @ err), w)
                 | Inr bs \<Rightarrow>
                     (case body_close body of
                        Some err \<Rightarrow> Some (Inl (''closing body from '' @ fullURL @ '': '' @ err), w)
                      | None \<Rightarrow> Some (Inr bs, w)))))"

section \<open>RPC client\<close>

definition NewCometRPC :: "'tz Config \<Rightarrow> ('w \<Rightarrow> string) \<Rightarrow> 'w CometRPC" where
  "NewCometRPC config getURL = \<lparr>rpc_getURL = getURL, rpc_blocksBehind = int (cfg_BlocksBehind config)\<rparr>"

definition WithEndpoint :: "string \<Rightarrow> 'w CometRPC \<Rightarrow> 'w CometRPC" where
  "WithEndpoint url rpc = rpc\<lparr>rpc_getURL := (\<lambda>_. url)\<rparr>"

definition rpc_client :: "'w CometRPC \<Rightarrow> 'w \<Rightarrow> Client" where
  "rpc_client rpc w = NewClient (rpc_getURL rpc w)"

definition request ::
    "('w, 'z) comet_env_scheme \<Rightarrow> 'w CometRPC \<Rightarrow> string \<Rightarrow> (bytes \<Rightarrow> goerror + 'a) \<Rightarrow> ('w, 'a) io" where
  "request C rpc path decode w =
     (let url = rpc_getURL rpc w
      in Option.bind (GetPlain C (rpc_client rpc w) path w) (\<lambda>(res, w).
           case res of
             Inl err \<Rightarrow> Some (Inl (''GET '' @ url @ path @ '': '' @ err), w)
           | Inr bs \<Rightarrow>
               (case ce_envelope C bs of
                  Inl err \<Rightarrow> Some (Inl (''decoding JSON-RPC envelope from '' @ url @ path @ '': '' @ err), w)
                | Inr response \<Rightarrow>
                    (case rr_Error response of
                       Some err \<Rightarrow> Some (Inl (''JSON-RPC error from '' @ url @ path @ '': '' @ err), w)
                     | None \<Rightarrow>
                         (case decode (rr_Result response) of
                            Inl err \<Rightarrow> Some (Inl (''decoding JSON-RPC result from '' @ url @ path @ '': '' @ err), w)
                          | Inr x \<Rightarrow> Some (Inr x, w))))))"

text \<open>The text of the two errors of \<open>strconv\<close>.\<close>

definition num_error :: "string \<Rightarrow> string \<Rightarrow> numerr \<Rightarrow> goerror" where
  "num_error fn s e =
     ''strconv.'' @ fn @ '': parsing '' @ [CHR 0x22] @ s @ [CHR 0x22] @ '': '' @
     (case e of ErrSyntax \<Rightarrow> ''invalid syntax'' | ErrRange \<Rightarrow> ''value out of range'')"

definition parseHeightRoundStep :: "string \<Rightarrow> goerror + int \<times> int \<times> int" where
  "parseHeightRoundStep s =
     (let parts = split_on CHR ''/'' s
      in if length parts \<noteq> 3 then Inl (''expected 3 parts, got '' @ itoa (int (length parts)))
         else case ParseInt 64 (parts ! 0) of
           (_, Some e) \<Rightarrow> Inl (''height: '' @ num_error ''ParseInt'' (parts ! 0) e)
         | (h, None) \<Rightarrow>
             (case ParseInt 32 (parts ! 1) of
                (_, Some e) \<Rightarrow> Inl (''round: '' @ num_error ''ParseInt'' (parts ! 1) e)
              | (r, None) \<Rightarrow>
                  (case ParseUint 8 (parts ! 2) of
                     (_, Some e) \<Rightarrow> Inl (''step: '' @ num_error ''ParseUint'' (parts ! 2) e)
                   | (st, None) \<Rightarrow> Inr (h, i32 r, int st))))"

definition GetConsensusState :: "('w, 'z) comet_env_scheme \<Rightarrow> 'w CometRPC \<Rightarrow> ('w, RoundState) io" where
  "GetConsensusState C rpc w =
     Option.bind (request C rpc ''/consensus_state'' (ce_consensus_state C) w) (\<lambda>(res, w).
       case res of
         Inl err \<Rightarrow> Some (Inl err, w)
       | Inr raw \<Rightarrow>
           (case ce_round_state_simple C raw of
              Inl err \<Rightarrow> Some (Inl (''failed to unmarshal round state: '' @ err), w)
            | Inr simple \<Rightarrow>
                (case parseHeightRoundStep (rss_HeightRoundStep simple) of
                   Inl err \<Rightarrow> Some (Inl (''parsing height/round/step '' @ [CHR 0x22] @ rss_HeightRoundStep simple @
                     [CHR 0x22] @ '': '' @ err), w)
                 | Inr (height, rnd, step) \<Rightarrow>
                     Some (Inr \<lparr>rst_Height = height, rst_Round = rnd, rst_Step = step,
                       rst_StartTime = rss_StartTime simple, rst_Proposer = rss_Proposer simple\<rparr>, w))))"

definition page_path :: "int \<Rightarrow> string" where
  "page_path page = ''/validators?page='' @ itoa page @ ''&per_page=100''"

definition getValidatorsAtPage :: "('w, 'z) comet_env_scheme \<Rightarrow> 'w CometRPC \<Rightarrow> int \<Rightarrow> ('w, ResultValidators) io" where
  "getValidatorsAtPage C rpc page w = request C rpc (page_path page) (ce_validators C) w"

definition getValidatorsViaDumpConsensusState ::
    "('w, 'z) comet_env_scheme \<Rightarrow> 'w CometRPC \<Rightarrow> ('w, CometValidator list) io" where
  "getValidatorsViaDumpConsensusState C rpc w =
     Option.bind (request C rpc ''/dump_consensus_state'' (ce_dump C) w) (\<lambda>(res, w).
       case res of
         Inl err \<Rightarrow> Some (Inl err, w)
       | Inr None \<Rightarrow> Some (Inl ''malformed response from /dump_consensus_state'', w)
       | Inr (Some roundState) \<Rightarrow>
           (case ce_round_state C roundState of
              Inl err \<Rightarrow> Some (Inl (''failed to unmarshal round state: '' @ err), w)
            | Inr None \<Rightarrow> Some (Inl ''malformed response from /dump_consensus_state: missing validator set'', w)
            | Inr (Some vs) \<Rightarrow> Some (Inr vs, w)))"

text \<open>The loop of \<open>GetValidators\<close>; \<open>None\<close> also when the pages never reach the announced total.\<close>

partial_function (option) validator_pages ::
    "('w, 'z) comet_env_scheme \<Rightarrow> 'w CometRPC \<Rightarrow> int \<Rightarrow> CometValidator list \<Rightarrow> ('w, CometValidator list) io" where
  "validator_pages C rpc page validators w =
     Option.bind (getValidatorsAtPage C rpc page w) (\<lambda>(res, w).
       case res of
         Inl err \<Rightarrow>
           (if contains err ''could not find validator set for height''
            then getValidatorsViaDumpConsensusState C rpc w
            else Some (Inl err, w))
       | Inr response \<Rightarrow>
           (let validators = validators @ rv_Validators response
            in if int (length validators) \<ge> rv_Total response then Some (Inr validators, w)
               else validator_pages C rpc (page + 1) validators w))"

definition rpc_GetValidators :: "('w, 'z) comet_env_scheme \<Rightarrow> 'w CometRPC \<Rightarrow> ('w, CometValidator list) io" where
  "rpc_GetValidators C rpc w = validator_pages C rpc 1 [] w"

definition GetCometNodeStatus :: "('w, 'z) comet_env_scheme \<Rightarrow> 'w CometRPC \<Rightarrow> ('w, ResultStatus) io" where
  "GetCometNodeStatus C rpc w = request C rpc ''/status'' (ce_status C) w"

text \<open>The zero result that accompanies an error is never read.\<close>

definition rpc_Block :: "('w, 'z) comet_env_scheme \<Rightarrow> 'w CometRPC \<Rightarrow> int \<Rightarrow> ('w, Block option) io" where
  "rpc_Block C rpc height w =
     (let blockURL = (if height \<noteq> 0 then ''/block?height='' @ itoa height else ''/block'')
      in request C rpc blockURL (ce_block C) w)"

text \<open>\<open>older_height\<close> and \<open>block_time_of\<close>: the arithmetic of \<open>GetBlockTime\<close>.\<close>

definition older_height :: "int \<Rightarrow> int \<Rightarrow> int" where
  "older_height latest behind = (let h = i64 (latest - i64 behind) in if h \<le> 0 then 1 else h)"

definition block_time_of :: "duration \<Rightarrow> int \<Rightarrow> duration" where
  "block_time_of diffTime blocksDiff =
     (let blockTime = fdiv (duration_seconds diffTime) (float_of_int blocksDiff)
      in ftrunc (fmul blockTime (float_of_int Second)))"

definition rpc_GetBlockTime :: "('w, 'z) comet_env_scheme \<Rightarrow> 'w CometRPC \<Rightarrow> ('w, duration) io" where
  "rpc_GetBlockTime C rpc w =
     Option.bind (rpc_Block C rpc 0 w) (\<lambda>(res, w).
       case res of
         Inl err \<Rightarrow> Some (Inl err, w)
       | Inr None \<Rightarrow> Some (Inl ''no current block present'', w)
       | Inr (Some latest) \<Rightarrow>
           (let older = older_height (blk_Height latest) (rpc_blocksBehind rpc);
                blocksDiff = i64 (blk_Height latest - older)
            in if blocksDiff \<le> 0 then Some (Inl ''cannot calculate block time with the negative blocks counter'', w)
               else Option.bind (rpc_Block C rpc older w) (\<lambda>(res, w).
                 case res of
                   Inl err \<Rightarrow> Some (Inl err, w)
                 | Inr None \<Rightarrow> Some (Inl ''no older block present'', w)
                 | Inr (Some olderBlock) \<Rightarrow>
                     Some (Inr (block_time_of (time_sub (blk_Time latest) (blk_Time olderBlock)) blocksDiff), w))))"

definition rpc_GetNetInfo :: "('w, 'z) comet_env_scheme \<Rightarrow> 'w CometRPC \<Rightarrow> ('w, NetInfo) io" where
  "rpc_GetNetInfo C rpc w = request C rpc ''/net_info'' (ce_net_info C) w"

definition GetNumUnconfirmedTxs :: "('w, 'z) comet_env_scheme \<Rightarrow> 'w CometRPC \<Rightarrow> ('w, int \<times> int) io" where
  "GetNumUnconfirmedTxs C rpc w =
     Option.bind (request C rpc ''/num_unconfirmed_txs'' (ce_unconfirmed C) w) (\<lambda>(res, w).
       case res of
         Inl err \<Rightarrow> Some (Inl err, w)
       | Inr (txs, bs) \<Rightarrow> Some (Inr (fst (ParseInt 64 txs), fst (ParseInt 64 bs)), w))"

section \<open>Specification\<close>

text \<open>CometBFT's documented pagination: page \<open>p\<close> of \<open>/validators\<close> holds the \<open>p\<close>-th hundred of the
  validators, and every page announces how many there are in total. Nothing is said of pages past
  the last one, nor of how the world changes between two requests.\<close>

definition serves_validators :: "('w, 'z) comet_env_scheme \<Rightarrow> 'w CometRPC \<Rightarrow> CometValidator list \<Rightarrow> bool" where
  "serves_validators C rpc vs \<longleftrightarrow>
     (\<forall>w p. (p = 0 \<or> 100 * p < length vs) \<longrightarrow>
        (\<exists>w'. getValidatorsAtPage C rpc (int p + 1) w =
           Some (Inr \<lparr>rv_Validators = take 100 (drop (100 * p) vs), rv_Total = int (length vs)\<rparr>, w')))"

text \<open>A node that announces more validators than it hands out.\<close>

definition withholds_validators :: "('w, 'z) comet_env_scheme \<Rightarrow> 'w CometRPC \<Rightarrow> bool" where
  "withholds_validators C rpc \<longleftrightarrow>
     (\<forall>w p. \<exists>w' total. 0 < total \<and> getValidatorsAtPage C rpc p w =
        Some (Inr \<lparr>rv_Validators = [], rv_Total = total\<rparr>, w'))"

text \<open>A network that answers every request alike, for the witnesses.\<close>

definition sample_comet :: "ResultValidators \<Rightarrow> (int \<Rightarrow> Block option) \<Rightarrow> int comet_env" where
  "sample_comet rv blk =
     \<lparr>he_parse = (\<lambda>s. Some \<lparr>url_Base = s, url_Path = '''', url_RawQuery = '''', url_Fragment = ''''\<rparr>),
      he_string = url_Base, he_Do = (\<lambda>_ w. (Inr \<lparr>body_read = Inr (itoa w), body_close = None\<rparr>, w + 1)),
      ce_envelope = (\<lambda>bs. Inr \<lparr>rr_Error = None, rr_Result = bs\<rparr>),
      ce_consensus_state = Inr, ce_round_state_simple = (\<lambda>_. Inl ''''),
      ce_validators = (\<lambda>_. Inr rv), ce_dump = (\<lambda>_. Inr None), ce_round_state = (\<lambda>_. Inr None),
      ce_status = (\<lambda>_. Inl ''''), ce_block = (\<lambda>bs. Inr (blk (fst (ParseInt 64 bs)))), ce_net_info = (\<lambda>_. Inl ''''),
      ce_unconfirmed = (\<lambda>_. Inr (''5'', ''250''))\<rparr>"

definition sample_rpc :: "int CometRPC" where
  "sample_rpc = \<lparr>rpc_getURL = (\<lambda>_. ''u''), rpc_blocksBehind = 10\<rparr>"

section \<open>Lemmas\<close>

lemma io_bindE:
  "Option.bind m f = Some r \<Longrightarrow> (\<And>res w. m = Some (res, w) \<Longrightarrow> f (res, w) = Some r \<Longrightarrow> P) \<Longrightarrow> P"
  by (cases m) auto

lemma path_Join_empty [simp]: "path_Join '''' '''' = ''''"
  by (simp add: path_Join_def)

text \<open>A request to a network that echoes the world.\<close>

lemma echo_request:
  assumes "he_parse C = (\<lambda>s. Some \<lparr>url_Base = s, url_Path = '''', url_RawQuery = '''', url_Fragment = ''''\<rparr>)"
    and "he_Do C = (\<lambda>_ w. (Inr \<lparr>body_read = Inr (itoa w), body_close = None\<rparr>, w + 1))"
    and "ce_envelope C = (\<lambda>bs. Inr \<lparr>rr_Error = None, rr_Result = bs\<rparr>)"
  shows "request C rpc path decode w =
     Some (case decode (itoa w) of
             Inl err \<Rightarrow> Inl (''decoding JSON-RPC result from '' @ rpc_getURL rpc w @ path @ '': '' @ err)
           | Inr x \<Rightarrow> Inr x, w + 1)"
  by (simp add: request_def GetPlain_def GetInternal_def client_join_def rpc_client_def NewClient_def
      assms Let_def split: sum.split)

lemma answered_request:
  assumes "\<And>s. he_parse C s \<noteq> None" "\<And>u w. \<exists>b. he_Do C u w = (Inr \<lparr>body_read = Inr b, body_close = None\<rparr>, w + 1)"
    and "\<And>bs. ce_envelope C bs = Inr \<lparr>rr_Error = None, rr_Result = bs\<rparr>"
  shows "request C rpc path (\<lambda>_. Inr x) w = Some (Inr x, w + 1)"
proof -
  obtain base ref where "he_parse C (rpc_getURL rpc w) = Some base" "he_parse C path = Some ref" using assms(1) by blast
  then obtain u where u: "client_join C (rpc_getURL rpc w) path = Some u" by (simp add: client_join_def)
  obtain b where "he_Do C u w = (Inr \<lparr>body_read = Inr b, body_close = None\<rparr>, w + 1)" using assms(2) by blast
  then show ?thesis
    by (simp add: request_def GetPlain_def GetInternal_def rpc_client_def NewClient_def assms(3) u Let_def)
qed

lemmas sample_request = echo_request [of "sample_comet rv blk" for rv blk,
    unfolded sample_comet_def, simplified, folded sample_comet_def]

lemma parse_uint_loop_le: "parse_uint_loop m n s = Inr k \<Longrightarrow> n \<le> m \<Longrightarrow> k \<le> m"
  by (induction m n s rule: parse_uint_loop.induct) (auto split: option.splits if_splits)

lemma ParseUint_le: "ParseUint bits s = (n, None) \<Longrightarrow> n < 2 ^ bits"
  using parse_uint_loop_le [of "2 ^ bits - 1" 0 s n]
  by (auto simp: ParseUint_def split: if_splits sum.splits numerr.splits) (metis Suc_pred less_Suc_eq_le zero_less_numeral zero_less_power)

lemma ParseInt_range:
  "ParseInt bits s = (i, None) \<Longrightarrow> - (2 ^ (bits - 1)) \<le> i \<and> i < 2 ^ (bits - 1)"
proof -
  assume p: "ParseInt bits s = (i, None)"
  have z: "- int k < 2 ^ (bits - Suc 0)" "- (2 ^ (bits - Suc 0)) \<le> int k" for k
    using zero_less_power [of "2 :: int" "bits - Suc 0"] by linarith+
  show ?thesis using p z
    by (auto simp: ParseInt_def Let_def split: if_splits prod.splits)
qed

lemma validator_pages_serves:
  assumes "serves_validators C rpc vs" "p = 0 \<or> 100 * p < length vs"
  shows "\<exists>w'. validator_pages C rpc (int p + 1) (take (100 * p) vs) w = Some (Inr vs, w')"
  using assms(2)
proof (induction "length vs - 100 * p" arbitrary: p w rule: less_induct)
  case less
  obtain w' where page: "getValidatorsAtPage C rpc (int p + 1) w =
      Some (Inr \<lparr>rv_Validators = take 100 (drop (100 * p) vs), rv_Total = int (length vs)\<rparr>, w')"
    using assms(1) less.prems unfolding serves_validators_def by blast
  have all: "take (100 * p) vs @ take 100 (drop (100 * p) vs) = take (100 * Suc p) vs"
    by (metis add.commute mult_Suc_right take_add)
  show ?case
  proof (cases "length vs \<le> 100 * Suc p")
    case True
    then have "take (100 * p) vs @ take 100 (drop (100 * p) vs) = vs" using all by simp
    then show ?thesis by (subst validator_pages.simps) (simp only: page Let_def, simp)
  next
    case False
    then have "length vs - 100 * Suc p < length vs - 100 * p" "Suc p = 0 \<or> 100 * Suc p < length vs" by simp_all
    from less.hyps [OF this, of w'] obtain w'' where
      "validator_pages C rpc (int (Suc p) + 1) (take (100 * Suc p) vs) w' = Some (Inr vs, w'')" by blast
    then show ?thesis using False
      by (subst validator_pages.simps) (simp add: page [simplified add.commute] all Let_def add.commute)
  qed
qed

lemma validator_pages_withheld:
  fixes C :: "('w, 'z) comet_env_scheme"
  assumes "validator_pages C rpc p acc w = Some r"
  shows "withholds_validators C rpc \<longrightarrow> acc \<noteq> []"
  using assms
proof (rule validator_pages.raw_induct [where P = "\<lambda>C rpc p acc w r. withholds_validators C rpc \<longrightarrow> acc \<noteq> []", rotated])
  fix rc :: "('w, 'z) comet_env_scheme \<Rightarrow> 'w CometRPC \<Rightarrow> int \<Rightarrow> CometValidator list \<Rightarrow> ('w, CometValidator list) io"
    and C :: "('w, 'z) comet_env_scheme" and rpc p acc w r
  assume IH: "\<And>C rpc p acc w r. rc C rpc p acc w = Some r \<Longrightarrow> withholds_validators C rpc \<longrightarrow> acc \<noteq> []"
    and body: "Option.bind (getValidatorsAtPage C rpc p w) (\<lambda>(res, w).
       case res of
         Inl err \<Rightarrow>
           (if contains err ''could not find validator set for height''
            then getValidatorsViaDumpConsensusState C rpc w
            else Some (Inl err, w))
       | Inr response \<Rightarrow>
           (let validators = acc @ rv_Validators response
            in if int (length validators) \<ge> rv_Total response then Some (Inr validators, w)
               else rc C rpc (p + 1) validators w)) = Some r"
  show "withholds_validators C rpc \<longrightarrow> acc \<noteq> []"
  proof
    assume h: "withholds_validators C rpc"
    then obtain w' t where t: "0 < t" "getValidatorsAtPage C rpc p w = Some (Inr \<lparr>rv_Validators = [], rv_Total = t\<rparr>, w')"
      unfolding withholds_validators_def by blast
    show "acc \<noteq> []"
    proof
      assume "acc = []"
      with body t have "rc C rpc (p + 1) [] w' = Some r" by (simp add: Let_def)
      from IH [OF this] h show False by simp
    qed
  qed
qed

section \<open>Properties\<close>

text \<open>\<open>parseHeightRoundStep\<close> reads back what CometBFT prints: every height, round and step of its
  types; whatever it accepts lies within these types, so that the conversion to \<open>int32\<close> loses nothing.\<close>

theorem parseHeightRoundStep_roundtrip:
  assumes "in_i64 h" "in_i32 r" "0 \<le> st" "st < 256"
  shows "parseHeightRoundStep (itoa h @ ''/'' @ itoa r @ ''/'' @ itoa st) = Inr (h, r, st)
    \<and> (\<forall>s h' r' st'. parseHeightRoundStep s = Inr (h', r', st') \<longrightarrow>
          in_i64 h' \<and> in_i32 r' \<and> 0 \<le> st' \<and> st' < 256
        \<and> ParseInt 32 (split_on CHR ''/'' s ! 1) = (r', None))"
proof -
  have sep: "CHR ''/'' \<notin> set (itoa i)" for i by (rule sep_notin_itoa) (simp_all add: digit_val_def)
  have split: "split_on CHR ''/'' (itoa h @ ''/'' @ itoa r @ ''/'' @ itoa st) = [itoa h, itoa r, itoa st]"
    using sep by (simp add: split_on_append split_on_no_sep)
  have "itoa st = digits (nat st)" "nat st < 2 ^ 8" using assms(3,4) by (simp_all add: itoa_def)
  then have st: "ParseUint 8 (itoa st) = (nat st, None)" by (simp add: ParseUint_digits)
  have i32: "i32 r = r" if "in_i32 r" for r using that by (simp add: i32_def in_i32_def)
  have "parseHeightRoundStep (itoa h @ ''/'' @ itoa r @ ''/'' @ itoa st) = Inr (h, r, st)"
    unfolding parseHeightRoundStep_def split
    using assms by (simp add: ParseInt_itoa ParseInt_itoa32 st i32)
  moreover have "in_i64 h' \<and> in_i32 r' \<and> 0 \<le> st' \<and> st' < 256 \<and> ParseInt 32 (split_on CHR ''/'' s ! 1) = (r', None)"
    if p: "parseHeightRoundStep s = Inr (h', r', st')" for s h' r' st'
  proof -
    let ?ps = "split_on CHR ''/'' s"
    obtain r0 n where q: "ParseInt 64 (?ps ! 0) = (h', None)" "ParseInt 32 (?ps ! 1) = (r0, None)" "r' = i32 r0"
      "ParseUint 8 (?ps ! 2) = (n, None)" "st' = int n"
      using p by (auto simp: parseHeightRoundStep_def Let_def split: if_splits prod.splits option.splits)
    have "in_i32 r0" "in_i64 h'" using ParseInt_range [OF q(2)] ParseInt_range [OF q(1)] by (simp_all add: in_i32_def in_i64_def)
    moreover have "n < 256" using ParseUint_le [OF q(4)] by simp
    ultimately show ?thesis using q i32 by simp
  qed
  ultimately show ?thesis by blast
qed

theorem parseHeightRoundStep_roundtrip_witness:
  "parseHeightRoundStep (itoa 8990959 @ ''/'' @ itoa 0 @ ''/'' @ itoa 1) = Inr (8990959, 0, 1)"
  using parseHeightRoundStep_roundtrip [of 8990959 0 1] by (simp add: in_i64_def in_i32_def)

text \<open>C27: against a node that paginates as CometBFT documents, \<open>GetValidators\<close> returns after finitely many
  pages with exactly the validators of the node, in their order, even though the world may change
  between the requests; a node that announces validators it does not hand out keeps it in its loop
  forever.\<close>

theorem GetValidators_pages:
  "(serves_validators C rpc vs \<longrightarrow> (\<exists>w'. rpc_GetValidators C rpc w = Some (Inr vs, w')))
   \<and> (withholds_validators C rpc \<longrightarrow> rpc_GetValidators C rpc w = None)"
proof -
  have "rpc_GetValidators C rpc w = None" if h: "withholds_validators C rpc"
    using validator_pages_withheld [of C rpc 1 "[]" w] h
    by (cases "validator_pages C rpc 1 [] w") (auto simp: rpc_GetValidators_def)
  moreover have "\<exists>w'. rpc_GetValidators C rpc w = Some (Inr vs, w')" if s: "serves_validators C rpc vs"
    using validator_pages_serves [OF s, of 0 w] by (simp add: rpc_GetValidators_def)
  ultimately show ?thesis by blast
qed

theorem GetValidators_pages_witness:
  "(\<exists>w'. rpc_GetValidators (sample_comet \<lparr>rv_Validators = [\<lparr>cv_Address = ''A'', cv_PubKeyAddress = ''A'', cv_PubKeyBytes = [],
       cv_VotingPower = 4\<rparr>], rv_Total = 1\<rparr> (\<lambda>_. None)) sample_rpc 0
     = Some (Inr [\<lparr>cv_Address = ''A'', cv_PubKeyAddress = ''A'', cv_PubKeyBytes = [], cv_VotingPower = 4\<rparr>], w'))
   \<and> rpc_GetValidators (sample_comet \<lparr>rv_Validators = [], rv_Total = 1\<rparr> (\<lambda>_. None)) sample_rpc 0 = None"
proof -
  let ?v = "\<lparr>cv_Address = ''A'', cv_PubKeyAddress = ''A'', cv_PubKeyBytes = [], cv_VotingPower = 4\<rparr>"
  have v: "ce_validators (sample_comet rv blk) = (\<lambda>_. Inr rv)" for rv blk by (simp add: sample_comet_def)
  let ?good = "sample_comet \<lparr>rv_Validators = [?v], rv_Total = 1\<rparr> (\<lambda>_. None)"
  let ?bad = "sample_comet \<lparr>rv_Validators = [], rv_Total = 1\<rparr> (\<lambda>_. None)"
  have "serves_validators ?good sample_rpc [?v]" "withholds_validators ?bad sample_rpc"
    by (auto simp: serves_validators_def withholds_validators_def getValidatorsAtPage_def sample_request v)
  with GetValidators_pages [of ?good sample_rpc "[?v]" 0] GetValidators_pages [of ?bad sample_rpc "[]" 0]
  show ?thesis by simp
qed

end
