(* ===== verification/Websocket.thy ===== *)
theory Websocket
  imports CometRpc
begin

text \<open>
  \<open>pkg/fetcher/comet_rpc_websocket.go\<close>: the websocket that delivers CometBFT events, as a step
  relation. The goroutine \<open>connectionManager\<close> alternates between \<open>readConnection\<close> and
  \<open>resetConnection\<close>; any number of goroutines call \<open>Subscribe\<close> and \<open>Close\<close> at any time. A step is
  what one goroutine does between two points where another may run: \<open>resetConnection\<close> holds
  \<open>muWrite\<close> from closing the old connection to its last resubscription, during which \<open>Subscribe\<close> may
  register a subscription but not write. The server is nondeterministic: dialling, writing and reading
  fail or succeed at will. \<open>butils.SyncMap\<close> is a map; its iterator is taken to list, in any order, the
  entries it has when it is created. A mailbox is named by a number and what it was handed is logged.
\<close>

section \<open>State\<close>

record sub =
  sub_id :: int
  sub_events :: "string list"
  sub_mb :: nat

text \<open>A connection: the subscription frames written on it, and whether a write has failed.\<close>

record ws_conn =
  conn_sent :: "sub list"
  conn_failed :: bool

datatype ws_phase = Reading | Between | Dialing | Resubscribing "sub list" | Exited

record CometRPCWebsocket =
  ws_url :: string
  ws_conn :: "ws_conn option"
  ws_subIDNonce :: int
  ws_subs :: "int \<rightharpoonup> sub"
  ws_stopped :: bool
  ws_phase :: ws_phase
  ws_pending :: "sub list"
  ws_delivered :: "(nat \<times> TMEventData) list"

text \<open>A message: \<open>resp_ID\<close> is \<open>None\<close> for an ID that is not a \<open>JSONRPCIntID\<close>.\<close>

record ws_response =
  resp_Error :: "goerror option"
  resp_Result :: bytes
  resp_ID :: "int option"

section \<open>Operations\<close>

definition ws_scheme :: "string \<Rightarrow> string" where
  "ws_scheme scheme = (if scheme = ''https'' then ''wss'' else if scheme = ''http'' then ''ws'' else scheme)"

text \<open>The URL is parsed into its scheme and the rest; \<open>None\<close> is the fatal error of the logger. The new
  websocket enters \<open>resetConnection\<close> at once.\<close>

definition NewCometRPCWebsocket ::
    "(string \<Rightarrow> (string \<times> 'u) option) \<Rightarrow> (string \<times> 'u \<Rightarrow> string) \<Rightarrow> string \<Rightarrow> CometRPCWebsocket option" where
  "NewCometRPCWebsocket parse render rpcURL =
     (case parse rpcURL of
        None \<Rightarrow> None
      | Some (scheme, rest) \<Rightarrow> Some
          \<lparr>ws_url = render (ws_scheme scheme, rest) @ ''/websocket'', ws_conn = None, ws_subIDNonce = 0,
           ws_subs = Map.empty, ws_stopped = False, ws_phase = Dialing, ws_pending = [], ws_delivered = []\<rparr>)"

definition subscribe_query :: "sub \<Rightarrow> string" where
  "subscribe_query s =
     ''tm.event='' @ [CHR 0x27] @ join (CHR 0x27 # '' OR tm.event='' @ [CHR 0x27]) (sub_events s) @ [CHR 0x27]"

text \<open>\<open>ok\<close>: whether \<open>WriteJSON\<close> succeeds; it cannot on a connection where a write has failed.\<close>

definition writeSubscribeLocked :: "bool \<Rightarrow> sub \<Rightarrow> CometRPCWebsocket \<Rightarrow> CometRPCWebsocket" where
  "writeSubscribeLocked ok sub ws =
     (case ws_conn ws of
        None \<Rightarrow> ws
      | Some c \<Rightarrow>
          (if ok \<and> \<not> conn_failed c then ws\<lparr>ws_conn := Some (c\<lparr>conn_sent := conn_sent c @ [sub]\<rparr>)\<rparr>
           else ws\<lparr>ws_conn := Some (c\<lparr>conn_failed := True\<rparr>)\<rparr>))"

text \<open>The first half of \<open>Subscribe\<close>, before it waits for \<open>muWrite\<close>, and the second half.\<close>

definition subscribe_register :: "nat \<Rightarrow> string list \<Rightarrow> CometRPCWebsocket \<Rightarrow> CometRPCWebsocket" where
  "subscribe_register mb events ws =
     (let n = i64 (ws_subIDNonce ws + 1);
          s = \<lparr>sub_id = n, sub_events = events, sub_mb = mb\<rparr>
      in ws\<lparr>ws_subIDNonce := n, ws_subs := (ws_subs ws)(n \<mapsto> s), ws_pending := ws_pending ws @ [s]\<rparr>)"

definition subscribe_write :: "bool \<Rightarrow> sub \<Rightarrow> CometRPCWebsocket \<Rightarrow> CometRPCWebsocket" where
  "subscribe_write ok sub ws = writeSubscribeLocked ok sub (ws\<lparr>ws_pending := remove1 sub (ws_pending ws)\<rparr>)"

text \<open>One message in \<open>readConnection\<close>; \<open>decode\<close> is \<open>cmtjson.Unmarshal\<close> into a \<open>ResultEvent\<close>.\<close>

definition handle_message ::
    "(bytes \<Rightarrow> goerror + TMEventData) \<Rightarrow> ws_response \<Rightarrow> CometRPCWebsocket \<Rightarrow> CometRPCWebsocket" where
  "handle_message decode resp ws =
     (if resp_Error resp \<noteq> None then ws
      else if resp_Result resp = ''{}'' then ws
      else
        case decode (resp_Result resp) of
          Inl _ \<Rightarrow> ws
        | Inr event \<Rightarrow>
            (case resp_ID resp of
               None \<Rightarrow> ws
             | Some subID \<Rightarrow>
                 (case ws_subs ws subID of
                    None \<Rightarrow> ws
                  | Some s \<Rightarrow> ws\<lparr>ws_delivered := ws_delivered ws @ [(sub_mb s, event)]\<rparr>)))"

definition ws_Close :: "CometRPCWebsocket \<Rightarrow> CometRPCWebsocket" where
  "ws_Close ws = ws\<lparr>ws_stopped := True\<rparr>"

text \<open>\<open>resetConnection\<close>: closing the old connection, a failed and a successful dial.\<close>

definition reset_begin :: "CometRPCWebsocket \<Rightarrow> CometRPCWebsocket" where
  "reset_begin ws = ws\<lparr>ws_conn := None, ws_phase := Dialing\<rparr>"

definition dial_failed :: "bool \<Rightarrow> CometRPCWebsocket \<Rightarrow> CometRPCWebsocket" where
  "dial_failed stop_seen ws = (if stop_seen then ws\<lparr>ws_phase := Reading\<rparr> else ws)"

definition dial_ok :: "sub list \<Rightarrow> CometRPCWebsocket \<Rightarrow> CometRPCWebsocket" where
  "dial_ok live ws = ws\<lparr>ws_conn := Some \<lparr>conn_sent = [], conn_failed = False\<rparr>, ws_phase := Resubscribing live\<rparr>"

definition terminateConnection :: "CometRPCWebsocket \<Rightarrow> CometRPCWebsocket" where
  "terminateConnection ws = ws\<lparr>ws_conn := None, ws_phase := Exited\<rparr>"

section \<open>Steps\<close>

definition write_locked :: "CometRPCWebsocket \<Rightarrow> bool" where
  "write_locked ws \<longleftrightarrow> ws_phase ws = Dialing \<or> (\<exists>live. ws_phase ws = Resubscribing live)"

inductive ws_step :: "(bytes \<Rightarrow> goerror + TMEventData) \<Rightarrow> CometRPCWebsocket \<Rightarrow> CometRPCWebsocket \<Rightarrow> bool"
  for decode where
  Write: "sub \<in> set (ws_pending ws) \<Longrightarrow> \<not> write_locked ws \<Longrightarrow> ws_step decode ws (subscribe_write ok sub ws)"
| Message: "ws_phase ws = Reading \<Longrightarrow> ws_conn ws \<noteq> None \<Longrightarrow> ws_step decode ws (handle_message decode resp ws)"
| Leave: "ws_phase ws = Reading \<Longrightarrow> ws_step decode ws (ws\<lparr>ws_phase := Between\<rparr>)"
| Reset: "ws_phase ws = Between \<Longrightarrow> \<not> ws_stopped ws \<Longrightarrow> ws_step decode ws (reset_begin ws)"
| Exit: "ws_phase ws = Between \<Longrightarrow> ws_stopped ws \<Longrightarrow> ws_step decode ws (terminateConnection ws)"
| DialFailed: "ws_phase ws = Dialing \<Longrightarrow> stop_seen \<longrightarrow> ws_stopped ws \<Longrightarrow> ws_step decode ws (dial_failed stop_seen ws)"
| DialOk: "ws_phase ws = Dialing \<Longrightarrow> set live = ran (ws_subs ws) \<Longrightarrow> ws_step decode ws (dial_ok live ws)"
| Resubscribe: "ws_phase ws = Resubscribing (sub # live) \<Longrightarrow>
    ws_step decode ws (writeSubscribeLocked ok sub (ws\<lparr>ws_phase := Resubscribing live\<rparr>))"
| ResetDone: "ws_phase ws = Resubscribing [] \<Longrightarrow> ws_step decode ws (ws\<lparr>ws_phase := Reading\<rparr>)"
| Close: "ws_step decode ws (ws_Close ws)"

text \<open>A run of the websocket with the calls of \<open>Subscribe\<close> it has seen, in the order in which they took their numbers:
  the mailbox and the events of each.\<close>

inductive ws_reachable ::
    "(bytes \<Rightarrow> goerror + TMEventData) \<Rightarrow> CometRPCWebsocket \<Rightarrow> (nat \<times> string list) list \<Rightarrow> CometRPCWebsocket \<Rightarrow> bool"
  for decode ws0 where
  Start: "ws_reachable decode ws0 [] ws0"
| Step: "ws_reachable decode ws0 calls ws \<Longrightarrow> ws_step decode ws ws' \<Longrightarrow> ws_reachable decode ws0 calls ws'"
| Register: "ws_reachable decode ws0 calls ws \<Longrightarrow>
    ws_reachable decode ws0 (calls @ [(mb, events)]) (subscribe_register mb events ws)"

section \<open>Specification\<close>

text \<open>What is owed to a subscription: its frame is on the connection, or its \<open>Subscribe\<close> is still to write
  it, or the reset under way will.\<close>

definition served :: "CometRPCWebsocket \<Rightarrow> ws_conn \<Rightarrow> sub \<Rightarrow> bool" where
  "served ws c s \<longleftrightarrow> s \<in> set (conn_sent c) \<or> s \<in> set (ws_pending ws)
     \<or> (\<exists>live. ws_phase ws = Resubscribing live \<and> s \<in> set live)"

text \<open>The subscription the \<open>i\<close>-th call should get, the first being number 1.\<close>

definition nth_sub :: "(nat \<times> string list) list \<Rightarrow> nat \<Rightarrow> sub" where
  "nth_sub calls i = \<lparr>sub_id = int i + 1, sub_events = snd (calls ! i), sub_mb = fst (calls ! i)\<rparr>"

definition registered :: "(nat \<times> string list) list \<Rightarrow> CometRPCWebsocket \<Rightarrow> bool" where
  "registered calls ws \<longleftrightarrow> ws_subIDNonce ws = int (length calls)
     \<and> (\<forall>n. ws_subs ws n = (if 1 \<le> n \<and> n \<le> int (length calls) then Some (nth_sub calls (nat (n - 1))) else None))"

definition subscriptions_kept :: "CometRPCWebsocket \<Rightarrow> bool" where
  "subscriptions_kept ws \<longleftrightarrow>
     (\<forall>c. ws_conn ws = Some c \<longrightarrow> \<not> conn_failed c \<longrightarrow> (\<forall>s \<in> ran (ws_subs ws). served ws c s))
     \<and> (ws_phase ws = Dialing \<or> ws_phase ws = Exited \<longrightarrow> ws_conn ws = None)
     \<and> (ws_phase ws = Exited \<longrightarrow> ws_stopped ws)
     \<and> (ws_phase ws = Reading \<longrightarrow> ws_conn ws \<noteq> None \<or> ws_stopped ws)
     \<and> (\<forall>live. ws_phase ws = Resubscribing live \<longrightarrow> ws_conn ws \<noteq> None)
     \<and> (\<forall>n s. ws_subs ws n = Some s \<longrightarrow> sub_id s = n)"

definition sample_ws :: CometRPCWebsocket where
  "sample_ws = the (NewCometRPCWebsocket (\<lambda>s. Some (''https'', ())) fst ''https://host'')"

section \<open>Lemmas\<close>

lemmas ws_op_defs = subscribe_register_def subscribe_write_def writeSubscribeLocked_def handle_message_def
  ws_Close_def reset_begin_def dial_failed_def dial_ok_def terminateConnection_def

lemma NewCometRPCWebsocket_kept: "NewCometRPCWebsocket parse render u = Some ws \<Longrightarrow> subscriptions_kept ws"
  by (auto simp: NewCometRPCWebsocket_def subscriptions_kept_def split: option.splits)

lemma handle_message_frame:
  "\<exists>d. handle_message decode resp ws = ws\<lparr>ws_delivered := d\<rparr>"
proof -
  have "ws = ws\<lparr>ws_delivered := ws_delivered ws\<rparr>" by simp
  then show ?thesis unfolding handle_message_def
    by (auto split: option.split sum.split intro: exI [of _ "ws_delivered ws"])
qed

lemma delivered_kept: "subscriptions_kept ws \<Longrightarrow> subscriptions_kept (ws\<lparr>ws_delivered := d\<rparr>)"
  by (auto simp: subscriptions_kept_def served_def)

lemma write_kept:
  assumes "\<And>c s. ws_conn ws = Some c \<Longrightarrow> \<not> conn_failed c \<Longrightarrow> s \<in> ran (ws_subs ws) \<Longrightarrow> served ws c s \<or> s = sub"
    and "ws_phase ws \<noteq> Dialing" "ws_phase ws = Exited \<Longrightarrow> ws_conn ws = None \<and> ws_stopped ws"
    and "ws_phase ws = Reading \<Longrightarrow> ws_conn ws \<noteq> None \<or> ws_stopped ws"
    and "\<And>live. ws_phase ws = Resubscribing live \<Longrightarrow> ws_conn ws \<noteq> None" "\<And>n s. ws_subs ws n = Some s \<Longrightarrow> sub_id s = n"
  shows "subscriptions_kept (writeSubscribeLocked ok sub ws)"
  using assms by (cases "ws_conn ws") (auto simp: subscriptions_kept_def writeSubscribeLocked_def served_def)

lemma ws_step_kept: "ws_step decode ws ws' \<Longrightarrow> subscriptions_kept ws \<Longrightarrow> subscriptions_kept ws'"
proof (induction rule: ws_step.induct)
  case (Write sub ws ok)
  have "served (ws\<lparr>ws_pending := remove1 sub (ws_pending ws)\<rparr>) c s \<or> s = sub"
    if "ws_conn ws = Some c" "\<not> conn_failed c" "s \<in> ran (ws_subs ws)" for c s
    using that Write(3) by (auto simp: subscriptions_kept_def served_def)
  with Write show ?case unfolding subscribe_write_def
    by (intro write_kept) (auto simp: subscriptions_kept_def write_locked_def)
next
  case (Message ws resp)
  then show ?case using handle_message_frame [of decode resp ws] delivered_kept by metis
next
  case (Resubscribe ws sub live ok)
  have "served (ws\<lparr>ws_phase := Resubscribing live\<rparr>) c s \<or> s = sub"
    if "ws_conn ws = Some c" "\<not> conn_failed c" "s \<in> ran (ws_subs ws)" for c s
    using that Resubscribe by (auto simp: subscriptions_kept_def served_def)
  with Resubscribe show ?case by (intro write_kept) (auto simp: subscriptions_kept_def)
qed (auto simp: subscriptions_kept_def served_def ws_op_defs)

lemma register_kept: "subscriptions_kept ws \<Longrightarrow> subscriptions_kept (subscribe_register mb events ws)"
  by (auto simp: subscriptions_kept_def subscribe_register_def served_def Let_def ran_def)

lemma ws_reachable_kept: "ws_reachable decode ws0 calls ws \<Longrightarrow> subscriptions_kept ws0 \<Longrightarrow> subscriptions_kept ws"
  by (induction rule: ws_reachable.induct) (auto intro: ws_step_kept register_kept)

text \<open>Only \<open>Subscribe\<close> registers, each call under a number of its own.\<close>

lemma write_frame:
  "ws_subs (writeSubscribeLocked ok sub ws) = ws_subs ws" "ws_subIDNonce (writeSubscribeLocked ok sub ws) = ws_subIDNonce ws"
  by (simp_all add: writeSubscribeLocked_def split: option.split)

lemma ws_step_subs: "ws_step decode ws ws' \<Longrightarrow> ws_subs ws' = ws_subs ws \<and> ws_subIDNonce ws' = ws_subIDNonce ws"
proof (induction rule: ws_step.induct)
  case (Message ws resp)
  then show ?case using handle_message_frame [of decode resp ws] by auto
qed (auto simp: subscribe_write_def write_frame ws_Close_def reset_begin_def dial_failed_def dial_ok_def terminateConnection_def)

lemma nth_sub_append: "i < length calls \<Longrightarrow> nth_sub (calls @ [c]) i = nth_sub calls i"
  "nth_sub (calls @ [(mb, events)]) (length calls) = \<lparr>sub_id = int (length calls) + 1, sub_events = events, sub_mb = mb\<rparr>"
  by (simp_all add: nth_sub_def nth_append)

lemma registered_call:
  assumes "registered calls ws" "int (length calls) + 1 < 2 ^ 63"
  shows "registered (calls @ [(mb, events)]) (subscribe_register mb events ws)"
proof -
  let ?n = "int (length calls) + 1" and ?s = "\<lparr>sub_id = int (length calls) + 1, sub_events = events, sub_mb = mb\<rparr>"
  have nonce: "ws_subIDNonce ws = int (length calls)" using assms(1) by (simp add: registered_def)
  have n: "i64 (ws_subIDNonce ws + 1) = ?n" unfolding nonce using assms(2) by (simp add: in_i64_def i64_id)
  have upd: "ws_subs (subscribe_register mb events ws) = (ws_subs ws)(?n \<mapsto> ?s)"
    "ws_subIDNonce (subscribe_register mb events ws) = ?n"
    by (simp_all only: subscribe_register_def Let_def n) simp_all
  have "((ws_subs ws)(?n \<mapsto> ?s)) m = (if 1 \<le> m \<and> m \<le> ?n then Some (nth_sub (calls @ [(mb, events)]) (nat (m - 1))) else None)" for m
  proof (cases "m = ?n")
    case False
    then have "ws_subs ws m = (if 1 \<le> m \<and> m \<le> ?n then Some (nth_sub calls (nat (m - 1))) else None)"
      using assms(1) by (auto simp: registered_def)
    moreover have "nth_sub (calls @ [(mb, events)]) (nat (m - 1)) = nth_sub calls (nat (m - 1))" if "1 \<le> m" "m \<le> ?n"
      using that False by (intro nth_sub_append(1)) linarith
    ultimately show ?thesis using False by simp
  qed (simp add: nth_sub_append(2))
  then show ?thesis unfolding registered_def upd by simp
qed

lemma ws_reachable_registered:
  assumes "ws_reachable decode ws0 calls ws" "registered [] ws0" "int (length calls) < 2 ^ 63"
  shows "registered calls ws"
  using assms
proof (induction rule: ws_reachable.induct)
  case (Step calls ws ws')
  then show ?case using ws_step_subs [OF Step.hyps(2)] by (simp add: registered_def)
qed (auto intro: registered_call)

section \<open>Properties\<close>

text \<open>C26: no subscription is lost, however the calls of \<open>Subscribe\<close>, the failures of the connection and the
  reconnections interleave: every call is registered under a number of its own, with its events and its mailbox, and
  nothing else is; whenever the websocket is reading from a connection on which no write has failed,
  every call has been sent on this very connection, except those still waiting to write; an event that comes for a
  number goes to the mailbox of that call; and the manager gives the connection up only after \<open>Close\<close>.\<close>

theorem subscriptions_survive:
  assumes "NewCometRPCWebsocket parse render rpcURL = Some ws0" "ws_reachable decode ws0 calls ws" "int (length calls) < 2 ^ 63"
  shows "ws_subs ws = (\<lambda>n. if 1 \<le> n \<and> n \<le> int (length calls) then Some (nth_sub calls (nat (n - 1))) else None)
    \<and> (\<forall>c i. ws_phase ws = Reading \<and> ws_conn ws = Some c \<and> \<not> conn_failed c \<and> i < length calls
      \<and> nth_sub calls i \<notin> set (ws_pending ws) \<longrightarrow> nth_sub calls i \<in> set (conn_sent c))
    \<and> (\<forall>i resp event. i < length calls \<and> resp_Error resp = None \<and> resp_Result resp \<noteq> ''{}'' \<and> decode (resp_Result resp) = Inr event
      \<and> resp_ID resp = Some (int i + 1) \<longrightarrow>
        ws_delivered (handle_message decode resp ws) = ws_delivered ws @ [(fst (calls ! i), event)])
    \<and> (ws_phase ws = Reading \<and> ws_conn ws = None \<longrightarrow> ws_stopped ws)
    \<and> (ws_phase ws = Exited \<longrightarrow> ws_stopped ws \<and> ws_conn ws = None)"
proof -
  have kept: "subscriptions_kept ws" using ws_reachable_kept [OF assms(2) NewCometRPCWebsocket_kept [OF assms(1)]] .
  have "registered [] ws0" using assms(1) by (auto simp: NewCometRPCWebsocket_def registered_def split: option.splits)
  then have reg: "registered calls ws" using ws_reachable_registered [OF assms(2)] assms(3) by blast
  have sub: "ws_subs ws (int i + 1) = Some (nth_sub calls i)" if "i < length calls" for i
    using reg that by (simp add: registered_def)
  then have ran: "nth_sub calls i \<in> ran (ws_subs ws)" if "i < length calls" for i using that by (blast intro: ranI)
  have served: "served ws c (nth_sub calls i)" if "ws_conn ws = Some c" "\<not> conn_failed c" "i < length calls" for c i
    using kept ran [OF that(3)] that(1,2) by (simp add: subscriptions_kept_def)
  have "ws_delivered (handle_message decode resp ws) = ws_delivered ws @ [(fst (calls ! i), event)]"
    if "i < length calls" "resp_Error resp = None" "resp_Result resp \<noteq> ''{}''" "decode (resp_Result resp) = Inr event"
      "resp_ID resp = Some (int i + 1)" for i resp event
    using that sub [OF that(1)] by (simp add: handle_message_def nth_sub_def)
  moreover have "ws_subs ws = (\<lambda>n. if 1 \<le> n \<and> n \<le> int (length calls) then Some (nth_sub calls (nat (n - 1))) else None)"
    using reg by (simp add: registered_def fun_eq_iff)
  moreover have "nth_sub calls i \<in> set (conn_sent c)"
    if "ws_phase ws = Reading" "ws_conn ws = Some c" "\<not> conn_failed c" "i < length calls" "nth_sub calls i \<notin> set (ws_pending ws)" for c i
    using served [OF that(2,3,4)] that(1,5) by (simp add: served_def)
  moreover have "ws_phase ws = Reading \<and> ws_conn ws = None \<longrightarrow> ws_stopped ws"
    "ws_phase ws = Exited \<longrightarrow> ws_stopped ws \<and> ws_conn ws = None"
    using kept by (auto simp: subscriptions_kept_def)
  ultimately show ?thesis by blast
qed

text \<open>Two calls, of which the websocket sends the first when it is dialled; the second is written later.\<close>

theorem subscriptions_survive_witness:
  "\<exists>ws c. ws_reachable Inl sample_ws [(0, [''Vote'']), (5, [''NewRound''])] ws \<and> ws_conn ws = Some c
    \<and> ws_subs ws 1 = Some \<lparr>sub_id = 1, sub_events = [''Vote''], sub_mb = 0\<rparr>
    \<and> \<lparr>sub_id = 2, sub_events = [''NewRound''], sub_mb = 5\<rparr> \<in> set (conn_sent c)"
proof -
  let ?calls = "[(0, [''Vote'']), (5, [''NewRound''])]"
  let ?a = "\<lparr>sub_id = 1, sub_events = [''Vote''], sub_mb = 0\<rparr>" and ?b = "\<lparr>sub_id = 2, sub_events = [''NewRound''], sub_mb = 5\<rparr>"
  define r1 where "r1 = subscribe_register 0 [''Vote''] sample_ws"
  define dialled where "dialled = dial_ok [?a] r1"
  define sent where "sent = writeSubscribeLocked True ?a (dialled\<lparr>ws_phase := Resubscribing []\<rparr>)"
  define reading where "reading = sent\<lparr>ws_phase := Reading\<rparr>"
  define r2 where "r2 = subscribe_register 5 [''NewRound''] reading"
  define written where "written = subscribe_write True ?b r2"
  have new: "NewCometRPCWebsocket (\<lambda>s. Some (''https'', ())) fst ''https://host'' = Some sample_ws"
    by (simp add: sample_ws_def NewCometRPCWebsocket_def)
  have w: "ws_phase sample_ws = Dialing" "ws_subs sample_ws = Map.empty" "ws_subIDNonce sample_ws = 0"
    "ws_pending sample_ws = []"
    by (simp_all add: sample_ws_def NewCometRPCWebsocket_def)
  have i: "i64 1 = 1" "i64 2 = 2" by (simp_all add: i64_def)
  have r: "ws_subs r1 = [1 \<mapsto> ?a]" "ws_phase r1 = Dialing" "ws_pending r1 = [?a]" "ws_subIDNonce r1 = 1"
    by (simp_all add: r1_def subscribe_register_def w i Let_def)
  have d: "ws_phase dialled = Resubscribing [?a]" "ws_pending dialled = [?a]" "ws_subIDNonce dialled = 1"
    "ws_conn dialled = Some \<lparr>conn_sent = [], conn_failed = False\<rparr>"
    by (simp_all add: dialled_def dial_ok_def r)
  have s: "ws_phase sent = Resubscribing []" "ws_pending sent = [?a]" "ws_subIDNonce sent = 1"
    "ws_conn sent = Some \<lparr>conn_sent = [?a], conn_failed = False\<rparr>"
    by (simp_all add: sent_def writeSubscribeLocked_def d)
  have t: "ws_phase r2 = Reading" "ws_pending r2 = [?a, ?b]" "ws_conn r2 = Some \<lparr>conn_sent = [?a], conn_failed = False\<rparr>"
    by (simp_all add: r2_def reading_def subscribe_register_def s i Let_def)
  have e: "ws_phase written = Reading" "ws_pending written = [?a]"
    "ws_conn written = Some \<lparr>conn_sent = [?a, ?b], conn_failed = False\<rparr>"
    by (simp_all add: written_def subscribe_write_def writeSubscribeLocked_def t)
  have "ws_reachable Inl sample_ws [(0, [''Vote''])] r1" using Register [OF Start, of Inl sample_ws 0 "[''Vote'']"] by (simp add: r1_def)
  moreover have "ws_step Inl r1 dialled" unfolding dialled_def by (rule DialOk) (simp_all add: r)
  moreover have "ws_step Inl dialled sent" unfolding sent_def by (rule Resubscribe) (rule d(1))
  moreover have "ws_step Inl sent reading" unfolding reading_def by (rule ResetDone) (rule s(1))
  ultimately have "ws_reachable Inl sample_ws [(0, [''Vote''])] reading" by (blast intro: Step)
  from Register [OF this, of 5 "[''NewRound'']"] have "ws_reachable Inl sample_ws ?calls r2" by (simp add: r2_def)
  moreover have "ws_step Inl r2 written"
    unfolding written_def by (rule Write) (simp_all add: t write_locked_def)
  ultimately have reach: "ws_reachable Inl sample_ws ?calls written" by (rule Step)
  have n: "nth_sub ?calls 0 = ?a" "nth_sub ?calls 1 = ?b" by (simp_all add: nth_sub_def)
  note facts = subscriptions_survive [OF new reach]
  have "ws_subs written 1 = Some ?a" using facts n(1) by simp
  moreover have "?b \<in> set (conn_sent (the (ws_conn written)))"
    using facts [THEN conjunct2, THEN conjunct1, rule_format, of "the (ws_conn written)" 1] e n(2) by simp
  ultimately show ?thesis using reach e(3) by (intro exI [of _ written] exI [of _ "the (ws_conn written)"]) simp
qed

end
