(* ===== verification/Fetchers.thy ===== *)
theory Fetchers
  imports CometRpc
begin

text \<open>
  \<open>pkg/fetcher/cosmos_rpc.go\<close>, \<open>cosmos_lcd.go\<close>, \<open>cosmos_noop.go\<close> and \<open>data_fetcher.go\<close>, with the
  wire types of \<open>pkg/types/abci.go\<close> and \<open>genesis.go\<close>: the three sources of Cosmos validators behind
  the interface \<open>cosmosRPCFetcher\<close>, a record of two calls, and the fetcher that joins them with the
  validators of CometBFT. The Cosmos SDK (protobuf and JSON codecs, bech32, transactions) is the
  record \<open>sdk_env\<close>; its validator, transaction message and packed key types are the type variables
  \<open>'v\<close>, \<open>'m\<close> and \<open>'k\<close>. A public key is represented by its rendered address, as in \<open>Validators\<close>.
\<close>

section \<open>Data\<close>

record AbciResponse =
  abci_Code :: int
  abci_Log :: string
  abci_Value :: bytes

record AppState =
  as_Staking :: bytes
  as_Genutil :: bytes

record CometGenesisChunkResult =
  gc_Total :: string
  gc_Data :: bytes

record MsgCreateValidator =
  mcv_Moniker :: string
  mcv_ValidatorAddress :: string

record ('w, 'v, 'm, 'k) sdk_env = "'w comet_env" +
  sd_abci_response :: "goerror + bytes \<Rightarrow> goerror + AbciResponse"
  sd_genesis_chunk :: "goerror + bytes \<Rightarrow> goerror + CometGenesisChunkResult option"
  sd_genesis :: "bytes \<Rightarrow> goerror + AppState"
  sd_validators_request :: "goerror + bytes"
  sd_pairs_request :: "string \<Rightarrow> goerror + bytes"
  sd_plan_request :: "goerror + bytes"
  sd_validators :: "bytes \<Rightarrow> goerror + 'v list"
  sd_validators_json :: "bytes \<Rightarrow> goerror + 'v list"
  sd_pairs :: "bytes \<Rightarrow> goerror + (string \<times> string) list"
  sd_plan :: "bytes \<Rightarrow> goerror + Upgrade option"
  sd_plan_json :: "goerror + bytes \<Rightarrow> goerror + Upgrade option"
  sd_staking :: "bytes \<Rightarrow> goerror + 'v list"
  sd_genutil :: "bytes \<Rightarrow> goerror + bytes list"
  sd_tx :: "bytes \<Rightarrow> goerror + 'm list"
  sd_create_validator :: "'m \<Rightarrow> (MsgCreateValidator \<times> 'k) option"
  sd_unpack_any :: "'k \<Rightarrow> goerror + address \<times> bytes"
  sd_unpack :: "'v \<Rightarrow> goerror + 'v"
  sd_GetConsAddr :: "'v \<Rightarrow> goerror + bytes"
  sd_ConsPubKey :: "'v \<Rightarrow> goerror + address"
  sd_CmtConsPublicKey :: "'v \<Rightarrow> goerror + bytes"
  sd_GetMoniker :: "'v \<Rightarrow> string"
  sd_GetOperator :: "'v \<Rightarrow> string"
  sd_ConsAddress_String :: "bytes \<Rightarrow> string"
  sd_ConsAddressFromBech32 :: "string \<Rightarrow> bytes"
  sd_bech32 :: "string \<Rightarrow> goerror + bytes"

record 'w cosmosRPCFetcher =
  cf_GetValidators :: "('w, CosmosValidator list) io"
  cf_GetUpgradePlan :: "('w, Upgrade option) io"

record ('w, 'tz) CosmosRPCDataFetcher =
  cr_config :: "'tz Config"
  cr_getURL :: "'w \<Rightarrow> string"
  cr_providerClient :: Client

record 'w DataFetcher =
  df_cosmosFetcher :: "'w cosmosRPCFetcher"
  df_cometFetcher :: "'w CometRPC"

section \<open>cosmos\_noop.go\<close>

definition newNoopDataFetcher :: "'w cosmosRPCFetcher" where
  "newNoopDataFetcher = \<lparr>cf_GetValidators = (\<lambda>w. Some (Inr [], w)), cf_GetUpgradePlan = (\<lambda>w. Some (Inr None, w))\<rparr>"

section \<open>cosmos\_rpc.go\<close>

definition newCosmosRPCDataFetcher :: "'tz Config \<Rightarrow> ('w \<Rightarrow> string) \<Rightarrow> ('w, 'tz) CosmosRPCDataFetcher" where
  "newCosmosRPCDataFetcher config getURL =
     \<lparr>cr_config = config, cr_getURL = getURL, cr_providerClient = NewClient (cfg_ProviderRPCHost config)\<rparr>"

definition cosmos_client :: "('w, 'tz) CosmosRPCDataFetcher \<Rightarrow> 'w \<Rightarrow> Client" where
  "cosmos_client f w = NewClient (cr_getURL f w)"

definition getProviderOrConsumerClient :: "('w, 'tz) CosmosRPCDataFetcher \<Rightarrow> 'w \<Rightarrow> Client" where
  "getProviderOrConsumerClient f w =
     (if cfg_ProviderRPCHost (cr_config f) \<noteq> '''' then cr_providerClient f else cosmos_client f w)"

text \<open>\<open>net/url.QueryEscape\<close>.\<close>

definition escape_char :: "char \<Rightarrow> string" where
  "escape_char c =
     (let n = of_char c :: nat
      in if 48 \<le> n \<and> n \<le> 57 \<or> 65 \<le> n \<and> n \<le> 90 \<or> 97 \<le> n \<and> n \<le> 122 \<or> c \<in> set ''-_.~'' then [c]
         else if c = CHR '' '' then ''+''
         else CHR ''%'' # hex_encode True [c])"

definition QueryEscape :: "string \<Rightarrow> string" where
  "QueryEscape s = concat (map escape_char s)"

definition abciQuery ::
    "('w, 'v, 'm, 'k) sdk_env \<Rightarrow> string \<Rightarrow> goerror + bytes \<Rightarrow> (bytes \<Rightarrow> goerror + 'a) \<Rightarrow> Client \<Rightarrow> ('w, 'a) io" where
  "abciQuery S meth message output client w =
     (case message of
        Inl err \<Rightarrow> Some (Inl (''marshalling abci query '' @ meth @ '': '' @ err), w)
      | Inr dataBytes \<Rightarrow>
          (let methodName = [CHR 0x22] @ meth @ [CHR 0x22];
               queryURL = ''/abci_query?path='' @ QueryEscape methodName @ ''&data=0x'' @ hex_encode False dataBytes
           in Option.bind (client_Get S (sd_abci_response S) client queryURL w) (\<lambda>(res, w).
                case res of
                  Inl err \<Rightarrow> Some (Inl (''abci query '' @ meth @ '': '' @ err), w)
                | Inr response \<Rightarrow>
                    (if abci_Code response \<noteq> 0 then
                       Some (Inl (''abci query '' @ meth @ '': code '' @ itoa (abci_Code response) @ '': '' @
                         abci_Log response), w)
                     else
                       case output (abci_Value response) of
                         Inl err \<Rightarrow> Some (Inl (''unmarshalling abci response for '' @ meth @ '': '' @ err), w)
                       | Inr x \<Rightarrow> Some (Inr x, w)))))"

definition parseValidator :: "('w, 'v, 'm, 'k) sdk_env \<Rightarrow> 'v \<Rightarrow> goerror + CosmosValidator" where
  "parseValidator S validator =
     (case sd_unpack S validator of
        Inl err \<Rightarrow> Inl err
      | Inr validator \<Rightarrow>
          (case sd_GetConsAddr S validator of
             Inl err \<Rightarrow> Inl err
           | Inr consAddr \<Rightarrow>
               (case sd_ConsPubKey S validator of
                  Inl err \<Rightarrow> Inl (''getting consensus pubkey: '' @ err)
                | Inr consPubKey \<Rightarrow>
                    (case sd_CmtConsPublicKey S validator of
                       Inl err \<Rightarrow> Inl (''getting comet consensus pubkey: '' @ err)
                     | Inr _ \<Rightarrow>
                         Inr \<lparr>cos_Moniker = sd_GetMoniker S validator, cos_ConsensusPubkey = Some consPubKey,
                           cos_OperatorAddress = sd_GetOperator S validator,
                           cos_ConsensusAddress = sd_ConsAddress_String S consAddr,
                           cos_AssignedAddress = '''', cos_RawAssignedAddress = ''''\<rparr>))))"

text \<open>The loops that parse one element after the other and stop at the first error.\<close>

fun map_err :: "('a \<Rightarrow> goerror + 'b) \<Rightarrow> 'a list \<Rightarrow> goerror + 'b list" where
  "map_err f [] = Inr []"
| "map_err f (x # xs) =
     (case f x of
        Inl err \<Rightarrow> Inl err
      | Inr y \<Rightarrow> (case map_err f xs of Inl err \<Rightarrow> Inl err | Inr ys \<Rightarrow> Inr (y # ys)))"

definition getGenesisChunk ::
    "('w, 'v, 'm, 'k) sdk_env \<Rightarrow> ('w, 'tz) CosmosRPCDataFetcher \<Rightarrow> int \<Rightarrow> ('w, bytes \<times> int) io" where
  "getGenesisChunk S f chunk w =
     Option.bind (client_Get S (sd_genesis_chunk S) (cosmos_client f w) (''/genesis_chunked?chunk='' @ itoa chunk) w)
       (\<lambda>(res, w).
          case res of
            Inl err \<Rightarrow> Some (Inl err, w)
          | Inr None \<Rightarrow> Some (Inl ''malformed response from node'', w)
          | Inr (Some result) \<Rightarrow>
              (case ParseInt 64 (gc_Total result) of
                 (_, Some e) \<Rightarrow> Some (Inl (num_error ''ParseInt'' (gc_Total result) e), w)
               | (total_chunks, None) \<Rightarrow> Some (Inr (gc_Data result, total_chunks), w)))"

partial_function (option) genesis_loop ::
    "('w, 'v, 'm, 'k) sdk_env \<Rightarrow> ('w, 'tz) CosmosRPCDataFetcher \<Rightarrow> int \<Rightarrow> bytes list \<Rightarrow> ('w, bytes) io" where
  "genesis_loop S f chunk genesisChunks w =
     Option.bind (getGenesisChunk S f chunk w) (\<lambda>(res, w).
       case res of
         Inl err \<Rightarrow> Some (Inl err, w)
       | Inr (genesisChunk, total_chunks) \<Rightarrow>
           (let genesisChunks = genesisChunks @ [genesisChunk]
            in if chunk \<ge> i64 (total_chunks - 1) then Some (Inr (concat genesisChunks), w)
               else genesis_loop S f (i64 (chunk + 1)) genesisChunks w))"

text \<open>The loop over the gentxs. Of its four error branches two return the \<open>err\<close> of the decoder, which
  is \<open>nil\<close> there: the caller sees no validators and no error.\<close>

fun parse_gentxs ::
    "('w, 'v, 'm, 'k) sdk_env \<Rightarrow> bytes list \<Rightarrow> CosmosValidator list \<Rightarrow> goerror + CosmosValidator list" where
  "parse_gentxs S [] validators = Inr validators"
| "parse_gentxs S (gentx # gentxs) validators =
     (case sd_tx S gentx of
        Inl err \<Rightarrow> Inl err
      | Inr [msg] \<Rightarrow>
          (case sd_create_validator S msg of
             None \<Rightarrow> Inr []
           | Some (m, packed) \<Rightarrow>
               (case sd_unpack_any S packed of
                  Inl err \<Rightarrow> Inl err
                | Inr (pubkey, addr) \<Rightarrow>
                    parse_gentxs S gentxs (validators @
                      [\<lparr>cos_Moniker = mcv_Moniker m, cos_ConsensusPubkey = Some pubkey,
                        cos_OperatorAddress = mcv_ValidatorAddress m,
                        cos_ConsensusAddress = sd_ConsAddress_String S addr,
                        cos_AssignedAddress = '''', cos_RawAssignedAddress = ''''\<rparr>])))
      | Inr _ \<Rightarrow> Inr [])"

definition genesis_validators :: "('w, 'v, 'm, 'k) sdk_env \<Rightarrow> bytes \<Rightarrow> goerror + CosmosValidator list" where
  "genesis_validators S genesisBytes =
     (case sd_genesis S genesisBytes of
        Inl err \<Rightarrow> Inl err
      | Inr appState \<Rightarrow>
          (case sd_staking S (as_Staking appState) of
             Inl err \<Rightarrow> Inl err
           | Inr staking \<Rightarrow>
               (if length staking > 0 then map_err (parseValidator S) staking
                else
                  case sd_genutil S (as_Genutil appState) of
                    Inl err \<Rightarrow> Inl err
                  | Inr gentxs \<Rightarrow> parse_gentxs S gentxs [])))"

definition getGenesisValidators ::
    "('w, 'v, 'm, 'k) sdk_env \<Rightarrow> ('w, 'tz) CosmosRPCDataFetcher \<Rightarrow> ('w, CosmosValidator list) io" where
  "getGenesisValidators S f w =
     Option.bind (genesis_loop S f 0 [] w) (\<lambda>(res, w).
       case res of
         Inl err \<Rightarrow> Some (Inl err, w)
       | Inr genesisBytes \<Rightarrow> Some (genesis_validators S genesisBytes, w))"

definition assign_key ::
    "('w, 'v, 'm, 'k) sdk_env \<Rightarrow> (string \<times> string) list \<Rightarrow> CosmosValidator \<Rightarrow> CosmosValidator" where
  "assign_key S pairs validator =
     (case Find pairs (\<lambda>i. case CompareTwoBech32 (sd_bech32 S) (fst i) (cos_ConsensusAddress validator) of
             Inl _ \<Rightarrow> False | Inr equal \<Rightarrow> equal) of
        None \<Rightarrow> validator
      | Some pair \<Rightarrow>
          (let addr = sd_ConsAddressFromBech32 S (snd pair)
           in validator\<lparr>cos_AssignedAddress := sd_ConsAddress_String S addr,
                        cos_RawAssignedAddress := hex_encode True addr\<rparr>))"

definition cosmos_GetValidators ::
    "('w, 'v, 'm, 'k) sdk_env \<Rightarrow> ('w, 'tz) CosmosRPCDataFetcher \<Rightarrow> ('w, CosmosValidator list) io" where
  "cosmos_GetValidators S f w =
     Option.bind (abciQuery S ''/cosmos.staking.v1beta1.Query/Validators'' (sd_validators_request S) (sd_validators S)
         (getProviderOrConsumerClient f w) w) (\<lambda>(res, w).
       case res of
         Inl err \<Rightarrow>
           (if contains err '' please wait for first block'' then getGenesisValidators S f w else Some (Inl err, w))
       | Inr response \<Rightarrow>
           (case map_err (parseValidator S) response of
              Inl err \<Rightarrow> Some (Inl err, w)
            | Inr validators \<Rightarrow>
                (if \<not> IsConsumer (cr_config f) then Some (Inr validators, w)
                 else
                   Option.bind (abciQuery S ''/interchain_security.ccv.provider.v1.Query/QueryAllPairsValConsAddrByConsumer''
                       (sd_pairs_request S (cfg_ConsumerID (cr_config f))) (sd_pairs S) (cr_providerClient f) w)
                     (\<lambda>(res, w).
                        case res of
                          Inl err \<Rightarrow> Some (Inl err, w)
                        | Inr pairs \<Rightarrow> Some (Inr (map (assign_key S pairs) validators), w)))))"

definition cosmos_GetUpgradePlan ::
    "('w, 'v, 'm, 'k) sdk_env \<Rightarrow> ('w, 'tz) CosmosRPCDataFetcher \<Rightarrow> ('w, Upgrade option) io" where
  "cosmos_GetUpgradePlan S f w =
     abciQuery S ''/cosmos.upgrade.v1beta1.Query/CurrentPlan'' (sd_plan_request S) (sd_plan S) (cosmos_client f w) w"

section \<open>cosmos\_lcd.go\<close>

definition NewCosmosLCDDataFetcher :: "'tz Config \<Rightarrow> Client" where
  "NewCosmosLCDDataFetcher config = NewClient (cfg_LCDHost config)"

text \<open>The body of its loop repeats \<open>parseValidator\<close> word for word.\<close>

definition lcd_GetValidators :: "('w, 'v, 'm, 'k) sdk_env \<Rightarrow> Client \<Rightarrow> ('w, CosmosValidator list) io" where
  "lcd_GetValidators S client w =
     Option.bind (GetPlain S client ''/cosmos/staking/v1beta1/validators?status=BOND_STATUS_BONDED&pagination.limit=1000'' w)
       (\<lambda>(res, w).
          case res of
            Inl err \<Rightarrow> Some (Inl err, w)
          | Inr bs \<Rightarrow>
              (case sd_validators_json S bs of
                 Inl err \<Rightarrow> Some (Inl err, w)
               | Inr response \<Rightarrow> Some (map_err (parseValidator S) response, w)))"

definition lcd_GetUpgradePlan :: "('w, 'v, 'm, 'k) sdk_env \<Rightarrow> Client \<Rightarrow> ('w, Upgrade option) io" where
  "lcd_GetUpgradePlan S client w = client_Get S (sd_plan_json S) client ''/cosmos/upgrade/v1beta1/current_plan'' w"

section \<open>data\_fetcher.go\<close>

text \<open>\<open>get_state\<close> reads the shared state out of the world.\<close>

definition NewDataFetcher ::
    "('w, 'v, 'm, 'kk) sdk_env \<Rightarrow> ('h, 'r, 'k, 'p, 'z) state_env_scheme \<Rightarrow> 'tz Config \<Rightarrow> ('w \<Rightarrow> ('h, 'k, 'p) State)
      \<Rightarrow> 'w DataFetcher" where
  "NewDataFetcher S E config get_state =
     (let getCurrentURL = (\<lambda>w. rpc_URL (CurrentRPC E (get_state w)));
          cosmosFetcher =
            (if cfg_ChainType config = ChainTypeTendermint then newNoopDataFetcher
             else if cfg_ChainType config = ChainTypeCosmosLCD then
               (let client = NewCosmosLCDDataFetcher config
                in \<lparr>cf_GetValidators = lcd_GetValidators S client, cf_GetUpgradePlan = lcd_GetUpgradePlan S client\<rparr>)
             else
               (let f = newCosmosRPCDataFetcher config getCurrentURL
                in \<lparr>cf_GetValidators = cosmos_GetValidators S f, cf_GetUpgradePlan = cosmos_GetUpgradePlan S f\<rparr>))
      in \<lparr>df_cosmosFetcher = cosmosFetcher, df_cometFetcher = NewCometRPC config getCurrentURL\<rparr>)"

definition fetch_GetConsensusState :: "('w, 'z) comet_env_scheme \<Rightarrow> 'w DataFetcher \<Rightarrow> ('w, RoundState) io" where
  "fetch_GetConsensusState C f = GetConsensusState C (df_cometFetcher f)"

definition fetch_GetCometNodeStatus ::
    "('w, 'z) comet_env_scheme \<Rightarrow> 'w DataFetcher \<Rightarrow> string \<Rightarrow> ('w, ResultStatus) io" where
  "fetch_GetCometNodeStatus C f rpcURL = GetCometNodeStatus C (WithEndpoint rpcURL (df_cometFetcher f))"

definition fetch_Block :: "('w, 'z) comet_env_scheme \<Rightarrow> 'w DataFetcher \<Rightarrow> int \<Rightarrow> ('w, Block option) io" where
  "fetch_Block C f height = rpc_Block C (df_cometFetcher f) height"

definition fetch_GetBlockTime :: "('w, 'z) comet_env_scheme \<Rightarrow> 'w DataFetcher \<Rightarrow> ('w, duration) io" where
  "fetch_GetBlockTime C f = rpc_GetBlockTime C (df_cometFetcher f)"

definition fetch_GetNetInfo :: "('w, 'z) comet_env_scheme \<Rightarrow> 'w DataFetcher \<Rightarrow> string \<Rightarrow> ('w, NetInfo) io" where
  "fetch_GetNetInfo C f rpcURL = rpc_GetNetInfo C (WithEndpoint rpcURL (df_cometFetcher f))"

definition fetch_GetNumUnconfirmedTxs :: "('w, 'z) comet_env_scheme \<Rightarrow> 'w DataFetcher \<Rightarrow> ('w, int \<times> int) io" where
  "fetch_GetNumUnconfirmedTxs C f = GetNumUnconfirmedTxs C (df_cometFetcher f)"

definition fetch_GetUpgradePlan :: "'w DataFetcher \<Rightarrow> ('w, Upgrade option) io" where
  "fetch_GetUpgradePlan f = cf_GetUpgradePlan (df_cosmosFetcher f)"

definition index_cosmos :: "CosmosValidator list \<Rightarrow> (address \<rightharpoonup> CosmosValidator)" where
  "index_cosmos cosmosVals =
     foldl (\<lambda>m v. case cos_ConsensusPubkey v of None \<Rightarrow> m | Some key \<Rightarrow> m(key \<mapsto> v)) Map.empty cosmosVals"

definition total_power :: "CometValidator list \<Rightarrow> int" where
  "total_power cometVals = foldl (\<lambda>acc v. i64 (acc + cv_VotingPower v)) 0 cometVals"

definition merge_validator ::
    "int \<Rightarrow> (address \<rightharpoonup> CosmosValidator) \<Rightarrow> nat \<times> CometValidator \<Rightarrow> TMValidator" where
  "merge_validator totalVotingPower cosmValMap = (\<lambda>(i, cometVal).
     \<lparr>tv_CometValidator = Some cometVal, tv_CosmosValidator = cosmValMap (cv_PubKeyAddress cometVal), tv_Index = int i,
      tv_VotingPowerPercent = Some
        (if totalVotingPower > 0
         then fmul (fdiv (float_of_int (cv_VotingPower cometVal)) (float_of_int totalVotingPower)) 100 else 0),
      tv_PeerID = ''''\<rparr>)"

definition merge_validators :: "CometValidator list \<Rightarrow> CosmosValidator list \<Rightarrow> TMValidators" where
  "merge_validators cometVals cosmosVals =
     map (merge_validator (total_power cometVals) (index_cosmos cosmosVals)) (enumerate 0 cometVals)"

definition fetch_GetValidators :: "('w, 'z) comet_env_scheme \<Rightarrow> 'w DataFetcher \<Rightarrow> ('w, TMValidators) io" where
  "fetch_GetValidators C f w =
     Option.bind (rpc_GetValidators C (df_cometFetcher f) w) (\<lambda>(res, w).
       case res of
         Inl err \<Rightarrow> Some (Inl err, w)
       | Inr cometVals \<Rightarrow>
           Option.bind (cf_GetValidators (df_cosmosFetcher f) w) (\<lambda>(res, w).
             case res of
               Inl err \<Rightarrow> Some (Inl err, w)
             | Inr cosmosVals \<Rightarrow> Some (Inr (merge_validators cometVals cosmosVals), w)))"

section \<open>Specification\<close>

text \<open>A well-typed row of the validator list: it carries its CometBFT validator, a Cosmos validator only
  of the same consensus key, and a percentage between 0 and 100.\<close>

definition tm_typed :: "TMValidator \<Rightarrow> bool" where
  "tm_typed v \<longleftrightarrow>
     (\<exists>c q. tv_CometValidator v = Some c \<and> tv_VotingPowerPercent v = Some q \<and> 0 \<le> q \<and> q \<le> 100
        \<and> (\<forall>cos. tv_CosmosValidator v = Some cos \<longrightarrow> cos_ConsensusPubkey cos = Some (cv_PubKeyAddress c)))"

text \<open>CometBFT's documented \<open>/genesis_chunked\<close>: the genesis document is cut into chunks, each reply has
  one of them and their number.\<close>

definition serves_genesis ::
    "('w, 'v, 'm, 'k) sdk_env \<Rightarrow> ('w, 'tz) CosmosRPCDataFetcher \<Rightarrow> bytes list \<Rightarrow> bool" where
  "serves_genesis S f chunks \<longleftrightarrow> chunks \<noteq> [] \<and> int (length chunks) < 2 ^ 63 \<and>
     (\<forall>w i. i < length chunks \<longrightarrow>
        (\<exists>w'. getGenesisChunk S f (int i) w = Some (Inr (chunks ! i, int (length chunks)), w')))"

text \<open>What a source of Cosmos validators promises to the fetcher: every validator it returns has a
  consensus key, so none is skipped when the fetcher indexes them.\<close>

locale cosmos_source =
  fixes source :: "('w, CosmosValidator list) io"
  assumes keyed: "source w = Some (Inr vs, w') \<Longrightarrow> v \<in> set vs \<Longrightarrow> cos_ConsensusPubkey v \<noteq> None"

text \<open>A source that knows nothing of keys assigned on a consumer chain.\<close>

locale plain_source = cosmos_source +
  assumes unassigned: "source w = Some (Inr vs, w') \<Longrightarrow> v \<in> set vs \<Longrightarrow> cos_AssignedAddress v = ''''"

text \<open>An SDK for the witnesses: one active validator; a genesis document of two chunks with two genesis
  transactions, the second of which holds no message.\<close>

definition sample_comet_validator :: CometValidator where
  "sample_comet_validator = \<lparr>cv_Address = ''A'', cv_PubKeyAddress = ''K'', cv_PubKeyBytes = [], cv_VotingPower = 4\<rparr>"

definition sample_sdk :: "(int, unit, unit, unit) sdk_env" where
  "sample_sdk = comet_env.extend ((sample_comet \<lparr>rv_Validators = [sample_comet_validator], rv_Total = 1\<rparr> (\<lambda>_. None))
       \<lparr>he_parse := (\<lambda>s. Some \<lparr>url_Base = '''', url_Path = '''', url_RawQuery = s, url_Fragment = ''''\<rparr>),
        he_string := url_RawQuery,
        he_Do := (\<lambda>u w. (Inr \<lparr>body_read = Inr (drop (length u - 1) u), body_close = None\<rparr>, w + 1))\<rparr>)
     \<lparr>sd_abci_response = (\<lambda>_. Inr \<lparr>abci_Code = 0, abci_Log = '''', abci_Value = ''''\<rparr>),
      sd_genesis_chunk = (\<lambda>b. case b of Inl e \<Rightarrow> Inl e
         | Inr i \<Rightarrow> Inr (Some \<lparr>gc_Total = ''2'', gc_Data = (if i = ''0'' then ''ab'' else ''cd'')\<rparr>)),
      sd_genesis = (\<lambda>d. if d = ''abcd'' then Inr \<lparr>as_Staking = '''', as_Genutil = ''g''\<rparr> else Inl ''unexpected end of JSON input''),
      sd_validators_request = Inr '''', sd_pairs_request = (\<lambda>_. Inr ''''), sd_plan_request = Inr '''',
      sd_validators = (\<lambda>_. Inr []), sd_validators_json = (\<lambda>_. Inr []), sd_pairs = (\<lambda>_. Inr []),
      sd_plan = (\<lambda>_. Inr None), sd_plan_json = (\<lambda>_. Inr None), sd_staking = (\<lambda>_. Inr []),
      sd_genutil = (\<lambda>_. Inr [''good'', ''bad'']), sd_tx = (\<lambda>t. if t = ''good'' then Inr [()] else Inr []),
      sd_create_validator = (\<lambda>_. Some (\<lparr>mcv_Moniker = ''m'', mcv_ValidatorAddress = ''v''\<rparr>, ())),
      sd_unpack_any = (\<lambda>_. Inr (''K'', ''k'')), sd_unpack = Inr, sd_GetConsAddr = (\<lambda>_. Inr ''k''),
      sd_ConsPubKey = (\<lambda>_. Inr ''K''), sd_CmtConsPublicKey = (\<lambda>_. Inr ''''), sd_GetMoniker = (\<lambda>_. ''m''),
      sd_GetOperator = (\<lambda>_. ''v''), sd_ConsAddress_String = (\<lambda>a. a), sd_ConsAddressFromBech32 = (\<lambda>a. a),
      sd_bech32 = Inr\<rparr>"

definition sample_config :: "string Config" where
  "sample_config = (projr (ParseAndValidateConfig ''local'' Inl sample_input))\<lparr>cfg_ChainType := ChainTypeTendermint\<rparr>"

definition sample_fetcher :: "int DataFetcher" where
  "sample_fetcher = NewDataFetcher sample_sdk fmap_state_env sample_config (\<lambda>_. NewState fmap_state_env ''u'' 0)"

definition sample_cosmos :: "(int, string) CosmosRPCDataFetcher" where
  "sample_cosmos = newCosmosRPCDataFetcher sample_config (\<lambda>w. if w = 0 then ''0'' else ''1'')"

section \<open>Lemmas\<close>

subsection \<open>Joining the validators\<close>

lemma index_cosmos_find:
  "index_cosmos vs key = List.find (\<lambda>v. cos_ConsensusPubkey v = Some key) (rev vs)"
proof (induction vs rule: rev_induct)
  case (snoc v vs)
  then show ?case by (cases "cos_ConsensusPubkey v") (auto simp: index_cosmos_def)
qed (simp add: index_cosmos_def)

lemma index_cosmos_key: "index_cosmos vs key = Some v \<Longrightarrow> v \<in> set vs \<and> cos_ConsensusPubkey v = Some key"
  by (auto simp: index_cosmos_find find_Some_iff) (metis nth_mem set_rev length_rev)

lemma total_power_exact:
  assumes "\<forall>v \<in> set vs. 0 \<le> cv_VotingPower v" "(\<Sum>v \<leftarrow> vs. cv_VotingPower v) < 2 ^ 63"
  shows "total_power vs = (\<Sum>v \<leftarrow> vs. cv_VotingPower v)"
proof -
  have "0 \<le> a \<Longrightarrow> a + (\<Sum>v \<leftarrow> vs. cv_VotingPower v) < 2 ^ 63 \<Longrightarrow>
      foldl (\<lambda>acc v. i64 (acc + cv_VotingPower v)) a vs = a + (\<Sum>v \<leftarrow> vs. cv_VotingPower v)" for a
    using assms(1)
  proof (induction vs arbitrary: a)
    case (Cons v vs)
    have "0 \<le> (\<Sum>v \<leftarrow> vs. cv_VotingPower v)" using Cons.prems(3) by (intro sum_list_nonneg) auto
    then have "i64 (a + cv_VotingPower v) = a + cv_VotingPower v"
      using Cons.prems by (simp add: i64_def)
    then show ?case using Cons by (simp add: add.assoc)
  qed simp
  from this [of 0] assms(2) show ?thesis by (simp add: total_power_def)
qed

lemma merge_percent_bounds:
  assumes "\<forall>v \<in> set vs. 0 \<le> cv_VotingPower v" "(\<Sum>v \<leftarrow> vs. cv_VotingPower v) < 2 ^ 63" "c \<in> set vs"
  shows "0 \<le> the (tv_VotingPowerPercent (merge_validator (total_power vs) m (i, c)))
    \<and> the (tv_VotingPowerPercent (merge_validator (total_power vs) m (i, c))) \<le> 100"
proof (cases "total_power vs > 0")
  case True
  have "\<And>x. x \<in> cv_VotingPower ` set vs \<Longrightarrow> 0 \<le> x" using assms(1) by auto
  then have "cv_VotingPower c \<le> total_power vs"
    using member_le_sum_list [of "cv_VotingPower c" "map cv_VotingPower vs"] assms
    by (simp add: total_power_exact)
  then have "0 \<le> float_of_int (cv_VotingPower c)" "float_of_int (cv_VotingPower c) \<le> float_of_int (total_power vs)"
    "0 < float_of_int (total_power vs)"
    using assms(1,3) True float_of_int_mono [of 1 "total_power vs"] float_of_int_mono
    by (auto simp: float_of_int_def fl_nonneg)
  from fmul_100_unit [OF fdiv_unit [OF this, THEN conjunct1] fdiv_unit [OF this, THEN conjunct2]]
  show ?thesis using True by (simp add: merge_validator_def)
next
  case False
  then show ?thesis by (simp add: merge_validator_def)
qed

lemma merge_validators_typed:
  assumes "\<forall>v \<in> set cometVals. 0 \<le> cv_VotingPower v" "(\<Sum>v \<leftarrow> cometVals. cv_VotingPower v) < 2 ^ 63"
    and "v \<in> set (merge_validators cometVals cosmosVals)"
  shows "tm_typed v"
proof -
  obtain i c where c: "v = merge_validator (total_power cometVals) (index_cosmos cosmosVals) (i, c)" "c \<in> set cometVals"
    using assms(3) by (auto simp: merge_validators_def in_set_enumerate_eq)
  from merge_percent_bounds [OF assms(1,2) c(2), of "index_cosmos cosmosVals" i] c(1) show ?thesis
    using index_cosmos_key [of cosmosVals "cv_PubKeyAddress c"] by (auto simp: tm_typed_def merge_validator_def)
qed

subsection \<open>Sources\<close>

context cosmos_source
begin

lemma joined:
  assumes "source w = Some (Inr vs, w')" "v \<in> set vs" "distinct (map cos_ConsensusPubkey vs)"
    and "c \<in> set cometVals" "cos_ConsensusPubkey v = Some (cv_PubKeyAddress c)"
  shows "\<exists>u \<in> set (merge_validators cometVals vs). tv_CometValidator u = Some c \<and> tv_CosmosValidator u = Some v"
proof -
  have "index_cosmos vs (cv_PubKeyAddress c) \<noteq> None"
    using assms(2,5) by (auto simp: index_cosmos_find find_None_iff)
  then obtain u where u: "index_cosmos vs (cv_PubKeyAddress c) = Some u" by blast
  from index_cosmos_key [OF u] assms(2,3,5) have "u = v"
    by (metis distinct_map inj_onD)
  obtain i where "i < length cometVals" "cometVals ! i = c" using assms(4) by (metis in_set_conv_nth)
  then have "(i, c) \<in> set (enumerate 0 cometVals)" by (auto simp: in_set_enumerate_eq)
  then have "merge_validator (total_power cometVals) (index_cosmos vs) (i, c) \<in> set (merge_validators cometVals vs)"
    by (simp add: merge_validators_def)
  moreover have "tv_CosmosValidator (merge_validator (total_power cometVals) (index_cosmos vs) (i, c)) = Some v"
    "tv_CometValidator (merge_validator (total_power cometVals) (index_cosmos vs) (i, c)) = Some c"
    using u \<open>u = v\<close> by (simp_all add: merge_validator_def)
  ultimately show ?thesis by blast
qed

lemma indexed: "source w = Some (Inr vs, w') \<Longrightarrow> v \<in> set vs \<Longrightarrow> \<exists>key. index_cosmos vs key \<noteq> None \<and> cos_ConsensusPubkey v = Some key"
  using keyed [of w vs w' v] by (auto simp: index_cosmos_find find_None_iff)

end

lemma map_err_all: "map_err f xs = Inr ys \<Longrightarrow> (\<And>x y. f x = Inr y \<Longrightarrow> P y) \<Longrightarrow> y \<in> set ys \<Longrightarrow> P y"
  by (induction xs arbitrary: ys) (auto split: sum.splits)

lemma parseValidator_fields:
  "parseValidator S x = Inr v \<Longrightarrow> cos_ConsensusPubkey v \<noteq> None \<and> cos_AssignedAddress v = ''''"
  by (auto simp: parseValidator_def split: sum.splits)

lemma map_err_parseValidator:
  "map_err (parseValidator S) xs = Inr vs \<Longrightarrow> v \<in> set vs \<Longrightarrow> cos_ConsensusPubkey v \<noteq> None \<and> cos_AssignedAddress v = ''''"
  using map_err_all [of "parseValidator S" xs vs "\<lambda>v. cos_ConsensusPubkey v \<noteq> None \<and> cos_AssignedAddress v = []" v]
    parseValidator_fields [of S] by blast

lemma map_err_keyed:
  "map_err (parseValidator S) xs = Inr vs \<Longrightarrow> \<forall>v \<in> set vs. \<exists>key. cos_ConsensusPubkey v = Some key"
  using map_err_parseValidator [of S xs vs] by auto

lemma parse_gentxs_fields:
  "parse_gentxs S gentxs acc = Inr vs \<Longrightarrow> (\<forall>v \<in> set acc. cos_ConsensusPubkey v \<noteq> None) \<Longrightarrow> v \<in> set vs
    \<Longrightarrow> cos_ConsensusPubkey v \<noteq> None"
proof (induction S gentxs acc rule: parse_gentxs.induct)
  case (2 S gentx gentxs acc)
  show ?case
  proof (cases "\<exists>msg m packed pubkey addr. sd_tx S gentx = Inr [msg] \<and> sd_create_validator S msg = Some (m, packed)
      \<and> sd_unpack_any S packed = Inr (pubkey, addr)")
    case True
    with 2 show ?thesis by auto
  next
    case False
    with 2(2,4) show ?thesis
      by (auto split: sum.splits list.splits option.splits prod.splits)
  qed
qed simp

lemma genesis_validators_keyed: "genesis_validators S b = Inr vs \<Longrightarrow> v \<in> set vs \<Longrightarrow> cos_ConsensusPubkey v \<noteq> None"
  by (auto simp: genesis_validators_def dest: map_err_parseValidator parse_gentxs_fields split: sum.split_asm if_split_asm)

interpretation noop: plain_source "cf_GetValidators newNoopDataFetcher"
  by unfold_locales (auto simp: newNoopDataFetcher_def)

interpretation lcd: plain_source "lcd_GetValidators S client" for S :: "('w, 'v, 'm, 'k) sdk_env" and client
  by unfold_locales
     (auto simp: lcd_GetValidators_def elim!: io_bindE dest: map_err_parseValidator split: sum.split_asm)

lemma assign_key_pubkey: "cos_ConsensusPubkey (assign_key S pairs v) = cos_ConsensusPubkey v"
  by (simp add: assign_key_def Let_def split: option.split)

interpretation rpc: cosmos_source "cosmos_GetValidators S f"
  for S :: "('w, 'v, 'm, 'k) sdk_env" and f :: "('w, 'tz) CosmosRPCDataFetcher"
proof
  fix w vs w' v
  assume r: "cosmos_GetValidators S f w = Some (Inr vs, w')" and v: "v \<in> set vs"
  have gen: "cos_ConsensusPubkey v \<noteq> None" if "getGenesisValidators S f w1 = Some (Inr vs, w')" for w1
    using that v by (auto simp: getGenesisValidators_def dest: genesis_validators_keyed elim!: io_bindE split: sum.split_asm)
  show "cos_ConsensusPubkey v \<noteq> None"
    using r v gen by (auto simp: cosmos_GetValidators_def assign_key_pubkey dest!: map_err_keyed
        elim!: io_bindE split: sum.split_asm if_split_asm)
qed

interpretation chosen: cosmos_source "cf_GetValidators (df_cosmosFetcher (NewDataFetcher S E config get_state))"
  for S :: "('w, 'v, 'm, 'kk) sdk_env" and E :: "('h, 'r, 'k, 'p, 'z) state_env_scheme" and config :: "'tz Config" and get_state
proof
  fix w vs w' v
  assume "cf_GetValidators (df_cosmosFetcher (NewDataFetcher S E config get_state)) w = Some (Inr vs, w')" "v \<in> set vs"
  then show "cos_ConsensusPubkey v \<noteq> None"
    by (auto simp: NewDataFetcher_def Let_def dest: noop.keyed lcd.keyed rpc.keyed split: if_split_asm)
qed

subsection \<open>The genesis document\<close>

text \<open>The worlds between the requests: \<open>ws i\<close> is the one in which chunk \<open>i\<close> is requested.\<close>

lemma genesis_loop_serves:
  assumes "serves_genesis S f chunks" "i < length chunks"
    and "\<forall>i < length chunks. getGenesisChunk S f (int i) (ws i) = Some (Inr (chunks ! i, int (length chunks)), ws (Suc i))"
  shows "genesis_loop S f (int i) (take i chunks) (ws i) = Some (Inr (concat chunks), ws (length chunks))"
  using assms(2)
proof (induction "length chunks - i" arbitrary: i rule: less_induct)
  case less
  have n: "int (length chunks) < 2 ^ 63" using assms(1) by (simp add: serves_genesis_def)
  have step: "getGenesisChunk S f (int i) (ws i) = Some (Inr (chunks ! i, int (length chunks)), ws (Suc i))"
    using assms(3) less.prems by blast
  have all: "take i chunks @ [chunks ! i] = take (Suc i) chunks" using less.prems by (simp add: take_Suc_conv_app_nth)
  have wrap: "i64 (int (length chunks) - 1) = int (length chunks) - 1" "i64 (int i + 1) = int (Suc i)"
    using n less.prems by (simp_all add: i64_def)
  show ?case
  proof (cases "Suc i = length chunks")
    case True
    then have "concat (take i chunks @ [chunks ! i]) = concat chunks" using all by simp
    then show ?thesis using True wrap by (subst genesis_loop.simps) (simp add: step Let_def del: concat_append)
  next
    case False
    with less.prems have "length chunks - Suc i < length chunks - i" "Suc i < length chunks" by simp_all
    from less.hyps [OF this] False less.prems wrap show ?thesis
      by (subst genesis_loop.simps) (simp add: step all Let_def)
  qed
qed

lemma genesis_worlds:
  assumes "serves_genesis S f chunks"
  obtains ws where "ws 0 = w"
    "\<forall>i < length chunks. getGenesisChunk S f (int i) (ws i) = Some (Inr (chunks ! i, int (length chunks)), ws (Suc i))"
proof -
  define ws where "ws = rec_nat w (\<lambda>i w. snd (the (getGenesisChunk S f (int i) w)))"
  have "getGenesisChunk S f (int i) (ws i) = Some (Inr (chunks ! i, int (length chunks)), ws (Suc i))" if i: "i < length chunks" for i
  proof -
    obtain w' where "getGenesisChunk S f (int i) (ws i) = Some (Inr (chunks ! i, int (length chunks)), w')"
      using assms i unfolding serves_genesis_def by blast
    then show ?thesis by (simp add: ws_def)
  qed
  then show thesis by (intro that [of ws]) (simp_all add: ws_def)
qed

lemma parse_gentxs_bad:
  assumes "\<forall>g \<in> set pre. \<exists>msg m packed pubkey. sd_tx S g = Inr [msg] \<and> sd_create_validator S msg = Some (m, packed)
      \<and> sd_unpack_any S packed = Inr pubkey"
    and "sd_tx S bad = Inr msgs" "\<forall>msg. msgs = [msg] \<longrightarrow> sd_create_validator S msg = None"
  shows "parse_gentxs S (pre @ bad # post) acc = Inr []"
  using assms(1)
proof (induction pre arbitrary: acc)
  case Nil
  show ?case using assms(2,3) by (auto split: list.split)
next
  case (Cons g pre)
  then obtain msg m packed pubkey addr where "sd_tx S g = Inr [msg]" "sd_create_validator S msg = Some (m, packed)"
    "sd_unpack_any S packed = Inr (pubkey, addr)" by fastforce
  with Cons show ?case by simp
qed

subsection \<open>The samples\<close>

lemma sample_sdk_fields:
  "he_parse sample_sdk = (\<lambda>s. Some \<lparr>url_Base = '''', url_Path = '''', url_RawQuery = s, url_Fragment = ''''\<rparr>)"
  "he_string sample_sdk = url_RawQuery"
  "he_Do sample_sdk = (\<lambda>u w. (Inr \<lparr>body_read = Inr (drop (length u - 1) u), body_close = None\<rparr>, w + 1))"
  "ce_envelope sample_sdk = (\<lambda>bs. Inr \<lparr>rr_Error = None, rr_Result = bs\<rparr>)"
  "ce_validators sample_sdk = (\<lambda>_. Inr \<lparr>rv_Validators = [sample_comet_validator], rv_Total = 1\<rparr>)"
  "sd_genesis_chunk sample_sdk = (\<lambda>b. case b of Inl e \<Rightarrow> Inl e
         | Inr i \<Rightarrow> Inr (Some \<lparr>gc_Total = ''2'', gc_Data = (if i = ''0'' then ''ab'' else ''cd'')\<rparr>))"
  by (simp_all add: sample_sdk_def comet_env.defs sample_comet_def)

lemma sample_serves: "serves_validators sample_sdk rpc [sample_comet_validator]"
proof -
  have "request sample_sdk rpc path (\<lambda>_. Inr x) w = Some (Inr x, w + 1)" for path w and x :: ResultValidators
    by (rule answered_request) (simp_all add: sample_sdk_fields)
  then show ?thesis by (auto simp: serves_validators_def getValidatorsAtPage_def sample_sdk_fields(5))
qed

lemma sample_chunk:
  "i \<in> {0, 1} \<Longrightarrow> getGenesisChunk sample_sdk sample_cosmos (int i) w = Some (Inr ([''ab'', ''cd''] ! i, 2), w + 1)"
proof -
  have two: "ParseInt 64 ''2'' = (2, None)" by (simp add: ParseInt_def ParseUint_def digit_val_def)
  have c: "char_of (48 :: nat) = CHR ''0''" "char_of (49 :: nat) \<noteq> CHR ''0''" by (simp_all add: char_of_def bit_0)
  assume "i \<in> {0, 1}"
  then show ?thesis
    by (auto simp: getGenesisChunk_def client_Get_def GetInternal_def client_join_def sample_sdk_fields two
        itoa_def digits.simps digit_char_def c)
qed

lemma sample_cosmos_fetcher: "df_cosmosFetcher sample_fetcher = newNoopDataFetcher"
  by (simp add: sample_fetcher_def NewDataFetcher_def sample_config_def)

lemma sample_rpc_validators:
  "\<exists>w'. rpc_GetValidators sample_sdk rpc w = Some (Inr [sample_comet_validator], w')"
  using validator_pages_serves [OF sample_serves, of 0 rpc w] by (simp add: rpc_GetValidators_def)

section \<open>Properties\<close>



text \<open>C28: a genesis document served in chunks is reassembled completely and in order with one request for each chunk:
  the requests for the chunks 0, 1, ... run one after the other, each in the world the one before it left, the caller
  gets the world the last of them left, and the validators are those of the whole document.\<close>

theorem getGenesisValidators_reassembles:
  assumes "serves_genesis S f chunks"
  shows "\<exists>ws. ws 0 = w
    \<and> (\<forall>i < length chunks. getGenesisChunk S f (int i) (ws i) = Some (Inr (chunks ! i, int (length chunks)), ws (Suc i)))
    \<and> getGenesisValidators S f w = Some (genesis_validators S (concat chunks), ws (length chunks))"
proof -
  obtain ws where ws: "ws 0 = w"
    "\<forall>i < length chunks. getGenesisChunk S f (int i) (ws i) = Some (Inr (chunks ! i, int (length chunks)), ws (Suc i))"
    using genesis_worlds [OF assms] .
  have "0 < length chunks" using assms by (simp add: serves_genesis_def)
  from genesis_loop_serves [OF assms this ws(2)] ws show ?thesis by (auto simp: getGenesisValidators_def)
qed

text \<open>The world of the sample counts the requests.\<close>

theorem getGenesisValidators_reassembles_witness:
  "getGenesisValidators sample_sdk sample_cosmos 0 = Some (genesis_validators sample_sdk ''abcd'', 2)"
proof -
  have chunk: "getGenesisChunk sample_sdk sample_cosmos (int i) w = Some (Inr ([''ab'', ''cd''] ! i, 2), w + 1)" if "i < 2" for i w
    using sample_chunk [of i w] that by (cases "i = 0") simp_all
  then have "serves_genesis sample_sdk sample_cosmos [''ab'', ''cd'']"
    by (auto simp: serves_genesis_def numeral_2_eq_2)
  from getGenesisValidators_reassembles [OF this, of 0] obtain ws where ws: "ws 0 = 0"
    "\<forall>i < 2. getGenesisChunk sample_sdk sample_cosmos (int i) (ws i) = Some (Inr ([''ab'', ''cd''] ! i, 2), ws (Suc i))"
    "getGenesisValidators sample_sdk sample_cosmos 0 = Some (genesis_validators sample_sdk ''abcd'', ws 2)"
    by (auto simp: numeral_2_eq_2)
  have "ws (Suc i) = ws i + 1" if "i < 2" for i using ws(2) chunk [OF that, of "ws i"] that by simp
  from this [of 0] this [of 1] ws(1) have "ws 2 = 2" by (simp add: numeral_2_eq_2)
  then show ?thesis using ws(3) by simp
qed

text \<open>A genesis transaction that does not hold exactly one \<open>MsgCreateValidator\<close> is an error in the log
  only: the caller gets an empty list of validators and no error, although the transactions before it were
  fine.\<close>

theorem gentx_error_is_swallowed:
  assumes "sd_genesis S doc = Inr app" "sd_staking S (as_Staking app) = Inr []"
    and "sd_genutil S (as_Genutil app) = Inr (pre @ bad # post)"
    and "\<forall>g \<in> set pre. \<exists>msg m packed pubkey. sd_tx S g = Inr [msg] \<and> sd_create_validator S msg = Some (m, packed)
      \<and> sd_unpack_any S packed = Inr pubkey"
    and "sd_tx S bad = Inr msgs" "\<forall>msg. msgs = [msg] \<longrightarrow> sd_create_validator S msg = None"
  shows "genesis_validators S doc = Inr []"
  using assms(1-3) parse_gentxs_bad [OF assms(4-6)] by (simp add: genesis_validators_def)

theorem gentx_error_is_swallowed_witness:
  "genesis_validators sample_sdk ''abcd'' = Inr []"
  by (rule gentx_error_is_swallowed [where app = "\<lparr>as_Staking = '''', as_Genutil = ''g''\<rparr>" and pre = "[''good'']"
        and bad = "''bad''" and post = "[]" and msgs = "[]"])
     (simp_all add: sample_sdk_def comet_env.defs)

end
