(* ===== verification/Returns.thy ===== *)
theory Returns
  imports Fetchers
begin

text \<open>
  When the calls of \<open>pkg/http\<close> and \<open>pkg/fetcher\<close> return. They can panic (\<open>join\<close> dereferences the result of
  \<open>url.Parse\<close> without looking at the error) and they can loop (over the pages of the validators and over the
  chunks of the genesis). What keeps them from it is stated of the code outside the repository only: of \<open>net/url\<close> and of
  the answers of the node.
\<close>

section \<open>Assumptions\<close>

text \<open>A reference made of a path of letters, digits, underscores and slashes, and a query of the characters
  that need no escape there. \<open>url.Parse\<close> accepts each of them.\<close>

definition alnum :: "char \<Rightarrow> bool" where
  "alnum c \<longleftrightarrow> (let n = of_char c :: nat in 48 \<le> n \<and> n \<le> 57 \<or> 65 \<le> n \<and> n \<le> 90 \<or> 97 \<le> n \<and> n \<le> 122)"

definition path_char :: "char \<Rightarrow> bool" where
  "path_char c \<longleftrightarrow> alnum c \<or> c \<in> set ''_/''"

definition query_char :: "char \<Rightarrow> bool" where
  "query_char c \<longleftrightarrow> alnum c \<or> c \<in> set ''-_.~+%=&''"

definition plain_reference :: "string \<Rightarrow> bool" where
  "plain_reference r \<longleftrightarrow> (\<exists>p q. list_all path_char p \<and> take 1 p \<noteq> ''/'' \<and> list_all query_char q
     \<and> (r = CHR ''/'' # p \<or> r = CHR ''/'' # p @ CHR ''?'' # q))"

text \<open>What a node of the network may answer: the result of a body that comes over the network.\<close>

definition node_result :: "('w, 'z) comet_env_scheme \<Rightarrow> bytes \<Rightarrow> bool" where
  "node_result C r \<longleftrightarrow> (\<exists>u w body w' bs resp. he_Do C u w = (Inr body, w') \<and> body_read body = Inr bs
     \<and> ce_envelope C bs = Inr resp \<and> rr_Error resp = None \<and> rr_Result resp = r)"

text \<open>The parser of \<open>net/url\<close> and the nodes: a page of \<open>/validators\<close> announces a total of type \<open>int\<close>,
  is empty only when there are no validators (a page out of range is an error), and voting powers are not negative.\<close>

definition node_ok :: "('w, 'z) comet_env_scheme \<Rightarrow> bool" where
  "node_ok C \<longleftrightarrow>
     (\<forall>r. plain_reference r \<longrightarrow> he_parse C r \<noteq> None)
   \<and> (\<forall>r rv. node_result C r \<and> ce_validators C r = Inr rv \<longrightarrow> rv_Total rv < 2 ^ 63
        \<and> (rv_Validators rv = [] \<longrightarrow> rv_Total rv \<le> 0) \<and> (\<forall>v \<in> set (rv_Validators rv). 0 \<le> cv_VotingPower v))
   \<and> (\<forall>r raw vs. node_result C r \<and> ce_dump C r = Inr (Some raw) \<and> ce_round_state C raw = Inr (Some vs) \<longrightarrow>
        (\<forall>v \<in> set vs. 0 \<le> cv_VotingPower v))"

text \<open>The URLs of the nodes that the shared state names.\<close>

definition urls_parse ::
    "('w, 'y) http_env_scheme \<Rightarrow> ('h, 'r, 'k, 'p, 'z) state_env_scheme \<Rightarrow> ('h, 'k, 'p) State \<Rightarrow> bool" where
  "urls_parse H E s \<longleftrightarrow> he_parse H (st_currentRPC s) \<noteq> None
     \<and> (\<forall>url rpc. KnownRPCByURL E s url = Some rpc \<longrightarrow> he_parse H (rpc_URL rpc) \<noteq> None)"

section \<open>The references of the clients\<close>

lemma reference_path: "list_all path_char p \<Longrightarrow> take 1 p \<noteq> ''/'' \<Longrightarrow> plain_reference (CHR ''/'' # p)"
  unfolding plain_reference_def by (intro exI [of _ p] exI [of _ "[]"]) simp

lemma reference_query:
  "list_all path_char p \<Longrightarrow> take 1 p \<noteq> ''/'' \<Longrightarrow> list_all query_char q \<Longrightarrow> plain_reference (CHR ''/'' # p @ CHR ''?'' # q)"
  by (auto simp: plain_reference_def)

lemma alnum_of: "48 \<le> n \<and> n \<le> 57 \<or> 65 \<le> n \<and> n \<le> 90 \<or> 97 \<le> n \<and> n \<le> 122 \<Longrightarrow> alnum (char_of (n :: nat))"
  by (auto simp: alnum_def Let_def)

lemma query_alnum: "alnum c \<Longrightarrow> query_char c"
  by (simp add: query_char_def)

lemma query_itoa: "list_all query_char (itoa i)"
proof -
  have "query_char c" if "c \<in> set (digits n)" for c n
    using digits_are_digits [OF that] by (auto simp: digit_char_def intro!: query_alnum alnum_of)
  then show ?thesis by (auto simp: list_all_iff itoa_def) (simp_all add: query_char_def)
qed

lemma query_hex: "list_all query_char (hex_encode upper bs)"
proof -
  have "query_char (hex_digit upper d)" if "d < 16" for d
    unfolding hex_digit_def using that by (intro query_alnum alnum_of) auto
  moreover have "of_char c div 16 < (16 :: nat)" for c using nat_of_char_less_256 [of c] by linarith
  ultimately show ?thesis by (auto simp: list_all_iff hex_encode_def)
qed

lemma query_escape: "list_all query_char (QueryEscape s)"
proof -
  have "list_all query_char (escape_char c)" for c
    using query_hex [of True "[c]"] by (auto simp: escape_char_def Let_def query_char_def alnum_def)
  then show ?thesis by (induction s) (auto simp: QueryEscape_def)
qed

lemma references:
  "plain_reference ''/consensus_state''" "plain_reference ''/dump_consensus_state''" "plain_reference ''/status''"
  "plain_reference ''/block''" "plain_reference ''/net_info''" "plain_reference ''/num_unconfirmed_txs''"
  "plain_reference ''/cosmos/upgrade/v1beta1/current_plan''"
  by (rule reference_path; simp add: path_char_def alnum_def)+

lemma references_query:
  "plain_reference (''/block?height='' @ itoa h)" "plain_reference (page_path page)"
  "plain_reference (''/genesis_chunked?chunk='' @ itoa chunk)"
  "plain_reference (''/abci_query?path='' @ QueryEscape m @ ''&data=0x'' @ hex_encode False bs)"
  "plain_reference ''/cosmos/staking/v1beta1/validators?status=BOND_STATUS_BONDED&pagination.limit=1000''"
  using reference_query [of "''block''" "''height='' @ itoa h"] reference_query [of "''validators''" "''page='' @ itoa page @ ''&per_page=100''"]
    reference_query [of "''genesis_chunked''" "''chunk='' @ itoa chunk"]
    reference_query [of "''abci_query''" "''path='' @ QueryEscape m @ ''&data=0x'' @ hex_encode False bs"]
    reference_query [of "''cosmos/staking/v1beta1/validators''" "''status=BOND_STATUS_BONDED&pagination.limit=1000''"]
    query_itoa query_escape query_hex
  by (simp_all add: path_char_def query_char_def alnum_def page_path_def)


section \<open>Returning\<close>

definition returns :: "'a option \<Rightarrow> bool" where
  "returns m \<longleftrightarrow> m \<noteq> None"

lemma returns_simps [simp]: "returns (Some x)" "\<not> returns None"
  by (simp_all add: returns_def)

lemma returnsE: "returns m \<Longrightarrow> (\<And>x w. m = Some (x, w) \<Longrightarrow> P) \<Longrightarrow> P"
  by (auto simp: returns_def)

lemma bind_returns [intro!]:
  "returns m \<Longrightarrow> (\<And>x w. m = Some (x, w) \<Longrightarrow> returns (f (x, w))) \<Longrightarrow> returns (Option.bind m f)"
  by (auto simp: returns_def)

lemma join_returns:
  assumes "node_ok C" "he_parse C host \<noteq> None" "plain_reference r"
  obtains u where "client_join C host r = Some u"
  using assms by (auto simp: node_ok_def client_join_def)

lemma GetPlain_returns:
  assumes "node_ok C" "he_parse C (cl_Host c) \<noteq> None" "plain_reference r"
  shows "returns (GetPlain C c r w)"
proof -
  obtain u where "client_join C (cl_Host c) r = Some u" using join_returns [OF assms] .
  then show ?thesis by (cases "he_Do C u w") (simp add: GetPlain_def GetInternal_def split: sum.split option.split)
qed

lemma client_Get_returns:
  assumes "node_ok C" "he_parse C (cl_Host c) \<noteq> None" "plain_reference r"
  shows "returns (client_Get C decode c r w)"
proof -
  obtain u where "client_join C (cl_Host c) r = Some u" using join_returns [OF assms] .
  then show ?thesis by (cases "he_Do C u w") (simp add: client_Get_def GetInternal_def split: sum.split)
qed

lemma GetPlain_body:
  assumes "GetPlain C c r w = Some (Inr bs, w')"
  shows "\<exists>u w0 body w1. he_Do C u w0 = (Inr body, w1) \<and> body_read body = Inr bs"
proof -
  obtain u where u: "client_join C (cl_Host c) r = Some u" using assms by (auto simp: GetPlain_def split: option.splits)
  obtain res w1 where d: "he_Do C u w = (res, w1)" by (cases "he_Do C u w")
  obtain body where "res = Inr body" "body_read body = Inr bs"
    using assms u d by (auto simp: GetPlain_def GetInternal_def split: option.splits sum.splits)
  with d show ?thesis by blast
qed

text \<open>A client whose endpoint parses: its requests return, with what the node answered.\<close>

definition endpoint_ok :: "('w, 'z) comet_env_scheme \<Rightarrow> 'w CometRPC \<Rightarrow> bool" where
  "endpoint_ok C rpc \<longleftrightarrow> (\<forall>w. he_parse C (rpc_getURL rpc w) \<noteq> None)"

lemma request_returns:
  assumes "node_ok C" "endpoint_ok C rpc" "plain_reference path"
  shows "returns (request C rpc path decode w)"
proof -
  have "he_parse C (cl_Host (rpc_client rpc w)) \<noteq> None"
    using assms(2) by (simp add: endpoint_ok_def rpc_client_def NewClient_def)
  from GetPlain_returns [OF assms(1) this assms(3)] show ?thesis
    by (auto simp: request_def Let_def split: sum.split option.split)
qed

lemma request_result:
  assumes "request C rpc path decode w = Some (Inr x, w')"
  shows "\<exists>r. node_result C r \<and> decode r = Inr x"
proof -
  obtain bs w1 resp where g: "GetPlain C (rpc_client rpc w) path w = Some (Inr bs, w1)" "ce_envelope C bs = Inr resp"
    "rr_Error resp = None" "decode (rr_Result resp) = Inr x"
    using assms by (auto simp: request_def Let_def elim!: io_bindE split: sum.splits option.splits)
  obtain u w0 body w2 where "he_Do C u w0 = (Inr body, w2)" "body_read body = Inr bs" using GetPlain_body [OF g(1)] by blast
  with g(2,3) have "node_result C (rr_Result resp)" unfolding node_result_def by blast
  with g(4) show ?thesis by blast
qed

subsection \<open>CometBFT\<close>

lemma dump_returns:
  assumes "node_ok C" "endpoint_ok C rpc"
  shows "\<exists>res w'. getValidatorsViaDumpConsensusState C rpc w = Some (res, w')
    \<and> (\<forall>vs. res = Inr vs \<longrightarrow> (\<forall>v \<in> set vs. 0 \<le> cv_VotingPower v))"
proof -
  obtain res w1 where r: "request C rpc ''/dump_consensus_state'' (ce_dump C) w = Some (res, w1)"
    using request_returns [OF assms references(2), of "ce_dump C" w] by (blast elim: returnsE)
  show ?thesis
  proof (cases "\<exists>raw vs. res = Inr (Some raw) \<and> ce_round_state C raw = Inr (Some vs)")
    case True
    then obtain raw vs where v: "res = Inr (Some raw)" "ce_round_state C raw = Inr (Some vs)" by blast
    obtain x where "node_result C x" "ce_dump C x = Inr (Some raw)" using request_result [OF r [unfolded v(1)]] by blast
    with v(2) assms(1) have "\<forall>v \<in> set vs. 0 \<le> cv_VotingPower v" unfolding node_ok_def by blast
    with r v show ?thesis by (simp add: getValidatorsViaDumpConsensusState_def)
  qed (auto simp: getValidatorsViaDumpConsensusState_def r split: sum.split option.split)
qed

text \<open>The loop over the pages ends because every page but the last adds a validator.\<close>

lemma validator_pages_returns:
  assumes "node_ok C" "endpoint_ok C rpc" "\<forall>v \<in> set acc. 0 \<le> cv_VotingPower v"
  shows "\<exists>res w'. validator_pages C rpc page acc w = Some (res, w') \<and> (\<forall>vs. res = Inr vs \<longrightarrow> (\<forall>v \<in> set vs. 0 \<le> cv_VotingPower v))"
  using assms(3)
proof (induction "nat (2 ^ 63 - int (length acc))" arbitrary: page acc w rule: less_induct)
  case less
  obtain res w1 where r: "getValidatorsAtPage C rpc page w = Some (res, w1)"
    using request_returns [OF assms(1,2) references_query(2), of page "ce_validators C" w] unfolding getValidatorsAtPage_def
    by (blast elim: returnsE)
  show ?case
  proof (cases res)
    case (Inl err)
    then show ?thesis using dump_returns [OF assms(1,2), of w1]
      by (subst validator_pages.simps) (simp add: r)
  next
    case (Inr rv)
    obtain x where "node_result C x" "ce_validators C x = Inr rv"
      using request_result [OF r [unfolded Inr getValidatorsAtPage_def]] by blast
    then have rv: "rv_Total rv < 2 ^ 63" "rv_Validators rv = [] \<longrightarrow> rv_Total rv \<le> 0" "\<forall>v \<in> set (rv_Validators rv). 0 \<le> cv_VotingPower v"
      using assms(1) unfolding node_ok_def by blast+
    let ?all = "acc @ rv_Validators rv"
    have all: "\<forall>v \<in> set ?all. 0 \<le> cv_VotingPower v" using less.prems rv(3) by auto
    show ?thesis
    proof (cases "int (length ?all) \<ge> rv_Total rv")
      case True
      then show ?thesis using all by (subst validator_pages.simps) (simp only: r Inr Let_def, simp)
    next
      case False
      have "rv_Validators rv \<noteq> []" using False rv(2) by force
      then have "length acc < length ?all" "int (length ?all) < 2 ^ 63" using False rv(1) by simp_all
      then have "nat (2 ^ 63 - int (length ?all)) < nat (2 ^ 63 - int (length acc))" by linarith
      from less.hyps [OF this all, of "page + 1" w1] False show ?thesis
        by (subst validator_pages.simps) (simp only: r Inr Let_def, simp)
    qed
  qed
qed

lemma rpc_GetValidators_returns:
  assumes "node_ok C" "endpoint_ok C rpc"
  shows "\<exists>res w'. rpc_GetValidators C rpc w = Some (res, w') \<and> (\<forall>vs. res = Inr vs \<longrightarrow> (\<forall>v \<in> set vs. 0 \<le> cv_VotingPower v))"
  using validator_pages_returns [OF assms, of "[]" 1 w] by (simp add: rpc_GetValidators_def)

lemma comet_returns:
  assumes "node_ok C" "endpoint_ok C rpc"
  shows "returns (GetConsensusState C rpc w)" "returns (GetCometNodeStatus C rpc w)" "returns (rpc_Block C rpc h w)"
    "returns (rpc_GetNetInfo C rpc w)" "returns (GetNumUnconfirmedTxs C rpc w)" "returns (rpc_GetBlockTime C rpc w)"
proof -
  note returns = request_returns [OF assms]
  show "returns (GetConsensusState C rpc w)"
    unfolding GetConsensusState_def by (rule bind_returns [OF returns [OF references(1)]]) (auto split: sum.split)
  show "returns (GetCometNodeStatus C rpc w)"
    unfolding GetCometNodeStatus_def by (rule returns [OF references(3)])
  show "returns (rpc_GetNetInfo C rpc w)"
    unfolding rpc_GetNetInfo_def by (rule returns [OF references(5)])
  show "returns (GetNumUnconfirmedTxs C rpc w)"
    unfolding GetNumUnconfirmedTxs_def by (rule bind_returns [OF returns [OF references(6)]]) (auto split: sum.split prod.split)
  have block: "returns (rpc_Block C rpc h w)" for h w
    unfolding rpc_Block_def Let_def
    by (rule returns) (use references(4) references_query(1) [of h] in \<open>cases "h = 0"; simp\<close>)
  then show "returns (rpc_Block C rpc h w)" .
  show "returns (rpc_GetBlockTime C rpc w)"
    unfolding rpc_GetBlockTime_def Let_def by (rule bind_returns [OF block]) (auto intro: block split: sum.split option.split)
qed

subsection \<open>Cosmos\<close>

lemma abciQuery_returns:
  assumes "node_ok S" "he_parse S (cl_Host c) \<noteq> None"
  shows "returns (abciQuery S meth message output c w)"
proof (cases message)
  case (Inr bs)
  have "abciQuery S meth message output c w = Option.bind (client_Get S (sd_abci_response S) c
      (''/abci_query?path='' @ QueryEscape ([CHR 0x22] @ meth @ [CHR 0x22]) @ ''&data=0x'' @ hex_encode False bs) w) (\<lambda>(res, w).
                case res of
                  Inl err \<Rightarrow> Some (Inl (''abci query '' @ meth @ '': '' @ err), w)
                | Inr response \<Rightarrow>
                    (if abci_Code response \<noteq> 0 then
                       Some (Inl (''abci query '' @ meth @ '': code '' @ itoa (abci_Code response) @ '': '' @
                         abci_Log response), w)
                     else
                       case output (abci_Value response) of
                         Inl err \<Rightarrow> Some (Inl (''unmarshalling abci response for '' @ meth @ '': '' @ err), w)
                       | Inr x \<Rightarrow> Some (Inr x, w)))"
    by (simp only: abciQuery_def Inr sum.case Let_def)
  then show ?thesis
    by (simp only:) (rule bind_returns [OF client_Get_returns [OF assms references_query(4)]], simp split: sum.split)
qed (simp add: abciQuery_def)

lemma getGenesisChunk_returns:
  assumes "node_ok S" "\<And>w. he_parse S (cr_getURL f w) \<noteq> None"
  shows "returns (getGenesisChunk S f chunk w)"
proof -
  have "he_parse S (cl_Host (cosmos_client f w)) \<noteq> None" using assms(2) by (simp add: cosmos_client_def NewClient_def)
  from client_Get_returns [OF assms(1) this references_query(3)] show ?thesis
    unfolding getGenesisChunk_def by (rule bind_returns) (simp split: sum.split option.split prod.split)
qed

text \<open>The loop over the chunks ends whatever the node announces: the counter reaches the largest \<open>int64\<close>.\<close>

lemma i64_less: "i64 x < 2 ^ 63"
  by (simp add: i64_def)

lemma genesis_loop_returns:
  assumes "node_ok S" "\<And>w. he_parse S (cr_getURL f w) \<noteq> None" "chunk < 2 ^ 63" "- (2 ^ 63) \<le> chunk"
  shows "returns (genesis_loop S f chunk acc w)"
  using assms(3,4)
proof (induction "nat (2 ^ 63 - chunk)" arbitrary: chunk acc w rule: less_induct)
  case less
  obtain res w1 where r: "getGenesisChunk S f chunk w = Some (res, w1)"
    using getGenesisChunk_returns [where f = f and chunk = chunk and w = w, OF assms(1,2)] by (blast elim: returnsE)
  show ?case
  proof (cases "\<exists>bs total. res = Inr (bs, total) \<and> \<not> i64 (total - 1) \<le> chunk")
    case True
    then obtain bs total where t: "res = Inr (bs, total)" "\<not> i64 (total - 1) \<le> chunk" by blast
    have "chunk + 1 < 2 ^ 63" using t(2) i64_less [of "total - 1"] by linarith
    moreover from this less.prems have n: "i64 (chunk + 1) = chunk + 1" by (simp add: i64_id in_i64_def)
    ultimately have "nat (2 ^ 63 - i64 (chunk + 1)) < nat (2 ^ 63 - chunk)" "i64 (chunk + 1) < 2 ^ 63" "- (2 ^ 63) \<le> i64 (chunk + 1)"
      using less.prems by simp_all
    from less.hyps [OF this, of "acc @ [bs]" w1] t show ?thesis
      by (subst genesis_loop.simps) (simp add: r Let_def)
  next
    case False
    then show ?thesis by (subst genesis_loop.simps) (auto simp: r Let_def split: sum.split)
  qed
qed

lemma getGenesisValidators_returns:
  assumes "node_ok S" "\<And>w. he_parse S (cr_getURL f w) \<noteq> None"
  shows "returns (getGenesisValidators S f w)"
  using genesis_loop_returns [where f = f and chunk = 0 and acc = "[]" and w = w, OF assms]
  by (auto simp: getGenesisValidators_def split: sum.split)

lemma cosmos_GetValidators_returns:
  assumes "node_ok S" "\<And>w. he_parse S (cr_getURL f w) \<noteq> None" "he_parse S (cl_Host (cr_providerClient f)) \<noteq> None"
  shows "returns (cosmos_GetValidators S f w)"
proof -
  have "he_parse S (cl_Host (getProviderOrConsumerClient f w)) \<noteq> None"
    using assms(2,3) by (simp add: getProviderOrConsumerClient_def cosmos_client_def NewClient_def)
  note query = abciQuery_returns [OF assms(1) this] abciQuery_returns [OF assms(1,3)]
  show ?thesis
    unfolding cosmos_GetValidators_def
    by (rule bind_returns [OF query(1)])
       (auto intro!: query(2) getGenesisValidators_returns [OF assms(1,2)] split: sum.split)
qed

lemma lcd_returns:
  assumes "node_ok S" "he_parse S (cl_Host c) \<noteq> None"
  shows "returns (lcd_GetValidators S c w)" "returns (lcd_GetUpgradePlan S c w)"
  unfolding lcd_GetValidators_def lcd_GetUpgradePlan_def
  by (rule bind_returns [OF GetPlain_returns [OF assms references_query(5)]], simp split: sum.split)
     (rule client_Get_returns [OF assms references(7)])

subsection \<open>The fetcher\<close>

text \<open>What the fetcher of a configuration needs: the nodes, and that the hosts it may ask parse.\<close>

definition hosts_parse :: "('w, 'y) http_env_scheme \<Rightarrow> 'tz Config \<Rightarrow> bool" where
  "hosts_parse H config \<longleftrightarrow> he_parse H (cfg_LCDHost config) \<noteq> None \<and> he_parse H (cfg_ProviderRPCHost config) \<noteq> None"

lemma urls_parse_current:
  "urls_parse H E s \<Longrightarrow> he_parse H (rpc_URL (CurrentRPC E s)) \<noteq> None"
  by (simp add: urls_parse_def CurrentRPC_def KnownRPCByURL_def split: option.split)

lemma fetcher_source_returns:
  fixes S :: "('w, 'v, 'm, 'kk) sdk_env" and E :: "('h, 'r, 'k, 'p, 'z) state_env_scheme" and config :: "'tz Config"
  assumes "node_ok S" "hosts_parse S config" "urls_parse S E s"
  defines "f \<equiv> NewDataFetcher S E config (\<lambda>_. s)"
  shows "returns (cf_GetValidators (df_cosmosFetcher f) w)" "returns (cf_GetUpgradePlan (df_cosmosFetcher f) w)"
proof -
  let ?rpc = "newCosmosRPCDataFetcher config (\<lambda>_ :: 'w. rpc_URL (CurrentRPC E s))"
  have url: "he_parse S (cr_getURL ?rpc w) \<noteq> None" "he_parse S (cl_Host (cr_providerClient ?rpc)) \<noteq> None"
    "he_parse S (cl_Host (cosmos_client ?rpc w)) \<noteq> None" "he_parse S (cl_Host (NewCosmosLCDDataFetcher config)) \<noteq> None" for w
    using assms(2) urls_parse_current [OF assms(3)]
    by (simp_all add: newCosmosRPCDataFetcher_def cosmos_client_def NewClient_def hosts_parse_def NewCosmosLCDDataFetcher_def)
  show "returns (cf_GetValidators (df_cosmosFetcher f) w)"
    using lcd_returns(1) [OF assms(1) url(4), of w] cosmos_GetValidators_returns [OF assms(1) url(1,2), of w]
    by (simp add: f_def NewDataFetcher_def Let_def newNoopDataFetcher_def)
  show "returns (cf_GetUpgradePlan (df_cosmosFetcher f) w)"
    using lcd_returns(2) [OF assms(1) url(4), of w]
    by (simp add: f_def NewDataFetcher_def Let_def newNoopDataFetcher_def cosmos_GetUpgradePlan_def)
       (intro impI abciQuery_returns [OF assms(1) url(3)])
qed

lemma merge_well_formed:
  "\<forall>c \<in> set cs. 0 \<le> cv_VotingPower c \<Longrightarrow> well_formed_validators (merge_validators cs vs)"
  by (auto simp: well_formed_validators_def merge_validators_def merge_validator_def in_set_enumerate_eq)

lemma fetcher_returns:
  assumes "node_ok S" "hosts_parse S config" "urls_parse S E s"
  defines "f \<equiv> NewDataFetcher S E config (\<lambda>_. s)"
  shows "returns (fetch_GetConsensusState S f w)"
    "\<exists>res w'. fetch_GetValidators S f w = Some (res, w') \<and> (\<forall>vals. res = Inr vals \<longrightarrow> well_formed_validators vals)"
    "he_parse S url \<noteq> None \<Longrightarrow> returns (fetch_GetCometNodeStatus S f url w)" "returns (fetch_GetUpgradePlan f w)"
    "returns (fetch_GetBlockTime S f w)" "returns (fetch_GetNumUnconfirmedTxs S f w)"
    "he_parse S url \<noteq> None \<Longrightarrow> returns (fetch_GetNetInfo S f url w)"
proof -
  have ep: "endpoint_ok S (df_cometFetcher f)"
    using urls_parse_current [OF assms(3)] by (simp add: f_def NewDataFetcher_def Let_def endpoint_ok_def NewCometRPC_def)
  have at: "endpoint_ok S (WithEndpoint url (df_cometFetcher f))" if "he_parse S url \<noteq> None"
    using that by (simp add: endpoint_ok_def WithEndpoint_def)
  note comet = comet_returns [OF assms(1) ep] and source = fetcher_source_returns [OF assms(1-3), folded f_def]
  show "returns (fetch_GetConsensusState S f w)" "returns (fetch_GetBlockTime S f w)"
    "returns (fetch_GetNumUnconfirmedTxs S f w)" "returns (fetch_GetUpgradePlan f w)"
    using comet source by (simp_all add: fetch_GetConsensusState_def fetch_GetBlockTime_def fetch_GetNumUnconfirmedTxs_def fetch_GetUpgradePlan_def)
  show "returns (fetch_GetCometNodeStatus S f url w)" "returns (fetch_GetNetInfo S f url w)" if "he_parse S url \<noteq> None"
    using comet_returns [OF assms(1) at [OF that]] by (simp_all add: fetch_GetCometNodeStatus_def fetch_GetNetInfo_def)
  obtain res w1 where 1: "rpc_GetValidators S (df_cometFetcher f) w = Some (res, w1)" "\<forall>vs. res = Inr vs \<longrightarrow> (\<forall>v \<in> set vs. 0 \<le> cv_VotingPower v)"
    using rpc_GetValidators_returns [OF assms(1) ep] by blast
  obtain res2 w2 where 2: "cf_GetValidators (df_cosmosFetcher f) w1 = Some (res2, w2)" using source(1) [of w1] by (blast elim: returnsE)
  show "\<exists>res w'. fetch_GetValidators S f w = Some (res, w') \<and> (\<forall>vals. res = Inr vals \<longrightarrow> well_formed_validators vals)"
    using 1 2 merge_well_formed by (cases res; cases res2) (auto simp: fetch_GetValidators_def)
qed

end
