(* ===== verification/Observe.thy ===== *)
theory Observe
  imports State
begin

text \<open>
  The stateful half of \<open>pkg/metrics\<close>: \<open>builder.go\<close>'s \<open>Builder\<close> with what it remembers
  between two snapshots, and the event observers of \<open>equivocation.go\<close> and \<open>steptiming.go\<close>. The
  clock (\<open>b.now\<close>) is an argument: handling one event reads it at most once. \<open>hash_str\<close> is
  CometBFT's rendering of a block hash. The dependencies \<open>analytics\<close> and \<open>asn\<close> never change after
  construction and are arguments of the enrichers. The mutex makes every operation atomic.
\<close>

section \<open>Data\<close>

record durSamples =
  ds_total :: duration
  ds_count :: int

record stepAccumulator =
  lastStep :: string
  lastAt :: instant
  propose :: durSamples
  prevote :: durSamples
  precommit :: durSamples

record equivState =
  seen :: "int \<rightharpoonup> (string \<rightharpoonup> string)"
  eq_events :: "EquivocationEvent list"

record Builder =
  windowBlocks :: int
  lastHeight :: int
  lastHeightChangeAt :: instant
  blockIntervals :: "duration list"
  maxRoundPerHeight :: "int list"
  curHeightMaxRound :: int
  b_step :: stepAccumulator
  b_equiv :: equivState

definition maxEquivEvents :: nat where "maxEquivEvents = 256"
definition defaultEvictionWindow :: int where "defaultEvictionWindow = 500"
definition ringCapacity :: nat where "ringCapacity = 200"

section \<open>Operations\<close>

subsection \<open>Construction\<close>

definition newEquivState :: equivState where
  "newEquivState = \<lparr>seen = Map.empty, eq_events = []\<rparr>"

definition newStepAccumulator :: stepAccumulator where
  "newStepAccumulator =
     \<lparr>lastStep = '''', lastAt = 0, propose = \<lparr>ds_total = 0, ds_count = 0\<rparr>,
      prevote = \<lparr>ds_total = 0, ds_count = 0\<rparr>, precommit = \<lparr>ds_total = 0, ds_count = 0\<rparr>\<rparr>"

definition NewBuilder :: "int \<Rightarrow> Builder" where
  "NewBuilder window =
     \<lparr>windowBlocks = window, lastHeight = 0, lastHeightChangeAt = 0, blockIntervals = [],
      maxRoundPerHeight = [], curHeightMaxRound = 0, b_step = newStepAccumulator,
      b_equiv = newEquivState\<rparr>"

subsection \<open>Equivocation\<close>

definition slotKey :: "address \<Rightarrow> int \<Rightarrow> SignedMsgType \<Rightarrow> string" where
  "slotKey addr r vt = addr @ ''|'' @ itoa r @ ''|'' @ itoa vt"

definition voteTypeName :: "SignedMsgType \<Rightarrow> string" where
  "voteTypeName t = (if t = PrecommitType then ''precommit'' else ''prevote'')"

text \<open>Keep the last \<open>n\<close> elements.\<close>

definition last_n :: "nat \<Rightarrow> 'a list \<Rightarrow> 'a list" where
  "last_n n xs = (if length xs > n then drop (length xs - n) xs else xs)"

definition observe_vote :: "(bytes \<Rightarrow> string) \<Rightarrow> int \<Rightarrow> equivState \<Rightarrow> Vote \<Rightarrow> instant \<Rightarrow> equivState" where
  "observe_vote hash_str window s v now =
     (if bid_Hash (vote_BlockID v) = [] then s
      else
        let blockIDHex = hash_str (bid_Hash (vote_BlockID v));
            height = vote_Height v;
            sk = slotKey (vote_ValidatorAddress v) (vote_Round v) (vote_Type v);
            bucket = (case seen s height of None \<Rightarrow> Map.empty | Some bucket \<Rightarrow> bucket);
            s = s\<lparr>seen := (seen s)(height \<mapsto> bucket)\<rparr>;
            s = (case bucket sk of
                   None \<Rightarrow> s\<lparr>seen := (seen s)(height \<mapsto> bucket(sk \<mapsto> blockIDHex))\<rparr>
                 | Some prev \<Rightarrow>
                     (if prev \<noteq> blockIDHex then
                        s\<lparr>eq_events := last_n maxEquivEvents (eq_events s @
                          [\<lparr>ev_ValidatorAddress = vote_ValidatorAddress v, ev_Moniker = '''',
                            ev_Height = height, ev_Round = vote_Round v,
                            ev_VoteType = voteTypeName (vote_Type v), ev_BlockIDA = prev,
                            ev_BlockIDB = blockIDHex, ev_DetectedAt = now\<rparr>])\<rparr>
                      else s));
            window = (if window \<le> 0 then defaultEvictionWindow else window);
            cutoff = i64 (height - window)
        in s\<lparr>seen := (\<lambda>h. if h < cutoff then None else seen s h)\<rparr>)"

definition observeForEquivocation :: "(bytes \<Rightarrow> string) \<Rightarrow> Builder \<Rightarrow> TMEventData \<Rightarrow> instant \<Rightarrow> Builder" where
  "observeForEquivocation hash_str b e now =
     (case e of
        EventDataVote (Some v) \<Rightarrow>
          b\<lparr>b_equiv := observe_vote hash_str (windowBlocks b) (b_equiv b) v now\<rparr>
      | _ \<Rightarrow> b)"

definition enrichEquivocations :: "NetworkHealth \<Rightarrow> Builder \<Rightarrow> NetworkHealth" where
  "enrichEquivocations nh b = nh\<lparr>Equivocations := [] @ eq_events (b_equiv b)\<rparr>"

definition enrichEquivocationFlags :: "ValidatorHealthRow list \<Rightarrow> Builder \<Rightarrow> ValidatorHealthRow list" where
  "enrichEquivocationFlags rows b =
     (if eq_events (b_equiv b) = [] then rows
      else
        let flagged = ev_ValidatorAddress ` set (eq_events (b_equiv b))
        in map (\<lambda>row. if vh_Address row \<in> flagged then row\<lparr>vh_Equivocated := True\<rparr> else row) rows)"

subsection \<open>Step timing\<close>

definition durSamples_add :: "durSamples \<Rightarrow> duration \<Rightarrow> durSamples" where
  "durSamples_add d v = \<lparr>ds_total = i64 (ds_total d + v), ds_count = ds_count d + 1\<rparr>"

definition durSamples_avg :: "durSamples \<Rightarrow> duration" where
  "durSamples_avg d = (if ds_count d = 0 then 0 else go_div (ds_total d) (ds_count d))"

definition observe_step :: "stepAccumulator \<Rightarrow> string \<Rightarrow> instant \<Rightarrow> stepAccumulator" where
  "observe_step a step now =
     (let a = (if lastStep a \<noteq> '''' \<and> \<not> time_is_zero (lastAt a) then
                 let dur = time_sub now (lastAt a)
                 in if lastStep a = ''RoundStepPropose'' then a\<lparr>propose := durSamples_add (propose a) dur\<rparr>
                    else if lastStep a = ''RoundStepPrevote'' \<or> lastStep a = ''RoundStepPrevoteWait''
                    then a\<lparr>prevote := durSamples_add (prevote a) dur\<rparr>
                    else if lastStep a = ''RoundStepPrecommit'' \<or> lastStep a = ''RoundStepPrecommitWait''
                    then a\<lparr>precommit := durSamples_add (precommit a) dur\<rparr>
                    else a
               else a)
      in a\<lparr>lastStep := step, lastAt := now\<rparr>)"

definition observeForStepTiming :: "Builder \<Rightarrow> TMEventData \<Rightarrow> instant \<Rightarrow> Builder" where
  "observeForStepTiming b e now =
     (case e of
        EventDataRoundState step \<Rightarrow> b\<lparr>b_step := observe_step (b_step b) step now\<rparr>
      | _ \<Rightarrow> b)"

definition enrichStepTiming :: "NetworkHealth \<Rightarrow> Builder \<Rightarrow> NetworkHealth" where
  "enrichStepTiming nh b =
     nh\<lparr>AvgProposeTime := durSamples_avg (propose (b_step b)),
        AvgPrevoteTime := durSamples_avg (prevote (b_step b)),
        AvgPrecommitTime := durSamples_avg (precommit (b_step b)),
        StepTimingSample := ds_count (precommit (b_step b))\<rparr>"

subsection \<open>Event batches and heights\<close>

definition ObserveEvents :: "(bytes \<Rightarrow> string) \<Rightarrow> (TMEventData \<times> instant) list \<Rightarrow> Builder \<Rightarrow> Builder" where
  "ObserveEvents hash_str events b =
     foldl (\<lambda>b (e, now). observeForStepTiming (observeForEquivocation hash_str b e now) e now) b events"

definition appendRing :: "'a list \<Rightarrow> 'a \<Rightarrow> 'a list" where
  "appendRing s v = last_n ringCapacity (s @ [v])"

definition observe :: "int \<Rightarrow> int \<Rightarrow> instant \<Rightarrow> Builder \<Rightarrow> Builder" where
  "observe height rnd now b =
     (if height = lastHeight b then
        (if i32 rnd > curHeightMaxRound b then b\<lparr>curHeightMaxRound := i32 rnd\<rparr> else b)
      else
        let b = (if lastHeight b \<noteq> 0 \<and> height > lastHeight b then
                   let b = (if \<not> time_is_zero (lastHeightChangeAt b)
                            then b\<lparr>blockIntervals :=
                              appendRing (blockIntervals b) (time_sub now (lastHeightChangeAt b))\<rparr>
                            else b)
                   in b\<lparr>maxRoundPerHeight := appendRing (maxRoundPerHeight b) (curHeightMaxRound b)\<rparr>
                 else b)
        in b\<lparr>lastHeight := height, lastHeightChangeAt := now, curHeightMaxRound := i32 rnd\<rparr>)"

section \<open>Specification\<close>

definition votes_of :: "(TMEventData \<times> instant) list \<Rightarrow> Vote set" where
  "votes_of es = {v. \<exists>t. (EventDataVote (Some v), t) \<in> set es}"

text \<open>\<open>evidence\<close>: the recorded hash of a slot, or an event, is justified by observed votes.\<close>

definition slot_justified :: "(bytes \<Rightarrow> string) \<Rightarrow> Vote set \<Rightarrow> int \<Rightarrow> string \<Rightarrow> string \<Rightarrow> bool" where
  "slot_justified hash_str V h sk x \<longleftrightarrow>
     (\<exists>v \<in> V. vote_Height v = h \<and> sk = slotKey (vote_ValidatorAddress v) (vote_Round v) (vote_Type v)
        \<and> bid_Hash (vote_BlockID v) \<noteq> [] \<and> x = hash_str (bid_Hash (vote_BlockID v)))"

definition event_justified :: "(bytes \<Rightarrow> string) \<Rightarrow> Vote set \<Rightarrow> EquivocationEvent \<Rightarrow> bool" where
  "event_justified hash_str V e \<longleftrightarrow>
     (\<exists>v \<in> V. \<exists>w \<in> V.
        vote_ValidatorAddress v = ev_ValidatorAddress e \<and> vote_ValidatorAddress w = ev_ValidatorAddress e
        \<and> vote_Height v = ev_Height e \<and> vote_Height w = ev_Height e
        \<and> vote_Round v = ev_Round e \<and> vote_Round w = ev_Round e
        \<and> vote_Type v = vote_Type w \<and> voteTypeName (vote_Type v) = ev_VoteType e
        \<and> bid_Hash (vote_BlockID v) \<noteq> [] \<and> bid_Hash (vote_BlockID w) \<noteq> []
        \<and> hash_str (bid_Hash (vote_BlockID v)) = ev_BlockIDA e
        \<and> hash_str (bid_Hash (vote_BlockID w)) = ev_BlockIDB e
        \<and> ev_BlockIDA e \<noteq> ev_BlockIDB e)"

definition equiv_justified :: "(bytes \<Rightarrow> string) \<Rightarrow> Vote set \<Rightarrow> equivState \<Rightarrow> bool" where
  "equiv_justified hash_str V s \<longleftrightarrow>
     (\<forall>h bk sk x. seen s h = Some bk \<longrightarrow> bk sk = Some x \<longrightarrow> slot_justified hash_str V h sk x)
     \<and> (\<forall>e \<in> set (eq_events s). event_justified hash_str V e)"

text \<open>What one observed vote does to the recorded slots and to the events.\<close>

definition slot_of :: "equivState \<Rightarrow> int \<Rightarrow> string \<Rightarrow> string option" where
  "slot_of s h sk = Option.bind (seen s h) (\<lambda>bk. bk sk)"

definition eff_window :: "int \<Rightarrow> int" where
  "eff_window w = (if w \<le> 0 then defaultEvictionWindow else w)"

definition conflict_event :: "Vote \<Rightarrow> string \<Rightarrow> string \<Rightarrow> instant \<Rightarrow> EquivocationEvent" where
  "conflict_event v a b now =
     \<lparr>ev_ValidatorAddress = vote_ValidatorAddress v, ev_Moniker = '''', ev_Height = vote_Height v,
      ev_Round = vote_Round v, ev_VoteType = voteTypeName (vote_Type v), ev_BlockIDA = a,
      ev_BlockIDB = b, ev_DetectedAt = now\<rparr>"

definition last_report :: "Builder \<Rightarrow> EquivocationEvent \<Rightarrow> bool" where
  "last_report b e \<longleftrightarrow> eq_events (b_equiv b) \<noteq> [] \<and> last (eq_events (b_equiv b)) = e"

text \<open>All the time attributed to a step lies between the instant \<open>start\<close> of the first round state
  event and the last one.\<close>

definition step_accounted :: "instant \<Rightarrow> stepAccumulator \<Rightarrow> bool" where
  "step_accounted start a \<longleftrightarrow>
     0 \<le> ds_total (propose a) \<and> 0 \<le> ds_total (prevote a) \<and> 0 \<le> ds_total (precommit a)
     \<and> 0 \<le> ds_count (propose a) \<and> 0 \<le> ds_count (prevote a) \<and> 0 \<le> ds_count (precommit a)
     \<and> (if lastAt a = 0
        then ds_total (propose a) + ds_total (prevote a) + ds_total (precommit a) = 0
        else start \<le> lastAt a
          \<and> ds_total (propose a) + ds_total (prevote a) + ds_total (precommit a) \<le> lastAt a - start)"

text \<open>The timestamps of an event log never go back and stay within 292 years of its start.\<close>

definition clocked :: "instant \<Rightarrow> (TMEventData \<times> instant) list \<Rightarrow> bool" where
  "clocked start es \<longleftrightarrow>
     sorted (map snd es) \<and> (\<forall>(e, t) \<in> set es. start \<le> t \<and> t - start < 2 ^ 63)"

text \<open>A height as observed: first with round \<open>r0\<close> at time \<open>t\<close>, then with the rounds \<open>rs\<close>.\<close>

definition observe_height :: "Builder \<Rightarrow> int \<times> int \<times> instant \<times> int list \<Rightarrow> Builder" where
  "observe_height b = (\<lambda>(h, r0, t, rs). foldl (\<lambda>b r. observe h r t b) (observe h r0 t b) rs)"

definition peak_round :: "int \<times> int \<times> instant \<times> int list \<Rightarrow> int" where
  "peak_round = (\<lambda>(h, r0, t, rs). foldl max (i32 r0) (map i32 rs))"

fun intervals :: "instant list \<Rightarrow> duration list" where
  "intervals (s # t # ts) = time_sub t s # intervals (t # ts)"
| "intervals _ = []"

text \<open>The vote of the witnesses.\<close>

definition sample_vote :: "int \<Rightarrow> bytes \<Rightarrow> TMEventData" where
  "sample_vote h hash =
     EventDataVote (Some \<lparr>vote_Height = h, vote_Round = 0, vote_ValidatorAddress = ''A'',
       vote_Type = PrevoteType, vote_BlockID = zero_BlockID\<lparr>bid_Hash := hash\<rparr>\<rparr>)"

section \<open>Lemmas\<close>

lemma last_n_length: "length (last_n n xs) \<le> n"
  by (simp add: last_n_def)

lemma last_n_snoc: "0 < n \<Longrightarrow> last_n n (xs @ [x]) \<noteq> [] \<and> last (last_n n (xs @ [x])) = x"
  by (auto simp: last_n_def add.commute)

lemma last_n_subset: "set (last_n n xs) \<subseteq> set xs"
  by (auto simp: last_n_def dest: in_set_dropD)

lemma last_n_last_n: "last_n n (last_n n xs @ ys) = last_n n (xs @ ys)"
  by (auto simp: last_n_def add.commute)

text \<open>The key of a slot determines the slot: round and type contain no separator.\<close>

lemma slotKey_inj:
  assumes "slotKey a r t = slotKey a' r' t'"
  shows "a = a' \<and> r = r' \<and> t = t'"
proof -
  have n: "CHR ''|'' \<notin> set (rev (itoa x))" for x by (simp add: sep_notin_itoa)
  from assms have "rev (itoa t) @ CHR ''|'' # (rev (itoa r) @ CHR ''|'' # rev a) =
      rev (itoa t') @ CHR ''|'' # (rev (itoa r') @ CHR ''|'' # rev a')"
    by (simp add: slotKey_def) (metis append.assoc append_Cons append_Nil rev.simps(2) rev_append rev_rev_ident)
  from sep_append_inj [OF n n this]
  have t: "itoa t = itoa t'" and rest: "rev (itoa r) @ CHR ''|'' # rev a = rev (itoa r') @ CHR ''|'' # rev a'"
    by simp_all
  from sep_append_inj [OF n n rest] t show ?thesis by (auto dest: itoa_inj)
qed

subsection \<open>Equivocation\<close>

lemma slot_justified_mono: "slot_justified f V h sk x \<Longrightarrow> V \<subseteq> W \<Longrightarrow> slot_justified f W h sk x"
  by (auto simp: slot_justified_def)

lemma event_justified_mono: "event_justified f V e \<Longrightarrow> V \<subseteq> W \<Longrightarrow> event_justified f W e"
  unfolding event_justified_def by blast

lemma equiv_justified_mono: "equiv_justified f V s \<Longrightarrow> V \<subseteq> W \<Longrightarrow> equiv_justified f W s"
  unfolding equiv_justified_def using slot_justified_mono event_justified_mono by blast

lemma observe_vote_nil: "bid_Hash (vote_BlockID v) = [] \<Longrightarrow> observe_vote f w s v now = s"
  by (simp add: observe_vote_def)

lemma observe_vote_events:
  assumes "bid_Hash (vote_BlockID v) \<noteq> []"
  shows "eq_events (observe_vote f w s v now) =
    (case slot_of s (vote_Height v) (slotKey (vote_ValidatorAddress v) (vote_Round v) (vote_Type v)) of
       None \<Rightarrow> eq_events s
     | Some a \<Rightarrow> (if a \<noteq> f (bid_Hash (vote_BlockID v))
         then last_n maxEquivEvents (eq_events s @ [conflict_event v a (f (bid_Hash (vote_BlockID v))) now])
         else eq_events s))"
  using assms
  by (simp add: observe_vote_def slot_of_def conflict_event_def Let_def split: option.split)

lemma observe_vote_slots:
  assumes "bid_Hash (vote_BlockID v) \<noteq> []"
  shows "slot_of (observe_vote f w s v now) h sk =
    (if h < i64 (vote_Height v - eff_window w) then None
     else case slot_of s h sk of
       Some a \<Rightarrow> Some a
     | None \<Rightarrow>
         if h = vote_Height v \<and> sk = slotKey (vote_ValidatorAddress v) (vote_Round v) (vote_Type v)
         then Some (f (bid_Hash (vote_BlockID v))) else None)"
  using assms
  by (auto simp: observe_vote_def slot_of_def eff_window_def Let_def split: option.split)

lemma observe_vote_seen_dom:
  assumes "bid_Hash (vote_BlockID v) \<noteq> []" "seen (observe_vote f w s v now) h \<noteq> None"
  shows "i64 (vote_Height v - eff_window w) \<le> h \<and> (h = vote_Height v \<or> seen s h \<noteq> None)"
  using assms
  by (auto simp: observe_vote_def eff_window_def Let_def split: option.splits if_splits)

lemma equiv_justified_slot:
  "equiv_justified f V s \<longleftrightarrow>
   (\<forall>h sk x. slot_of s h sk = Some x \<longrightarrow> slot_justified f V h sk x)
   \<and> (\<forall>e \<in> set (eq_events s). event_justified f V e)"
  by (auto simp: equiv_justified_def slot_of_def bind_eq_Some_conv)

lemma observe_vote_justified:
  assumes J: "equiv_justified f V s" and v: "v \<in> V"
  shows "equiv_justified f V (observe_vote f w s v now)"
proof (cases "bid_Hash (vote_BlockID v) = []")
  case False
  let ?s' = "observe_vote f w s v now"
  let ?sk = "slotKey (vote_ValidatorAddress v) (vote_Round v) (vote_Type v)"
  have "slot_justified f V h sk x" if "slot_of ?s' h sk = Some x" for h sk x
    using that J v False
    by (auto simp: observe_vote_slots [OF False] equiv_justified_slot slot_justified_def
        split: if_splits option.splits)
  moreover have "event_justified f V e" if "e \<in> set (eq_events ?s')" for e
  proof (cases "e \<in> set (eq_events s)")
    case True
    with J show ?thesis by (simp add: equiv_justified_slot)
  next
    case new: False
    with that obtain a where a: "slot_of s (vote_Height v) ?sk = Some a"
      "a \<noteq> f (bid_Hash (vote_BlockID v))" "e = conflict_event v a (f (bid_Hash (vote_BlockID v))) now"
      using last_n_subset [of maxEquivEvents]
      by (fastforce simp: observe_vote_events [OF False] split: option.splits if_splits)
    from J a(1) have "slot_justified f V (vote_Height v) ?sk a" by (simp add: equiv_justified_slot)
    then obtain u where "u \<in> V" "vote_Height u = vote_Height v" "bid_Hash (vote_BlockID u) \<noteq> []"
      "a = f (bid_Hash (vote_BlockID u))"
      "?sk = slotKey (vote_ValidatorAddress u) (vote_Round u) (vote_Type u)"
      unfolding slot_justified_def by blast
    moreover from this(5) have "vote_ValidatorAddress u = vote_ValidatorAddress v"
      "vote_Round u = vote_Round v" "vote_Type u = vote_Type v" by (auto dest: slotKey_inj)
    ultimately show ?thesis using v False a
      unfolding event_justified_def
      by (intro bexI [of _ u] bexI [of _ v]) (simp_all add: conflict_event_def)
  qed
  ultimately show ?thesis unfolding equiv_justified_slot by blast
qed (use J in \<open>simp add: observe_vote_nil\<close>)

text \<open>The observers touch disjoint parts of the builder.\<close>

lemma ObserveEvents_Nil [simp]: "ObserveEvents f [] b = b"
  by (simp add: ObserveEvents_def)

lemma ObserveEvents_snoc:
  "ObserveEvents f (es @ [(e, t)]) b =
     observeForStepTiming (observeForEquivocation f (ObserveEvents f es b) e t) e t"
  by (simp add: ObserveEvents_def)

lemma ObserveEvents_append: "ObserveEvents f (es @ fs) b = ObserveEvents f fs (ObserveEvents f es b)"
  by (simp add: ObserveEvents_def)

lemma observe_event_equiv:
  "b_equiv (observeForStepTiming (observeForEquivocation f b e t) e t) =
     (case e of EventDataVote (Some v) \<Rightarrow> observe_vote f (windowBlocks b) (b_equiv b) v t
      | _ \<Rightarrow> b_equiv b)"
  by (simp add: observeForStepTiming_def observeForEquivocation_def
      split: TMEventData.split option.split)

lemma observe_event_window:
  "windowBlocks (observeForStepTiming (observeForEquivocation f b e t) e t) = windowBlocks b"
  by (simp add: observeForStepTiming_def observeForEquivocation_def
      split: TMEventData.split option.split)

lemma ObserveEvents_window [simp]: "windowBlocks (ObserveEvents f es b) = windowBlocks b"
  by (induction es rule: rev_induct) (auto simp: ObserveEvents_snoc observe_event_window)

lemma votes_of_snoc:
  "votes_of (es @ [(e, t)]) =
     votes_of es \<union> (case e of EventDataVote (Some v) \<Rightarrow> {v} | _ \<Rightarrow> {})"
  by (auto simp: votes_of_def split: TMEventData.splits option.splits)

lemma ObserveEvents_justified:
  "equiv_justified f (votes_of es) (b_equiv (ObserveEvents f es (NewBuilder w)))"
proof (induction es rule: rev_induct)
  case Nil
  show ?case by (simp add: equiv_justified_def NewBuilder_def newEquivState_def)
next
  case (snoc x es)
  obtain e t where x: "x = (e, t)" by (cases x)
  have "equiv_justified f (votes_of (es @ [(e, t)])) (b_equiv (ObserveEvents f es (NewBuilder w)))"
    using snoc by (rule equiv_justified_mono) (simp add: votes_of_snoc)
  then show ?case unfolding x ObserveEvents_snoc observe_event_equiv
    by (auto intro!: observe_vote_justified simp: votes_of_snoc split: TMEventData.splits option.splits)
qed

lemma ObserveEvents_capped:
  "length (eq_events (b_equiv (ObserveEvents f es (NewBuilder w)))) \<le> maxEquivEvents"
proof (induction es rule: rev_induct)
  case Nil
  show ?case by (simp add: NewBuilder_def newEquivState_def)
next
  case (snoc x es)
  obtain e t where x: "x = (e, t)" by (cases x)
  have "length (eq_events (observe_vote f w' s v t)) \<le> maxEquivEvents"
    if "length (eq_events s) \<le> maxEquivEvents" for w' s v
    using that last_n_length
    by (cases "bid_Hash (vote_BlockID v) = []")
       (auto simp: observe_vote_nil observe_vote_events split: option.splits)
  with snoc show ?case unfolding x ObserveEvents_snoc observe_event_equiv
    by (auto split: TMEventData.splits option.splits)
qed

lemma slot_persists:
  assumes "slot_of (b_equiv b) h sk = Some a" "0 < windowBlocks b"
    and "\<forall>(e, t) \<in> set es. \<forall>v. e = EventDataVote (Some v) \<longrightarrow>
      in_i64 (vote_Height v - windowBlocks b) \<and> vote_Height v - windowBlocks b \<le> h"
  shows "slot_of (b_equiv (ObserveEvents f es b)) h sk = Some a"
  using assms(3)
proof (induction es rule: rev_induct)
  case Nil
  show ?case using assms(1) by simp
next
  case (snoc x es)
  obtain e t where x: "x = (e, t)" by (cases x)
  have IH: "slot_of (b_equiv (ObserveEvents f es b)) h sk = Some a" using snoc by simp
  have w: "i64 (vote_Height v - eff_window (windowBlocks b)) \<le> h" if "e = EventDataVote (Some v)" for v
    using snoc.prems that x assms(2) by (simp add: eff_window_def i64_id)
  have "slot_of (observe_vote f (windowBlocks b) (b_equiv (ObserveEvents f es b)) v t) h sk = Some a"
    if "e = EventDataVote (Some v)" for v
    using IH w [OF that]
    by (cases "bid_Hash (vote_BlockID v) = []") (simp_all add: observe_vote_nil observe_vote_slots)
  with IH show ?case unfolding x ObserveEvents_snoc observe_event_equiv
    by (simp split: TMEventData.split option.split)
qed

subsection \<open>Step timing and rings\<close>

lemma go_div_le: "0 \<le> a \<Longrightarrow> 0 < b \<Longrightarrow> 0 \<le> go_div a b \<and> go_div a b * b \<le> a"
  by (simp add: go_div_nonneg pos_imp_zdiv_nonneg_iff minus_mod_eq_div_mult [symmetric])

lemma observe_event_step:
  "b_step (observeForStepTiming (observeForEquivocation f b e t) e t) =
     (case e of EventDataRoundState s \<Rightarrow> observe_step (b_step b) s t | _ \<Rightarrow> b_step b)"
  by (simp add: observeForStepTiming_def observeForEquivocation_def
      split: TMEventData.split option.split)

lemma observe_step_accounted:
  assumes "step_accounted start a" "lastAt a \<noteq> 0 \<longrightarrow> lastAt a \<le> now" "start \<le> now" "0 < start"
    "now - start < 2 ^ 63"
  shows "step_accounted start (observe_step a s now)"
proof (cases "lastStep a \<noteq> '''' \<and> lastAt a \<noteq> 0")
  case True
  define d where "d = now - lastAt a"
  have T: "ds_total (propose a) + ds_total (prevote a) + ds_total (precommit a) \<le> lastAt a - start"
    "0 \<le> ds_total (propose a)" "0 \<le> ds_total (prevote a)" "0 \<le> ds_total (precommit a)" "start \<le> lastAt a"
    using assms(1) True by (auto simp: step_accounted_def)
  have d: "0 \<le> d" "time_sub now (lastAt a) = d" using assms True T by (auto simp: d_def time_sub_def)
  have "i64 (ds_total (propose a) + d) = ds_total (propose a) + d"
    "i64 (ds_total (prevote a) + d) = ds_total (prevote a) + d"
    "i64 (ds_total (precommit a) + d) = ds_total (precommit a) + d"
    using T d(1) assms(5) by (auto intro!: i64_nonneg simp: d_def)
  with True T d assms show ?thesis
    by (auto simp: observe_step_def step_accounted_def durSamples_add_def Let_def time_is_zero_def d_def)
next
  case False
  then show ?thesis using assms
    by (auto simp: observe_step_def step_accounted_def Let_def time_is_zero_def split: if_splits)
qed



lemma ObserveEvents_step_accounted:
  assumes "0 < start" "clocked start es"
  shows "step_accounted start (b_step (ObserveEvents f es (NewBuilder w)))
    \<and> (\<forall>t. (\<forall>(e, u) \<in> set es. u \<le> t) \<longrightarrow> lastAt (b_step (ObserveEvents f es (NewBuilder w))) \<noteq> 0 \<longrightarrow>
         lastAt (b_step (ObserveEvents f es (NewBuilder w))) \<le> t)"
  using assms(2)
proof (induction es rule: rev_induct)
  case Nil
  show ?case by (simp add: step_accounted_def NewBuilder_def newStepAccumulator_def)
next
  case (snoc x es)
  obtain e t where x: "x = (e, t)" by (cases x)
  let ?a = "b_step (ObserveEvents f es (NewBuilder w))"
  have c: "clocked start es" "start \<le> t" "t - start < 2 ^ 63" "\<forall>(e, u) \<in> set es. u \<le> t"
    using snoc.prems by (auto simp: clocked_def x sorted_append)
  from snoc.IH [OF c(1)] c have A: "step_accounted start ?a" "lastAt ?a \<noteq> 0 \<longrightarrow> lastAt ?a \<le> t" by blast+
  have "step_accounted start (observe_step ?a s t)" for s
    using observe_step_accounted A c assms(1) by blast
  moreover have "lastAt (observe_step ?a s t) = t" for s by (simp add: observe_step_def)
  ultimately show ?case using A snoc.IH [OF c(1)] unfolding x ObserveEvents_snoc observe_event_step
    by (auto split: TMEventData.split)
qed

lemma observe_same_height:
  "lastHeight b = h \<Longrightarrow>
   foldl (\<lambda>b r. observe h r t b) b rs = b\<lparr>curHeightMaxRound := foldl max (curHeightMaxRound b) (map i32 rs)\<rparr>"
proof (induction rs arbitrary: b)
  case (Cons r rs)
  have "observe h r t b = b\<lparr>curHeightMaxRound := max (curHeightMaxRound b) (i32 r)\<rparr>"
    using Cons.prems by (simp add: observe_def max_def)
  with Cons show ?case by simp
qed simp

lemma observe_height_step:
  assumes "lastHeight b < h" "0 < h"
  shows "observe_height b (h, r0, t, rs) =
    b\<lparr>blockIntervals := (if lastHeight b \<noteq> 0 \<and> lastHeightChangeAt b \<noteq> 0
         then appendRing (blockIntervals b) (time_sub t (lastHeightChangeAt b)) else blockIntervals b),
      maxRoundPerHeight := (if lastHeight b \<noteq> 0
         then appendRing (maxRoundPerHeight b) (curHeightMaxRound b) else maxRoundPerHeight b),
      lastHeight := h, lastHeightChangeAt := t, curHeightMaxRound := peak_round (h, r0, t, rs)\<rparr>"
proof -
  have "lastHeight (observe h r0 t b) = h" using assms by (simp add: observe_def Let_def)
  then show ?thesis using assms
    by (simp add: observe_height_def peak_round_def observe_same_height)
       (simp add: observe_def Let_def time_is_zero_def)
qed

lemma intervals_snoc: "ts \<noteq> [] \<Longrightarrow> intervals (ts @ [t]) = intervals ts @ [time_sub t (last ts)]"
  by (induction ts rule: intervals.induct) auto

section \<open>Properties\<close>

text \<open>C5: no false accusation: every equivocation the builder reports, after any sequence of
  events, is backed by two observed votes of that validator for the same height, round and type
  with different non-empty block hashes; and no more than 256 reports are kept.\<close>

theorem equivocation_sound:
  assumes "e \<in> set (eq_events (b_equiv (ObserveEvents f es (NewBuilder w))))"
  shows "event_justified f (votes_of es) e
    \<and> length (eq_events (b_equiv (ObserveEvents f es (NewBuilder w)))) \<le> 256"
  using ObserveEvents_justified [of f es w] ObserveEvents_capped [of f es w] assms
  by (simp add: equiv_justified_def maxEquivEvents_def)

lemma sample_conflict:
  "eq_events (b_equiv (ObserveEvents id [(sample_vote 7 ''x'', 1), (sample_vote 7 ''y'', 2)] (NewBuilder 100)))
   = [\<lparr>ev_ValidatorAddress = ''A'', ev_Moniker = '''', ev_Height = 7, ev_Round = 0,
       ev_VoteType = ''prevote'', ev_BlockIDA = ''x'', ev_BlockIDB = ''y'', ev_DetectedAt = 2\<rparr>]"
  by (simp add: ObserveEvents_def observeForEquivocation_def observeForStepTiming_def sample_vote_def
      NewBuilder_def newEquivState_def observe_vote_def Let_def last_n_def maxEquivEvents_def
      i64_id in_i64_def voteTypeName_def PrevoteType_def PrecommitType_def)

theorem equivocation_sound_witness:
  "event_justified id (votes_of [(sample_vote 7 ''x'', 1), (sample_vote 7 ''y'', 2)])
     \<lparr>ev_ValidatorAddress = ''A'', ev_Moniker = '''', ev_Height = 7, ev_Round = 0,
      ev_VoteType = ''prevote'', ev_BlockIDA = ''x'', ev_BlockIDB = ''y'', ev_DetectedAt = 2\<rparr>"
proof -
  have "\<lparr>ev_ValidatorAddress = ''A'', ev_Moniker = '''', ev_Height = 7, ev_Round = 0,
      ev_VoteType = ''prevote'', ev_BlockIDA = ''x'', ev_BlockIDB = ''y'', ev_DetectedAt = 2\<rparr>
    \<in> set (eq_events (b_equiv (ObserveEvents id [(sample_vote 7 ''x'', 1), (sample_vote 7 ''y'', 2)]
        (NewBuilder 100))))"
    unfolding sample_conflict by simp
  from equivocation_sound [OF this] show ?thesis by blast
qed

text \<open>C6: no missed equivocation: when a validator signs two votes for the same height, round and
  type with different non-empty hashes, and no vote between them is more than the window ahead,
  then one of the two observations appends a report of that slot.\<close>

theorem equivocation_complete:
  assumes "inj f" "0 < windowBlocks b"
    and x: "bid_Hash (vote_BlockID x) \<noteq> []" and y: "bid_Hash (vote_BlockID y) \<noteq> []"
    and "bid_Hash (vote_BlockID x) \<noteq> bid_Hash (vote_BlockID y)"
    and slot: "vote_Height y = vote_Height x" "vote_Round y = vote_Round x"
      "vote_ValidatorAddress y = vote_ValidatorAddress x" "vote_Type y = vote_Type x"
    and win: "\<forall>(e, t) \<in> set ((EventDataVote (Some x), tx) # es). \<forall>v. e = EventDataVote (Some v) \<longrightarrow>
      in_i64 (vote_Height v - windowBlocks b) \<and> vote_Height v - windowBlocks b \<le> vote_Height x"
  shows "\<exists>e. (last_report (ObserveEvents f [(EventDataVote (Some x), tx)] b) e
        \<or> last_report (ObserveEvents f ((EventDataVote (Some x), tx) # es @ [(EventDataVote (Some y), ty)]) b) e)
      \<and> ev_ValidatorAddress e = vote_ValidatorAddress x \<and> ev_Height e = vote_Height x
      \<and> ev_Round e = vote_Round x \<and> ev_VoteType e = voteTypeName (vote_Type x)
      \<and> ev_BlockIDA e \<noteq> ev_BlockIDB e"
proof -
  let ?sk = "slotKey (vote_ValidatorAddress x) (vote_Round x) (vote_Type x)"
  let ?X = "(EventDataVote (Some x), tx)" and ?Y = "(EventDataVote (Some y), ty)"
  let ?fx = "f (bid_Hash (vote_BlockID x))" and ?fy = "f (bid_Hash (vote_BlockID y))"
  let ?b1 = "ObserveEvents f [?X] b" and ?b2 = "ObserveEvents f (?X # es) b"
  have neq: "?fx \<noteq> ?fy" using assms(1,5) by (auto dest: injD)
  have b1: "b_equiv ?b1 = observe_vote f (windowBlocks b) (b_equiv b) x tx"
    using ObserveEvents_snoc [of f "[]" "EventDataVote (Some x)" tx b] by (simp add: observe_event_equiv)
  have cut: "\<not> vote_Height x < i64 (vote_Height x - eff_window (windowBlocks b))"
    using win assms(2) by (simp add: eff_window_def i64_id)
  define a where "a = (case slot_of (b_equiv b) (vote_Height x) ?sk of Some a \<Rightarrow> a | None \<Rightarrow> ?fx)"
  have a1: "slot_of (b_equiv ?b1) (vote_Height x) ?sk = Some a"
    using cut x by (simp add: b1 observe_vote_slots a_def split: option.split)
  have "?b2 = ObserveEvents f es ?b1" using ObserveEvents_append [of f "[?X]" es b] by simp
  then have a2: "slot_of (b_equiv ?b2) (vote_Height x) ?sk = Some a"
    using slot_persists [OF a1, of es] win assms(2) by simp
  have b3: "b_equiv (ObserveEvents f (?X # es @ [?Y]) b) =
      observe_vote f (windowBlocks b) (b_equiv ?b2) y ty"
    using ObserveEvents_snoc [of f "?X # es" "EventDataVote (Some y)" ty b]
    by (simp add: observe_event_equiv)
  have ev: "last_n maxEquivEvents (es @ [e]) \<noteq> [] \<and> last (last_n maxEquivEvents (es @ [e])) = e" for es e
    by (rule last_n_snoc) (simp add: maxEquivEvents_def)
  show ?thesis
  proof (cases "a = ?fy")
    case True
    with neq have "slot_of (b_equiv b) (vote_Height x) ?sk = Some a"
      by (auto simp: a_def split: option.splits)
    with True neq x show ?thesis
      by (intro exI [of _ "conflict_event x a ?fx tx"])
         (simp add: last_report_def b1 observe_vote_events ev, simp add: conflict_event_def)
  next
    case False
    with a2 y slot show ?thesis
      by (intro exI [of _ "conflict_event y a ?fy ty"])
         (simp add: last_report_def b3 observe_vote_events ev, simp add: conflict_event_def slot)
  qed
qed

theorem equivocation_complete_witness:
  "\<exists>e. (last_report (ObserveEvents id [(sample_vote 7 ''x'', 1)] (NewBuilder 100)) e
      \<or> last_report (ObserveEvents id [(sample_vote 7 ''x'', 1), (sample_vote 7 ''y'', 2)] (NewBuilder 100)) e)
    \<and> ev_ValidatorAddress e = ''A'' \<and> ev_Height e = 7 \<and> ev_BlockIDA e \<noteq> ev_BlockIDB e"
proof -
  let ?v = "\<lambda>hash. \<lparr>vote_Height = 7, vote_Round = 0, vote_ValidatorAddress = ''A'',
       vote_Type = PrevoteType, vote_BlockID = zero_BlockID\<lparr>bid_Hash := hash\<rparr>\<rparr>"
  have "\<exists>e. (last_report (ObserveEvents id [(EventDataVote (Some (?v ''x'')), 1)] (NewBuilder 100)) e
      \<or> last_report (ObserveEvents id ((EventDataVote (Some (?v ''x'')), 1) # [] @
           [(EventDataVote (Some (?v ''y'')), 2)]) (NewBuilder 100)) e)
      \<and> ev_ValidatorAddress e = vote_ValidatorAddress (?v ''x'') \<and> ev_Height e = vote_Height (?v ''x'')
      \<and> ev_Round e = vote_Round (?v ''x'') \<and> ev_VoteType e = voteTypeName (vote_Type (?v ''x''))
      \<and> ev_BlockIDA e \<noteq> ev_BlockIDB e"
    by (rule equivocation_complete) (simp_all add: NewBuilder_def in_i64_def)
  then show ?thesis by (auto simp: sample_vote_def)
qed

text \<open>C13: the step timer attributes time at most once: with a clock that does not go back, the
  durations accumulated for propose, prevote and precommit are non-negative and together never
  exceed the time elapsed since the first event.\<close>

theorem step_time_accounted:
  assumes "0 < start" "clocked start es"
  shows "step_accounted start (b_step (ObserveEvents f es (NewBuilder w)))"
  using ObserveEvents_step_accounted [OF assms] by blast

theorem step_time_accounted_witness:
  "step_accounted 5 (b_step (ObserveEvents id
     [(EventDataRoundState ''RoundStepPropose'', 5), (EventDataRoundState ''RoundStepPrevote'', 9)]
     (NewBuilder 100)))"
proof -
  have "(0::int) < 5" "clocked 5 [(EventDataRoundState ''RoundStepPropose'', 5), (EventDataRoundState ''RoundStepPrevote'', 9)]"
    by (simp_all add: clocked_def)
  then show ?thesis by (rule step_time_accounted)
qed

text \<open>When heights are observed in ascending order (each any number of times), the rings hold the
  last 200 block intervals and the last 200 terminal round maxima of the heights left behind, and
  the builder remembers the current height, when it first saw it and its highest round.\<close>

theorem observe_rings:
  assumes "sorted_wrt (<) (0 # map fst obs)" "\<forall>(h, r0, t, rs) \<in> set obs. t \<noteq> 0" "obs \<noteq> []"
  shows "foldl observe_height (NewBuilder w) obs =
    (NewBuilder w)\<lparr>blockIntervals := last_n 200 (intervals (map (\<lambda>(h, r0, t, rs). t) obs)),
      maxRoundPerHeight := last_n 200 (map peak_round (butlast obs)),
      lastHeight := fst (last obs), lastHeightChangeAt := (\<lambda>(h, r0, t, rs). t) (last obs),
      curHeightMaxRound := peak_round (last obs)\<rparr>"
  using assms
proof (induction obs rule: rev_induct)
  case (snoc x obs)
  obtain h r0 t rs where x: "x = (h, r0, t, rs)" by (metis prod_cases4)
  have h: "0 < h" using snoc.prems(1) by (simp add: x sorted_wrt_append)
  show ?case
  proof (cases "obs = []")
    case True
    then show ?thesis using h
      by (simp add: x observe_height_step NewBuilder_def last_n_def)
  next
    case False
    obtain h' r' t' rs' where l: "last obs = (h', r', t', rs')" by (metis prod_cases4)
    have "last obs \<in> set obs" using False by simp
    then have lt: "0 < h'" "h' < h" "t' \<noteq> 0"
      using snoc.prems l by (auto simp: x sorted_wrt_append)
    have ts: "last (map (\<lambda>(h, r0, t, rs). t) obs) = t'" using False l by (simp add: last_map)
    have "map peak_round (butlast obs) @ [peak_round (h', r', t', rs')] = map peak_round obs"
      using False l by (metis append_butlast_last_id list.simps(8,9) map_append)
    moreover have "foldl observe_height (NewBuilder w) obs =
      (NewBuilder w)\<lparr>blockIntervals := last_n 200 (intervals (map (\<lambda>(h, r0, t, rs). t) obs)),
        maxRoundPerHeight := last_n 200 (map peak_round (butlast obs)),
        lastHeight := h', lastHeightChangeAt := t', curHeightMaxRound := peak_round (h', r', t', rs')\<rparr>"
      using snoc False l by (simp add: sorted_wrt_append)
    ultimately show ?thesis using lt h False ts
      by (simp add: x observe_height_step appendRing_def ringCapacity_def last_n_last_n intervals_snoc)
  qed
qed simp

theorem observe_rings_witness:
  "blockIntervals (foldl observe_height (NewBuilder 100) [(5, 0, 10, [1, 2]), (6, 0, 17, [])]) = [7]"
  by (subst observe_rings) (auto simp: last_n_def time_sub_def)


end
