(* ===== verification/Decentralization.thy ===== *)
theory Decentralization
  imports Validators HealthTypes "HOL-Library.Multiset"
begin

text \<open>
  \<open>pkg/metrics/enrich_decentralization.go\<close>: Nakamoto coefficients, Gini coefficient and top-N
  share of the voting power. The sums are \<open>int64\<close> and wrap; the properties bound the total so
  that they do not. Sorting a slice of integers has one result, so \<open>sort.Slice\<close> is \<open>sort\<close>
  (or its reverse). The Nakamoto coefficient is specified over sub-multisets of the powers: no
  set of fewer validators passes the threshold.
\<close>

section \<open>Definitions\<close>

fun sum64 :: "int \<Rightarrow> int list \<Rightarrow> int" where
  "sum64 acc [] = acc"
| "sum64 acc (x # xs) = sum64 (i64 (acc + x)) xs"

fun nakamoto_loop :: "int \<Rightarrow> int \<Rightarrow> int \<Rightarrow> int \<Rightarrow> int \<Rightarrow> int list \<Rightarrow> int \<times> int" where
  "nakamoto_loop totl cum i n33 n66 [] = (n33, n66)"
| "nakamoto_loop totl cum i n33 n66 (x # xs) =
     (let cum = i64 (cum + x);
          n33 = (if n33 = 0 \<and> i64 (cum * 3) > totl then i + 1 else n33)
      in if n66 = 0 \<and> i64 (cum * 3) > i64 (totl * 2) then (n33, i + 1)
         else nakamoto_loop totl cum (i + 1) n33 n66 xs)"

definition nakamoto :: "int list \<Rightarrow> int \<times> int" where
  "nakamoto p = (let s = rev (sort p); totl = sum64 0 s in nakamoto_loop totl 0 0 0 0 s)"

fun gini_loop :: "int \<Rightarrow> int \<Rightarrow> int \<Rightarrow> int list \<Rightarrow> int \<times> int" where
  "gini_loop i sm weighted [] = (sm, weighted)"
| "gini_loop i sm weighted (x # xs) =
     gini_loop (i + 1) (i64 (sm + x)) (i64 (weighted + i64 ((i + 1) * x))) xs"

definition gini :: "int list \<Rightarrow> rat" where
  "gini p =
     (let n = int (length p)
      in if n = 0 then 0
         else let s = sort p; (sm, weighted) = gini_loop 0 0 0 s
           in if sm = 0 then 0
              else fl (fdiv (fmul 2 (float_of_int weighted)) (fmul (float_of_int n) (float_of_int sm))
                       - fdiv (float_of_int (n + 1)) (float_of_int n)))"

fun topN_loop :: "int \<Rightarrow> int \<Rightarrow> int \<Rightarrow> int \<Rightarrow> int list \<Rightarrow> int \<times> int" where
  "topN_loop topN i totl tp [] = (totl, tp)"
| "topN_loop topN i totl tp (x # xs) =
     topN_loop topN (i + 1) (i64 (totl + x)) (if i < topN then i64 (tp + x) else tp) xs"

definition topNShare :: "int list \<Rightarrow> int \<Rightarrow> rat" where
  "topNShare p topN =
     (let s = rev (sort p); (totl, tp) = topN_loop topN 0 0 0 s
      in if totl = 0 then 0
         else fdiv (fmul 100 (float_of_int tp)) (float_of_int totl))"

definition voting_powers :: "TMValidators \<Rightarrow> int list" where
  "voting_powers v =
     concat (map (\<lambda>val. case tv_CometValidator val of None \<Rightarrow> [] | Some c \<Rightarrow> [cv_VotingPower c]) v)"

definition enrichDecentralization :: "NetworkHealth \<Rightarrow> TMValidators \<Rightarrow> NetworkHealth" where
  "enrichDecentralization nh v =
     (let p = voting_powers v
      in if p = [] then nh
         else let (n33, n66) = nakamoto p
           in nh\<lparr>Nakamoto33 := n33, Nakamoto66 := n66, Gini := gini p, Top10Pct := topNShare p 10\<rparr>)"

text \<open>The number of elements a descending list needs for its prefix sum to satisfy \<open>P\<close>.\<close>

fun first_prefix :: "(int \<Rightarrow> bool) \<Rightarrow> int \<Rightarrow> int list \<Rightarrow> nat" where
  "first_prefix P acc [] = 0"
| "first_prefix P acc (x # xs) = (if P (acc + x) then 1 else Suc (first_prefix P (acc + x) xs))"

section \<open>Lemmas\<close>

subsection \<open>Sums that do not wrap\<close>

lemma sum64_exact:
  "\<forall>x\<in>set xs. 0 \<le> x \<Longrightarrow> 0 \<le> acc \<Longrightarrow> acc + sum_list xs < 2 ^ 63 \<Longrightarrow>
   sum64 acc xs = acc + sum_list xs"
proof (induction xs arbitrary: acc)
  case (Cons x xs)
  have "0 \<le> sum_list xs" using Cons.prems(1) by (intro sum_list_nonneg) auto
  then have "i64 (acc + x) = acc + x" using Cons.prems by (intro i64_nonneg) auto
  with Cons show ?case by simp
qed simp

lemma topN_loop_exact:
  "\<forall>x\<in>set xs. 0 \<le> x \<Longrightarrow> 0 \<le> tp \<Longrightarrow> tp \<le> tot \<Longrightarrow> tot + sum_list xs < 2 ^ 63 \<Longrightarrow> 0 \<le> i \<Longrightarrow>
   topN_loop n i tot tp xs = (tot + sum_list xs, tp + sum_list (take (nat (n - i)) xs))"
proof (induction xs arbitrary: i tot tp)
  case (Cons x xs)
  have "0 \<le> sum_list xs" using Cons.prems(1) by (intro sum_list_nonneg) auto
  then have "i64 (tot + x) = tot + x" "i64 (tp + x) = tp + x"
    using Cons.prems by (auto intro!: i64_nonneg)
  moreover have "nat (n - i) = Suc (nat (n - (i + 1)))" if "i < n" using that by simp
  moreover have "nat (n - (i + 1)) = 0" "nat (n - i) = 0" if "\<not> i < n" using that by simp_all
  moreover have "0 \<le> x" using Cons.prems by simp
  ultimately show ?case using Cons.IH [of "if i < n then tp + x else tp" "tot + x" "i + 1"] Cons.prems
    by (cases "i < n") (simp_all add: add.assoc)
qed simp

lemma gini_loop_exact:
  "\<forall>x\<in>set xs. 0 \<le> x \<Longrightarrow> 0 \<le> s \<Longrightarrow> 0 \<le> w \<Longrightarrow> 0 \<le> i \<Longrightarrow>
   s + sum_list xs < 2 ^ 63 \<Longrightarrow> w + (i + int (length xs)) * sum_list xs < 2 ^ 63 \<Longrightarrow>
   gini_loop i s w xs =
     (s + sum_list xs, w + (\<Sum>k<length xs. (i + 1 + int k) * xs ! k))"
proof (induction xs arbitrary: i s w)
  case (Cons x xs)
  have nn: "0 \<le> sum_list xs" using Cons.prems(1) by (intro sum_list_nonneg) auto
  have x: "0 \<le> x" using Cons.prems by simp
  have "(i + 1) * x \<le> (i + 1 + int (length xs)) * x" using x Cons.prems by (intro mult_right_mono) auto
  then have w: "w + (i + 1) * x + (i + 1 + int (length xs)) * sum_list xs < 2 ^ 63"
    using Cons.prems(6) by (simp add: distrib_left algebra_simps)
  have nn': "0 \<le> (i + 1) * x" "0 \<le> (i + 1 + int (length xs)) * sum_list xs"
    using x nn Cons.prems by simp_all
  have "i64 ((i + 1) * x) = (i + 1) * x" using w nn' Cons.prems by (intro i64_nonneg) auto
  moreover have "i64 (s + x) = s + x" using nn x Cons.prems by (intro i64_nonneg) auto
  moreover have "i64 (w + (i + 1) * x) = w + (i + 1) * x"
    using w nn' Cons.prems by (intro i64_nonneg) auto
  moreover have "gini_loop (i + 1) (s + x) (w + (i + 1) * x) xs =
      (s + x + sum_list xs, w + (i + 1) * x + (\<Sum>k<length xs. (i + 1 + 1 + int k) * xs ! k))"
    using Cons.prems x w nn' by (intro Cons.IH) auto
  moreover have "(\<Sum>k<length (x # xs). (i + 1 + int k) * (x # xs) ! k) =
      (i + 1) * x + (\<Sum>k<length xs. (i + 1 + 1 + int k) * xs ! k)"
    unfolding length_Cons sum.lessThan_Suc_shift by (simp add: algebra_simps)
  ultimately show ?case by simp
qed simp

subsection \<open>The Nakamoto loop\<close>

lemma nakamoto_loop_first:
  "\<forall>x\<in>set xs. 0 \<le> x \<Longrightarrow> 0 \<le> cum \<Longrightarrow> cum + sum_list xs = T \<Longrightarrow> 0 < T \<Longrightarrow> 3 * T < 2 ^ 63 \<Longrightarrow>
   0 \<le> i \<Longrightarrow> cum * 3 \<le> T * 2 \<Longrightarrow> (n33 = 0 \<Longrightarrow> cum * 3 \<le> T) \<Longrightarrow>
   nakamoto_loop T cum i n33 0 xs =
     (if n33 = 0 then i + int (first_prefix (\<lambda>c. T < c * 3) cum xs) else n33,
      i + int (first_prefix (\<lambda>c. T * 2 < c * 3) cum xs))"
proof (induction xs arbitrary: cum i n33)
  case (Cons x xs)
  have x: "0 \<le> x" and nn: "0 \<le> sum_list xs" using Cons.prems(1) by (auto intro: sum_list_nonneg)
  have w: "i64 (cum + x) = cum + x" "i64 ((cum + x) * 3) = (cum + x) * 3" "i64 (T * 2) = T * 2"
    using Cons.prems x nn by (auto intro!: i64_nonneg)
  show ?case
  proof (cases "T * 2 < (cum + x) * 3")
    case True
    then have "T < (cum + x) * 3" using Cons.prems by linarith
    with True show ?thesis by (simp only: nakamoto_loop.simps first_prefix.simps w Let_def) simp
  next
    case False
    let ?n = "if n33 = 0 \<and> T < (cum + x) * 3 then i + 1 else n33"
    have "nakamoto_loop T (cum + x) (i + 1) ?n 0 xs =
       (if ?n = 0 then i + 1 + int (first_prefix (\<lambda>c. T < c * 3) (cum + x) xs) else ?n,
        i + 1 + int (first_prefix (\<lambda>c. T * 2 < c * 3) (cum + x) xs))"
      using Cons.prems x False by (intro Cons.IH) (auto split: if_splits)
    then show ?thesis using False Cons.prems
      by (simp only: nakamoto_loop.simps first_prefix.simps w Let_def) auto
  qed
qed simp

lemma first_prefix_least:
  "P (acc + sum_list xs) \<Longrightarrow> \<not> P acc \<Longrightarrow>
   first_prefix P acc xs \<le> length xs \<and> P (acc + sum_list (take (first_prefix P acc xs) xs))
   \<and> (\<forall>j < first_prefix P acc xs. \<not> P (acc + sum_list (take j xs)))"
proof (induction xs arbitrary: acc)
  case (Cons x xs)
  show ?case
  proof (cases "P (acc + x)")
    case True
    with Cons.prems show ?thesis by simp
  next
    case False
    with Cons.prems Cons.IH [of "acc + x"] show ?thesis
      by (auto simp: add.assoc less_Suc_eq_0_disj take_Cons' split: if_splits)
  qed
qed simp

text \<open>No \<open>k\<close> elements sum to more than the first \<open>k\<close> of a descending list.\<close>

lemma take_Cons_ge:
  "sorted_wrt (\<ge>) (x # xs) \<Longrightarrow> k \<le> length xs \<Longrightarrow>
   sum_list (take k xs) \<le> sum_list (take k (x # xs :: int list))"
proof (cases k)
  case (Suc j)
  assume a: "sorted_wrt (\<ge>) (x # xs)" "k \<le> length xs"
  with Suc have "take k xs = take j xs @ [xs ! j]" by (simp add: take_Suc_conv_app_nth)
  moreover have "xs ! j \<le> x" using a Suc by simp
  ultimately show ?thesis using Suc by simp
qed simp

lemma top_k_max:
  "sorted_wrt (\<ge>) xs \<Longrightarrow> M \<subseteq># mset xs \<Longrightarrow> sum_mset M \<le> sum_list (take (size M) (xs :: int list))"
proof (induction xs arbitrary: M)
  case (Cons x xs)
  show ?case
  proof (cases "x \<in># M")
    case True
    then obtain M' where M: "M = add_mset x M'" by (metis insert_DiffM)
    with Cons.prems have "M' \<subseteq># mset xs" by simp
    with Cons M show ?thesis by simp
  next
    case False
    with Cons.prems(2) have M: "M \<subseteq># mset xs"
      by (metis Diff_eq_empty_iff_mset add_mset_remove_trivial diff_single_trivial minus_add_mset_if_not_in_lhs mset.simps(2))
    then have "size M \<le> length xs" using size_mset_mono by fastforce
    with take_Cons_ge [OF Cons.prems(1)] Cons.IH [OF _ M] Cons.prems(1) show ?thesis by fastforce
  qed
qed simp

lemma rev_sort_desc: "sorted_wrt (\<ge>) (rev (sort p))"
  by (simp add: sorted_wrt_rev)

text \<open>The first prefix of the descending powers that passes a threshold is a smallest set that
  does.\<close>

lemma first_prefix_smallest:
  fixes p :: "int list"
  assumes up: "\<And>a b. P a \<Longrightarrow> a \<le> b \<Longrightarrow> P b" and "P (sum_list p)" "\<not> P 0"
  defines "k \<equiv> first_prefix P 0 (rev (sort p))"
  shows "(\<exists>M. M \<subseteq># mset p \<and> size M = k \<and> P (sum_mset M)) \<and>
    (\<forall>M. M \<subseteq># mset p \<and> P (sum_mset M) \<longrightarrow> k \<le> size M)"
proof -
  let ?s = "rev (sort p)"
  have ms: "mset ?s = mset p" by simp
  then have "sum_list ?s = sum_list p" by (metis sum_mset_sum_list)
  with assms have L: "k \<le> length ?s" "P (sum_list (take k ?s))" "\<forall>j<k. \<not> P (sum_list (take j ?s))"
    using first_prefix_least [of P 0 ?s] by simp_all
  have "mset (take k ?s) \<subseteq># mset p"
    using ms by (metis append_take_drop_id mset_append mset_subset_eq_add_left)
  moreover have "size (mset (take k ?s)) = k" using L(1) by simp
  moreover have "k \<le> size M" if "M \<subseteq># mset p" "P (sum_mset M)" for M
  proof (rule ccontr)
    assume "\<not> k \<le> size M"
    with L(3) have "\<not> P (sum_list (take (size M) ?s))" by simp
    moreover have "sum_mset M \<le> sum_list (take (size M) ?s)"
      using that(1) ms rev_sort_desc by (metis top_k_max)
    ultimately show False using that(2) up by blast
  qed
  ultimately show ?thesis using L(2) by (metis sum_mset_sum_list)
qed

subsection \<open>Shares and the Gini coefficient\<close>

lemma sorted_weighted:
  "sorted xs \<Longrightarrow> \<forall>x\<in>set xs. 0 \<le> x \<Longrightarrow>
   (int (length xs) + 1) * sum_list xs \<le> 2 * (\<Sum>k<length xs. (1 + int k) * xs ! k)
   \<and> (\<Sum>k<length xs. (1 + int k) * xs ! k) \<le> int (length xs) * sum_list xs"
proof (induction xs rule: rev_induct)
  case (snoc x xs)
  let ?n = "int (length xs)"
  have w: "(\<Sum>k<length (xs @ [x]). (1 + int k) * (xs @ [x]) ! k) =
      (\<Sum>k<length xs. (1 + int k) * xs ! k) + (1 + ?n) * x"
    by (simp add: nth_append)
  have "sum_list xs \<le> sum_list (map (\<lambda>_. x) xs)"
    using snoc.prems(1) sum_list_mono [of xs "\<lambda>y. y" "\<lambda>_. x"] by (simp add: sorted_append)
  then have le: "sum_list xs \<le> ?n * x" by (simp add: sum_list_triv)
  moreover have "0 \<le> sum_list xs" using snoc.prems by (intro sum_list_nonneg) simp
  moreover have "sorted xs" using snoc.prems by (simp add: sorted_append)
  ultimately show ?case using snoc.IH snoc.prems(2) unfolding w by (simp add: algebra_simps)
qed simp

lemma take_le_sum: "\<forall>x\<in>set xs. (0::int) \<le> x \<Longrightarrow> sum_list (take k xs) \<le> sum_list xs"
  by (metis append_take_drop_id in_set_dropD le_add_same_cancel1 sum_list_append sum_list_nonneg)

lemma sum_list_sort: "sum_list (sort p) = sum_list (p :: int list)"
    "sum_list (rev (sort p)) = sum_list (p :: int list)"
  by (metis mset_rev mset_sort sum_mset_sum_list)+

lemma topN_exact:
  fixes p :: "int list"
  assumes "\<forall>x\<in>set p. 0 \<le> x" "sum_list p \<le> 2 ^ 46"
  shows "0 \<le> topNShare p n \<and> topNShare p n \<le> 100"
proof (cases "sum_list p = 0")
  case True
  then show ?thesis using topN_loop_exact [of "rev (sort p)" 0 0 0 n] assms
    by (simp add: topNShare_def Let_def sum_list_sort)
next
  case False
  let ?s = "rev (sort p)" and ?T = "sum_list p"
  let ?t = "sum_list (take (nat n) ?s)"
  have nn: "\<forall>x\<in>set ?s. 0 \<le> x" using assms(1) by simp
  have "\<And>x. x \<in> set (take (nat n) ?s) \<Longrightarrow> 0 \<le> x" using nn by (meson in_set_takeD)
  then have t: "0 \<le> ?t" "?t \<le> ?T"
    using take_le_sum [OF nn, of "nat n"] by (auto simp: sum_list_sort intro: sum_list_nonneg)
  have T: "0 < ?T" using False t by simp
  have "topN_loop n 0 0 0 ?s = (?T, ?t)"
    using topN_loop_exact [OF nn, of 0 0 0 n] assms(2) by (simp add: sum_list_sort)
  then have "topNShare p n = fdiv (fmul 100 (float_of_int ?t)) (float_of_int ?T)"
    using False by (simp add: topNShare_def Let_def)
  also have "\<dots> = fl (of_int (100 * ?t) / of_int ?T)"
    using t assms(2) fl_of_int [of "100 * ?t"] by (simp add: float_of_int_exact fmul_def fdiv_def)
  finally have eq: "topNShare p n = fl (of_int (100 * ?t) / of_int ?T)" .
  have "of_int (100 * ?t) / of_int ?T \<le> (of_int 100 :: rat)"
    using t T by (simp add: divide_le_eq)
  then have "fl (of_int (100 * ?t) / of_int ?T) \<le> of_int 100" by (intro fl_int_bounds) simp_all
  then show ?thesis unfolding eq using t T by (simp add: fl_nonneg)
qed

text \<open>With exact inputs the two quotients of the Gini formula are each rounded once.\<close>

lemma gini_exact:
  fixes p :: "int list"
  assumes nn: "\<forall>x\<in>set p. 0 \<le> x" and pos: "0 < sum_list p" "0 < int (length p)"
    and small: "sum_list p \<le> 2 ^ 46" "int (length p) * sum_list p \<le> 2 ^ 52" "int (length p) < 2 ^ 52"
  shows "0 \<le> gini p \<and> gini p \<le> 1"
proof -
  let ?s = "sort p" and ?n = "int (length p)" and ?T = "sum_list p"
  define W where "W = (\<Sum>k<length ?s. (1 + int k) * ?s ! k)"
  have nn': "\<forall>x\<in>set ?s. 0 \<le> x" using nn by simp
  have W: "(?n + 1) * ?T \<le> 2 * W" "W \<le> ?n * ?T"
    using sorted_weighted [of ?s] nn' unfolding W_def by (simp_all add: sum_list_sort)
  have W0: "0 \<le> W" using W(1) pos proof -
    have "0 \<le> (?n + 1) * ?T" using pos by simp
    with W(1) show ?thesis by simp
  qed
  have "gini_loop 0 0 0 ?s = (?T, W)"
    using gini_loop_exact [OF nn', of 0 0 0] small by (simp add: sum_list_sort W_def)
  then have "gini p = fl (fdiv (fmul 2 (float_of_int W)) (fmul (float_of_int ?n) (float_of_int ?T))
      - fdiv (float_of_int (?n + 1)) (float_of_int ?n))"
    using pos by (simp add: gini_def Let_def)
  moreover have "fmul 2 (float_of_int W) = of_int (2 * W)"
    using W W0 small fl_of_int [of "2 * W"] by (simp add: fmul_def float_of_int_exact)
  moreover have "fmul (float_of_int ?n) (float_of_int ?T) = of_int (?n * ?T)"
    using pos small fl_of_int [of "?n * ?T"] by (simp add: fmul_def float_of_int_exact)
  moreover have "float_of_int (?n + 1) = of_int (?n + 1)" "float_of_int ?n = of_int ?n"
    using pos small by (simp_all add: float_of_int_exact)
  ultimately have g: "gini p = fl (fl (of_int (2 * W) / of_int (?n * ?T)) - fl (of_int (?n + 1) / of_int ?n))"
    (is "_ = fl (fl ?a - fl ?b)") by (simp only: fdiv_def)
  have d: "0 < (of_int (?n * ?T) :: rat)" using pos by simp
  have "?b = of_int ((?n + 1) * ?T) / of_int (?n * ?T)" using pos by simp
  also have "\<dots> \<le> ?a" using W(1) d by (intro divide_right_mono of_int_le_iff [THEN iffD2]) simp_all
  finally have "fl ?b \<le> fl ?a" by (rule fl_mono)
  moreover have "?a \<le> of_int 2"
    using W(2) d by (simp only: divide_le_eq of_int_mult [symmetric] of_int_le_iff) simp
  then have "fl ?a \<le> of_int 2" by (intro fl_int_bounds) simp_all
  moreover have "of_int 1 \<le> ?b" using pos by (simp add: le_divide_eq)
  then have "of_int 1 \<le> fl ?b" by (intro fl_int_bounds) simp_all
  ultimately have "0 \<le> fl ?a - fl ?b" "fl ?a - fl ?b \<le> of_int 1" by simp_all
  then show ?thesis unfolding g using fl_int_bounds(1) [of 1 "fl ?a - fl ?b"] by (simp add: fl_nonneg)
qed

section \<open>Properties\<close>

text \<open>C11: \<open>nakamoto\<close> returns the smallest numbers of validators whose combined power exceeds one
  third, respectively two thirds, of the total: some set of that many validators passes the
  threshold and no set of fewer does.\<close>

theorem nakamoto_minimal:
  fixes p :: "int list"
  assumes "\<forall>x\<in>set p. 0 \<le> x" "0 < sum_list p" "3 * sum_list p < 2 ^ 63"
  shows "\<exists>k33 k66. nakamoto p = (int k33, int k66)
    \<and> (\<exists>M. M \<subseteq># mset p \<and> size M = k33 \<and> sum_list p < 3 * sum_mset M)
    \<and> (\<forall>M. M \<subseteq># mset p \<and> sum_list p < 3 * sum_mset M \<longrightarrow> k33 \<le> size M)
    \<and> (\<exists>M. M \<subseteq># mset p \<and> size M = k66 \<and> 2 * sum_list p < 3 * sum_mset M)
    \<and> (\<forall>M. M \<subseteq># mset p \<and> 2 * sum_list p < 3 * sum_mset M \<longrightarrow> k66 \<le> size M)"
proof -
  let ?s = "rev (sort p)" and ?T = "sum_list p"
  have sl: "sum_list ?s = ?T" by (metis mset_rev mset_sort sum_mset_sum_list)
  have nn: "\<forall>x\<in>set ?s. 0 \<le> x" using assms(1) by simp
  have "sum64 0 ?s = ?T" using sum64_exact [OF nn, of 0] sl assms by simp
  moreover have "nakamoto_loop ?T 0 0 0 0 ?s =
     (int (first_prefix (\<lambda>c. ?T < c * 3) 0 ?s), int (first_prefix (\<lambda>c. ?T * 2 < c * 3) 0 ?s))"
    using nakamoto_loop_first [OF nn, of 0 ?T 0 0] sl assms by simp
  ultimately have "nakamoto p =
     (int (first_prefix (\<lambda>c. ?T < c * 3) 0 ?s), int (first_prefix (\<lambda>c. ?T * 2 < c * 3) 0 ?s))"
    by (simp add: nakamoto_def Let_def)
  moreover note first_prefix_smallest [of "\<lambda>c. ?T < c * 3" p] first_prefix_smallest [of "\<lambda>c. ?T * 2 < c * 3" p]
  ultimately show ?thesis using assms by (auto simp: mult.commute)
qed

theorem nakamoto_minimal_witness:
  "\<exists>k33 k66. nakamoto [10, 60, 30] = (int k33, int k66) \<and> k33 \<le> 1"
proof -
  have a: "\<forall>x\<in>set [10, 60, 30]. (0::int) \<le> x" "(0::int) < sum_list [10, 60, 30]"
    "3 * sum_list [10, 60, 30] < (2 ^ 63 :: int)" by auto
  have "{#60#} \<subseteq># mset [10, 60, 30 :: int] \<and> sum_list [10, 60, 30] < 3 * sum_mset {#60 :: int#}" by simp
  with nakamoto_minimal [OF a] show ?thesis by (metis One_nat_def size_single)
qed

text \<open>The Gini coefficient of non-negative powers lies between 0 and 1, and the share of the
  top N between 0 and 100, rounding included, as long as the powers are small enough to be exact.\<close>

theorem gini_topN_bounds:
  fixes p :: "int list"
  assumes "\<forall>x\<in>set p. 0 \<le> x" "sum_list p \<le> 2 ^ 46" "int (length p) * sum_list p \<le> 2 ^ 52"
    "int (length p) < 2 ^ 52"
  shows "0 \<le> gini p \<and> gini p \<le> 1 \<and> 0 \<le> topNShare p topN \<and> topNShare p topN \<le> 100"
proof -
  have ss: "sum_list (sort p) = sum_list p" "sum_list (rev (sort p)) = sum_list p"
    by (metis mset_rev mset_sort sum_mset_sum_list)+
  have nn: "\<forall>x\<in>set (sort p). 0 \<le> x" "\<forall>x\<in>set (rev (sort p)). 0 \<le> x" using assms(1) by simp_all
  have S: "0 \<le> sum_list p" using assms(1) by (intro sum_list_nonneg) auto
  have "0 \<le> gini p \<and> gini p \<le> 1"
  proof (cases "p = [] \<or> sum_list p = 0")
    case True
    then show ?thesis using gini_loop_exact [OF nn(1), of 0 0 0] assms
      by (auto simp: gini_def Let_def ss)
  next
    case False
    with S have pos: "0 < sum_list p" "0 < int (length p)" by auto
    show ?thesis using gini_exact [OF assms(1) pos] assms(2-4) by simp
  qed
  moreover have "0 \<le> topNShare p topN \<and> topNShare p topN \<le> 100"
    by (rule topN_exact [OF assms(1) assms(2)])
  ultimately show ?thesis by blast
qed

theorem gini_topN_bounds_witness: "gini [10, 60, 30] \<le> 1 \<and> topNShare [10, 60, 30] 10 \<le> 100"
proof -
  have a: "\<forall>x\<in>set [10, 60, 30]. (0::int) \<le> x" "sum_list [10, 60, 30] \<le> (2 ^ 46 :: int)"
    "int (length [10, 60, 30 :: int]) * sum_list [10, 60, 30] \<le> 2 ^ 52" "int (length [10, 60, 30 :: int]) < 2 ^ 52"
    by auto
  from gini_topN_bounds [OF a] show ?thesis by blast
qed

end
