(* ===== verification/Asn.thy ===== *)
theory Asn
  imports Prelude
begin

text \<open>
  \<open>pkg/asn/asn.go\<close>: the offline table from IPv4 addresses to autonomous systems. The contents
  of the file are an argument (\<open>Inl\<close> when it cannot be opened), as are \<open>net.ParseIP\<close> and the
  result of \<open>sort.Slice\<close>. The scanner is \<open>bufio.Scanner\<close> over lines: the terminator and one
  carriage return before it are dropped, and a line of 64 KiB or more is an error.
\<close>

section \<open>Definitions\<close>

record asnRange =
  ar_start :: int
  ar_end :: int
  ar_asn :: int
  ar_org :: string

text \<open>\<open>net.IP.To4\<close> and \<open>binary.BigEndian.Uint32\<close>.\<close>

definition To4 :: "bytes \<Rightarrow> bytes option" where
  "To4 ip =
     (if length ip = 4 then Some ip
      else if length ip = 16 \<and> take 10 ip = replicate 10 (char_of (0::nat))
           \<and> ip ! 10 = char_of (255::nat) \<and> ip ! 11 = char_of (255::nat)
      then Some (drop 12 ip)
      else None)"

definition BigEndian_Uint32 :: "bytes \<Rightarrow> int" where
  "BigEndian_Uint32 b = foldl (\<lambda>n c. n * 256 + of_char c) 0 (take 4 b)"

definition ipToU32 :: "(string \<Rightarrow> bytes option) \<Rightarrow> string \<Rightarrow> int option" where
  "ipToU32 ParseIP s =
     (case ParseIP s of
        None \<Rightarrow> None
      | Some ip \<Rightarrow> (case To4 ip of None \<Rightarrow> None | Some ip4 \<Rightarrow> Some (BigEndian_Uint32 ip4)))"

definition drop_cr :: "string \<Rightarrow> string" where
  "drop_cr s = (if s \<noteq> [] \<and> last s = CHR 0x0D then butlast s else s)"

definition scan_lines :: "bytes \<Rightarrow> goerror + string list" where
  "scan_lines content =
     (let parts = split_on CHR 0x0A content;
          raw = (if last parts = [] then butlast parts else parts)
      in if \<exists>l \<in> set raw. 65536 \<le> length l then Inl ''bufio.Scanner: token too long''
         else Inr (map drop_cr raw))"

text \<open>One turn of the loop of \<open>Load\<close>: the row of a line, if it is well formed.\<close>

definition parse_row :: "(string \<Rightarrow> bytes option) \<Rightarrow> string \<Rightarrow> asnRange option" where
  "parse_row ParseIP line =
     (if line = '''' \<or> has_prefix ''#'' line then None
      else
        let fields = split_on CHR 0x09 line
        in if length fields < 5 then None
           else case ipToU32 ParseIP (fields ! 0) of
             None \<Rightarrow> None
           | Some start \<Rightarrow>
               (case ipToU32 ParseIP (fields ! 1) of
                  None \<Rightarrow> None
                | Some end_ip \<Rightarrow>
                    (let (asnNum, err) = ParseUint 32 (fields ! 2)
                     in if err \<noteq> None then None
                        else Some \<lparr>ar_start = start, ar_end = end_ip, ar_asn = u32 (int asnNum),
                                   ar_org = fields ! 4\<rparr>)))"

definition parse_rows :: "(string \<Rightarrow> bytes option) \<Rightarrow> string list \<Rightarrow> asnRange list" where
  "parse_rows ParseIP ls = List.map_filter (parse_row ParseIP) ls"

definition Load ::
    "(string \<Rightarrow> bytes option) \<Rightarrow> (asnRange list \<Rightarrow> asnRange list) \<Rightarrow> goerror + bytes \<Rightarrow> goerror + asnRange list" where
  "Load ParseIP srt file =
     (case file of
        Inl err \<Rightarrow> Inl (''asn.Load: open '' @ err)
      | Inr content \<Rightarrow>
          (case scan_lines content of
             Inl err \<Rightarrow> Inl (''asn.Load: scan '' @ err)
           | Inr ls \<Rightarrow> Inr (srt (parse_rows ParseIP ls))))"

text \<open>The receiver may be a \<open>nil\<close> pointer. The result is \<open>None\<close> for \<open>ok = false\<close>.\<close>

definition Lookup :: "(string \<Rightarrow> bytes option) \<Rightarrow> asnRange list option \<Rightarrow> string \<Rightarrow> (int \<times> string) option" where
  "Lookup ParseIP l ip =
     (case l of
        None \<Rightarrow> None
      | Some ranges \<Rightarrow>
          (if ranges = [] then None
           else case ipToU32 ParseIP ip of
             None \<Rightarrow> None
           | Some addr \<Rightarrow>
               (let i = sort_Search (length ranges) (\<lambda>k. ar_start (ranges ! k) > addr)
                in if i = 0 then None
                   else let candidate = ranges ! (i - 1)
                     in if addr > ar_end candidate then None
                        else Some (ar_asn candidate, ar_org candidate))))"

text \<open>Rows of a well-formed table: each covers an interval, and no address is in two of them.\<close>

definition covers :: "asnRange \<Rightarrow> int \<Rightarrow> bool" where
  "covers r addr \<longleftrightarrow> ar_start r \<le> addr \<and> addr \<le> ar_end r"

definition disjoint_rows :: "asnRange list \<Rightarrow> bool" where
  "disjoint_rows rs \<longleftrightarrow>
     distinct rs \<and> (\<forall>r \<in> set rs. ar_start r \<le> ar_end r)
     \<and> (\<forall>r \<in> set rs. \<forall>r' \<in> set rs. r \<noteq> r' \<longrightarrow> ar_end r < ar_start r' \<or> ar_end r' < ar_start r)"

section \<open>Lemmas\<close>

lemma Lookup_candidate:
  assumes "sorted (map ar_start rs)" "ipToU32 P ip = Some addr"
  shows "Lookup P (Some rs) ip =
    (let below = filter (\<lambda>r. ar_start r \<le> addr) rs
     in if below = [] then None
        else if addr > ar_end (last below) then None else Some (ar_asn (last below), ar_org (last below)))"
proof (cases "rs = []")
  case False
  let ?B = "filter (\<lambda>r. ar_start r \<le> addr) rs"
  note S = sort_Search_length [OF assms(1), of addr]
  have "rs ! (length ?B - 1) = last ?B" if "?B \<noteq> []"
    using that S(2) by (metis One_nat_def diff_less last_conv_nth length_greater_0_conv nth_take zero_less_one)
  then show ?thesis using assms(2) False by (simp add: Lookup_def S(1) Let_def)
qed (simp add: Lookup_def)

lemma sorted_map_le_last: "sorted (map f xs) \<Longrightarrow> x \<in> set xs \<Longrightarrow> f x \<le> f (last xs)"
  by (induction xs rule: rev_induct) (auto simp: sorted_append)

lemma last_filter_below:
  assumes "sorted (map ar_start rs)" "disjoint_rows rs" "r \<in> set rs" "covers r addr"
  shows "last (filter (\<lambda>r. ar_start r \<le> addr) rs) = r"
proof -
  let ?B = "filter (\<lambda>r. ar_start r \<le> addr) rs"
  have r: "r \<in> set ?B" using assms(3,4) by (simp add: covers_def)
  then have ne: "?B \<noteq> []" by (metis empty_iff empty_set)
  have "last ?B \<in> set ?B" using ne by (rule last_in_set)
  then have l: "last ?B \<in> set rs" "ar_start (last ?B) \<le> addr" by simp_all
  have "sorted (map ar_start ?B)" using assms(1) by (rule sorted_filter)
  then have le: "ar_start r \<le> ar_start (last ?B)" using r by (rule sorted_map_le_last)
  show ?thesis
  proof (rule ccontr)
    assume n: "last ?B \<noteq> r"
    have "ar_end r < ar_start (last ?B) \<or> ar_end (last ?B) < ar_start r"
      using assms(2,3) l(1) n by (auto simp: disjoint_rows_def)
    moreover have "ar_start (last ?B) \<le> ar_end (last ?B)" using assms(2) l(1) by (auto simp: disjoint_rows_def)
    ultimately show False using le l(2) assms(4) by (auto simp: covers_def)
  qed
qed

lemma sorts_by_sort_key: "sorts_by key (sort_key key)"
  by (simp add: sorts_by_def)

section \<open>Properties\<close>

text \<open>C12: looking an address up in a loaded table is the linear search over the rows of the file: it
  finds exactly the row whose range contains the address, whatever order \<open>sort.Slice\<close> gives equal
  starts, and nothing when no row does or the address is not IPv4.\<close>

theorem Lookup_Load:
  assumes "sorts_by ar_start srt" "scan_lines content = Inr ls" "disjoint_rows (parse_rows P ls)"
  shows "\<exists>t. Load P srt (Inr content) = Inr t
    \<and> (\<forall>ip addr. ipToU32 P ip = Some addr \<longrightarrow>
        Lookup P (Some t) ip =
          map_option (\<lambda>r. (ar_asn r, ar_org r)) (List.find (\<lambda>r. covers r addr) (parse_rows P ls)))
    \<and> (\<forall>ip. ipToU32 P ip = None \<longrightarrow> Lookup P (Some t) ip = None)"
proof (intro exI conjI allI impI)
  let ?t = "srt (parse_rows P ls)"
  show "Load P srt (Inr content) = Inr ?t" using assms(2) by (simp add: Load_def)
  have ms: "mset ?t = mset (parse_rows P ls)" and s: "sorted (map ar_start ?t)"
    using assms(1) by (simp_all add: sorts_by_def)
  then have set_t: "set ?t = set (parse_rows P ls)" by (metis set_mset_mset)
  then have d: "disjoint_rows ?t" using assms(3) ms
    by (simp add: disjoint_rows_def) (metis mset_eq_imp_distinct_iff)
  fix ip
  show "Lookup P (Some ?t) ip = None" if "ipToU32 P ip = None"
    using that by (simp add: Lookup_def)
  fix addr assume ip: "ipToU32 P ip = Some addr"
  show "Lookup P (Some ?t) ip =
      map_option (\<lambda>r. (ar_asn r, ar_org r)) (List.find (\<lambda>r. covers r addr) (parse_rows P ls))"
  proof (cases "List.find (\<lambda>r. covers r addr) (parse_rows P ls)")
    case None
    then have n: "\<not> covers r addr" if "r \<in> set ?t" for r using that set_t by (simp add: find_None_iff)
    let ?B = "filter (\<lambda>r. ar_start r \<le> addr) ?t"
    have "addr > ar_end (last ?B)" if "?B \<noteq> []"
      using n [of "last ?B"] last_in_set [OF that] by (auto simp: covers_def)
    then show ?thesis by (simp add: Lookup_candidate [OF s ip] Let_def None)
  next
    case (Some r)
    then have r: "r \<in> set ?t" "covers r addr" using set_t by (auto simp: find_Some_iff)
    have "last (filter (\<lambda>r. ar_start r \<le> addr) ?t) = r" by (rule last_filter_below [OF s d r])
    moreover have "filter (\<lambda>r. ar_start r \<le> addr) ?t \<noteq> []" using r by (auto simp: filter_empty_conv covers_def)
    ultimately show ?thesis using r(2) using Some
      by (simp only: Lookup_candidate [OF s ip] Let_def) (simp add: covers_def)
  qed
qed

theorem Lookup_Load_witness:
  "\<exists>t. Load (\<lambda>s. if length s = 4 then Some s else None) (sort_key ar_start)
      (Inr (''aaaa'' @ [CHR 0x09] @ ''bbbb'' @ [CHR 0x09] @ ''64496'' @ [CHR 0x09] @ ''US'' @ [CHR 0x09] @ ''Org'')) = Inr t
    \<and> Lookup (\<lambda>s. if length s = 4 then Some s else None) (Some t) ''abcd'' = Some (64496, ''Org'')"
proof -
  let ?P = "\<lambda>s. if length s = 4 then Some s else None"
  let ?c = "''aaaa'' @ [CHR 0x09] @ ''bbbb'' @ [CHR 0x09] @ ''64496'' @ [CHR 0x09] @ ''US'' @ [CHR 0x09] @ ''Org''"
  have u: "ipToU32 ?P ''aaaa'' = Some 1633771873" "ipToU32 ?P ''bbbb'' = Some 1650614882"
    "ipToU32 ?P ''abcd'' = Some 1633837924"
    by (simp_all add: ipToU32_def To4_def BigEndian_Uint32_def)
  have s: "scan_lines ?c = Inr [?c]" by (simp add: scan_lines_def drop_cr_def)
  have r: "parse_rows ?P [?c] = [\<lparr>ar_start = 1633771873, ar_end = 1650614882, ar_asn = 64496, ar_org = ''Org''\<rparr>]"
    using u by (simp add: parse_rows_def map_filter_simps parse_row_def has_prefix_def ParseUint_def
        digit_val_def u32_def)
  have "disjoint_rows (parse_rows ?P [?c])" unfolding r by (simp add: disjoint_rows_def)
  from Lookup_Load [OF sorts_by_sort_key s this] u(3) show ?thesis
    unfolding r by (auto simp: covers_def)
qed

end
