(* ===== verification/Tables.thy ===== *)
theory Tables
  imports GoFloat "HOL-Library.Char_ord" "HOL-Library.List_Lexorder" "HOL-Library.Product_Lexorder"
begin

text \<open>
  \<open>pkg/db/sqlc\<close>: the tables of the SQLite schema and one definition per query of \<open>heights.sql.go\<close>,
  \<open>rounds.sql.go\<close>, \<open>votes.sql.go\<close>, \<open>validators.sql.go\<close>, \<open>validator_snapshots.sql.go\<close> and
  \<open>consensus_events.sql.go\<close>. A table is the list of its rows in insertion order, NULL is \<open>None\<close>, and a
  query is a function of the database. The schema is the one after both migrations, with its UNIQUE
  and FOREIGN KEY constraints; \<open>fk\<close> says whether the connection enforces foreign keys (the pragma
  is per connection). A violated constraint is an error and leaves the database unchanged.
  \<open>eng\<close> is what the engine supplies for a new row: its ID and the current timestamp. Where SQL
  leaves the order of equal rows open, the model keeps the table's order; the properties do not
  depend on it. Failures of the driver itself (I/O, cancelled contexts) are not modelled.
\<close>

section \<open>Rows (models.go)\<close>

record ConsensusEvent =
  ce_ID :: int
  ce_Height :: int
  ce_RoundNumber :: int
  ce_EventType :: string
  ce_EventData :: "string option"
  ce_Timestamp :: instant
  ce_CreatedAt :: "instant option"

record Height =
  h_Height :: int
  h_BlockHash :: "string option"
  h_BlockTime :: "instant option"
  h_ProposerAddress :: "address option"
  h_TotalValidators :: "int option"
  h_CreatedAt :: "instant option"

record Round =
  r_ID :: int
  r_Height :: int
  r_RoundNumber :: int
  r_Step :: "int option"
  r_StartTime :: "instant option"
  r_ProposerAddress :: "address option"
  r_CreatedAt :: "instant option"

record Validator =
  v_ID :: int
  v_OperatorAddress :: string
  v_HexAddress :: address
  v_PublicKey :: string
  v_VotingPower :: int
  v_Moniker :: "string option"
  v_CreatedAt :: "instant option"
  v_UpdatedAt :: "instant option"

record ValidatorSnapshot =
  s_ID :: int
  s_Height :: int
  s_ValidatorHexAddress :: address
  s_VotingPower :: int
  s_VotingPowerPercent :: "rat option"
  s_IsProposer :: "bool option"
  s_CreatedAt :: "instant option"

record VoteRow =
  vt_ID :: int
  vt_Height :: int
  vt_RoundNumber :: int
  vt_ValidatorHexAddress :: address
  vt_VoteType :: int
  vt_BlockHash :: "string option"
  vt_Signature :: "string option"
  vt_Timestamp :: "instant option"
  vt_CreatedAt :: "instant option"

record database =
  validators :: "Validator list"
  heights :: "Height list"
  rounds :: "Round list"
  votes :: "VoteRow list"
  consensus_events :: "ConsensusEvent list"
  validator_snapshots :: "ValidatorSnapshot list"

definition empty_database :: database where
  "empty_database = \<lparr>validators = [], heights = [], rounds = [], votes = [], consensus_events = [],
     validator_snapshots = []\<rparr>"

type_synonym engine = "int \<times> instant"

section \<open>Statements\<close>

definition ErrNoRows :: goerror where
  "ErrNoRows = ''sql: no rows in result set''"

definition ErrUnique :: goerror where
  "ErrUnique = ''UNIQUE constraint failed''"

definition ErrForeignKey :: goerror where
  "ErrForeignKey = ''FOREIGN KEY constraint failed''"

text \<open>\<open>ON CONFLICT (key) DO UPDATE\<close>: the row with the key is updated in place, otherwise the new row
  is inserted; the row is returned.\<close>

definition upsert_row :: "('a \<Rightarrow> bool) \<Rightarrow> ('a \<Rightarrow> 'a) \<Rightarrow> 'a \<Rightarrow> 'a list \<Rightarrow> 'a list \<times> 'a" where
  "upsert_row match upd new rows =
     (case find match rows of
        None \<Rightarrow> (rows @ [new], new)
      | Some r \<Rightarrow> (map (\<lambda>r. if match r then upd r else r) rows, upd r))"

definition update_rows :: "('a \<Rightarrow> bool) \<Rightarrow> ('a \<Rightarrow> 'a) \<Rightarrow> 'a list \<Rightarrow> 'a list" where
  "update_rows match upd rows = map (\<lambda>r. if match r then upd r else r) rows"

definition one_row :: "'a list \<Rightarrow> goerror + 'a" where
  "one_row rows = (case rows of [] \<Rightarrow> Inl ErrNoRows | r # _ \<Rightarrow> Inr r)"

definition limit_rows :: "int \<Rightarrow> 'a list \<Rightarrow> 'a list" where
  "limit_rows n rows = (if n < 0 then rows else take (nat n) rows)"

text \<open>References: to a height, to a validator, and to a validator unless NULL.\<close>

definition has_height :: "database \<Rightarrow> int \<Rightarrow> bool" where
  "has_height d h \<longleftrightarrow> (\<exists>r \<in> set (heights d). h_Height r = h)"

definition has_validator :: "database \<Rightarrow> address \<Rightarrow> bool" where
  "has_validator d a \<longleftrightarrow> (\<exists>v \<in> set (validators d). v_HexAddress v = a)"

definition ref_validator :: "database \<Rightarrow> address option \<Rightarrow> bool" where
  "ref_validator d a \<longleftrightarrow> (case a of None \<Rightarrow> True | Some a \<Rightarrow> has_validator d a)"

subsection \<open>heights.sql.go\<close>

record UpsertHeightParams =
  uh_Height :: int
  uh_BlockHash :: "string option"
  uh_BlockTime :: "instant option"
  uh_ProposerAddress :: "address option"
  uh_TotalValidators :: "int option"

definition new_height :: "engine \<Rightarrow> UpsertHeightParams \<Rightarrow> Height" where
  "new_height eng a =
     \<lparr>h_Height = uh_Height a, h_BlockHash = uh_BlockHash a, h_BlockTime = uh_BlockTime a,
      h_ProposerAddress = uh_ProposerAddress a, h_TotalValidators = uh_TotalValidators a,
      h_CreatedAt = Some (snd eng)\<rparr>"

definition CreateHeight ::
    "bool \<Rightarrow> engine \<Rightarrow> UpsertHeightParams \<Rightarrow> database \<Rightarrow> goerror + (database \<times> Height)" where
  "CreateHeight fk eng a d =
     (if has_height d (uh_Height a) then Inl ErrUnique
      else if fk \<and> \<not> ref_validator d (uh_ProposerAddress a) then Inl ErrForeignKey
      else Inr (d\<lparr>heights := heights d @ [new_height eng a]\<rparr>, new_height eng a))"

definition DeleteHeightsOlderThan :: "bool \<Rightarrow> int \<Rightarrow> database \<Rightarrow> goerror + database" where
  "DeleteHeightsOlderThan fk height d =
     (let gone = (\<lambda>h. h < height \<and> has_height d h)
      in if fk \<and> ((\<exists>r \<in> set (rounds d). gone (r_Height r)) \<or> (\<exists>v \<in> set (votes d). gone (vt_Height v))
             \<or> (\<exists>e \<in> set (consensus_events d). gone (ce_Height e))
             \<or> (\<exists>s \<in> set (validator_snapshots d). gone (s_Height s)))
         then Inl ErrForeignKey
         else Inr (d\<lparr>heights := filter (\<lambda>r. \<not> h_Height r < height) (heights d)\<rparr>))"

definition GetHeight :: "int \<Rightarrow> database \<Rightarrow> goerror + Height" where
  "GetHeight height d = one_row (filter (\<lambda>r. h_Height r = height) (heights d))"

definition heights_desc :: "database \<Rightarrow> Height list" where
  "heights_desc d = sort_key (\<lambda>r. - h_Height r) (heights d)"

definition GetHeights :: "int \<Rightarrow> database \<Rightarrow> Height list" where
  "GetHeights limit d = limit_rows limit (heights_desc d)"

definition GetLatestHeight :: "database \<Rightarrow> goerror + Height" where
  "GetLatestHeight d = one_row (heights_desc d)"

text \<open>\<open>MIN\<close> over no rows is NULL; a comparison with NULL does not select the row. SQLite compares the stored texts,
  which order like the instants when both are written in one format and zone; instants are compared here.\<close>

definition GetMinHeightAfterTime :: "instant option \<Rightarrow> database \<Rightarrow> int option" where
  "GetMinHeightAfterTime createdAt d =
     (let hs = map h_Height (filter (\<lambda>r. case (h_CreatedAt r, createdAt) of
                 (Some c, Some t) \<Rightarrow> c \<ge> t | _ \<Rightarrow> False) (heights d))
      in if hs = [] then None else Some (foldr min hs (hd hs)))"

definition UpsertHeight ::
    "bool \<Rightarrow> engine \<Rightarrow> UpsertHeightParams \<Rightarrow> database \<Rightarrow> goerror + (database \<times> Height)" where
  "UpsertHeight fk eng a d =
     (if fk \<and> \<not> ref_validator d (uh_ProposerAddress a) then Inl ErrForeignKey
      else
        let (hs, r) = upsert_row (\<lambda>r. h_Height r = uh_Height a)
              (\<lambda>r. r\<lparr>h_BlockHash := uh_BlockHash a, h_BlockTime := uh_BlockTime a,
                     h_ProposerAddress := uh_ProposerAddress a, h_TotalValidators := uh_TotalValidators a\<rparr>)
              (new_height eng a) (heights d)
        in Inr (d\<lparr>heights := hs\<rparr>, r))"

subsection \<open>rounds.sql.go\<close>

record UpsertRoundParams =
  ur_Height :: int
  ur_RoundNumber :: int
  ur_Step :: "int option"
  ur_StartTime :: "instant option"
  ur_ProposerAddress :: "address option"

definition new_round :: "engine \<Rightarrow> UpsertRoundParams \<Rightarrow> Round" where
  "new_round eng a =
     \<lparr>r_ID = fst eng, r_Height = ur_Height a, r_RoundNumber = ur_RoundNumber a, r_Step = ur_Step a,
      r_StartTime = ur_StartTime a, r_ProposerAddress = ur_ProposerAddress a,
      r_CreatedAt = Some (snd eng)\<rparr>"

definition is_round :: "int \<Rightarrow> int \<Rightarrow> Round \<Rightarrow> bool" where
  "is_round height rnd r \<longleftrightarrow> r_Height r = height \<and> r_RoundNumber r = rnd"

definition CreateRound ::
    "bool \<Rightarrow> engine \<Rightarrow> UpsertRoundParams \<Rightarrow> database \<Rightarrow> goerror + (database \<times> Round)" where
  "CreateRound fk eng a d =
     (if \<exists>r \<in> set (rounds d). is_round (ur_Height a) (ur_RoundNumber a) r then Inl ErrUnique
      else if fk \<and> \<not> (has_height d (ur_Height a) \<and> ref_validator d (ur_ProposerAddress a))
      then Inl ErrForeignKey
      else Inr (d\<lparr>rounds := rounds d @ [new_round eng a]\<rparr>, new_round eng a))"

definition DeleteRoundsOlderThan :: "int \<Rightarrow> database \<Rightarrow> database" where
  "DeleteRoundsOlderThan height d = d\<lparr>rounds := filter (\<lambda>r. \<not> r_Height r < height) (rounds d)\<rparr>"

definition rounds_desc :: "Round list \<Rightarrow> Round list" where
  "rounds_desc rs = sort_key (\<lambda>r. (- r_Height r, - r_RoundNumber r)) rs"

definition GetRecentRounds :: "int \<Rightarrow> database \<Rightarrow> Round list" where
  "GetRecentRounds limit d = limit_rows limit (rounds_desc (rounds d))"

definition GetRound :: "int \<Rightarrow> int \<Rightarrow> database \<Rightarrow> goerror + Round" where
  "GetRound height rnd d = one_row (filter (is_round height rnd) (rounds d))"

definition GetRoundsForHeight :: "int \<Rightarrow> database \<Rightarrow> Round list" where
  "GetRoundsForHeight height d = sort_key r_RoundNumber (filter (\<lambda>r. r_Height r = height) (rounds d))"

definition GetRoundsInRange :: "int \<Rightarrow> int \<Rightarrow> database \<Rightarrow> Round list" where
  "GetRoundsInRange height height2 d =
     rounds_desc (filter (\<lambda>r. r_Height r \<ge> height \<and> r_Height r \<le> height2) (rounds d))"

definition UpdateRoundStep ::
    "int option \<Rightarrow> int \<Rightarrow> int \<Rightarrow> database \<Rightarrow> goerror + (database \<times> Round)" where
  "UpdateRoundStep step height rnd d =
     (let rs = update_rows (is_round height rnd) (\<lambda>r. r\<lparr>r_Step := step\<rparr>) (rounds d)
      in case one_row (filter (is_round height rnd) rs) of
           Inl err \<Rightarrow> Inl err
         | Inr r \<Rightarrow> Inr (d\<lparr>rounds := rs\<rparr>, r))"

definition UpsertRound ::
    "bool \<Rightarrow> engine \<Rightarrow> UpsertRoundParams \<Rightarrow> database \<Rightarrow> goerror + (database \<times> Round)" where
  "UpsertRound fk eng a d =
     (if fk \<and> \<not> (has_height d (ur_Height a) \<and> ref_validator d (ur_ProposerAddress a))
      then Inl ErrForeignKey
      else
        let (rs, r) = upsert_row (is_round (ur_Height a) (ur_RoundNumber a))
              (\<lambda>r. r\<lparr>r_Step := ur_Step a, r_StartTime := ur_StartTime a,
                     r_ProposerAddress := ur_ProposerAddress a\<rparr>)
              (new_round eng a) (rounds d)
        in Inr (d\<lparr>rounds := rs\<rparr>, r))"

subsection \<open>votes.sql.go\<close>

record UpsertVoteParams =
  uv_Height :: int
  uv_RoundNumber :: int
  uv_ValidatorHexAddress :: address
  uv_VoteType :: int
  uv_BlockHash :: "string option"
  uv_Signature :: "string option"
  uv_Timestamp :: "instant option"

definition new_vote :: "engine \<Rightarrow> UpsertVoteParams \<Rightarrow> VoteRow" where
  "new_vote eng a =
     \<lparr>vt_ID = fst eng, vt_Height = uv_Height a, vt_RoundNumber = uv_RoundNumber a,
      vt_ValidatorHexAddress = uv_ValidatorHexAddress a, vt_VoteType = uv_VoteType a,
      vt_BlockHash = uv_BlockHash a, vt_Signature = uv_Signature a, vt_Timestamp = uv_Timestamp a,
      vt_CreatedAt = Some (snd eng)\<rparr>"

definition is_vote :: "int \<Rightarrow> int \<Rightarrow> address \<Rightarrow> int \<Rightarrow> VoteRow \<Rightarrow> bool" where
  "is_vote height rnd a t v \<longleftrightarrow> vt_Height v = height \<and> vt_RoundNumber v = rnd
     \<and> vt_ValidatorHexAddress v = a \<and> vt_VoteType v = t"

definition is_vote_of :: "UpsertVoteParams \<Rightarrow> VoteRow \<Rightarrow> bool" where
  "is_vote_of a = is_vote (uv_Height a) (uv_RoundNumber a) (uv_ValidatorHexAddress a) (uv_VoteType a)"

definition CreateVote ::
    "bool \<Rightarrow> engine \<Rightarrow> UpsertVoteParams \<Rightarrow> database \<Rightarrow> goerror + (database \<times> VoteRow)" where
  "CreateVote fk eng a d =
     (if \<exists>v \<in> set (votes d). is_vote_of a v then Inl ErrUnique
      else if fk \<and> \<not> (has_height d (uv_Height a) \<and> has_validator d (uv_ValidatorHexAddress a))
      then Inl ErrForeignKey
      else Inr (d\<lparr>votes := votes d @ [new_vote eng a]\<rparr>, new_vote eng a))"

definition DeleteVotesOlderThan :: "int \<Rightarrow> database \<Rightarrow> database" where
  "DeleteVotesOlderThan height d = d\<lparr>votes := filter (\<lambda>v. \<not> vt_Height v < height) (votes d)\<rparr>"

definition GetVote_row :: "int \<Rightarrow> int \<Rightarrow> address \<Rightarrow> int \<Rightarrow> database \<Rightarrow> goerror + VoteRow" where
  "GetVote_row height rnd a t d = one_row (filter (is_vote height rnd a t) (votes d))"

definition GetVotesByType :: "int \<Rightarrow> int \<Rightarrow> int \<Rightarrow> database \<Rightarrow> VoteRow list" where
  "GetVotesByType height rnd t d =
     sort_key vt_ValidatorHexAddress
       (filter (\<lambda>v. vt_Height v = height \<and> vt_RoundNumber v = rnd \<and> vt_VoteType v = t) (votes d))"

definition GetVotesForHeight :: "int \<Rightarrow> database \<Rightarrow> VoteRow list" where
  "GetVotesForHeight height d =
     sort_key (\<lambda>v. (vt_RoundNumber v, vt_VoteType v, vt_ValidatorHexAddress v))
       (filter (\<lambda>v. vt_Height v = height) (votes d))"

definition GetVotesForRound :: "int \<Rightarrow> int \<Rightarrow> database \<Rightarrow> VoteRow list" where
  "GetVotesForRound height rnd d =
     sort_key (\<lambda>v. (vt_VoteType v, vt_ValidatorHexAddress v))
       (filter (\<lambda>v. vt_Height v = height \<and> vt_RoundNumber v = rnd) (votes d))"

definition GetVotesForValidator :: "address \<Rightarrow> int \<Rightarrow> database \<Rightarrow> VoteRow list" where
  "GetVotesForValidator a height d =
     sort_key (\<lambda>v. (- vt_Height v, - vt_RoundNumber v))
       (filter (\<lambda>v. vt_ValidatorHexAddress v = a \<and> vt_Height v \<ge> height) (votes d))"

text \<open>The joined rows of a round, each vote with the snapshot of its validator at its height. \<open>SUM\<close>
  over no rows is NULL.\<close>

record GetVotingPowerForRoundRow =
  vp_PrevotePower :: "int option"
  vp_PrecommitPower :: "int option"
  vp_TotalPower :: int

definition vote_snapshots :: "int \<Rightarrow> int \<Rightarrow> database \<Rightarrow> (VoteRow \<times> ValidatorSnapshot) list" where
  "vote_snapshots height rnd d =
     filter (\<lambda>(v, vs). vt_ValidatorHexAddress v = s_ValidatorHexAddress vs \<and> vt_Height v = s_Height vs
               \<and> vt_Height v = height \<and> vt_RoundNumber v = rnd)
       (List.product (votes d) (validator_snapshots d))"

definition GetVotingPowerForRound :: "int \<Rightarrow> int \<Rightarrow> database \<Rightarrow> GetVotingPowerForRoundRow" where
  "GetVotingPowerForRound height rnd d =
     (let joined = vote_snapshots height rnd d;
          power = (\<lambda>t. if joined = [] then None
            else Some (\<Sum>(v, vs) \<leftarrow> joined. if vt_VoteType v = t \<and> vt_BlockHash v \<noteq> None then s_VotingPower vs else 0))
      in \<lparr>vp_PrevotePower = power 1, vp_PrecommitPower = power 2,
          vp_TotalPower = (\<Sum>vs \<leftarrow> filter (\<lambda>vs. s_Height vs = height) (validator_snapshots d). s_VotingPower vs)\<rparr>)"

definition UpsertVote ::
    "bool \<Rightarrow> engine \<Rightarrow> UpsertVoteParams \<Rightarrow> database \<Rightarrow> goerror + (database \<times> VoteRow)" where
  "UpsertVote fk eng a d =
     (if fk \<and> \<not> (has_height d (uv_Height a) \<and> has_validator d (uv_ValidatorHexAddress a))
      then Inl ErrForeignKey
      else
        let (vs, v) = upsert_row (is_vote_of a)
              (\<lambda>v. v\<lparr>vt_BlockHash := uv_BlockHash a, vt_Signature := uv_Signature a,
                     vt_Timestamp := uv_Timestamp a\<rparr>)
              (new_vote eng a) (votes d)
        in Inr (d\<lparr>votes := vs\<rparr>, v))"

subsection \<open>validators.sql.go\<close>

record UpsertValidatorParams =
  uw_OperatorAddress :: string
  uw_HexAddress :: address
  uw_PublicKey :: string
  uw_VotingPower :: int
  uw_Moniker :: "string option"

definition new_validator :: "engine \<Rightarrow> UpsertValidatorParams \<Rightarrow> Validator" where
  "new_validator eng a =
     \<lparr>v_ID = fst eng, v_OperatorAddress = uw_OperatorAddress a, v_HexAddress = uw_HexAddress a,
      v_PublicKey = uw_PublicKey a, v_VotingPower = uw_VotingPower a, v_Moniker = uw_Moniker a,
      v_CreatedAt = Some (snd eng), v_UpdatedAt = Some (snd eng)\<rparr>"

definition set_validator :: "engine \<Rightarrow> UpsertValidatorParams \<Rightarrow> Validator \<Rightarrow> Validator" where
  "set_validator eng a v =
     v\<lparr>v_OperatorAddress := uw_OperatorAddress a, v_PublicKey := uw_PublicKey a,
       v_VotingPower := uw_VotingPower a, v_Moniker := uw_Moniker a, v_UpdatedAt := Some (snd eng)\<rparr>"

definition CreateValidator ::
    "engine \<Rightarrow> UpsertValidatorParams \<Rightarrow> database \<Rightarrow> goerror + (database \<times> Validator)" where
  "CreateValidator eng a d =
     (if has_validator d (uw_HexAddress a) then Inl ErrUnique
      else Inr (d\<lparr>validators := validators d @ [new_validator eng a]\<rparr>, new_validator eng a))"

definition validator_referenced :: "database \<Rightarrow> address \<Rightarrow> bool" where
  "validator_referenced d a \<longleftrightarrow>
     (\<exists>h \<in> set (heights d). h_ProposerAddress h = Some a) \<or> (\<exists>r \<in> set (rounds d). r_ProposerAddress r = Some a)
     \<or> (\<exists>v \<in> set (votes d). vt_ValidatorHexAddress v = a)
     \<or> (\<exists>s \<in> set (validator_snapshots d). s_ValidatorHexAddress s = a)"

definition DeleteValidator :: "bool \<Rightarrow> address \<Rightarrow> database \<Rightarrow> goerror + database" where
  "DeleteValidator fk a d =
     (if fk \<and> has_validator d a \<and> validator_referenced d a then Inl ErrForeignKey
      else Inr (d\<lparr>validators := filter (\<lambda>v. v_HexAddress v \<noteq> a) (validators d)\<rparr>))"

definition GetValidator :: "address \<Rightarrow> database \<Rightarrow> goerror + Validator" where
  "GetValidator a d = one_row (filter (\<lambda>v. v_HexAddress v = a) (validators d))"

definition GetValidators :: "database \<Rightarrow> Validator list" where
  "GetValidators d = sort_key (\<lambda>v. - v_VotingPower v) (validators d)"

definition GetValidatorsByHeight :: "int \<Rightarrow> database \<Rightarrow> (Validator \<times> ValidatorSnapshot) list" where
  "GetValidatorsByHeight height d =
     sort_key (\<lambda>(v, vs). - s_VotingPower vs)
       (filter (\<lambda>(v, vs). v_HexAddress v = s_ValidatorHexAddress vs \<and> s_Height vs = height)
         (List.product (validators d) (validator_snapshots d)))"

definition UpdateValidator ::
    "engine \<Rightarrow> UpsertValidatorParams \<Rightarrow> database \<Rightarrow> goerror + (database \<times> Validator)" where
  "UpdateValidator eng a d =
     (let vs = update_rows (\<lambda>v. v_HexAddress v = uw_HexAddress a) (set_validator eng a) (validators d)
      in case one_row (filter (\<lambda>v. v_HexAddress v = uw_HexAddress a) vs) of
           Inl err \<Rightarrow> Inl err
         | Inr v \<Rightarrow> Inr (d\<lparr>validators := vs\<rparr>, v))"

definition UpsertValidator ::
    "engine \<Rightarrow> UpsertValidatorParams \<Rightarrow> database \<Rightarrow> goerror + (database \<times> Validator)" where
  "UpsertValidator eng a d =
     (let (vs, v) = upsert_row (\<lambda>v. v_HexAddress v = uw_HexAddress a) (set_validator eng a)
            (new_validator eng a) (validators d)
      in Inr (d\<lparr>validators := vs\<rparr>, v))"

subsection \<open>validator\_snapshots.sql.go\<close>

record UpsertValidatorSnapshotParams =
  us_Height :: int
  us_ValidatorHexAddress :: address
  us_VotingPower :: int
  us_VotingPowerPercent :: "rat option"
  us_IsProposer :: "bool option"

definition new_snapshot :: "engine \<Rightarrow> UpsertValidatorSnapshotParams \<Rightarrow> ValidatorSnapshot" where
  "new_snapshot eng a =
     \<lparr>s_ID = fst eng, s_Height = us_Height a, s_ValidatorHexAddress = us_ValidatorHexAddress a,
      s_VotingPower = us_VotingPower a, s_VotingPowerPercent = us_VotingPowerPercent a,
      s_IsProposer = us_IsProposer a, s_CreatedAt = Some (snd eng)\<rparr>"

definition is_snapshot :: "int \<Rightarrow> address \<Rightarrow> ValidatorSnapshot \<Rightarrow> bool" where
  "is_snapshot height a s \<longleftrightarrow> s_Height s = height \<and> s_ValidatorHexAddress s = a"

definition CreateValidatorSnapshot ::
    "bool \<Rightarrow> engine \<Rightarrow> UpsertValidatorSnapshotParams \<Rightarrow> database \<Rightarrow> goerror + (database \<times> ValidatorSnapshot)" where
  "CreateValidatorSnapshot fk eng a d =
     (if \<exists>s \<in> set (validator_snapshots d). is_snapshot (us_Height a) (us_ValidatorHexAddress a) s then Inl ErrUnique
      else if fk \<and> \<not> (has_height d (us_Height a) \<and> has_validator d (us_ValidatorHexAddress a))
      then Inl ErrForeignKey
      else Inr (d\<lparr>validator_snapshots := validator_snapshots d @ [new_snapshot eng a]\<rparr>, new_snapshot eng a))"

definition BatchCreateValidatorSnapshots ::
    "bool \<Rightarrow> engine \<Rightarrow> UpsertValidatorSnapshotParams \<Rightarrow> database \<Rightarrow> goerror + database" where
  "BatchCreateValidatorSnapshots fk eng a d =
     (case CreateValidatorSnapshot fk eng a d of Inl err \<Rightarrow> Inl err | Inr (d, _) \<Rightarrow> Inr d)"

definition DeleteValidatorSnapshotsOlderThan :: "int \<Rightarrow> database \<Rightarrow> database" where
  "DeleteValidatorSnapshotsOlderThan height d =
     d\<lparr>validator_snapshots := filter (\<lambda>s. \<not> s_Height s < height) (validator_snapshots d)\<rparr>"

definition GetValidatorSnapshot :: "int \<Rightarrow> address \<Rightarrow> database \<Rightarrow> goerror + ValidatorSnapshot" where
  "GetValidatorSnapshot height a d = one_row (filter (is_snapshot height a) (validator_snapshots d))"

definition GetValidatorSnapshotsForHeight :: "int \<Rightarrow> database \<Rightarrow> ValidatorSnapshot list" where
  "GetValidatorSnapshotsForHeight height d =
     sort_key (\<lambda>s. - s_VotingPower s) (filter (\<lambda>s. s_Height s = height) (validator_snapshots d))"

definition GetValidatorSnapshotsForValidator :: "address \<Rightarrow> int \<Rightarrow> database \<Rightarrow> ValidatorSnapshot list" where
  "GetValidatorSnapshotsForValidator a height d =
     sort_key (\<lambda>s. - s_Height s)
       (filter (\<lambda>s. s_ValidatorHexAddress s = a \<and> s_Height s \<ge> height) (validator_snapshots d))"

definition UpsertValidatorSnapshot ::
    "bool \<Rightarrow> engine \<Rightarrow> UpsertValidatorSnapshotParams \<Rightarrow> database \<Rightarrow> goerror + (database \<times> ValidatorSnapshot)" where
  "UpsertValidatorSnapshot fk eng a d =
     (if fk \<and> \<not> (has_height d (us_Height a) \<and> has_validator d (us_ValidatorHexAddress a))
      then Inl ErrForeignKey
      else
        let (ss, s) = upsert_row (is_snapshot (us_Height a) (us_ValidatorHexAddress a))
              (\<lambda>s. s\<lparr>s_VotingPower := us_VotingPower a, s_VotingPowerPercent := us_VotingPowerPercent a,
                     s_IsProposer := us_IsProposer a\<rparr>)
              (new_snapshot eng a) (validator_snapshots d)
        in Inr (d\<lparr>validator_snapshots := ss\<rparr>, s))"

subsection \<open>consensus\_events.sql.go\<close>

record CreateConsensusEventParams =
  ue_Height :: int
  ue_RoundNumber :: int
  ue_EventType :: string
  ue_EventData :: "string option"
  ue_Timestamp :: instant

definition new_event :: "engine \<Rightarrow> CreateConsensusEventParams \<Rightarrow> ConsensusEvent" where
  "new_event eng a =
     \<lparr>ce_ID = fst eng, ce_Height = ue_Height a, ce_RoundNumber = ue_RoundNumber a,
      ce_EventType = ue_EventType a, ce_EventData = ue_EventData a, ce_Timestamp = ue_Timestamp a,
      ce_CreatedAt = Some (snd eng)\<rparr>"

definition CreateConsensusEvent ::
    "bool \<Rightarrow> engine \<Rightarrow> CreateConsensusEventParams \<Rightarrow> database \<Rightarrow> goerror + (database \<times> ConsensusEvent)" where
  "CreateConsensusEvent fk eng a d =
     (if fk \<and> \<not> has_height d (ue_Height a) then Inl ErrForeignKey
      else Inr (d\<lparr>consensus_events := consensus_events d @ [new_event eng a]\<rparr>, new_event eng a))"

definition DeleteConsensusEventsOlderThan :: "int \<Rightarrow> database \<Rightarrow> database" where
  "DeleteConsensusEventsOlderThan height d =
     d\<lparr>consensus_events := filter (\<lambda>e. \<not> ce_Height e < height) (consensus_events d)\<rparr>"

definition GetConsensusEvent :: "int \<Rightarrow> database \<Rightarrow> goerror + ConsensusEvent" where
  "GetConsensusEvent key d = one_row (filter (\<lambda>e. ce_ID e = key) (consensus_events d))"

definition GetConsensusEventsByType :: "int \<Rightarrow> string \<Rightarrow> database \<Rightarrow> ConsensusEvent list" where
  "GetConsensusEventsByType height ty d =
     sort_key (\<lambda>e. (- ce_Height e, - ce_RoundNumber e, - ce_Timestamp e))
       (filter (\<lambda>e. ce_Height e \<ge> height \<and> ce_EventType e = ty) (consensus_events d))"

definition GetConsensusEventsForHeight :: "int \<Rightarrow> database \<Rightarrow> ConsensusEvent list" where
  "GetConsensusEventsForHeight height d =
     sort_key (\<lambda>e. (ce_RoundNumber e, ce_Timestamp e))
       (filter (\<lambda>e. ce_Height e = height) (consensus_events d))"

definition GetConsensusEventsForRound :: "int \<Rightarrow> int \<Rightarrow> database \<Rightarrow> ConsensusEvent list" where
  "GetConsensusEventsForRound height rnd d =
     sort_key ce_Timestamp
       (filter (\<lambda>e. ce_Height e = height \<and> ce_RoundNumber e = rnd) (consensus_events d))"

definition GetRecentConsensusEvents :: "int \<Rightarrow> database \<Rightarrow> ConsensusEvent list" where
  "GetRecentConsensusEvents limit d =
     limit_rows limit (sort_key (\<lambda>e. - ce_Timestamp e) (consensus_events d))"


section \<open>The schema's constraints\<close>

definition round_key :: "Round \<Rightarrow> int \<times> int" where
  "round_key r = (r_Height r, r_RoundNumber r)"

definition vote_key :: "VoteRow \<Rightarrow> int \<times> int \<times> address \<times> int" where
  "vote_key v = (vt_Height v, vt_RoundNumber v, vt_ValidatorHexAddress v, vt_VoteType v)"

definition snapshot_key :: "ValidatorSnapshot \<Rightarrow> int \<times> address" where
  "snapshot_key s = (s_Height s, s_ValidatorHexAddress s)"

text \<open>PRIMARY KEY and UNIQUE.\<close>

definition keys_ok :: "database \<Rightarrow> bool" where
  "keys_ok d \<longleftrightarrow> distinct (map h_Height (heights d)) \<and> distinct (map v_HexAddress (validators d))
     \<and> distinct (map round_key (rounds d)) \<and> distinct (map vote_key (votes d))
     \<and> distinct (map snapshot_key (validator_snapshots d))"

text \<open>FOREIGN KEY.\<close>

definition refs_ok :: "database \<Rightarrow> bool" where
  "refs_ok d \<longleftrightarrow>
     (\<forall>h \<in> set (heights d). ref_validator d (h_ProposerAddress h))
     \<and> (\<forall>r \<in> set (rounds d). has_height d (r_Height r) \<and> ref_validator d (r_ProposerAddress r))
     \<and> (\<forall>v \<in> set (votes d). has_height d (vt_Height v) \<and> has_validator d (vt_ValidatorHexAddress v))
     \<and> (\<forall>e \<in> set (consensus_events d). has_height d (ce_Height e))
     \<and> (\<forall>s \<in> set (validator_snapshots d). has_height d (s_Height s) \<and> has_validator d (s_ValidatorHexAddress s))"

definition schema_ok :: "database \<Rightarrow> bool" where
  "schema_ok d \<longleftrightarrow> keys_ok d \<and> refs_ok d"

section \<open>Lemmas\<close>

lemma upsert_row_keys:
  assumes "\<And>r. match r \<longleftrightarrow> key r = k" "\<And>r. key (upd r) = key r" "key new = k"
  shows "map key (fst (upsert_row match upd new rows)) =
    (if k \<in> key ` set rows then map key rows else map key rows @ [k])"
  using assms by (auto simp: upsert_row_def find_None_iff find_Some_iff comp_def if_distrib
      split: option.split intro!: map_cong) (metis image_eqI nth_mem)+

lemma upsert_row_distinct:
  assumes "\<And>r. match r \<longleftrightarrow> key r = k" "\<And>r. key (upd r) = key r" "key new = k" "distinct (map key rows)"
  shows "distinct (map key (fst (upsert_row match upd new rows)))"
  using upsert_row_keys [of match key k upd new rows] assms by auto

lemma upsert_row_set:
  "r \<in> set (fst (upsert_row match upd new rows)) \<Longrightarrow>
   r = new \<or> r \<in> set rows \<and> \<not> match r \<or> (\<exists>r' \<in> set rows. match r' \<and> r = upd r')"
  by (auto simp: upsert_row_def find_None_iff split: option.splits if_splits)

lemma upsert_row_keeps:
  "r \<in> set rows \<Longrightarrow> \<not> match r \<Longrightarrow> r \<in> set (fst (upsert_row match upd new rows))"
  by (auto simp: upsert_row_def split: option.splits)

lemma upsert_row_snd:
  "snd (upsert_row match upd new rows) = new \<or>
   (\<exists>r \<in> set rows. match r \<and> snd (upsert_row match upd new rows) = upd r)"
  by (auto simp: upsert_row_def find_Some_iff split: option.splits)

text \<open>Which references survive a change of the parent tables.\<close>

lemma upsert_row_key_mono:
  assumes "\<And>r. key (upd r) = key r" "k \<in> key ` set rows"
  shows "k \<in> key ` set (fst (upsert_row match upd new rows))"
proof -
  have "key ` (\<lambda>r. if match r then upd r else r) ` set rows = key ` set rows"
    unfolding image_image using assms(1) by (intro image_cong) simp_all
  then show ?thesis using assms(2) by (auto simp: upsert_row_def split: option.split)
qed

lemma has_height_image: "has_height d h \<longleftrightarrow> h \<in> h_Height ` set (heights d)"
  by (auto simp: has_height_def)

lemma has_validator_image: "has_validator d a \<longleftrightarrow> a \<in> v_HexAddress ` set (validators d)"
  by (auto simp: has_validator_def)

lemma has_height_upsert:
  "has_height d h \<Longrightarrow> (\<And>r. h_Height (upd r) = h_Height r) \<Longrightarrow> heights d' = fst (upsert_row match upd new (heights d)) \<Longrightarrow>
   has_height d' h"
  unfolding has_height_image by (simp add: upsert_row_key_mono)

lemma has_validator_upsert:
  "has_validator d a \<Longrightarrow> (\<And>r. v_HexAddress (upd r) = v_HexAddress r) \<Longrightarrow>
   validators d' = fst (upsert_row match upd new (validators d)) \<Longrightarrow> has_validator d' a"
  unfolding has_validator_image by (simp add: upsert_row_key_mono)

lemma new_height_key [simp]: "h_Height (new_height eng a) = uh_Height a"
  by (simp add: new_height_def)

lemma refs_ok_mono:
  assumes "refs_ok d" "\<And>h. has_height d h \<Longrightarrow> has_height d' h" "\<And>a. has_validator d a \<Longrightarrow> has_validator d' a"
    "\<And>h. h \<in> set (heights d') \<Longrightarrow> h \<in> set (heights d) \<or> ref_validator d' (h_ProposerAddress h)"
    "\<And>r. r \<in> set (rounds d') \<Longrightarrow> r \<in> set (rounds d) \<or> has_height d' (r_Height r) \<and> ref_validator d' (r_ProposerAddress r)"
    "\<And>v. v \<in> set (votes d') \<Longrightarrow> v \<in> set (votes d) \<or> has_height d' (vt_Height v) \<and> has_validator d' (vt_ValidatorHexAddress v)"
    "\<And>e. e \<in> set (consensus_events d') \<Longrightarrow> e \<in> set (consensus_events d) \<or> has_height d' (ce_Height e)"
    "\<And>s. s \<in> set (validator_snapshots d') \<Longrightarrow> s \<in> set (validator_snapshots d)
       \<or> has_height d' (s_Height s) \<and> has_validator d' (s_ValidatorHexAddress s)"
  shows "refs_ok d'"
proof -
  have "ref_validator d' a" if "ref_validator d a" for a
    using that assms(3) by (auto simp: ref_validator_def split: option.splits)
  with assms show ?thesis unfolding refs_ok_def by metis
qed

lemma UpsertHeight_ok:
  assumes "schema_ok d" "UpsertHeight True eng a d = Inr (d', r)"
  shows "schema_ok d'"
proof -
  let ?u = "\<lambda>r. r\<lparr>h_BlockHash := uh_BlockHash a, h_BlockTime := uh_BlockTime a,
      h_ProposerAddress := uh_ProposerAddress a, h_TotalValidators := uh_TotalValidators a\<rparr>"
  have d': "d' = d\<lparr>heights := fst (upsert_row (\<lambda>r. h_Height r = uh_Height a) ?u (new_height eng a) (heights d))\<rparr>"
    and ref: "ref_validator d (uh_ProposerAddress a)"
    using assms(2) by (auto simp: UpsertHeight_def split: if_splits prod.splits)
  have "distinct (map h_Height (heights d'))"
    unfolding d' using assms(1) upsert_row_distinct [of "\<lambda>r. h_Height r = uh_Height a" h_Height "uh_Height a" ?u
        "new_height eng a" "heights d"]
    by (simp add: schema_ok_def keys_ok_def)
  then have "keys_ok d'" using assms(1) by (simp add: schema_ok_def keys_ok_def d')
  moreover have "refs_ok d'"
  proof (rule refs_ok_mono)
    show "refs_ok d" using assms(1) by (simp add: schema_ok_def)
    show "has_height d' h" if "has_height d h" for h
      using that by (rule has_height_upsert) (auto simp: d')
    show "h \<in> set (heights d) \<or> ref_validator d' (h_ProposerAddress h)" if "h \<in> set (heights d')" for h
      using upsert_row_set [of h] that ref
      by (fastforce simp: d' new_height_def ref_validator_def has_validator_def split: option.splits)
  qed (auto simp: d' has_validator_def has_height_def)
  ultimately show ?thesis by (simp add: schema_ok_def)
qed

lemma UpsertRound_ok:
  assumes "schema_ok d" "UpsertRound True eng a d = Inr (d', r)"
  shows "schema_ok d'"
proof -
  let ?u = "\<lambda>r. r\<lparr>r_Step := ur_Step a, r_StartTime := ur_StartTime a, r_ProposerAddress := ur_ProposerAddress a\<rparr>"
  let ?m = "is_round (ur_Height a) (ur_RoundNumber a)"
  have d': "d' = d\<lparr>rounds := fst (upsert_row ?m ?u (new_round eng a) (rounds d))\<rparr>"
    and ref: "has_height d (ur_Height a)" "ref_validator d (ur_ProposerAddress a)"
    using assms(2) by (auto simp: UpsertRound_def split: if_splits prod.splits)
  have "distinct (map round_key (rounds d'))"
    unfolding d' using assms(1) upsert_row_distinct [of ?m round_key "(ur_Height a, ur_RoundNumber a)" ?u]
    by (simp add: schema_ok_def keys_ok_def new_round_def round_key_def is_round_def)
  then have "keys_ok d'" using assms(1) by (simp add: schema_ok_def keys_ok_def d')
  moreover have "refs_ok d'"
  proof (rule refs_ok_mono)
    show "refs_ok d" using assms(1) by (simp add: schema_ok_def)
    show "r \<in> set (rounds d) \<or> has_height d' (r_Height r) \<and> ref_validator d' (r_ProposerAddress r)"
      if "r \<in> set (rounds d')" for r
      using upsert_row_set [of r] that ref
      by (fastforce simp: d' new_round_def is_round_def ref_validator_def has_validator_def has_height_def
          split: option.splits)
  qed (auto simp: d' has_validator_def has_height_def)
  ultimately show ?thesis by (simp add: schema_ok_def)
qed

lemma UpsertVote_ok:
  assumes "schema_ok d" "UpsertVote True eng a d = Inr (d', r)"
  shows "schema_ok d'"
proof -
  let ?u = "\<lambda>v. v\<lparr>vt_BlockHash := uv_BlockHash a, vt_Signature := uv_Signature a, vt_Timestamp := uv_Timestamp a\<rparr>"
  have d': "d' = d\<lparr>votes := fst (upsert_row (is_vote_of a) ?u (new_vote eng a) (votes d))\<rparr>"
    and ref: "has_height d (uv_Height a)" "has_validator d (uv_ValidatorHexAddress a)"
    using assms(2) by (auto simp: UpsertVote_def split: if_splits prod.splits)
  have "distinct (map vote_key (votes d'))"
    unfolding d' using assms(1) upsert_row_distinct [of "is_vote_of a" vote_key
        "(uv_Height a, uv_RoundNumber a, uv_ValidatorHexAddress a, uv_VoteType a)" ?u]
    by (simp add: schema_ok_def keys_ok_def new_vote_def vote_key_def is_vote_of_def is_vote_def)
  then have "keys_ok d'" using assms(1) by (simp add: schema_ok_def keys_ok_def d')
  moreover have "refs_ok d'"
  proof (rule refs_ok_mono)
    show "refs_ok d" using assms(1) by (simp add: schema_ok_def)
    show "v \<in> set (votes d) \<or> has_height d' (vt_Height v) \<and> has_validator d' (vt_ValidatorHexAddress v)"
      if "v \<in> set (votes d')" for v
      using upsert_row_set [of v] that ref
      by (fastforce simp: d' new_vote_def is_vote_of_def is_vote_def has_validator_def has_height_def)
  qed (auto simp: d' has_validator_def has_height_def)
  ultimately show ?thesis by (simp add: schema_ok_def)
qed

lemma UpsertValidator_ok:
  assumes "schema_ok d" "UpsertValidator eng a d = Inr (d', r)"
  shows "schema_ok d'"
proof -
  let ?m = "\<lambda>v. v_HexAddress v = uw_HexAddress a"
  have d': "d' = d\<lparr>validators := fst (upsert_row ?m (set_validator eng a) (new_validator eng a) (validators d))\<rparr>"
    using assms(2) by (auto simp: UpsertValidator_def split: prod.splits)
  have "distinct (map v_HexAddress (validators d'))"
    unfolding d' using assms(1) upsert_row_distinct [of ?m v_HexAddress "uw_HexAddress a" "set_validator eng a"]
    by (simp add: schema_ok_def keys_ok_def new_validator_def set_validator_def)
  then have "keys_ok d'" using assms(1) by (simp add: schema_ok_def keys_ok_def d')
  moreover have "refs_ok d'"
  proof (rule refs_ok_mono)
    show "refs_ok d" using assms(1) by (simp add: schema_ok_def)
    show "has_validator d' x" if "has_validator d x" for x
      using that by (rule has_validator_upsert) (auto simp: d' set_validator_def)
  qed (auto simp: d' has_height_def)
  ultimately show ?thesis by (simp add: schema_ok_def)
qed

lemma UpsertValidatorSnapshot_ok:
  assumes "schema_ok d" "UpsertValidatorSnapshot True eng a d = Inr (d', r)"
  shows "schema_ok d'"
proof -
  let ?m = "is_snapshot (us_Height a) (us_ValidatorHexAddress a)"
  let ?u = "\<lambda>s. s\<lparr>s_VotingPower := us_VotingPower a, s_VotingPowerPercent := us_VotingPowerPercent a,
      s_IsProposer := us_IsProposer a\<rparr>"
  have d': "d' = d\<lparr>validator_snapshots := fst (upsert_row ?m ?u (new_snapshot eng a) (validator_snapshots d))\<rparr>"
    and ref: "has_height d (us_Height a)" "has_validator d (us_ValidatorHexAddress a)"
    using assms(2) by (auto simp: UpsertValidatorSnapshot_def split: if_splits prod.splits)
  have "distinct (map snapshot_key (validator_snapshots d'))"
    unfolding d' using assms(1) upsert_row_distinct [of ?m snapshot_key "(us_Height a, us_ValidatorHexAddress a)" ?u]
    by (simp add: schema_ok_def keys_ok_def new_snapshot_def snapshot_key_def is_snapshot_def)
  then have "keys_ok d'" using assms(1) by (simp add: schema_ok_def keys_ok_def d')
  moreover have "refs_ok d'"
  proof (rule refs_ok_mono)
    show "refs_ok d" using assms(1) by (simp add: schema_ok_def)
    show "s \<in> set (validator_snapshots d) \<or> has_height d' (s_Height s) \<and> has_validator d' (s_ValidatorHexAddress s)"
      if "s \<in> set (validator_snapshots d')" for s
      using upsert_row_set [of s] that ref
      by (fastforce simp: d' new_snapshot_def is_snapshot_def has_validator_def has_height_def)
  qed (auto simp: d' has_validator_def has_height_def)
  ultimately show ?thesis by (simp add: schema_ok_def)
qed

lemma CreateConsensusEvent_ok:
  assumes "schema_ok d" "CreateConsensusEvent True eng a d = Inr (d', r)"
  shows "schema_ok d'"
proof -
  have d': "d' = d\<lparr>consensus_events := consensus_events d @ [new_event eng a]\<rparr>"
    and ref: "has_height d (ue_Height a)"
    using assms(2) by (auto simp: CreateConsensusEvent_def split: if_splits)
  have "refs_ok d'"
    by (rule refs_ok_mono [of d])
       (use assms(1) ref in \<open>auto simp: d' schema_ok_def has_height_def has_validator_def new_event_def\<close>)
  then show ?thesis using assms(1) by (simp add: schema_ok_def keys_ok_def d')
qed

end
