(* ===== verification/Queries.thy ===== *)
theory Queries
  imports Tables
begin

text \<open>
  The reporting queries of \<open>pkg/db/sqlc\<close>: \<open>analytics.sql.go\<close>, \<open>analytics_live.sql.go\<close> and
  \<open>debug.sql.go\<close>, as functions of the database. Joins are lists of combined rows (\<open>left_join\<close>
  yields one row with NULLs when nothing matches), \<open>GROUP BY\<close> is \<open>group_rows\<close> (SQL leaves the order
  of the groups open, no caller depends on it), window functions number the rows of a list. A column
  that Go scans into an \<open>interface\<close> is an \<open>sql_value\<close>. What only the engine knows is an argument
  (\<open>sql_env\<close>): \<open>ROUND(x, 2)\<close>, \<open>AVG\<close> (its summation order is the engine's), \<open>julianday\<close> and \<open>datetime\<close> on stored timestamps, and \<open>LIKE\<close>.
  The specification of the gaps-and-islands query is the reference function \<open>runs\<close>.
\<close>

section \<open>Building blocks\<close>

datatype sql_value = SqlNull | SqlInt int | SqlFloat rat | SqlText string | SqlTime instant

record sql_env =
  sq_round2 :: "rat \<Rightarrow> rat"
  sq_avg :: "rat list \<Rightarrow> rat"
  sq_julianday :: "instant \<Rightarrow> rat option"
  sq_hour :: "instant \<Rightarrow> string option"
  sq_like :: "string \<Rightarrow> string \<Rightarrow> bool"
  sq_lower :: "string \<Rightarrow> string"

text \<open>\<open>COALESCE(ROUND(100.0 * n / NULLIF(m, 0), 2), 0.0)\<close>.\<close>

definition percent2 :: "sql_env \<Rightarrow> int \<Rightarrow> int \<Rightarrow> rat" where
  "percent2 Q n m =
     (if m = 0 then 0 else sq_round2 Q (fdiv (fmul 100 (float_of_int n)) (float_of_int m)))"

definition left_join :: "'a list \<Rightarrow> 'a option list" where
  "left_join xs = (if xs = [] then [None] else map Some xs)"

definition group_rows :: "('a \<Rightarrow> 'k) \<Rightarrow> 'a list \<Rightarrow> ('k \<times> 'a list) list" where
  "group_rows key xs = map (\<lambda>k. (k, filter (\<lambda>x. key x = k) xs)) (remdups (map key xs))"

definition count_rows :: "('a \<Rightarrow> bool) \<Rightarrow> 'a list \<Rightarrow> int" where
  "count_rows P xs = int (length (filter P xs))"

definition count_distinct :: "'a list \<Rightarrow> int" where
  "count_distinct xs = int (length (remdups xs))"

text \<open>\<open>MIN\<close> and \<open>MAX\<close>, NULL over no rows.\<close>

definition min_of :: "'a::linorder list \<Rightarrow> 'a option" where
  "min_of xs = (case xs of [] \<Rightarrow> None | x # xs \<Rightarrow> Some (foldl min x xs))"

definition max_of :: "'a::linorder list \<Rightarrow> 'a option" where
  "max_of xs = (case xs of [] \<Rightarrow> None | x # xs \<Rightarrow> Some (foldl max x xs))"

definition sql_int :: "int option \<Rightarrow> sql_value" where
  "sql_int x = (case x of None \<Rightarrow> SqlNull | Some i \<Rightarrow> SqlInt i)"

definition sql_time :: "instant option \<Rightarrow> sql_value" where
  "sql_time x = (case x of None \<Rightarrow> SqlNull | Some t \<Rightarrow> SqlTime t)"

text \<open>\<open>block_time >= ? AND block_time <= ?\<close>; a comparison with NULL does not select.\<close>

definition time_in :: "instant option \<Rightarrow> instant option \<Rightarrow> instant option \<Rightarrow> bool" where
  "time_in t1 t2 t = (case (t1, t2, t) of (Some a, Some b, Some t) \<Rightarrow> t \<ge> a \<and> t \<le> b | _ \<Rightarrow> False)"

definition window_heights :: "instant option \<Rightarrow> instant option \<Rightarrow> database \<Rightarrow> Height list" where
  "window_heights t1 t2 d = filter (\<lambda>h. time_in t1 t2 (h_BlockTime h)) (heights d)"

definition height_range :: "int \<Rightarrow> int \<Rightarrow> database \<Rightarrow> Height list" where
  "height_range lo hi d = filter (\<lambda>h. h_Height h \<ge> lo \<and> h_Height h \<le> hi) (heights d)"

definition votes_at :: "address \<Rightarrow> int \<Rightarrow> database \<Rightarrow> VoteRow list" where
  "votes_at a h d = filter (\<lambda>v. vt_Height v = h \<and> vt_ValidatorHexAddress v = a) (votes d)"

text \<open>\<open>heights h LEFT JOIN votes v ON h.height = v.height AND v.validator_hex_address = a\<close>.\<close>

definition heights_votes :: "address \<Rightarrow> Height list \<Rightarrow> database \<Rightarrow> (Height \<times> VoteRow option) list" where
  "heights_votes a hs d = concat (map (\<lambda>h. map (Pair h) (left_join (votes_at a (h_Height h) d))) hs)"

section \<open>analytics\_live.sql.go\<close>

definition GetMaxStoredHeight_q :: "database \<Rightarrow> sql_value" where
  "GetMaxStoredHeight_q d = SqlInt (case max_of (map h_Height (heights d)) of None \<Rightarrow> 0 | Some h \<Rightarrow> h)"

definition GetProposerPerformanceByHeight :: "int \<Rightarrow> int \<Rightarrow> database \<Rightarrow> (address option \<times> int) list" where
  "GetProposerPerformanceByHeight lo hi d =
     map (\<lambda>(a, rs). (a, int (length rs)))
       (group_rows r_ProposerAddress
         (filter (\<lambda>r. r_Height r \<ge> lo \<and> r_Height r \<le> hi \<and> r_ProposerAddress r \<noteq> None) (rounds d)))"

record ranking_row =
  rk_HexAddress :: address
  rk_Moniker :: "string option"
  rk_TotalBlocks :: int
  rk_BlocksSigned :: int
  rk_BlocksMissed :: int
  rk_SigningEfficiency :: sql_value
  rk_PrevotesCast :: int
  rk_PrecommitsCast :: int
  rk_VotingPower :: sql_value

text \<open>The joined rows of a validator and the metrics of its group. Grouping the cross join by
  address and moniker gives one group per validator row, because the address is unique.\<close>

definition validator_join ::
    "Height list \<Rightarrow> database \<Rightarrow> Validator \<Rightarrow> (Height \<times> VoteRow option \<times> ValidatorSnapshot option) list" where
  "validator_join hs d val =
     concat (map (\<lambda>h. concat (map (\<lambda>v. map (\<lambda>s. (h, v, s))
         (left_join (filter (\<lambda>s. s_ValidatorHexAddress s = v_HexAddress val \<and> s_Height s = h_Height h)
            (validator_snapshots d))))
       (left_join (votes_at (v_HexAddress val) (h_Height h) d)))) hs)"

definition voted :: "int \<Rightarrow> VoteRow option \<Rightarrow> bool" where
  "voted t v \<longleftrightarrow> (case v of None \<Rightarrow> False | Some v \<Rightarrow> vt_VoteType v = t)"

definition validator_metrics :: "sql_env \<Rightarrow> Height list \<Rightarrow> database \<Rightarrow> Validator \<Rightarrow> ranking_row" where
  "validator_metrics Q hs d val =
     (let rows = validator_join hs d val;
          tot = count_distinct (map (\<lambda>(h, v, s). h_Height h) rows);
          signed = count_distinct (map (\<lambda>(h, v, s). h_Height h) (filter (\<lambda>(h, v, s). v \<noteq> None) rows))
      in \<lparr>rk_HexAddress = v_HexAddress val, rk_Moniker = v_Moniker val, rk_TotalBlocks = tot,
          rk_BlocksSigned = signed, rk_BlocksMissed = tot - signed,
          rk_SigningEfficiency = SqlFloat (percent2 Q signed tot),
          rk_PrevotesCast = count_rows (\<lambda>(h, v, s). voted 1 v) rows,
          rk_PrecommitsCast = count_rows (\<lambda>(h, v, s). voted 2 v) rows,
          rk_VotingPower = SqlInt (case max_of (List.map_filter (\<lambda>(h, v, s). map_option s_VotingPower s) rows) of
             None \<Rightarrow> 0 | Some p \<Rightarrow> p)\<rparr>)"

definition float_of_sql :: "sql_value \<Rightarrow> rat" where
  "float_of_sql x = (case x of SqlFloat q \<Rightarrow> q | SqlInt i \<Rightarrow> of_int i | _ \<Rightarrow> 0)"

definition all_metrics :: "sql_env \<Rightarrow> Height list \<Rightarrow> database \<Rightarrow> ranking_row list" where
  "all_metrics Q hs d = (if hs = [] then [] else map (validator_metrics Q hs d) (validators d))"

definition GetValidatorRankingByHeight :: "sql_env \<Rightarrow> int \<Rightarrow> int \<Rightarrow> database \<Rightarrow> ranking_row list" where
  "GetValidatorRankingByHeight Q lo hi d =
     sort_key (\<lambda>r. - float_of_sql (rk_SigningEfficiency r)) (all_metrics Q (height_range lo hi d) d)"

record arrival_row =
  ar_HexAddress :: address
  ar_VoteType :: int
  ar_Samples :: int
  ar_AvgSecs :: sql_value
  ar_MaxSecs :: sql_value

definition arrival_secs :: "sql_env \<Rightarrow> VoteRow \<times> Round \<Rightarrow> rat option" where
  "arrival_secs Q = (\<lambda>(v, r).
     Option.bind (Option.bind (vt_Timestamp v) (sq_julianday Q)) (\<lambda>t.
       map_option (\<lambda>s. fmul (fsub t s) 86400) (Option.bind (r_StartTime r) (sq_julianday Q))))"

definition avg_of :: "sql_env \<Rightarrow> rat list \<Rightarrow> rat option" where
  "avg_of Q xs = (if xs = [] then None else Some (sq_avg Q xs))"

definition sql_float0 :: "rat option \<Rightarrow> sql_value" where
  "sql_float0 x = SqlFloat (case x of None \<Rightarrow> 0 | Some q \<Rightarrow> q)"

definition GetVoteArrivalByHeight_q :: "sql_env \<Rightarrow> int \<Rightarrow> int \<Rightarrow> database \<Rightarrow> arrival_row list" where
  "GetVoteArrivalByHeight_q Q lo hi d =
     map (\<lambda>((a, t), rows). \<lparr>ar_HexAddress = a, ar_VoteType = t, ar_Samples = int (length rows),
            ar_AvgSecs = sql_float0 (avg_of Q (List.map_filter (arrival_secs Q) rows)),
            ar_MaxSecs = sql_float0 (max_of (List.map_filter (arrival_secs Q) rows))\<rparr>)
       (group_rows (\<lambda>(v, r). (vt_ValidatorHexAddress v, vt_VoteType v))
         (filter (\<lambda>(v, r). vt_Height v = r_Height r \<and> vt_RoundNumber v = r_RoundNumber r
                    \<and> vt_Height v \<ge> lo \<and> vt_Height v \<le> hi \<and> vt_Timestamp v \<noteq> None \<and> r_StartTime r \<noteq> None)
           (List.product (votes d) (rounds d))))"

section \<open>analytics.sql.go\<close>

record efficiency_row =
  se_HexAddress :: address
  se_Moniker :: "string option"
  se_TotalBlocks :: int
  se_BlocksSigned :: rat
  se_BlocksMissed :: int
  se_SigningEfficiency :: sql_value

definition participated :: "database \<Rightarrow> address \<Rightarrow> Height \<Rightarrow> int" where
  "participated d a h = (if votes_at a (h_Height h) d \<noteq> [] then 1 else 0)"

definition GetAllValidatorsSigningEfficiency ::
    "sql_env \<Rightarrow> instant option \<Rightarrow> instant option \<Rightarrow> database \<Rightarrow> efficiency_row list" where
  "GetAllValidatorsSigningEfficiency Q t1 t2 d =
     (let hs = window_heights t1 t2 d
      in sort_key (\<lambda>r. - float_of_sql (se_SigningEfficiency r))
           (if hs = [] then []
            else map (\<lambda>val.
              let n = int (length hs); signed = sum_list (map (participated d (v_HexAddress val)) hs)
              in \<lparr>se_HexAddress = v_HexAddress val, se_Moniker = v_Moniker val, se_TotalBlocks = n,
                  se_BlocksSigned = of_int signed, se_BlocksMissed = n - signed,
                  se_SigningEfficiency = SqlFloat (percent2 Q signed n)\<rparr>) (validators d)))"

record proposer_row =
  pp_TotalProposingOpportunities :: int
  pp_BlocksProposedByValidator :: int
  pp_ProposalShareRate :: sql_value

definition GetProposerPerformance ::
    "sql_env \<Rightarrow> address option \<Rightarrow> instant option \<Rightarrow> instant option \<Rightarrow> database \<Rightarrow> proposer_row" where
  "GetProposerPerformance Q a t1 t2 d =
     (let rows = filter (\<lambda>(r, h). r_Height r = h_Height h) (List.product (rounds d) (window_heights t1 t2 d));
          mine = count_rows (\<lambda>(r, h). a \<noteq> None \<and> r_ProposerAddress r = a) rows
      in \<lparr>pp_TotalProposingOpportunities = int (length rows), pp_BlocksProposedByValidator = mine,
          pp_ProposalShareRate = SqlFloat (percent2 Q mine (int (length rows)))\<rparr>)"

record participation_row =
  cp_TotalRounds :: sql_value
  cp_RoundsWithPrevote :: sql_value
  cp_RoundsWithPrecommit :: sql_value
  cp_PrevoteRate :: sql_value
  cp_PrecommitRate :: sql_value

text \<open>The groups of the common table expression: one per round in the window, with its prevotes and
  precommits of the validator. \<open>SUM\<close> over no rows is NULL, coalesced to 0.\<close>

definition vote_participation ::
    "address \<Rightarrow> instant option \<Rightarrow> instant option \<Rightarrow> database \<Rightarrow> (int \<times> int) list" where
  "vote_participation a t1 t2 d =
     (let joined = concat (map (\<lambda>r. map (Pair r) (left_join (filter (\<lambda>v. vt_Height v = r_Height r
                \<and> vt_RoundNumber v = r_RoundNumber r \<and> vt_ValidatorHexAddress v = a) (votes d)))) (rounds d));
          rows = filter (\<lambda>(r, v). \<exists>h \<in> set (window_heights t1 t2 d). h_Height h = r_Height r) joined
      in map (\<lambda>(k, rs). (count_rows (\<lambda>(r, v). voted 1 v) rs, count_rows (\<lambda>(r, v). voted 2 v) rs))
           (group_rows (\<lambda>(r, v). (r_Height r, r_RoundNumber r)) rows))"

definition GetValidatorConsensusParticipation ::
    "sql_env \<Rightarrow> address \<Rightarrow> instant option \<Rightarrow> instant option \<Rightarrow> database \<Rightarrow> participation_row" where
  "GetValidatorConsensusParticipation Q a t1 t2 d =
     (let gs = vote_participation a t1 t2 d; n = int (length gs);
          pv = count_rows (\<lambda>(p, c). p > 0) gs; pc = count_rows (\<lambda>(p, c). c > 0) gs
      in \<lparr>cp_TotalRounds = SqlInt n, cp_RoundsWithPrevote = SqlInt pv, cp_RoundsWithPrecommit = SqlInt pc,
          cp_PrevoteRate = SqlFloat (percent2 Q pv n), cp_PrecommitRate = SqlFloat (percent2 Q pc n)\<rparr>)"

record streak_row =
  ms_ConsecutiveMisses :: int
  ms_StreakStartHeight :: sql_value
  ms_StreakEndHeight :: sql_value
  ms_StreakStartTime :: sql_value
  ms_StreakEndTime :: sql_value

text \<open>\<open>ROW_NUMBER() OVER (ORDER BY height)\<close> numbers the joined rows; the missed ones are numbered
  again, and the difference of the two numbers is constant on a streak.\<close>

definition block_sequence ::
    "address \<Rightarrow> instant option \<Rightarrow> instant option \<Rightarrow> database \<Rightarrow> (Height \<times> bool) list" where
  "block_sequence a t1 t2 d =
     map (\<lambda>(h, v). (h, v = None)) (heights_votes a (sort_key h_Height (window_heights t1 t2 d)) d)"

definition miss_groups :: "(Height \<times> bool) list \<Rightarrow> (int \<times> Height) list" where
  "miss_groups rows =
     (let numbered = zip [1..int (length rows)] rows;
          missed = filter (\<lambda>(rn, h, m). m) numbered
      in map (\<lambda>(i, rn, h, m). (rn - i, h)) (zip [1..int (length missed)] missed))"

definition streak_of :: "Height list \<Rightarrow> streak_row" where
  "streak_of hs =
     \<lparr>ms_ConsecutiveMisses = int (length hs), ms_StreakStartHeight = sql_int (min_of (map h_Height hs)),
      ms_StreakEndHeight = sql_int (max_of (map h_Height hs)),
      ms_StreakStartTime = sql_time (min_of (List.map_filter h_BlockTime hs)),
      ms_StreakEndTime = sql_time (max_of (List.map_filter h_BlockTime hs))\<rparr>"

definition GetValidatorMissedBlockStreaks ::
    "address \<Rightarrow> instant option \<Rightarrow> instant option \<Rightarrow> database \<Rightarrow> streak_row list" where
  "GetValidatorMissedBlockStreaks a t1 t2 d =
     sort_key (\<lambda>s. - ms_ConsecutiveMisses s)
       (map (\<lambda>(g, rows). streak_of (map snd rows)) (group_rows fst (miss_groups (block_sequence a t1 t2 d))))"

record series_row =
  ts_TimeBucket :: sql_value
  ts_BlocksInBucket :: int
  ts_BlocksSigned :: rat
  ts_BlocksMissed :: sql_value
  ts_SigningEfficiency :: sql_value

definition sql_text :: "string option \<Rightarrow> sql_value" where
  "sql_text x = (case x of None \<Rightarrow> SqlNull | Some s \<Rightarrow> SqlText s)"

text \<open>A bucket counts the joined rows, so a height with two votes of the validator counts twice.\<close>

definition GetValidatorPerformanceTimeSeries ::
    "sql_env \<Rightarrow> address \<Rightarrow> instant option \<Rightarrow> instant option \<Rightarrow> database \<Rightarrow> series_row list" where
  "GetValidatorPerformanceTimeSeries Q a t1 t2 d =
     map (\<lambda>(b, rows).
         let n = int (length rows); signed = count_rows (\<lambda>(h, v). v \<noteq> None) rows
         in \<lparr>ts_TimeBucket = sql_text b, ts_BlocksInBucket = n, ts_BlocksSigned = of_int signed,
             ts_BlocksMissed = SqlInt (n - signed), ts_SigningEfficiency = SqlFloat (percent2 Q signed n)\<rparr>)
       (sort_key (\<lambda>(b, rows). case b of None \<Rightarrow> '''' | Some s \<Rightarrow> s)
         (group_rows (\<lambda>(h, v). Option.bind (h_BlockTime h) (sq_hour Q))
           (heights_votes a (window_heights t1 t2 d) d)))"

text \<open>\<open>RANK()\<close>: one more than the number of rows strictly before.\<close>

definition ranks_before :: "ranking_row \<Rightarrow> ranking_row \<Rightarrow> bool" where
  "ranks_before x y \<longleftrightarrow>
     float_of_sql (rk_SigningEfficiency x) > float_of_sql (rk_SigningEfficiency y)
     \<or> float_of_sql (rk_SigningEfficiency x) = float_of_sql (rk_SigningEfficiency y)
       \<and> float_of_sql (rk_VotingPower x) > float_of_sql (rk_VotingPower y)"

definition GetValidatorRanking ::
    "sql_env \<Rightarrow> instant option \<Rightarrow> instant option \<Rightarrow> database \<Rightarrow> (ranking_row \<times> sql_value) list" where
  "GetValidatorRanking Q t1 t2 d =
     (let rows = all_metrics Q (window_heights t1 t2 d) d;
          rank = (\<lambda>r. 1 + count_rows (\<lambda>x. ranks_before x r) rows)
      in sort_key (\<lambda>(r, k). float_of_sql k) (map (\<lambda>r. (r, SqlInt (rank r))) rows))"

record signing_row =
  si_TotalBlocks :: sql_value
  si_BlocksSigned :: sql_value
  si_BlocksMissed :: sql_value
  si_SigningEfficiency :: sql_value

definition GetValidatorSigningEfficiency ::
    "sql_env \<Rightarrow> address \<Rightarrow> instant option \<Rightarrow> instant option \<Rightarrow> database \<Rightarrow> signing_row" where
  "GetValidatorSigningEfficiency Q a t1 t2 d =
     (let gs = group_rows (\<lambda>(h, v). (h_Height h, h_BlockTime h)) (heights_votes a (window_heights t1 t2 d) d);
          part = map (\<lambda>(k, rows). if count_rows (\<lambda>(h, v). v \<noteq> None) rows > 0 then 1 else 0) gs;
          n = int (length gs); signed = sum_list part
      in \<lparr>si_TotalBlocks = SqlInt n, si_BlocksSigned = SqlInt signed, si_BlocksMissed = SqlInt (n - signed),
          si_SigningEfficiency = SqlFloat (percent2 Q signed n)\<rparr>)"

record uptime_row =
  up_TotalBlocksInWindow :: int
  up_BlocksParticipated :: int
  up_BlocksMissed :: sql_value
  up_UptimePercentage :: sql_value
  up_WindowStart :: sql_value
  up_WindowEnd :: sql_value

definition GetValidatorUptime_q ::
    "sql_env \<Rightarrow> address \<Rightarrow> instant option \<Rightarrow> instant option \<Rightarrow> database \<Rightarrow> uptime_row" where
  "GetValidatorUptime_q Q a t1 t2 d =
     (let rows = heights_votes a (window_heights t1 t2 d) d;
          tot = count_distinct (map (\<lambda>(h, v). h_Height h) rows);
          part = count_distinct (map (\<lambda>(h, v). h_Height h) (filter (\<lambda>(h, v). v \<noteq> None) rows));
          times = List.map_filter (\<lambda>(h, v). h_BlockTime h) rows
      in \<lparr>up_TotalBlocksInWindow = tot, up_BlocksParticipated = part, up_BlocksMissed = SqlInt (tot - part),
          up_UptimePercentage = SqlFloat (percent2 Q part tot),
          up_WindowStart = sql_time (min_of times), up_WindowEnd = sql_time (max_of times)\<rparr>)"

section \<open>debug.sql.go\<close>

definition CountValidators :: "database \<Rightarrow> int" where
  "CountValidators d = int (length (validators d))"

definition CountHeights :: "database \<Rightarrow> int" where
  "CountHeights d = int (length (heights d))"

definition CountRounds :: "database \<Rightarrow> int" where
  "CountRounds d = int (length (rounds d))"

definition CountVotes :: "database \<Rightarrow> int" where
  "CountVotes d = int (length (votes d))"

definition CountValidatorSnapshots :: "database \<Rightarrow> int" where
  "CountValidatorSnapshots d = int (length (validator_snapshots d))"

definition CountConsensusEvents :: "database \<Rightarrow> int" where
  "CountConsensusEvents d = int (length (consensus_events d))"

definition CountHeightsInTimeWindow :: "instant option \<Rightarrow> instant option \<Rightarrow> database \<Rightarrow> int" where
  "CountHeightsInTimeWindow t1 t2 d = int (length (window_heights t1 t2 d))"

text \<open>The joined rows of the votes of an operator with their heights.\<close>

definition operator_votes :: "string \<Rightarrow> Height list \<Rightarrow> database \<Rightarrow> (VoteRow \<times> Height) list" where
  "operator_votes oper hs d =
     concat (map (\<lambda>v. concat (map (\<lambda>h. map (\<lambda>_. (v, h))
         (filter (\<lambda>val. v_HexAddress val = vt_ValidatorHexAddress v \<and> v_OperatorAddress val = oper) (validators d)))
       (filter (\<lambda>h. h_Height h = vt_Height v) hs))) (votes d))"

definition CountVotesForValidatorInTimeWindow :: "string \<Rightarrow> instant option \<Rightarrow> instant option \<Rightarrow> database \<Rightarrow> int" where
  "CountVotesForValidatorInTimeWindow oper t1 t2 d =
     int (length (operator_votes oper (window_heights t1 t2 d) d))"

definition ListAllValidators :: "database \<Rightarrow> (string \<times> string option) list" where
  "ListAllValidators d =
     map (\<lambda>v. (v_OperatorAddress v, v_Moniker v)) (sort_key v_OperatorAddress (validators d))"

definition SampleHeights :: "database \<Rightarrow> (int \<times> instant option \<times> address option) list" where
  "SampleHeights d = map (\<lambda>h. (h_Height h, h_BlockTime h, h_ProposerAddress h)) (take 5 (heights_desc d))"

definition SampleValidators :: "database \<Rightarrow> (string \<times> string option \<times> int) list" where
  "SampleValidators d = map (\<lambda>v. (v_OperatorAddress v, v_Moniker v, v_VotingPower v)) (take 5 (validators d))"

definition SampleVotes :: "database \<Rightarrow> (int \<times> int \<times> address \<times> int \<times> instant option) list" where
  "SampleVotes d =
     map (\<lambda>v. (vt_Height v, vt_RoundNumber v, vt_ValidatorHexAddress v, vt_VoteType v, vt_Timestamp v))
       (take 5 (votes d))"

definition SampleVotesForValidator ::
    "string \<Rightarrow> int \<Rightarrow> database \<Rightarrow> (int \<times> int \<times> int \<times> instant option \<times> instant option) list" where
  "SampleVotesForValidator oper limit d =
     map (\<lambda>(v, h). (vt_Height v, vt_RoundNumber v, vt_VoteType v, vt_Timestamp v, h_BlockTime h))
       (limit_rows limit (sort_key (\<lambda>(v, h). - vt_Height v) (operator_votes oper (heights d) d)))"

definition SearchValidatorsByOperatorOrMoniker ::
    "sql_env \<Rightarrow> string \<Rightarrow> string \<Rightarrow> database \<Rightarrow> (string \<times> string option \<times> int) list" where
  "SearchValidatorsByOperatorOrMoniker Q oper moniker d =
     map (\<lambda>v. (v_OperatorAddress v, v_Moniker v, v_VotingPower v))
       (sort_key v_OperatorAddress
         (filter (\<lambda>v. sq_like Q (v_OperatorAddress v) oper
            \<or> (case v_Moniker v of None \<Rightarrow> False | Some m \<Rightarrow> sq_like Q (sq_lower Q m) (sq_lower Q moniker)))
           (validators d)))"

definition ValidatorExistsByOperator :: "string \<Rightarrow> database \<Rightarrow> int" where
  "ValidatorExistsByOperator oper d = count_rows (\<lambda>v. v_OperatorAddress v = oper) (validators d)"

section \<open>Specification\<close>

text \<open>The maximal runs of consecutive elements that satisfy a predicate.\<close>

function runs :: "('a \<Rightarrow> bool) \<Rightarrow> 'a list \<Rightarrow> 'a list list" where
  "runs P xs =
     (case dropWhile (\<lambda>x. \<not> P x) xs of
        [] \<Rightarrow> []
      | y # ys \<Rightarrow> (y # takeWhile P ys) # runs P (dropWhile P ys))"
  by pat_completeness auto
termination
proof (relation "measure (\<lambda>(P, xs). length xs)")
  fix P :: "'a \<Rightarrow> bool" and xs y ys
  assume "dropWhile (\<lambda>x. \<not> P x) xs = y # ys"
  then have "Suc (length ys) \<le> length xs" by (metis length_Cons length_dropWhile_le)
  then show "((P, dropWhile P ys), (P, xs)) \<in> measure (\<lambda>(P, xs). length xs)"
    using length_dropWhile_le [of P ys] by simp
qed simp

declare runs.simps [simp del]

section \<open>Lemmas\<close>

subsection \<open>Gaps and islands\<close>

lemma runs_Nil [simp]: "runs P [] = []"
  by (simp add: runs.simps)

lemma runs_skip: "\<not> P x \<Longrightarrow> runs P (x # xs) = runs P xs"
  by (subst (1 2) runs.simps) simp

lemma runs_take: "P x \<Longrightarrow> runs P (x # xs) = (x # takeWhile P xs) # runs P (dropWhile P xs)"
  by (subst runs.simps) simp

fun islands :: "int \<Rightarrow> int \<Rightarrow> ('a \<times> bool) list \<Rightarrow> (int \<times> 'a) list" where
  "islands rn i [] = []"
| "islands rn i ((h, m) # rows) =
     (if m then (rn - i, h) # islands (rn + 1) (i + 1) rows else islands (rn + 1) i rows)"

fun number_from :: "int \<Rightarrow> 'a list \<Rightarrow> (int \<times> 'a) list" where
  "number_from i [] = []"
| "number_from i (x # xs) = (i, x) # number_from (i + 1) xs"

lemma zip_number_from: "zip [i..i + int (length xs) - 1] xs = number_from i xs"
proof (induction xs arbitrary: i)
  case (Cons x xs)
  have "[i..i + int (length (x # xs)) - 1] = i # [i + 1..i + 1 + int (length xs) - 1]"
    by (simp add: upto_rec1 add.assoc)
  then show ?case using Cons.IH [of "i + 1"] by (simp only: zip_Cons_Cons number_from.simps)
qed simp

lemma islands_numbered:
  "map (\<lambda>(i, rn, h, m). (rn - i, h)) (number_from i (filter (\<lambda>(rn, h, m). m) (number_from rn rows))) = islands rn i rows"
  by (induction rows arbitrary: rn i) auto

lemma miss_groups_islands: "miss_groups rows = islands 1 1 rows"
proof -
  have z: "zip [1..int (length xs)] xs = number_from 1 xs" for xs :: "'a list"
    using zip_number_from [of 1 xs] by simp
  show ?thesis by (simp only: miss_groups_def Let_def z islands_numbered)
qed

lemma islands_skip: "\<forall>x \<in> set xs. \<not> snd x \<Longrightarrow> islands rn i (xs @ ys) = islands (rn + int (length xs)) i ys"
  by (induction xs arbitrary: rn) (auto simp: add_ac)

lemma islands_run:
  "\<forall>x \<in> set xs. snd x \<Longrightarrow>
   islands rn i (xs @ ys) = map (\<lambda>x. (rn - i, fst x)) xs @ islands (rn + int (length xs)) (i + int (length xs)) ys"
  by (induction xs arbitrary: rn i) (auto simp: add_ac)

lemma islands_keys: "k \<in> fst ` set (islands rn i rows) \<Longrightarrow> rn - i \<le> k"
  by (induction rn i rows arbitrary: k rule: islands.induct) (fastforce split: if_splits)+

lemma remdups_replicate: "k \<notin> set ks \<Longrightarrow> 0 < n \<Longrightarrow> remdups (replicate n k @ ks) = k # remdups ks"
  by (induction n) (auto split: if_splits)

lemma group_rows_append:
  assumes "\<forall>x \<in> set xs. key x = k" "xs \<noteq> []" "k \<notin> key ` set ys"
  shows "group_rows key (xs @ ys) = (k, xs) # group_rows key ys"
proof -
  have "map key xs = replicate (length xs) k" using assms(1) by (induction xs) auto
  then have keys: "remdups (map key (xs @ ys)) = k # remdups (map key ys)"
    using remdups_replicate [of k "map key ys" "length xs"] assms(2,3) by simp
  have "filter (\<lambda>x. key x = k) (xs @ ys) = xs" using assms(1,3) by (force simp: filter_empty_conv)
  moreover have "filter (\<lambda>x. key x = k') (xs @ ys) = filter (\<lambda>x. key x = k') ys" if "k' \<in> set (remdups (map key ys))" for k'
    using that assms(1,3) by (auto simp: filter_empty_conv)
  ultimately show ?thesis by (simp add: group_rows_def keys del: map_append filter_append)
qed

lemma islands_groups:
  "map (\<lambda>(g, rs). map snd rs) (group_rows fst (islands rn i rows)) = map (map fst) (runs snd rows)"
proof (induction "snd :: ('a \<times> bool) \<Rightarrow> bool" rows arbitrary: rn i rule: runs.induct)
  case (1 rows)
  let ?skip = "takeWhile (\<lambda>x. \<not> snd x) rows"
  have rows: "rows = ?skip @ dropWhile (\<lambda>x. \<not> snd x) rows" by simp
  have skip: "\<forall>x \<in> set ?skip. \<not> snd x" using set_takeWhileD by fastforce
  have isl: "islands rn i rows = islands (rn + int (length ?skip)) i (dropWhile (\<lambda>x. \<not> snd x) rows)"
    using islands_skip [OF skip, of rn i "dropWhile (\<lambda>x. \<not> snd x) rows"] by simp
  show ?case
  proof (cases "dropWhile (\<lambda>x. \<not> snd x) rows")
    case Nil
    have "runs snd rows = []" by (subst runs.simps) (simp only: Nil list.case)
    then show ?thesis by (simp only: isl Nil) (simp add: group_rows_def)
  next
    case (Cons y ys)
    let ?rn = "rn + int (length ?skip)"
    let ?run = "y # takeWhile snd ys"
    let ?rest = "dropWhile snd ys"
    have y: "snd y" using Cons hd_dropWhile [of "\<lambda>x. \<not> snd x" rows] by simp
    have run: "\<forall>x \<in> set ?run. snd x" using y by (auto dest: set_takeWhileD)
    let ?A = "map (\<lambda>x. (?rn - i, fst x)) ?run"
    let ?B = "islands (?rn + int (length ?run)) (i + int (length ?run)) ?rest"
    have AB: "islands rn i rows = ?A @ ?B"
      unfolding isl Cons using islands_run [OF run, of ?rn i ?rest] by simp
    have "?rn - i \<notin> fst ` set ?B"
    proof (cases ?rest)
      case Nil
      then show ?thesis by (simp only: Nil islands.simps) simp
    next
      case (Cons z zs)
      then have "\<not> snd z" using hd_dropWhile [of snd ys] by simp
      then have "?B = islands (?rn + int (length ?run) + 1) (i + int (length ?run)) zs" using Cons by (cases z) simp
      then show ?thesis using islands_keys [of "?rn - i" "?rn + int (length ?run) + 1" "i + int (length ?run)" zs] by auto
    qed
    then have "group_rows fst (islands rn i rows) = (?rn - i, ?A) # group_rows fst ?B"
      unfolding AB by (intro group_rows_append) auto
    moreover have "runs snd rows = ?run # runs snd ?rest" using Cons by (subst runs.simps) simp
    ultimately show ?thesis using 1 [OF Cons, of "?rn + int (length ?run)" "i + int (length ?run)"] by (simp add: comp_def)
  qed
qed

lemma marked_while:
  assumes "\<forall>h. P h \<longrightarrow> g h = [(h, True)]" "\<forall>h. \<not> P h \<longrightarrow> g h \<noteq> [] \<and> (\<forall>x \<in> set (g h). \<not> snd x)"
  shows "takeWhile snd (concat (map g hs)) = map (\<lambda>h. (h, True)) (takeWhile P hs)"
    and "dropWhile snd (concat (map g hs)) = concat (map g (dropWhile P hs))"
    and "dropWhile (\<lambda>x. \<not> snd x) (concat (map g hs)) = concat (map g (dropWhile (\<lambda>h. \<not> P h) hs))"
proof -
  have voted: "\<exists>y ys. g h = y # ys \<and> \<not> snd y" if "\<not> P h" for h
    using assms(2) that by (cases "g h") auto
  have skip: "dropWhile (\<lambda>x. \<not> snd x) (g h @ xs) = dropWhile (\<lambda>x. \<not> snd x) xs" if "\<not> P h" for h xs
    using assms(2) that by (simp add: dropWhile_append1 dropWhile_append)
  show "takeWhile snd (concat (map g hs)) = map (\<lambda>h. (h, True)) (takeWhile P hs)"
  proof (induction hs)
    case (Cons h hs)
    then show ?case using assms(1) voted [of h] by (cases "P h") auto
  qed simp
  show "dropWhile snd (concat (map g hs)) = concat (map g (dropWhile P hs))"
  proof (induction hs)
    case (Cons h hs)
    then show ?case using assms(1) voted [of h] by (cases "P h") auto
  qed simp
  show "dropWhile (\<lambda>x. \<not> snd x) (concat (map g hs)) = concat (map g (dropWhile (\<lambda>h. \<not> P h) hs))"
  proof (induction hs)
    case (Cons h hs)
    then show ?case using assms(1) skip [of h] by (cases "P h") auto
  qed simp
qed

lemma runs_marked:
  assumes "\<forall>h. P h \<longrightarrow> g h = [(h, True)]" "\<forall>h. \<not> P h \<longrightarrow> g h \<noteq> [] \<and> (\<forall>x \<in> set (g h). \<not> snd x)"
  shows "map (map fst) (runs snd (concat (map g hs))) = runs P hs"
proof (induction "length hs" arbitrary: hs rule: less_induct)
  case less
  note while = marked_while [OF assms]
  show ?case
  proof (cases "dropWhile (\<lambda>h. \<not> P h) hs")
    case Nil
    then have "runs P hs = []" by (subst runs.simps) (simp only: list.case)
    moreover have "dropWhile (\<lambda>x. \<not> snd x) (concat (map g hs)) = []" using while(3) [of hs] Nil by (simp only: list.map concat.simps)
    then have "runs snd (concat (map g hs)) = []" by (subst runs.simps) (simp only: list.case)
    ultimately show ?thesis by simp
  next
    case (Cons y ys)
    then have y: "P y" using hd_dropWhile [of "\<lambda>h. \<not> P h" hs] by simp
    have "runs P hs = (y # takeWhile P ys) # runs P (dropWhile P ys)" using Cons by (subst runs.simps) simp
    moreover have "dropWhile (\<lambda>x. \<not> snd x) (concat (map g hs)) = (y, True) # concat (map g ys)"
      using while(3) [of hs] Cons y assms(1) by simp
    then have "runs snd (concat (map g hs)) =
        ((y, True) # map (\<lambda>h. (h, True)) (takeWhile P ys)) # runs snd (concat (map g (dropWhile P ys)))"
      by (subst runs.simps) (simp add: while(1,2))
    moreover have "length (dropWhile P ys) < length hs"
      using length_dropWhile_le [of P ys] length_dropWhile_le [of "\<lambda>h. \<not> P h" hs] Cons by simp
    ultimately show ?thesis using less [of "dropWhile P ys"] by (simp add: comp_def)
  qed
qed

lemma block_sequence_concat:
  "block_sequence a t1 t2 d = concat (map (\<lambda>h. map (\<lambda>v. (h, v = None)) (left_join (votes_at a (h_Height h) d)))
     (sort_key h_Height (window_heights t1 t2 d)))"
  by (simp add: block_sequence_def heights_votes_def map_concat comp_def)

lemma missed_streaks_runs:
  "GetValidatorMissedBlockStreaks a t1 t2 d =
     sort_key (\<lambda>s. - ms_ConsecutiveMisses s)
       (map streak_of (runs (\<lambda>h. votes_at a (h_Height h) d = []) (sort_key h_Height (window_heights t1 t2 d))))"
proof -
  let ?g = "\<lambda>h. map (\<lambda>v. (h, v = None)) (left_join (votes_at a (h_Height h) d))"
  have "map (\<lambda>(g, rs). map snd rs) (group_rows fst (miss_groups (block_sequence a t1 t2 d))) =
      map (map fst) (runs snd (concat (map ?g (sort_key h_Height (window_heights t1 t2 d)))))"
    by (simp only: miss_groups_islands islands_groups block_sequence_concat)
  also have "\<dots> = runs (\<lambda>h. votes_at a (h_Height h) d = []) (sort_key h_Height (window_heights t1 t2 d))"
    by (rule runs_marked) (auto simp: left_join_def)
  finally have "map (\<lambda>(g, rs). map snd rs) (group_rows fst (miss_groups (block_sequence a t1 t2 d))) =
      runs (\<lambda>h. votes_at a (h_Height h) d = []) (sort_key h_Height (window_heights t1 t2 d))" .
  moreover have "map (\<lambda>(g, rs). streak_of (map snd rs)) X = map streak_of (map (\<lambda>(g, rs). map snd rs) X)"
    for X :: "(int \<times> (int \<times> Height) list) list"
    by (simp add: comp_def case_prod_unfold)
  ultimately show ?thesis by (simp only: GetValidatorMissedBlockStreaks_def)
qed

subsection \<open>Counting in joins\<close>

lemma count_distinct_card: "count_distinct xs = int (card (set xs))"
  by (simp add: count_distinct_def length_remdups_card_conv)

lemma left_join_ne [simp]: "left_join xs \<noteq> []"
  by (simp add: left_join_def)

lemma Some_left_join: "Some x \<in> set (left_join xs) \<longleftrightarrow> x \<in> set xs"
  by (auto simp: left_join_def)

lemma set_left_join_ex: "(\<exists>v \<in> set (left_join xs). P v) \<longleftrightarrow> (if xs = [] then P None else \<exists>x \<in> set xs. P (Some x))"
  by (simp add: left_join_def)

lemma validator_join_mem:
  "(h, v, s) \<in> set (validator_join hs d val) \<longleftrightarrow> h \<in> set hs
     \<and> v \<in> set (left_join (votes_at (v_HexAddress val) (h_Height h) d))
     \<and> s \<in> set (left_join (filter (\<lambda>s. s_ValidatorHexAddress s = v_HexAddress val \<and> s_Height s = h_Height h)
          (validator_snapshots d)))"
  by (auto simp: validator_join_def)

lemma left_join_ex: "\<exists>x. x \<in> set (left_join xs)"
  using left_join_ne [of xs] by (cases "left_join xs") auto

lemma votes_joined: "(\<exists>v \<in> set (left_join xs). v \<noteq> None) \<longleftrightarrow> xs \<noteq> []"
  by (cases xs) (auto simp: left_join_def)

lemma validator_join_heights: "fst ` set (validator_join hs d val) = set hs"
proof -
  have "(\<exists>v s. (h, v, s) \<in> set (validator_join hs d val)) \<longleftrightarrow> h \<in> set hs" for h
    by (simp add: validator_join_mem left_join_ex)
  moreover have "fst ` S = {h. \<exists>v s. (h, v, s) \<in> S}" for S :: "(Height \<times> VoteRow option \<times> ValidatorSnapshot option) set"
    by force
  ultimately show ?thesis by simp
qed

lemma validator_join_signed:
  "fst ` {x \<in> set (validator_join hs d val). fst (snd x) \<noteq> None} =
     {h \<in> set hs. votes_at (v_HexAddress val) (h_Height h) d \<noteq> []}"
proof -
  have "(\<exists>v s. (h, v, s) \<in> set (validator_join hs d val) \<and> v \<noteq> None) \<longleftrightarrow>
      h \<in> set hs \<and> votes_at (v_HexAddress val) (h_Height h) d \<noteq> []" for h
    by (auto simp: validator_join_mem left_join_ex votes_joined [symmetric])
  then show ?thesis by (auto simp: set_eq_iff image_iff)
qed

lemma map_triple: "map (\<lambda>(h, v, s). f h) xs = map (f \<circ> fst) xs"
  by (simp add: case_prod_unfold comp_def)

lemma filter_triple: "filter (\<lambda>(h, v, s). P v) xs = filter (\<lambda>x. P (fst (snd x))) xs"
  by (simp add: case_prod_unfold)

lemma validator_metrics_counts:
  "rk_TotalBlocks (validator_metrics Q hs d val) = int (card (h_Height ` set hs))"
  "rk_BlocksSigned (validator_metrics Q hs d val) =
     int (card (h_Height ` {h \<in> set hs. votes_at (v_HexAddress val) (h_Height h) d \<noteq> []}))"
proof -
  let ?rows = "validator_join hs d val"
  have "set (map (\<lambda>(h, v, s). h_Height h) ?rows) = h_Height ` set hs"
    unfolding map_triple by (simp only: set_map image_comp [symmetric] validator_join_heights)
  then show "rk_TotalBlocks (validator_metrics Q hs d val) = int (card (h_Height ` set hs))"
    by (simp only: validator_metrics_def Let_def ranking_row.simps count_distinct_card)
  have "set (map (\<lambda>(h, v, s). h_Height h) (filter (\<lambda>(h, v, s). v \<noteq> None) ?rows)) =
      h_Height ` {h \<in> set hs. votes_at (v_HexAddress val) (h_Height h) d \<noteq> []}"
    unfolding map_triple filter_triple validator_join_signed [symmetric]
    by (simp only: set_map set_filter image_comp)
  then show "rk_BlocksSigned (validator_metrics Q hs d val) =
      int (card (h_Height ` {h \<in> set hs. votes_at (v_HexAddress val) (h_Height h) d \<noteq> []}))"
    by (simp only: validator_metrics_def Let_def ranking_row.simps count_distinct_card)
qed

lemma percent2_bounds:
  assumes "\<forall>x. 0 \<le> x \<and> x \<le> 100 \<longrightarrow> 0 \<le> sq_round2 Q x \<and> sq_round2 Q x \<le> 100" "0 \<le> n" "n \<le> m" "m \<le> 2 ^ 46"
  shows "0 \<le> percent2 Q n m \<and> percent2 Q n m \<le> 100"
proof (cases "m = 0")
  case False
  with assms have m: "0 < m" by simp
  have n: "float_of_int n = of_int n" "float_of_int m = of_int m" using assms(2-4) by (simp_all add: float_of_int_exact)
  have "fmul 100 (float_of_int n) = of_int (100 * n)"
    using assms(2-4) fl_of_int [of "100 * n"] by (simp add: fmul_def n)
  then have "fdiv (fmul 100 (float_of_int n)) (float_of_int m) = fl (of_int (100 * n) / of_int m)"
    by (simp add: fdiv_def n)
  moreover have "0 \<le> fl (of_int (100 * n) / of_int m)" using assms(2) m by (simp add: fl_nonneg)
  moreover have "of_int (100 * n) / of_int m \<le> (of_int 100 :: rat)" using assms(3) m by (simp add: divide_le_eq)
  then have "fl (of_int (100 * n) / of_int m) \<le> 100" using fl_int_bounds(1) [of 100] by simp
  ultimately show ?thesis using assms(1) False by (simp add: percent2_def)
qed (simp add: percent2_def)

subsection \<open>Minimum and maximum of a sorted column\<close>

lemma foldl_min_sorted: "sorted (x # xs) \<Longrightarrow> foldl min x xs = x"
  by (induction xs) (auto simp: min_def)

lemma foldl_max_sorted: "sorted (x # xs) \<Longrightarrow> foldl max x xs = last (x # xs)"
  by (induction xs arbitrary: x) (auto simp: max_def)

lemma min_max_of_sorted:
  "sorted xs \<Longrightarrow> xs \<noteq> [] \<Longrightarrow> min_of xs = Some (hd xs) \<and> max_of xs = Some (last xs)"
  by (cases xs) (simp_all only: min_of_def max_of_def list.case foldl_min_sorted foldl_max_sorted list.sel simp_thms)

lemma runs_sublists: "r \<in> set (runs P xs) \<Longrightarrow> r \<noteq> [] \<and> (\<exists>as bs. xs = as @ r @ bs) \<and> (\<forall>x \<in> set r. P x)"
proof (induction P xs arbitrary: r rule: runs.induct)
  case (1 P xs)
  show ?case
  proof (cases "dropWhile (\<lambda>x. \<not> P x) xs")
    case Nil
    with "1.prems" show ?thesis by (subst (asm) runs.simps) (simp only: list.case list.set empty_iff)
  next
    case (Cons y ys)
    then have eq: "runs P xs = (y # takeWhile P ys) # runs P (dropWhile P ys)" by (subst runs.simps) simp
    have y: "P y" using Cons hd_dropWhile [of "\<lambda>x. \<not> P x" xs] by simp
    have xs: "xs = takeWhile (\<lambda>x. \<not> P x) xs @ y # takeWhile P ys @ dropWhile P ys"
      using Cons by (metis takeWhile_dropWhile_id)
    consider "r = y # takeWhile P ys" | "r \<in> set (runs P (dropWhile P ys))" using "1.prems" eq by auto
    then show ?thesis
    proof cases
      case 1
      then have "xs = takeWhile (\<lambda>x. \<not> P x) xs @ r @ dropWhile P ys" using xs by simp
      moreover have "r \<noteq> []" "\<forall>x \<in> set r. P x" using 1 y by (auto dest: set_takeWhileD)
      ultimately show ?thesis by blast
    next
      case 2
      from "1.IH" [OF Cons 2] obtain as bs where "r \<noteq> []" "dropWhile P ys = as @ r @ bs" "\<forall>x \<in> set r. P x" by blast
      moreover from this xs have "xs = (takeWhile (\<lambda>x. \<not> P x) xs @ y # takeWhile P ys @ as) @ r @ bs" by simp
      ultimately show ?thesis by blast
    qed
  qed
qed

end
