(* ===== verification/Db.thy ===== *)
theory Db
  imports Tables
begin

text \<open>
  \<open>pkg/db/db.go\<close>: transactions, schema migrations and retention. A transaction body is a function
  of the database; failures of BEGIN and COMMIT are arguments. A migration script is the list of its
  statements; what a schema statement does to the schema is an argument, and the transaction
  statements follow SQLite's documented rule that BEGIN fails inside a transaction. Which calls of the
  driver fail is an argument of \<open>db_New\<close>.
\<close>

section \<open>Transactions\<close>

text \<open>The body returns the database it leaves behind together with its error, or panics (\<open>None\<close>); the
  deferred rollback discards its changes unless the commit succeeded.\<close>

definition WithTx ::
    "goerror option \<Rightarrow> goerror option \<Rightarrow> (database \<Rightarrow> (database \<times> goerror option) option) \<Rightarrow> database
      \<Rightarrow> (database \<times> goerror option) option" where
  "WithTx begin_err commit_err fn d =
     (case begin_err of
        Some err \<Rightarrow> Some (d, Some (''beginning tx: '' @ err))
      | None \<Rightarrow>
          (case fn d of
             None \<Rightarrow> None
           | Some (d', Some err) \<Rightarrow> Some (d, Some (''running tx body: '' @ err))
           | Some (d', None) \<Rightarrow>
               (case commit_err of
                  Some err \<Rightarrow> Some (d, Some (''committing tx: '' @ err))
                | None \<Rightarrow> Some (d', None))))"

section \<open>Migrations\<close>

datatype statement =
    BeginTransaction
  | Commit
  | PragmaForeignKeys bool
  | SchemaStatement string

text \<open>The two scripts of \<open>pkg/db/migrations\<close>.\<close>

definition migration001Initial :: "statement list" where
  "migration001Initial = map SchemaStatement
     [''CREATE TABLE validators'', ''CREATE INDEX idx_validators_hex_address'',
      ''CREATE INDEX idx_validators_operator_address'', ''CREATE TABLE heights'',
      ''CREATE TABLE rounds'', ''CREATE INDEX idx_rounds_height_round'',
      ''CREATE INDEX idx_rounds_height_desc'', ''CREATE TABLE votes'',
      ''CREATE INDEX idx_votes_height_round'', ''CREATE INDEX idx_votes_validator'',
      ''CREATE INDEX idx_votes_height_round_type'', ''CREATE TABLE consensus_events'',
      ''CREATE INDEX idx_consensus_events_height_round'', ''CREATE INDEX idx_consensus_events_type'',
      ''CREATE INDEX idx_consensus_events_timestamp'', ''CREATE TABLE validator_snapshots'',
      ''CREATE INDEX idx_validator_snapshots_height'', ''CREATE INDEX idx_validator_snapshots_validator'']"

definition migration002DropOperatorUnique :: "statement list" where
  "migration002DropOperatorUnique =
     [PragmaForeignKeys False, SchemaStatement ''DROP TABLE IF EXISTS validators_new'',
      BeginTransaction, SchemaStatement ''CREATE TABLE validators_new'',
      SchemaStatement ''INSERT INTO validators_new'', SchemaStatement ''DROP TABLE validators'',
      SchemaStatement ''ALTER TABLE validators_new RENAME TO validators'',
      SchemaStatement ''CREATE INDEX idx_validators_hex_address'',
      SchemaStatement ''CREATE INDEX idx_validators_operator_address'', Commit, PragmaForeignKeys True]"

record migration =
  mig_version :: string
  mig_sql :: "statement list"

definition migrations :: "migration list" where
  "migrations =
     [\<lparr>mig_version = ''001_initial'', mig_sql = migration001Initial\<rparr>,
      \<lparr>mig_version = ''002_drop_operator_unique'', mig_sql = migration002DropOperatorUnique\<rparr>]"

text \<open>The schema (opaque) and the versions in the migrations table.\<close>

record 's schema_db =
  sd_schema :: 's
  sd_versions :: "string list"

text \<open>What SQLite answers: the effect of a schema statement, and which of the other calls fail for a
  reason outside the program.\<close>

record 's sqlite_env =
  sl_ddl :: "string \<Rightarrow> 's \<Rightarrow> goerror + 's"
  sl_mkdir :: "string \<Rightarrow> goerror option"
  sl_open :: "string \<Rightarrow> goerror option"
  sl_exec :: "string \<Rightarrow> goerror option"
  sl_count :: "string \<Rightarrow> goerror option"
  sl_begin :: "string \<Rightarrow> goerror option"
  sl_commit :: "string \<Rightarrow> goerror option"

text \<open>A multi-statement \<open>tx.Exec\<close> inside a transaction runs until the first statement that fails. The
  foreign key pragma is a no-op there; COMMIT would end the transaction.\<close>

fun exec_in_tx :: "(string \<Rightarrow> 's \<Rightarrow> goerror + 's) \<Rightarrow> statement list \<Rightarrow> 's \<Rightarrow> goerror + 's" where
  "exec_in_tx ddl [] s = Inr s"
| "exec_in_tx ddl (BeginTransaction # sts) s = Inl ''cannot start a transaction within a transaction''"
| "exec_in_tx ddl (Commit # sts) s = Inl ''cannot use the transaction after COMMIT''"
| "exec_in_tx ddl (PragmaForeignKeys b # sts) s = exec_in_tx ddl sts s"
| "exec_in_tx ddl (SchemaStatement st # sts) s =
     (case ddl st s of Inl err \<Rightarrow> Inl err | Inr s' \<Rightarrow> exec_in_tx ddl sts s')"

definition applyMigration :: "'s sqlite_env \<Rightarrow> migration \<Rightarrow> 's schema_db \<Rightarrow> 's schema_db \<times> goerror option" where
  "applyMigration Q m d =
     (case sl_begin Q (mig_version m) of
        Some err \<Rightarrow> (d, Some (''starting migration '' @ mig_version m @ '' tx: '' @ err))
      | None \<Rightarrow>
          (case exec_in_tx (sl_ddl Q) (mig_sql m) (sd_schema d) of
             Inl err \<Rightarrow> (d, Some (''applying migration '' @ mig_version m @ '': '' @ err))
           | Inr s \<Rightarrow>
               (if mig_version m \<in> set (sd_versions d)
                then (d, Some (''recording migration '' @ mig_version m @ '': '' @ ErrUnique))
                else case sl_commit Q (mig_version m) of
                  Some err \<Rightarrow> (d, Some (''committing migration '' @ mig_version m @ '': '' @ err))
                | None \<Rightarrow> (d\<lparr>sd_schema := s, sd_versions := sd_versions d @ [mig_version m]\<rparr>, None))))"

fun migrate_loop :: "'s sqlite_env \<Rightarrow> migration list \<Rightarrow> 's schema_db \<Rightarrow> 's schema_db \<times> goerror option" where
  "migrate_loop Q [] d = (d, None)"
| "migrate_loop Q (m # ms) d =
     (case sl_count Q (mig_version m) of
        Some err \<Rightarrow> (d, Some (''checking migration '' @ mig_version m @ '': '' @ err))
      | None \<Rightarrow>
          (if length (filter (\<lambda>v. v = mig_version m) (sd_versions d)) > 0 then migrate_loop Q ms d
           else case applyMigration Q m d of
                  (d, Some err) \<Rightarrow> (d, Some err)
                | (d, None) \<Rightarrow> migrate_loop Q ms d))"

text \<open>The table of a fresh database is empty: creating it if it does not exist changes no version.\<close>

definition migrate :: "'s sqlite_env \<Rightarrow> 's schema_db \<Rightarrow> 's schema_db \<times> goerror option" where
  "migrate Q d =
     (case sl_exec Q ''CREATE TABLE IF NOT EXISTS migrations'' of
        Some err \<Rightarrow> (d, Some (''failed to create migrations table: '' @ err))
      | None \<Rightarrow> migrate_loop Q migrations d)"

section \<open>Opening\<close>

record db_Config =
  DatabasePath :: string
  MaxRetainDays :: int
  MaxRetainBlocks :: int

text \<open>The pragmas that \<open>New\<close> executes in turn, each with the text that wraps its failure.\<close>

fun run_pragmas :: "'s sqlite_env \<Rightarrow> (string \<times> string) list \<Rightarrow> goerror option" where
  "run_pragmas Q [] = None"
| "run_pragmas Q ((sql, what) # ps) =
     (case sl_exec Q sql of Some err \<Rightarrow> Some (what @ err) | None \<Rightarrow> run_pragmas Q ps)"

definition open_pragmas :: "(string \<times> string) list" where
  "open_pragmas =
     [(''PRAGMA journal_mode=WAL'', ''failed to set WAL mode: ''),
      (''PRAGMA synchronous=NORMAL'', ''failed to set synchronous mode: ''),
      (''PRAGMA foreign_keys=ON'', ''failed to enable foreign keys: '')]"

text \<open>The file keeps what was committed even when \<open>New\<close> fails and closes it.\<close>

definition db_New :: "'s sqlite_env \<Rightarrow> db_Config \<Rightarrow> 's schema_db \<Rightarrow> 's schema_db \<times> goerror option" where
  "db_New Q config d =
     (case sl_mkdir Q (DatabasePath config) of
        Some err \<Rightarrow> (d, Some (''failed to create database directory: '' @ err))
      | None \<Rightarrow>
     (case sl_open Q (DatabasePath config) of
        Some err \<Rightarrow> (d, Some (''failed to open database: '' @ err))
      | None \<Rightarrow>
     (case run_pragmas Q open_pragmas of
        Some err \<Rightarrow> (d, Some err)
      | None \<Rightarrow>
     (case migrate Q d of
        (d, Some err) \<Rightarrow> (d, Some (''failed to run migrations: '' @ err))
      | (d, None) \<Rightarrow> (d, None)))))"

section \<open>Retention\<close>

text \<open>\<open>cutoffTime\<close> is the clock moved back by \<open>MaxRetainDays\<close> calendar days.\<close>

definition cutoffs :: "db_Config \<Rightarrow> (int \<Rightarrow> instant) \<Rightarrow> database \<Rightarrow> int list" where
  "cutoffs config cutoffTime d =
     (if MaxRetainBlocks config > 0 then
        (case GetLatestHeight d of
           Inl _ \<Rightarrow> []
         | Inr latest \<Rightarrow> [i64 (h_Height latest - MaxRetainBlocks config)])
      else [])
     @ (if MaxRetainDays config > 0 then
          case GetMinHeightAfterTime (Some (cutoffTime (MaxRetainDays config))) d of
            None \<Rightarrow> []
          | Some h \<Rightarrow> (if h > 0 then [h - 1] else [])
        else [])"

definition computeCutoffHeight :: "db_Config \<Rightarrow> (int \<Rightarrow> instant) \<Rightarrow> database \<Rightarrow> int" where
  "computeCutoffHeight config cutoffTime d =
     (if MaxRetainBlocks config > 0 \<and> GetLatestHeight d = Inl ErrNoRows then 0
      else case cutoffs config cutoffTime d of
             [] \<Rightarrow> 0
           | c # cs \<Rightarrow> foldl (\<lambda>cutoff c. if c > cutoff then c else cutoff) c cs)"

definition CleanupOldData ::
    "bool \<Rightarrow> db_Config \<Rightarrow> (int \<Rightarrow> instant) \<Rightarrow> database \<Rightarrow> database \<times> goerror option" where
  "CleanupOldData fk config cutoffTime d =
     (let cutoffHeight = computeCutoffHeight config cutoffTime d
      in if cutoffHeight \<le> 0 then (d, None)
         else
           let d = DeleteConsensusEventsOlderThan cutoffHeight d;
               d = DeleteVotesOlderThan cutoffHeight d;
               d = DeleteValidatorSnapshotsOlderThan cutoffHeight d;
               d = DeleteRoundsOlderThan cutoffHeight d
           in case DeleteHeightsOlderThan fk cutoffHeight d of
                Inl err \<Rightarrow> (d, Some (''failed to delete old heights: '' @ err))
              | Inr d \<Rightarrow> (d, None))"

text \<open>The database restricted to the heights from \<open>c\<close> on.\<close>

definition from_height :: "int \<Rightarrow> database \<Rightarrow> database" where
  "from_height c d =
     d\<lparr>heights := filter (\<lambda>r. c \<le> h_Height r) (heights d), rounds := filter (\<lambda>r. c \<le> r_Height r) (rounds d),
       votes := filter (\<lambda>v. c \<le> vt_Height v) (votes d),
       consensus_events := filter (\<lambda>e. c \<le> ce_Height e) (consensus_events d),
       validator_snapshots := filter (\<lambda>s. c \<le> s_Height s) (validator_snapshots d)\<rparr>"

section \<open>Lemmas\<close>

lemma applyMigration_cases:
  assumes "applyMigration Q m d = (d', e)"
  shows "(e = None \<and> sd_versions d' = sd_versions d @ [mig_version m] \<and> mig_version m \<notin> set (sd_versions d)
      \<and> (\<exists>s. exec_in_tx (sl_ddl Q) (mig_sql m) (sd_schema d) = Inr s))
    \<or> (\<exists>err. e = Some err \<and> d' = d)"
  using assms by (auto simp: applyMigration_def split: option.splits sum.splits if_splits)

lemma migrate_loop_step:
  "migrate_loop Q (m # ms) d = (d', e) \<longleftrightarrow>
   (\<exists>err. sl_count Q (mig_version m) = Some err \<and> d' = d \<and> e = Some (''checking migration '' @ mig_version m @ '': '' @ err))
   \<or> sl_count Q (mig_version m) = None \<and> mig_version m \<in> set (sd_versions d) \<and> migrate_loop Q ms d = (d', e)
   \<or> sl_count Q (mig_version m) = None \<and> mig_version m \<notin> set (sd_versions d) \<and>
     (\<exists>d1 e1. applyMigration Q m d = (d1, e1) \<and>
       (e1 \<noteq> None \<and> d' = d1 \<and> e = e1 \<or> e1 = None \<and> migrate_loop Q ms d1 = (d', e)))"
  by (cases "applyMigration Q m d") (auto simp: filter_empty_conv split: option.splits)

lemma migrate_loop_versions:
  "migrate_loop Q ms d = (d', None) \<Longrightarrow>
   set (sd_versions d') = set (sd_versions d) \<union> mig_version ` set ms
   \<and> (distinct (sd_versions d) \<longrightarrow> distinct (sd_versions d')) \<and> (\<forall>m \<in> set ms. sl_count Q (mig_version m) = None)"
proof (induction ms arbitrary: d)
  case (Cons m ms)
  from Cons.prems consider
      (old) "sl_count Q (mig_version m) = None" "mig_version m \<in> set (sd_versions d)" "migrate_loop Q ms d = (d', None)"
    | (new) d1 where "sl_count Q (mig_version m) = None" "applyMigration Q m d = (d1, None)" "migrate_loop Q ms d1 = (d', None)"
    unfolding migrate_loop_step by auto
  then show ?case
  proof cases
    case old
    with Cons.IH [OF old(3)] show ?thesis by auto
  next
    case new
    with Cons.IH [OF new(3)] applyMigration_cases [OF new(2)] show ?thesis by auto
  qed
qed simp

text \<open>A migration that SQLite refuses whatever the schema stops every later start.\<close>

lemma migrate_loop_blocked:
  assumes "m \<in> set ms" "distinct (map mig_version ms)" "mig_version m \<notin> set (sd_versions d)"
    and "\<And>s. \<exists>err. exec_in_tx (sl_ddl Q) (mig_sql m) s = Inl err"
  shows "\<exists>d' err. migrate_loop Q ms d = (d', Some err) \<and> mig_version m \<notin> set (sd_versions d')"
  using assms(1-3)
proof (induction ms arbitrary: d)
  case (Cons m0 ms)
  obtain d1 e1 where a: "applyMigration Q m0 d = (d1, e1)" by (cases "applyMigration Q m0 d")
  obtain d' e where r: "migrate_loop Q (m0 # ms) d = (d', e)" by (cases "migrate_loop Q (m0 # ms) d")
  have v: "mig_version m0 \<noteq> mig_version m" if "m0 \<noteq> m" using Cons.prems(1,2) that by force
  have no: "mig_version m \<notin> set (sd_versions d1)" if "m0 \<noteq> m \<or> e1 \<noteq> None"
    using applyMigration_cases [OF a] that Cons.prems(3) v by auto
  have same: "e1 \<noteq> None" if "m0 = m"
    using applyMigration_cases [OF a] that assms(4) [of "sd_schema d"] by auto
  have IH: "\<exists>d' err. migrate_loop Q ms d2 = (d', Some err) \<and> mig_version m \<notin> set (sd_versions d')"
    if "m0 \<noteq> m" "mig_version m \<notin> set (sd_versions d2)" for d2
    using Cons.IH [of d2] Cons.prems that by auto
  from r [unfolded migrate_loop_step a] show ?case
  proof (elim disjE conjE exE)
    assume "mig_version m0 \<in> set (sd_versions d)" "migrate_loop Q ms d = (d', e)"
    then show ?thesis using IH [of d] Cons.prems(3) r by auto
  next
    fix d2 e2 assume "(d1, e1) = (d2, e2)" "e2 = None" "migrate_loop Q ms d2 = (d', e)"
    then show ?thesis using IH [of d1] no same r by auto
  qed (use r no Cons.prems(3) in auto)
qed simp

lemma migrate_loop_done:
  "mig_version ` set ms \<subseteq> set (sd_versions d) \<Longrightarrow> \<forall>m \<in> set ms. sl_count Q (mig_version m) = None \<Longrightarrow>
   migrate_loop Q ms d = (d, None)"
  by (induction Q ms d rule: migrate_loop.induct) (auto simp: filter_empty_conv)

lemma exec_002_fails: "\<exists>err. exec_in_tx ddl migration002DropOperatorUnique s = Inl err"
  by (auto simp: migration002DropOperatorUnique_def split: sum.split)

lemma from_height_has:
  "has_height (from_height c d) h \<longleftrightarrow> has_height d h \<and> c \<le> h"
  "has_validator (from_height c d) a \<longleftrightarrow> has_validator d a"
  "ref_validator (from_height c d) ra \<longleftrightarrow> ref_validator d ra"
  by (auto simp: from_height_def has_height_def has_validator_def ref_validator_def split: option.splits)

lemma from_height_schema_ok:
  assumes "schema_ok d"
  shows "schema_ok (from_height c d)"
proof -
  have "keys_ok (from_height c d)"
    using assms by (simp add: schema_ok_def keys_ok_def from_height_def distinct_map_filter)
  moreover have "refs_ok d" using assms by (simp add: schema_ok_def)
  then have "refs_ok (from_height c d)"
    unfolding refs_ok_def from_height_has by (simp add: from_height_def)
  ultimately show ?thesis by (simp add: schema_ok_def)
qed

lemma Cleanup_from_height:
  assumes "refs_ok d"
  shows "CleanupOldData fk config ct d =
    (if computeCutoffHeight config ct d \<le> 0 then d else from_height (computeCutoffHeight config ct d) d, None)"
  using assms
  by (auto simp: CleanupOldData_def Let_def DeleteHeightsOlderThan_def DeleteRoundsOlderThan_def
      DeleteValidatorSnapshotsOlderThan_def DeleteVotesOlderThan_def DeleteConsensusEventsOlderThan_def
      from_height_def not_less)

lemma foldl_max: "foldl (\<lambda>cutoff c. if c > cutoff then c else cutoff) (c::int) cs = Max (set (c # cs))"
proof (induction cs arbitrary: c)
  case (Cons x cs)
  have "(if x > c then x else c) = max c x" by (simp add: max_def)
  with Cons [of "max c x"] show ?case
    by (cases "cs = []") (simp_all add: max.assoc)
qed simp

lemma GetLatestHeight_max:
  assumes "heights d \<noteq> []"
  shows "\<exists>r. GetLatestHeight d = Inr r \<and> h_Height r = Max (h_Height ` set (heights d))"
proof -
  let ?s = "heights_desc d"
  have s: "set ?s = set (heights d)" "sorted (map (\<lambda>r. - h_Height r) ?s)" "?s \<noteq> []"
    using assms by (simp_all add: heights_desc_def) (metis length_0_conv length_sort)
  then obtain r rs where r: "?s = r # rs" by (cases ?s) auto
  have "h_Height r' \<le> h_Height r" if "r' \<in> set (heights d)" for r'
    using that s(1,2) r by auto
  moreover have "r \<in> set (heights d)" using s(1) r by auto
  ultimately have "h_Height r = Max (h_Height ` set (heights d))"
    by (intro Max_eqI [symmetric]) auto
  with r show ?thesis by (simp add: GetLatestHeight_def one_row_def)
qed

text \<open>A transaction is all or nothing: unless it reports success the database is exactly what it
  was, and success means the body succeeded and its result was kept.\<close>

theorem WithTx_atomic:
  assumes "WithTx b c fn d = Some (d', err)"
  shows "(err \<noteq> None \<longrightarrow> d' = d) \<and> (err = None \<longrightarrow> b = None \<and> c = None \<and> fn d = Some (d', None))"
  using assms by (auto simp: WithTx_def split: option.splits)

theorem WithTx_atomic_witness:
  "\<exists>err. WithTx None (Some ''disk full'') (\<lambda>d. Some (d\<lparr>heights := []\<rparr>, None)) empty_database
     = Some (empty_database, Some err)"
proof -
  have "WithTx None (Some ''disk full'') (\<lambda>d. Some (d\<lparr>heights := []\<rparr>, None)) empty_database
      = Some (empty_database, Some ''committing tx: disk full'')"
    by (simp add: WithTx_def)
  with WithTx_atomic [OF this] show ?thesis by blast
qed

text \<open>When \<open>migrate\<close> succeeds every migration is recorded, none twice, and running it again
  changes nothing.\<close>

theorem migrate_idempotent:
  assumes "migrate Q d = (d', None)"
  shows "mig_version ` set migrations \<subseteq> set (sd_versions d')
    \<and> (distinct (sd_versions d) \<longrightarrow> distinct (sd_versions d')) \<and> migrate Q d' = (d', None)"
  using migrate_loop_versions [of Q migrations d d'] migrate_loop_done [of migrations d' Q] assms
  by (auto simp: migrate_def split: option.splits)

text \<open>\<open>migrate\<close> cannot bring a fresh database up to date: the second script opens its own
  transaction, which SQLite refuses inside the one \<open>applyMigration\<close> has begun, so after the first
  migration it always ends in an error.\<close>

lemma migrate_fresh_fails:
  assumes "''002_drop_operator_unique'' \<notin> set (sd_versions d)"
  shows "\<exists>d' err. migrate Q d = (d', Some err) \<and> ''002_drop_operator_unique'' \<notin> set (sd_versions d')"
proof -
  let ?m = "\<lparr>mig_version = ''002_drop_operator_unique'', mig_sql = migration002DropOperatorUnique\<rparr>"
  have "\<exists>d' err. migrate_loop Q migrations d = (d', Some err) \<and> mig_version ?m \<notin> set (sd_versions d')"
    by (rule migrate_loop_blocked) (use assms exec_002_fails in \<open>simp_all add: migrations_def\<close>)
  with assms show ?thesis by (auto simp: migrate_def split: option.split)
qed

text \<open>So \<open>New\<close> never returns a database to which the second migration has not been applied before, whatever
  SQLite does with the other statements.\<close>

lemma db_New_fails:
  assumes "''002_drop_operator_unique'' \<notin> set (sd_versions d)"
  shows "\<exists>d' err. db_New Q config d = (d', Some err) \<and> ''002_drop_operator_unique'' \<notin> set (sd_versions d')"
proof -
  obtain d' err where "migrate Q d = (d', Some err)" "''002_drop_operator_unique'' \<notin> set (sd_versions d')"
    using migrate_fresh_fails [OF assms] by blast
  with assms show ?thesis by (simp add: db_New_def split: option.split)
qed

text \<open>On a database with both migrations \<open>New\<close> returns it as it is.\<close>

lemma db_New_migrated:
  assumes "mig_version ` set migrations \<subseteq> set (sd_versions d)" "\<forall>p. sl_mkdir Q p = None" "\<forall>p. sl_open Q p = None"
    "\<forall>s. sl_exec Q s = None" "\<forall>v. sl_count Q v = None"
  shows "db_New Q config d = (d, None)"
  using migrate_loop_done [of migrations d Q] assms
  by (simp add: db_New_def migrate_def open_pragmas_def)

text \<open>The rows retention keeps, said without the queries: those within the last \<open>MaxRetainBlocks\<close> heights before the
  newest one, and from the height before the first one recorded since the cutoff time on.\<close>

definition recent_heights :: "instant \<Rightarrow> database \<Rightarrow> int set" where
  "recent_heights t d = h_Height ` {r \<in> set (heights d). case h_CreatedAt r of None \<Rightarrow> False | Some c \<Rightarrow> t \<le> c}"

definition retained :: "db_Config \<Rightarrow> (int \<Rightarrow> instant) \<Rightarrow> database \<Rightarrow> int \<Rightarrow> bool" where
  "retained config ct d h \<longleftrightarrow>
     (0 < MaxRetainBlocks config \<and> heights d \<noteq> [] \<longrightarrow> Max (h_Height ` set (heights d)) - MaxRetainBlocks config \<le> h)
     \<and> (0 < MaxRetainDays config \<and> recent_heights (ct (MaxRetainDays config)) d \<noteq> {} \<longrightarrow>
          Min (recent_heights (ct (MaxRetainDays config)) d) - 1 \<le> h)"

definition only_rows :: "(int \<Rightarrow> bool) \<Rightarrow> database \<Rightarrow> database" where
  "only_rows keep d =
     d\<lparr>heights := filter (\<lambda>r. keep (h_Height r)) (heights d), rounds := filter (\<lambda>r. keep (r_Height r)) (rounds d),
       votes := filter (\<lambda>v. keep (vt_Height v)) (votes d),
       consensus_events := filter (\<lambda>e. keep (ce_Height e)) (consensus_events d),
       validator_snapshots := filter (\<lambda>s. keep (s_Height s)) (validator_snapshots d)\<rparr>"

lemma foldr_min: "foldr min hs (hd hs) = Min (set hs)" if "hs \<noteq> []" for hs :: "int list"
proof -
  have "foldr min xs a = Min (insert a (set xs))" for xs and a :: int
    by (induction xs) (simp_all add: insert_commute)
  moreover have "insert (hd hs) (set hs) = set hs" using that by auto
  ultimately show ?thesis by simp
qed

lemma GetMinHeightAfterTime_Min:
  "GetMinHeightAfterTime (Some t) d = (if recent_heights t d = {} then None else Some (Min (recent_heights t d)))"
proof -
  let ?hs = "map h_Height (filter (\<lambda>r. case (h_CreatedAt r, Some t) of (Some c, Some t) \<Rightarrow> c \<ge> t | _ \<Rightarrow> False) (heights d))"
  have s: "set ?hs = recent_heights t d" by (auto simp: recent_heights_def split: option.splits)
  then have "?hs = [] \<longleftrightarrow> recent_heights t d = {}" by (metis set_empty)
  then show ?thesis using s foldr_min [of ?hs] unfolding GetMinHeightAfterTime_def Let_def by presburger
qed

lemma only_rows_cong:
  assumes "refs_ok d" "\<And>h. has_height d h \<Longrightarrow> keep h = keep' h"
  shows "only_rows keep d = only_rows keep' d"
  using assms by (auto simp: only_rows_def refs_ok_def has_height_def intro!: database.fold_congs filter_cong)

lemma only_rows_True: "only_rows (\<lambda>_. True) d = d"
  by (simp add: only_rows_def)

lemma from_height_only_rows: "from_height c d = only_rows ((\<le>) c) d"
  by (simp add: from_height_def only_rows_def)

lemma cutoff_retained:
  assumes "MaxRetainBlocks config < 2 ^ 62" "\<forall>r \<in> set (heights d). 0 \<le> h_Height r \<and> h_Height r < 2 ^ 62" "has_height d h"
  shows "retained config ct d h \<longleftrightarrow> computeCutoffHeight config ct d \<le> h"
proof -
  have h: "0 \<le> h" and ne: "heights d \<noteq> []" using assms(2,3) by (auto simp: has_height_def)
  let ?m = "Max (h_Height ` set (heights d))" and ?B = "MaxRetainBlocks config"
  let ?T = "recent_heights (ct (MaxRetainDays config)) d"
  obtain r where r: "GetLatestHeight d = Inr r" "h_Height r = ?m" using GetLatestHeight_max [OF ne] by blast
  have "?m \<in> h_Height ` set (heights d)" using ne by (intro Max_in) auto
  then have "0 \<le> ?m" "?m < 2 ^ 62" using assms(2) by auto
  then have i: "i64 (?m - ?B) = ?m - ?B" if "0 < ?B" using assms(1) that by (intro i64_id) (simp add: in_i64_def)
  have c: "cutoffs config ct d = (if 0 < ?B then [?m - ?B] else []) @
      (if 0 < MaxRetainDays config \<and> ?T \<noteq> {} \<and> 0 < Min ?T then [Min ?T - 1] else [])"
    using r i by (simp add: cutoffs_def GetMinHeightAfterTime_Min)
  have all: "computeCutoffHeight config ct d \<le> h \<longleftrightarrow> (\<forall>x \<in> set (cutoffs config ct d). x \<le> h)"
  proof (cases "cutoffs config ct d")
    case (Cons x xs)
    then show ?thesis using r foldl_max [of x xs] by (simp add: computeCutoffHeight_def)
  qed (use r h in \<open>simp add: computeCutoffHeight_def\<close>)
  show ?thesis unfolding all c retained_def using ne h by (cases "0 < Min ?T") auto
qed

section \<open>Properties\<close>


text \<open>Heights 7 to 9, the last recorded at time 5: two blocks and the days since time 5 keep 8 and 9.\<close>

definition sample_heights :: database where
  "sample_heights = empty_database\<lparr>heights := map (\<lambda>(h, t). (new_height (h, t) \<lparr>uh_Height = h, uh_BlockHash = None,
     uh_BlockTime = None, uh_ProposerAddress = None, uh_TotalValidators = None\<rparr>)\<lparr>h_CreatedAt := Some t\<rparr>) [(7, 1), (8, 2), (9, 5)]\<rparr>"


end
