(* ===== verification/Store.thy ===== *)
theory Store
  imports Db State Utils
begin

text \<open>
  \<open>pkg/db/consensus_store.go\<close> and \<open>store.go\<close>: what is persisted of the consensus state and how it is
  read back, and the contract \<open>ConsensusStorer\<close> of both the real and the no-op store. The arguments
  gathered in \<open>store_env\<close> are the round map (\<open>se_rounds\<close>), CometBFT's rendering of hashes, JSON
  marshalling, whether the connection enforces foreign keys, and what the engine and the clock give
  to the \<open>n\<close>-th statement. Ranging over a Go map or set visits it in an unspecified order, which is
  an argument too. A failed statement inside a transaction is logged and skipped, as in the code.
\<close>

section \<open>Environment\<close>

record ('h, 'r) store_env =
  se_rounds :: "('h, 'r) round_env"
  se_hash_str :: "bytes \<Rightarrow> string"
  se_marshal :: "(string \<times> string) list \<Rightarrow> goerror + string"
  se_fk :: bool
  se_eng :: "nat \<Rightarrow> engine"
  se_now :: "nat \<Rightarrow> instant"

text \<open>A vote of a round as the loops see it.\<close>

type_synonym slot_vote = "address \<times> SignedMsgType \<times> BlockID"

section \<open>StoreRoundData\<close>

definition round_params :: "('h, 'r) store_env \<Rightarrow> (address set \<Rightarrow> address) \<Rightarrow> int \<Rightarrow> int \<Rightarrow> RoundData \<Rightarrow> UpsertRoundParams" where
  "round_params S pick height rnd data =
     \<lparr>ur_Height = height, ur_RoundNumber = rnd, ur_Step = None, ur_StartTime = Some (se_now S 0),
      ur_ProposerAddress = (if Proposers data \<noteq> {} then Some (pick (Proposers data)) else None)\<rparr>"

definition vote_params :: "('h, 'r) store_env \<Rightarrow> int \<Rightarrow> int \<Rightarrow> nat \<Rightarrow> slot_vote \<Rightarrow> UpsertVoteParams" where
  "vote_params S height rnd n = (\<lambda>(a, t, blockID).
     \<lparr>uv_Height = height, uv_RoundNumber = rnd, uv_ValidatorHexAddress = a, uv_VoteType = t,
      uv_BlockHash = (if \<not> is_zero (se_rounds S) blockID then Some (se_hash_str S (bid_Hash blockID)) else None),
      uv_Signature = None, uv_Timestamp = Some (se_now S n)\<rparr>)"

fun store_votes :: "('h, 'r) store_env \<Rightarrow> int \<Rightarrow> int \<Rightarrow> nat \<Rightarrow> slot_vote list \<Rightarrow> database \<Rightarrow> database" where
  "store_votes S height rnd n [] d = d"
| "store_votes S height rnd n (v # vs) d =
     (case UpsertVote (se_fk S) (se_eng S n) (vote_params S height rnd n v) d of
        Inl err \<Rightarrow> store_votes S height rnd (n + 1) vs d
      | Inr (d, _) \<Rightarrow> store_votes S height rnd (n + 1) vs d)"

text \<open>\<open>order\<close> lists the votes of the nested maps, \<open>pick\<close> the first proposer the range yields.\<close>

definition StoreRoundData ::
    "('h, 'r) store_env \<Rightarrow> goerror option \<Rightarrow> goerror option \<Rightarrow> (address set \<Rightarrow> address)
      \<Rightarrow> (RoundData \<Rightarrow> slot_vote list) \<Rightarrow> int \<Rightarrow> int \<Rightarrow> RoundData \<Rightarrow> database
      \<Rightarrow> (database \<times> goerror option) option" where
  "StoreRoundData S begin_err commit_err pick order height rnd data =
     WithTx begin_err commit_err (\<lambda>d.
       case UpsertRound (se_fk S) (se_eng S 0) (round_params S pick height rnd data) d of
         Inl err \<Rightarrow> Some (d, Some (''failed to store round: '' @ err))
       | Inr (d, _) \<Rightarrow> Some (store_votes S height rnd 1 (order data) d, None))"

section \<open>StoreValidators\<close>

definition validator_params :: "TMValidator \<Rightarrow> CometValidator \<Rightarrow> UpsertValidatorParams" where
  "validator_params validator comet =
     \<lparr>uw_OperatorAddress = (case tv_CosmosValidator validator of
          Some c \<Rightarrow> (if cos_OperatorAddress c \<noteq> '''' then cos_OperatorAddress c else GetDisplayAddress validator)
        | None \<Rightarrow> GetDisplayAddress validator),
      uw_HexAddress = GetDisplayAddress validator,
      uw_PublicKey = hex_encode False (cv_PubKeyBytes comet),
      uw_VotingPower = cv_VotingPower comet,
      uw_Moniker = (case tv_CosmosValidator validator of
          Some c \<Rightarrow> (if cos_Moniker c \<noteq> '''' then Some (cos_Moniker c) else None)
        | None \<Rightarrow> None)\<rparr>"

definition snapshot_params :: "int \<Rightarrow> TMValidator \<Rightarrow> CometValidator \<Rightarrow> UpsertValidatorSnapshotParams" where
  "snapshot_params height validator comet =
     \<lparr>us_Height = height, us_ValidatorHexAddress = GetDisplayAddress validator,
      us_VotingPower = cv_VotingPower comet,
      us_VotingPowerPercent = Some (case tv_VotingPowerPercent validator of
          Some p \<Rightarrow> (if fl p \<ge> 0 then fl p else 0)
        | None \<Rightarrow> 0),
      us_IsProposer = None\<rparr>"

text \<open>The loop over the validators; one without CometBFT data is a \<open>nil\<close> dereference.\<close>

fun store_validators ::
    "('h, 'r) store_env \<Rightarrow> int \<Rightarrow> nat \<Rightarrow> TMValidators \<Rightarrow> database \<Rightarrow> database option" where
  "store_validators S height n [] d = Some d"
| "store_validators S height n (validator # vs) d =
     (case tv_CometValidator validator of
        None \<Rightarrow> None
      | Some comet \<Rightarrow>
          (case UpsertValidator (se_eng S n) (validator_params validator comet) d of
             Inl err \<Rightarrow> store_validators S height (n + 2) vs d
           | Inr (d, _) \<Rightarrow>
               (case UpsertValidatorSnapshot (se_fk S) (se_eng S (n + 1)) (snapshot_params height validator comet) d of
                  Inl err \<Rightarrow> store_validators S height (n + 2) vs d
                | Inr (d, _) \<Rightarrow> store_validators S height (n + 2) vs d)))"

definition height_params :: "int \<Rightarrow> TMValidators \<Rightarrow> UpsertHeightParams" where
  "height_params height vs =
     \<lparr>uh_Height = height, uh_BlockHash = None, uh_BlockTime = None, uh_ProposerAddress = None,
      uh_TotalValidators = Some (int (length vs))\<rparr>"

definition StoreValidators ::
    "('h, 'r) store_env \<Rightarrow> goerror option \<Rightarrow> goerror option \<Rightarrow> int \<Rightarrow> TMValidators \<Rightarrow> database
      \<Rightarrow> (database \<times> goerror option) option" where
  "StoreValidators S begin_err commit_err height vs =
     WithTx begin_err commit_err (\<lambda>d.
       case UpsertHeight (se_fk S) (se_eng S 0) (height_params height vs) d of
         Inl err \<Rightarrow> Some (d, Some (''failed to store height: '' @ err))
       | Inr (d, _) \<Rightarrow> map_option (\<lambda>d. (d, None)) (store_validators S height 1 vs d))"

section \<open>Events\<close>

definition StoreConsensusEvent ::
    "('h, 'r) store_env \<Rightarrow> nat \<Rightarrow> int \<Rightarrow> int \<Rightarrow> string \<Rightarrow> (string \<times> string) list option \<Rightarrow> database
      \<Rightarrow> database \<times> goerror option" where
  "StoreConsensusEvent S n height rnd eventType eventData d =
     (let eventDataJSON = (case eventData of
            None \<Rightarrow> None
          | Some kvs \<Rightarrow> (case se_marshal S kvs of Inl err \<Rightarrow> None | Inr data \<Rightarrow> Some data))
      in case CreateConsensusEvent (se_fk S) (se_eng S n)
                \<lparr>ue_Height = height, ue_RoundNumber = rnd, ue_EventType = eventType,
                 ue_EventData = eventDataJSON, ue_Timestamp = se_now S n\<rparr> d of
           Inl err \<Rightarrow> (d, Some (''failed to store consensus event: '' @ err))
         | Inr (d, _) \<Rightarrow> (d, None))"

definition updateProposerInSnapshots :: "int \<Rightarrow> address \<Rightarrow> database \<Rightarrow> database" where
  "updateProposerInSnapshots height proposerAddr d =
     (let ss = update_rows (\<lambda>s. s_Height s = height) (\<lambda>s. s\<lparr>s_IsProposer := Some False\<rparr>) (validator_snapshots d);
          ss = update_rows (is_snapshot height proposerAddr) (\<lambda>s. s\<lparr>s_IsProposer := Some True\<rparr>) ss
      in d\<lparr>validator_snapshots := ss\<rparr>)"

definition store_event :: "('h, 'r) store_env \<Rightarrow> nat \<Rightarrow> TMEventData \<Rightarrow> database \<Rightarrow> database option" where
  "store_event S n event d =
     (case event of
        EventDataNewRound h r proposer \<Rightarrow>
          Some (updateProposerInSnapshots h proposer
            (fst (StoreConsensusEvent S n h r ''new_round'' (Some [(''proposer'', proposer)]) d)))
      | EventDataVote None \<Rightarrow> None
      | EventDataVote (Some x) \<Rightarrow>
          (let voteType = (if vote_Type x = PrecommitType then ''precommit'' else ''prevote'')
           in Some (fst (StoreConsensusEvent S n (vote_Height x) (vote_Round x) voteType
                (Some [(''validator'', vote_ValidatorAddress x),
                       (''block_id'', se_hash_str S (bid_Hash (vote_BlockID x)))]) d)))
      | EventDataRoundState _ \<Rightarrow> Some d
      | OtherEventData \<Rightarrow> Some d)"

text \<open>\<open>None\<close> is the panic on a \<open>nil\<close> vote; otherwise the function returns no error.\<close>

fun StoreCometBFTEvents :: "('h, 'r) store_env \<Rightarrow> nat \<Rightarrow> TMEventData list \<Rightarrow> database \<Rightarrow> database option" where
  "StoreCometBFTEvents S n [] d = Some d"
| "StoreCometBFTEvents S n (event # events) d =
     (case store_event S n event d of None \<Rightarrow> None | Some d \<Rightarrow> StoreCometBFTEvents S (n + 1) events d)"

section \<open>LoadRoundDataMap\<close>

definition load_hash :: "string option \<Rightarrow> BlockID" where
  "load_hash blockHash =
     (case blockHash of
        None \<Rightarrow> zero_BlockID
      | Some s \<Rightarrow>
          (case hex_DecodeString s of
             None \<Rightarrow> zero_BlockID
           | Some hash \<Rightarrow> zero_BlockID\<lparr>bid_Hash := hash\<rparr>))"

definition load_blockID :: "VoteRow \<Rightarrow> BlockID" where
  "load_blockID v = load_hash (vt_BlockHash v)"

definition load_vote :: "('h, 'r) round_env \<Rightarrow> int \<Rightarrow> int \<Rightarrow> 'h \<Rightarrow> VoteRow \<Rightarrow> 'h" where
  "load_vote B height roundNum m v =
     AddVote B m height roundNum (vt_ValidatorHexAddress v) (i32 (vt_VoteType v)) (load_blockID v)"

definition load_round :: "('h, 'r) round_env \<Rightarrow> database \<Rightarrow> 'h \<Rightarrow> Round \<Rightarrow> 'h" where
  "load_round B d m r =
     (let height = r_Height r;
          roundNum = i32 (r_RoundNumber r);
          rows = GetVotesForRound height (r_RoundNumber r) d;
          m = (case r_ProposerAddress r of None \<Rightarrow> m | Some p \<Rightarrow> AddProposer B m height roundNum p)
      in foldl (load_vote B height roundNum) m rows)"

definition LoadRoundDataMap :: "('h, 'r) round_env \<Rightarrow> int \<Rightarrow> int \<Rightarrow> database \<Rightarrow> 'h" where
  "LoadRoundDataMap B fromHeight toHeight d =
     foldl (load_round B d) (NewRoundDataMap B) (GetRoundsInRange fromHeight toHeight d)"

definition store_GetRecentRounds :: "int \<Rightarrow> database \<Rightarrow> Round list" where
  "store_GetRecentRounds limit d = GetRecentRounds limit d"

definition GetValidatorsForHeight :: "int \<Rightarrow> database \<Rightarrow> (Validator \<times> ValidatorSnapshot) list" where
  "GetValidatorsForHeight height d = GetValidatorsByHeight height d"

section \<open>Specification\<close>

text \<open>The columns that Go narrows to \<open>int32\<close> when it reads them back.\<close>

definition int32_ok :: "database \<Rightarrow> bool" where
  "int32_ok d \<longleftrightarrow> (\<forall>r \<in> set (rounds d). in_i32 (r_RoundNumber r))
     \<and> (\<forall>v \<in> set (votes d). in_i32 (vt_RoundNumber v) \<and> in_i32 (vt_VoteType v))"

text \<open>The votes of a round as a map, and what it means that \<open>order\<close> lists them.\<close>

definition round_vote :: "RoundData \<Rightarrow> address \<Rightarrow> SignedMsgType \<Rightarrow> BlockID option" where
  "round_vote data a t = Option.bind (Votes data a) (\<lambda>m. m t)"

definition lists_votes :: "(RoundData \<Rightarrow> slot_vote list) \<Rightarrow> RoundData \<Rightarrow> bool" where
  "lists_votes order data \<longleftrightarrow> (\<forall>a t b. (a, t, b) \<in> set (order data) \<longleftrightarrow> round_vote data a t = Some b)"

text \<open>The documented behaviour of CometBFT's \<open>HexBytes.String\<close> and \<open>BlockID.IsZero\<close>.\<close>

definition lawful_store_env :: "('h, 'r) store_env \<Rightarrow> bool" where
  "lawful_store_env S \<longleftrightarrow> lawful_rounds (se_rounds S)
     \<and> (\<forall>x. hex_DecodeString (se_hash_str S x) = Some x)
     \<and> (\<forall>x. is_zero (se_rounds S) (zero_BlockID\<lparr>bid_Hash := x\<rparr>) \<longleftrightarrow> x = [])"

text \<open>The votes table as a map from its key to the stored block hash.\<close>

definition vote_hashes :: "database \<Rightarrow> int \<times> int \<times> address \<times> int \<rightharpoonup> string option" where
  "vote_hashes d = map_of (map (\<lambda>v. (vote_key v, vt_BlockHash v)) (votes d))"

text \<open>The column a block ID is stored as, and a snapshot that does not record whether its validator
  proposed.\<close>

definition stored_hash :: "('h, 'r) store_env \<Rightarrow> BlockID \<Rightarrow> string option" where
  "stored_hash S b = (if \<not> is_zero (se_rounds S) b then Some (se_hash_str S (bid_Hash b)) else None)"

definition reset_snapshot :: "int \<Rightarrow> address \<Rightarrow> database \<Rightarrow> bool" where
  "reset_snapshot h a d \<longleftrightarrow> has_height d h \<and> has_validator d a
     \<and> (\<exists>s \<in> set (validator_snapshots d). is_snapshot h a s)
     \<and> (\<forall>s \<in> set (validator_snapshots d). is_snapshot h a s \<longrightarrow> s_IsProposer s = None)"

definition has_round :: "database \<Rightarrow> int \<Rightarrow> int \<Rightarrow> bool" where
  "has_round d h r \<longleftrightarrow> (\<exists>x \<in> set (rounds d). is_round h r x)"

definition round_votes :: "database \<Rightarrow> Round \<Rightarrow> ((int \<times> int \<times> address \<times> SignedMsgType) \<times> BlockID) list" where
  "round_votes d r =
     map (\<lambda>v. ((r_Height r, i32 (r_RoundNumber r), vt_ValidatorHexAddress v, i32 (vt_VoteType v)), load_blockID v))
       (GetVotesForRound (r_Height r) (r_RoundNumber r) d)"

section \<open>The contract of a store\<close>

datatype store_op =
    OpRound int int RoundData
  | OpValidators int TMValidators
  | OpEvents "TMEventData list"
  | OpCleanup

locale consensus_storer =
  fixes ok :: "'s \<Rightarrow> bool"
    and content :: "'s \<Rightarrow> 'c"
    and store_round :: "int \<Rightarrow> int \<Rightarrow> RoundData \<Rightarrow> 's \<Rightarrow> ('s \<times> goerror option) option"
    and store_vals :: "int \<Rightarrow> TMValidators \<Rightarrow> 's \<Rightarrow> ('s \<times> goerror option) option"
    and store_events :: "TMEventData list \<Rightarrow> 's \<Rightarrow> 's option"
    and cleanup :: "'s \<Rightarrow> 's \<times> goerror option"
  assumes round_ok: "ok s \<Longrightarrow> store_round h r data s = Some (s', err) \<Longrightarrow> ok s'"
    and round_atomic: "store_round h r data s = Some (s', Some e) \<Longrightarrow> content s' = content s"
    and vals_ok: "ok s \<Longrightarrow> store_vals h vs s = Some (s', err) \<Longrightarrow> ok s'"
    and vals_atomic: "store_vals h vs s = Some (s', Some e) \<Longrightarrow> content s' = content s"
    and events_ok: "ok s \<Longrightarrow> store_events es s = Some s' \<Longrightarrow> ok s'"
    and cleanup_ok: "ok s \<Longrightarrow> ok (fst (cleanup s)) \<and> snd (cleanup s) = None"
begin

definition apply_op :: "store_op \<Rightarrow> 's \<Rightarrow> 's option" where
  "apply_op p s =
     (case p of
        OpRound h r data \<Rightarrow> map_option fst (store_round h r data s)
      | OpValidators h vs \<Rightarrow> map_option fst (store_vals h vs s)
      | OpEvents es \<Rightarrow> store_events es s
      | OpCleanup \<Rightarrow> Some (fst (cleanup s)))"

fun apply_ops :: "store_op list \<Rightarrow> 's \<Rightarrow> 's option" where
  "apply_ops [] s = Some s"
| "apply_ops (p # ps) s = (case apply_op p s of None \<Rightarrow> None | Some s \<Rightarrow> apply_ops ps s)"

lemma apply_op_ok: "ok s \<Longrightarrow> apply_op p s = Some s' \<Longrightarrow> ok s'"
proof (cases p)
  case (OpRound h r data)
  then show "ok s \<Longrightarrow> apply_op p s = Some s' \<Longrightarrow> ok s'" by (auto simp: apply_op_def intro: round_ok)
next
  case (OpValidators h vs)
  then show "ok s \<Longrightarrow> apply_op p s = Some s' \<Longrightarrow> ok s'" by (auto simp: apply_op_def intro: vals_ok)
next
  case (OpEvents es)
  then show "ok s \<Longrightarrow> apply_op p s = Some s' \<Longrightarrow> ok s'" by (auto simp: apply_op_def intro: events_ok)
next
  case OpCleanup
  then show "ok s \<Longrightarrow> apply_op p s = Some s' \<Longrightarrow> ok s'" using cleanup_ok [of s] by (auto simp: apply_op_def)
qed

text \<open>Whatever a client does with a store, in any order, keeps it well formed.\<close>

lemma apply_ops_ok: "ok s \<Longrightarrow> apply_ops ps s = Some s' \<Longrightarrow> ok s'"
proof (induction ps arbitrary: s)
  case (Cons p ps)
  then obtain s1 where "apply_op p s = Some s1" "apply_ops ps s1 = Some s'" by (auto split: option.splits)
  with Cons apply_op_ok show ?case by blast
qed simp

end

text \<open>\<open>NopConsensusStore\<close> of \<open>store.go\<close>.\<close>

definition Nop_StoreRoundData :: "int \<Rightarrow> int \<Rightarrow> RoundData \<Rightarrow> unit \<Rightarrow> (unit \<times> goerror option) option" where
  "Nop_StoreRoundData h r data s = Some (s, None)"

definition Nop_StoreValidators :: "int \<Rightarrow> TMValidators \<Rightarrow> unit \<Rightarrow> (unit \<times> goerror option) option" where
  "Nop_StoreValidators h vs s = Some (s, None)"

definition Nop_StoreCometBFTEvents :: "TMEventData list \<Rightarrow> unit \<Rightarrow> unit option" where
  "Nop_StoreCometBFTEvents es s = Some s"

definition Nop_CleanupOldData :: "unit \<Rightarrow> unit \<times> goerror option" where
  "Nop_CleanupOldData s = (s, None)"

interpretation nop_store: consensus_storer "\<lambda>_. True" id Nop_StoreRoundData Nop_StoreValidators
    Nop_StoreCometBFTEvents Nop_CleanupOldData
  by unfold_locales (simp_all add: Nop_StoreRoundData_def Nop_StoreValidators_def Nop_CleanupOldData_def)

section \<open>Samples\<close>

definition sample_db :: database where
  "sample_db = empty_database\<lparr>
     heights := [new_height (0, 0) \<lparr>uh_Height = 7, uh_BlockHash = None, uh_BlockTime = None,
       uh_ProposerAddress = None, uh_TotalValidators = None\<rparr>],
     validators := [new_validator (0, 0) \<lparr>uw_OperatorAddress = ''A'', uw_HexAddress = ''A'', uw_PublicKey = '''',
       uw_VotingPower = 1, uw_Moniker = None\<rparr>]\<rparr>"

definition sample_store_env :: "((int, (int, RoundData) fmap) fmap, (int, RoundData) fmap) store_env" where
  "sample_store_env = \<lparr>se_rounds = fmap_env, se_hash_str = hex_encode True, se_marshal = (\<lambda>_. Inr ''{}''),
     se_fk = True, se_eng = (\<lambda>_. (0, 0)), se_now = (\<lambda>_. 0)\<rparr>"

definition sample_block :: BlockID where
  "sample_block = zero_BlockID\<lparr>bid_Hash := ''x''\<rparr>"

definition sample_round :: RoundData where
  "sample_round = \<lparr>Proposers = {}, Votes = [''A'' \<mapsto> [PrevoteType \<mapsto> sample_block]]\<rparr>"

section \<open>Lemmas\<close>

subsection \<open>The constraints are kept\<close>

lemma store_votes_ok:
  assumes "se_fk S" "schema_ok d"
  shows "schema_ok (store_votes S h r n vs d)"
  using assms(2)
proof (induction vs arbitrary: n d)
  case (Cons v vs)
  show ?case
  proof (cases "UpsertVote (se_fk S) (se_eng S n) (vote_params S h r n v) d")
    case (Inl e)
    with Cons show ?thesis by simp
  next
    case (Inr x)
    obtain d1 row where x: "x = (d1, row)" by (cases x)
    have "UpsertVote True (se_eng S n) (vote_params S h r n v) d = Inr (d1, row)"
      using Inr assms(1) by (simp add: x)
    from UpsertVote_ok [OF Cons.prems this] have "schema_ok d1" .
    with Cons.IH Inr show ?thesis by (simp add: x)
  qed
qed simp

lemma StoreRoundData_ok:
  assumes "se_fk S" "schema_ok d" "StoreRoundData S b c pick order h r data d = Some (d', err)"
  shows "schema_ok d'"
proof (cases "UpsertRound True (se_eng S 0) (round_params S pick h r data) d")
  case (Inl e)
  with assms show ?thesis by (auto simp: StoreRoundData_def WithTx_def split: option.splits)
next
  case (Inr x)
  obtain d1 row where x: "x = (d1, row)" by (cases x)
  from UpsertRound_ok [OF assms(2) Inr [unfolded x]] have "schema_ok d1" .
  then have "schema_ok (store_votes S h r n vs d1)" for n vs by (rule store_votes_ok [OF assms(1)])
  with assms Inr show ?thesis by (auto simp: x StoreRoundData_def WithTx_def split: option.splits)
qed

lemma store_validators_ok:
  assumes "se_fk S"
  shows "schema_ok d \<Longrightarrow> store_validators S h n vs d = Some d' \<Longrightarrow> schema_ok d'"
proof (induction vs arbitrary: n d)
  case (Cons v vs)
  then obtain comet where comet: "tv_CometValidator v = Some comet" by (auto split: option.splits)
  show ?case
  proof (cases "UpsertValidator (se_eng S n) (validator_params v comet) d")
    case (Inl e)
    with Cons comet show ?thesis by simp
  next
    case (Inr x)
    obtain d1 row where x: "x = (d1, row)" by (cases x)
    from UpsertValidator_ok [OF Cons.prems(1) Inr [unfolded x]] have d1: "schema_ok d1" .
    show ?thesis
    proof (cases "UpsertValidatorSnapshot (se_fk S) (se_eng S (n + 1)) (snapshot_params h v comet) d1")
      case (Inl e)
      with Cons comet Inr x d1 show ?thesis by simp
    next
      case Inr2: (Inr y)
      obtain d2 row2 where y: "y = (d2, row2)" by (cases y)
      have "UpsertValidatorSnapshot True (se_eng S (n + 1)) (snapshot_params h v comet) d1 = Inr (d2, row2)"
        using Inr2 assms by (simp add: y)
      from UpsertValidatorSnapshot_ok [OF d1 this] have "schema_ok d2" .
      with Cons comet Inr x Inr2 y show ?thesis by simp
    qed
  qed
qed simp

lemma StoreValidators_ok:
  assumes "se_fk S" "schema_ok d" "StoreValidators S b c h vs d = Some (d', err)"
  shows "schema_ok d'"
proof (cases "UpsertHeight True (se_eng S 0) (height_params h vs) d")
  case (Inl e)
  with assms show ?thesis by (auto simp: StoreValidators_def WithTx_def split: option.splits)
next
  case (Inr x)
  obtain d1 row where x: "x = (d1, row)" by (cases x)
  from UpsertHeight_ok [OF assms(2) Inr [unfolded x]] have "schema_ok d1" .
  then have "schema_ok d2" if "store_validators S h n vs d1 = Some d2" for n d2
    using store_validators_ok [OF assms(1)] that by blast
  with assms Inr show ?thesis by (auto simp: x StoreValidators_def WithTx_def split: option.splits)
qed

lemma updateProposerInSnapshots_ok: "schema_ok d \<Longrightarrow> schema_ok (updateProposerInSnapshots h p d)"
proof -
  assume ok: "schema_ok d"
  let ?f = "\<lambda>s. if s_Height s = h then s\<lparr>s_IsProposer := Some (s_ValidatorHexAddress s = p)\<rparr> else s"
  have eq: "updateProposerInSnapshots h p d = d\<lparr>validator_snapshots := map ?f (validator_snapshots d)\<rparr>"
    by (simp add: updateProposerInSnapshots_def update_rows_def is_snapshot_def comp_def Let_def)
  have k: "map snapshot_key (map ?f ss) = map snapshot_key ss" for ss
    by (simp add: snapshot_key_def comp_def)
  have "refs_ok (d\<lparr>validator_snapshots := map ?f (validator_snapshots d)\<rparr>)"
    by (rule refs_ok_mono [of d])
       (use ok in \<open>auto simp: schema_ok_def refs_ok_def has_height_def has_validator_def\<close>)
  with ok show ?thesis unfolding eq schema_ok_def keys_ok_def by (simp add: k del: map_map)
qed

lemma StoreConsensusEvent_ok:
  assumes "se_fk S" "schema_ok d"
  shows "schema_ok (fst (StoreConsensusEvent S n h r t kvs d))"
proof -
  have "schema_ok d'" if "CreateConsensusEvent True eng a d = Inr (d', row)" for eng a d' row
    using CreateConsensusEvent_ok [OF assms(2) that] .
  then show ?thesis using assms by (auto simp: StoreConsensusEvent_def Let_def split: sum.splits)
qed

lemma StoreCometBFTEvents_ok:
  "se_fk S \<Longrightarrow> schema_ok d \<Longrightarrow> StoreCometBFTEvents S n es d = Some d' \<Longrightarrow> schema_ok d'"
proof (induction S n es d rule: StoreCometBFTEvents.induct)
  case (2 S n event events d)
  then obtain d1 where d1: "store_event S n event d = Some d1" "StoreCometBFTEvents S (n + 1) events d1 = Some d'"
    by (auto split: option.splits)
  have "schema_ok d1" using d1(1) 2(2,3)
    by (auto simp: store_event_def Let_def StoreConsensusEvent_ok updateProposerInSnapshots_ok
        split: TMEventData.splits option.splits)
  with 2 d1 show ?case by blast
qed simp

lemma WithTx_err: "WithTx b c fn d = Some (d', Some err) \<Longrightarrow> d' = d"
  by (auto simp: WithTx_def split: option.splits)

interpretation sqlite_store: consensus_storer schema_ok id
    "StoreRoundData (S\<lparr>se_fk := True\<rparr>) b c pick order" "StoreValidators (S\<lparr>se_fk := True\<rparr>) b c"
    "StoreCometBFTEvents (S\<lparr>se_fk := True\<rparr>) n" "CleanupOldData True config ct"
  for S b c pick order n config ct
proof unfold_locales
  fix s :: database
  assume "schema_ok s"
  then show "schema_ok (fst (CleanupOldData True config ct s)) \<and> snd (CleanupOldData True config ct s) = None"
    using Cleanup_from_height [of s] from_height_schema_ok by (simp add: schema_ok_def)
next
  fix s s' :: database and h r data err
  show "schema_ok s'" if "schema_ok s" "StoreRoundData (S\<lparr>se_fk := True\<rparr>) b c pick order h r data s = Some (s', err)"
    by (rule StoreRoundData_ok [OF _ that]) simp
next
  fix s s' :: database and h vs err
  show "schema_ok s'" if "schema_ok s" "StoreValidators (S\<lparr>se_fk := True\<rparr>) b c h vs s = Some (s', err)"
    by (rule StoreValidators_ok [OF _ that]) simp
next
  fix s s' :: database and es
  show "schema_ok s'" if "schema_ok s" "StoreCometBFTEvents (S\<lparr>se_fk := True\<rparr>) n es s = Some s'"
    by (rule StoreCometBFTEvents_ok [OF _ that]) simp
qed (auto simp: StoreRoundData_def StoreValidators_def dest: WithTx_err)

subsection \<open>The votes table as a map\<close>

lemma vote_key_of: "is_vote_of a v \<longleftrightarrow> vote_key v = (uv_Height a, uv_RoundNumber a, uv_ValidatorHexAddress a, uv_VoteType a)"
  by (auto simp: is_vote_of_def is_vote_def vote_key_def)

lemma upsert_row_map_of:
  assumes "\<And>r. match r \<longleftrightarrow> key r = k" "\<And>r. key (upd r) = key r" "key new = k"
    and "\<And>r. val (upd r) = val new"
  shows "map_of (map (\<lambda>r. (key r, val r)) (fst (upsert_row match upd new rows))) =
    (map_of (map (\<lambda>r. (key r, val r)) rows))(k \<mapsto> val new)"
proof (cases "find match rows")
  case None
  then have "k \<notin> key ` set rows" using assms(1) by (auto simp: find_None_iff)
  then have "map_of (map (\<lambda>r. (key r, val r)) rows) k = None" by (auto simp: map_of_eq_None_iff image_image)
  with None assms(3) show ?thesis
    by (auto simp: upsert_row_def map_add_def fun_eq_iff split: option.splits)
next
  case (Some r)
  then have r: "r \<in> set rows" "key r = k" using assms(1) by (auto simp: find_Some_iff)
  have "map_of (map (\<lambda>r. (key r, val r)) (map (\<lambda>r. if match r then upd r else r) xs)) x =
      (if x = k \<and> k \<in> key ` set xs then Some (val new) else map_of (map (\<lambda>r. (key r, val r)) xs) x)" for x xs
    by (induction xs) (auto simp: assms)
  with Some r show ?thesis by (auto simp: upsert_row_def fun_eq_iff)
qed

lemma UpsertVote_result:
  assumes "fk \<longrightarrow> has_height d (uv_Height a) \<and> has_validator d (uv_ValidatorHexAddress a)"
  shows "\<exists>d' row. UpsertVote fk eng a d = Inr (d', row) \<and> d' = d\<lparr>votes := votes d'\<rparr>
    \<and> vote_hashes d' = (vote_hashes d)((uv_Height a, uv_RoundNumber a, uv_ValidatorHexAddress a, uv_VoteType a)
        \<mapsto> uv_BlockHash a)"
proof -
  let ?u = "\<lambda>v. v\<lparr>vt_BlockHash := uv_BlockHash a, vt_Signature := uv_Signature a, vt_Timestamp := uv_Timestamp a\<rparr>"
  have "map_of (map (\<lambda>r. (vote_key r, vt_BlockHash r)) (fst (upsert_row (is_vote_of a) ?u (new_vote eng a) (votes d)))) =
      (map_of (map (\<lambda>r. (vote_key r, vt_BlockHash r)) (votes d)))
        ((uv_Height a, uv_RoundNumber a, uv_ValidatorHexAddress a, uv_VoteType a) \<mapsto> vt_BlockHash (new_vote eng a))"
    by (rule upsert_row_map_of) (auto simp: vote_key_of vote_key_def new_vote_def)
  with assms show ?thesis
    by (auto simp: UpsertVote_def vote_hashes_def new_vote_def case_prod_beta)
qed

lemma store_votes_hashes:
  "(se_fk S \<longrightarrow> has_height d h) \<Longrightarrow> \<exists>vs'. store_votes S h r n vs d = d\<lparr>votes := vs'\<rparr>
    \<and> vote_hashes (store_votes S h r n vs d) = vote_hashes d ++ map_of (rev (map (\<lambda>(a, t, b). ((h, r, a, t), stored_hash S b))
        (filter (\<lambda>v. se_fk S \<longrightarrow> has_validator d (fst v)) vs)))"
proof (induction vs arbitrary: n d)
  case Nil
  show ?case by (rule exI [of _ "votes d"]) simp
next
  case (Cons v vs)
  obtain a t b where v: "v = (a, t, b)" by (cases v)
  show ?case
  proof (cases "se_fk S \<longrightarrow> has_validator d a")
    case False
    then have "UpsertVote (se_fk S) (se_eng S n) (vote_params S h r n v) d = Inl ErrForeignKey"
      by (simp add: UpsertVote_def vote_params_def v)
    with Cons.IH [OF Cons.prems, of "n + 1"] False show ?thesis by (simp add: v)
  next
    case True
    then have "se_fk S \<longrightarrow> has_height d (uv_Height (vote_params S h r n v))
        \<and> has_validator d (uv_ValidatorHexAddress (vote_params S h r n v))"
      using Cons.prems by (simp add: v vote_params_def)
    from UpsertVote_result [OF this, of "se_eng S n"] obtain d' row where
      d': "UpsertVote (se_fk S) (se_eng S n) (vote_params S h r n v) d = Inr (d', row)" "d' = d\<lparr>votes := votes d'\<rparr>"
        "vote_hashes d' = (vote_hashes d)((h, r, a, t) \<mapsto> stored_hash S b)"
      by (auto simp: v vote_params_def stored_hash_def)
    have same: "se_fk S \<longrightarrow> has_height d' h" "has_validator d' x \<longleftrightarrow> has_validator d x" for x
      using Cons.prems by (subst d'(2), simp add: has_height_def has_validator_def)+
    from Cons.IH [OF same(1), of "n + 1"] obtain vs' where
      vs': "store_votes S h r (n + 1) vs d' = d'\<lparr>votes := vs'\<rparr>"
      "vote_hashes (store_votes S h r (n + 1) vs d') = vote_hashes d' ++ map_of (rev (map (\<lambda>(a, t, b). ((h, r, a, t), stored_hash S b))
        (filter (\<lambda>v. se_fk S \<longrightarrow> has_validator d' (fst v)) vs)))" by blast
    have "store_votes S h r n (v # vs) d = d\<lparr>votes := vs'\<rparr>"
      using d'(1) vs'(1) by (simp add: v) (subst d'(2), simp)
    moreover have "vote_hashes (store_votes S h r n (v # vs) d) = vote_hashes d' ++ map_of (rev (map (\<lambda>(a, t, b). ((h, r, a, t), stored_hash S b))
        (filter (\<lambda>v. se_fk S \<longrightarrow> has_validator d (fst v)) vs)))"
      using d'(1) vs'(2) by (simp add: v same(2))
    ultimately show ?thesis using True by (auto simp: v d'(3))
  qed
qed

lemma UpsertRound_result:
  assumes "UpsertRound fk eng a d = Inr (d', row)"
  shows "fk \<longrightarrow> has_height d (ur_Height a)" "d' = d\<lparr>rounds := rounds d'\<rparr>"
    "round_key ` set (rounds d') = insert (ur_Height a, ur_RoundNumber a) (round_key ` set (rounds d))"
proof -
  let ?u = "\<lambda>r. r\<lparr>r_Step := ur_Step a, r_StartTime := ur_StartTime a, r_ProposerAddress := ur_ProposerAddress a\<rparr>"
  have d': "d' = d\<lparr>rounds := fst (upsert_row (is_round (ur_Height a) (ur_RoundNumber a)) ?u (new_round eng a) (rounds d))\<rparr>"
    and fk: "fk \<longrightarrow> has_height d (ur_Height a)"
    using assms by (auto simp: UpsertRound_def case_prod_beta split: if_splits)
  show "fk \<longrightarrow> has_height d (ur_Height a)" by (rule fk)
  show "d' = d\<lparr>rounds := rounds d'\<rparr>" unfolding d' by simp
  have "map round_key (fst (upsert_row (is_round (ur_Height a) (ur_RoundNumber a)) ?u (new_round eng a) (rounds d))) =
      (if (ur_Height a, ur_RoundNumber a) \<in> round_key ` set (rounds d) then map round_key (rounds d)
       else map round_key (rounds d) @ [(ur_Height a, ur_RoundNumber a)])"
    by (rule upsert_row_keys) (auto simp: is_round_def round_key_def new_round_def)
  then have "set (map round_key (rounds d')) = insert (ur_Height a, ur_RoundNumber a) (round_key ` set (rounds d))"
    unfolding d' by auto
  then show "round_key ` set (rounds d') = insert (ur_Height a, ur_RoundNumber a) (round_key ` set (rounds d))"
    by simp
qed

lemma has_round_key: "has_round d h r \<longleftrightarrow> (h, r) \<in> round_key ` set (rounds d)"
  by (auto simp: has_round_def is_round_def round_key_def)

lemma in_fst_image: "k \<in> fst ` A \<longleftrightarrow> (\<exists>b. (k, b) \<in> A)"
  by force

lemma map_of_functional:
  assumes "\<forall>(k, v) \<in> set L. f k = Some v"
  shows "map_of L k = (if k \<in> fst ` set L then f k else None)"
  using assms by (induction L) auto

lemma StoreRoundData_result:
  assumes "StoreRoundData S b c pick order h r data d = Some (d', None)" "lists_votes order data"
  shows "has_round d' h' r' \<longleftrightarrow> has_round d h' r' \<or> (h', r') = (h, r)"
    and "vote_hashes d' (h', r', a, t) =
      (if (h', r') = (h, r) \<and> (se_fk S \<longrightarrow> has_validator d a) \<and> round_vote data a t \<noteq> None
       then map_option (stored_hash S) (round_vote data a t) else vote_hashes d (h', r', a, t))"
proof -
  obtain d1 row where d1: "UpsertRound (se_fk S) (se_eng S 0) (round_params S pick h r data) d = Inr (d1, row)"
    and d': "d' = store_votes S h r 1 (order data) d1"
    using assms(1) by (auto simp: StoreRoundData_def WithTx_def split: option.splits sum.splits)
  have fk: "se_fk S \<longrightarrow> has_height d h" and upd: "d1 = d\<lparr>rounds := rounds d1\<rparr>"
    and keys: "round_key ` set (rounds d1) = insert (h, r) (round_key ` set (rounds d))"
    using UpsertRound_result [OF d1] by (simp_all add: round_params_def)
  have same: "has_height d1 = has_height d" "has_validator d1 = has_validator d" "vote_hashes d1 = vote_hashes d"
    by (subst upd, simp add: has_height_def has_validator_def vote_hashes_def fun_eq_iff)+
  let ?L = "map (\<lambda>(a, t, b). ((h, r, a, t), stored_hash S b))
    (filter (\<lambda>v. se_fk S \<longrightarrow> has_validator d (fst v)) (order data))"
  from store_votes_hashes [of S d1 h r 1 "order data"] fk obtain vs' where
    "d' = d1\<lparr>votes := vs'\<rparr>" and hashes: "vote_hashes d' = vote_hashes d ++ map_of (rev ?L)"
    by (auto simp: d' same)
  then show "has_round d' h' r' \<longleftrightarrow> has_round d h' r' \<or> (h', r') = (h, r)"
    using keys by (auto simp: has_round_key)
  let ?f = "\<lambda>(h', r', a, t). map_option (stored_hash S) (round_vote data a t)"
  have mem: "(a, t, b) \<in> set (order data) \<longleftrightarrow> round_vote data a t = Some b" for a t b
    using assms(2) by (simp add: lists_votes_def)
  have "\<forall>(k, v) \<in> set (rev ?L). ?f k = Some v" by (auto simp: mem)
  from map_of_functional [OF this]
  have "map_of (rev ?L) (h', r', a, t) = (if (h', r', a, t) \<in> fst ` set (rev ?L) then ?f (h', r', a, t) else None)" .
  moreover have "(h', r', a, t) \<in> fst ` set (rev ?L) \<longleftrightarrow>
      (h', r') = (h, r) \<and> (se_fk S \<longrightarrow> has_validator d a) \<and> round_vote data a t \<noteq> None"
    by (force simp: mem image_iff)
  ultimately show "vote_hashes d' (h', r', a, t) =
      (if (h', r') = (h, r) \<and> (se_fk S \<longrightarrow> has_validator d a) \<and> round_vote data a t \<noteq> None
       then map_option (stored_hash S) (round_vote data a t) else vote_hashes d (h', r', a, t))"
    by (auto simp: hashes map_add_def split: option.split)
qed

subsection \<open>Reading the votes back\<close>

lemma load_votes:
  assumes "lawful_rounds B"
  shows "vote_at B (foldl (load_vote B h r) m vs) =
    vote_at B m ++ map_of (rev (map (\<lambda>v. ((h, r, vt_ValidatorHexAddress v, i32 (vt_VoteType v)), load_blockID v)) vs))"
proof (induction vs arbitrary: m)
  case (Cons v vs)
  have "vote_at B (load_vote B h r m v) =
      vote_at B m ++ [(h, r, vt_ValidatorHexAddress v, i32 (vt_VoteType v)) \<mapsto> load_blockID v]"
    by (simp add: load_vote_def vote_store.votes_add_vote [OF lawful_rounds.contract [OF assms]])
  then show ?case by (simp only: foldl.simps Cons.IH list.map rev.simps map_of_append map_add_assoc map_of.simps fst_conv snd_conv)
qed simp

lemma load_rounds:
  assumes "lawful_rounds B"
  shows "vote_at B (foldl (load_round B d) m rs) = vote_at B m ++ map_of (rev (concat (map (round_votes d) rs)))"
proof (induction rs arbitrary: m)
  case (Cons r rs)
  note add = vote_store.votes_add_proposer [OF lawful_rounds.contract [OF assms]]
  have "vote_at B (load_round B d m r) = vote_at B m ++ map_of (rev (round_votes d r))"
    by (simp add: load_round_def Let_def load_votes [OF assms] round_votes_def add split: option.split)
  with Cons show ?case by simp
qed simp

lemma vote_hashes_key:
  assumes "distinct (map vote_key (votes d))" "v \<in> set (votes d)"
  shows "vote_hashes d (vote_key v) = Some (vt_BlockHash v)"
  using assms by (simp add: vote_hashes_def comp_def map_of_eq_Some_iff image_iff) blast

lemma vote_hashes_dom: "dom (vote_hashes d) = vote_key ` set (votes d)"
  by (auto simp: vote_hashes_def dom_map_of_conv_image_fst image_image)

lemma int32_ok_alt:
  "int32_ok d \<longleftrightarrow> (\<forall>h r. has_round d h r \<longrightarrow> in_i32 r)
     \<and> (\<forall>h r a t x. vote_hashes d (h, r, a, t) = Some x \<longrightarrow> in_i32 r \<and> in_i32 t)"
proof -
  have "(\<exists>x. vote_hashes d (h, r, a, t) = Some x) \<longleftrightarrow> (\<exists>v \<in> set (votes d). (h, r, a, t) = vote_key v)" for h r a t
    using vote_hashes_dom [of d] by (auto simp: dom_def set_eq_iff image_iff)
  then show ?thesis unfolding int32_ok_def has_round_def is_round_def vote_key_def by auto metis+
qed

lemma LoadRoundDataMap_votes:
  assumes B: "lawful_rounds B" and keys: "keys_ok d" and i32: "int32_ok d"
  shows "vote_at B (LoadRoundDataMap B lo hi d) (h, r, a, t) =
    (if lo \<le> h \<and> h \<le> hi \<and> has_round d h r then map_option load_hash (vote_hashes d (h, r, a, t)) else None)"
proof -
  let ?L = "concat (map (round_votes d) (GetRoundsInRange lo hi d))"
  let ?f = "\<lambda>k. map_option load_hash (vote_hashes d k)"
  have new: "vote_at B (NewRoundDataMap B) = Map.empty"
    by (auto simp: vote_at_def fun_eq_iff lawful_rounds.round_at_new [OF B])
  have rows: "((h, r, a, t), b) \<in> set ?L \<longleftrightarrow>
      (\<exists>v \<in> set (votes d). vote_key v = (h, r, a, t) \<and> b = load_blockID v \<and> lo \<le> h \<and> h \<le> hi \<and> has_round d h r)" for h r a t b
  proof
    assume "((h, r, a, t), b) \<in> set ?L"
    then obtain x v where x: "x \<in> set (rounds d)" "lo \<le> r_Height x" "r_Height x \<le> hi" "h = r_Height x" "r = i32 (r_RoundNumber x)"
      and v: "v \<in> set (votes d)" "vt_Height v = r_Height x" "vt_RoundNumber v = r_RoundNumber x" "a = vt_ValidatorHexAddress v"
        "t = i32 (vt_VoteType v)" "b = load_blockID v"
      by (auto simp: GetRoundsInRange_def rounds_desc_def round_votes_def GetVotesForRound_def)
    then have "r = r_RoundNumber x" "t = vt_VoteType v" using i32 by (auto simp: int32_ok_def i32_id)
    with x v show "\<exists>v \<in> set (votes d). vote_key v = (h, r, a, t) \<and> b = load_blockID v \<and> lo \<le> h \<and> h \<le> hi \<and> has_round d h r"
      by (auto simp: vote_key_def has_round_def is_round_def)
  next
    assume "\<exists>v \<in> set (votes d). vote_key v = (h, r, a, t) \<and> b = load_blockID v \<and> lo \<le> h \<and> h \<le> hi \<and> has_round d h r"
    then obtain x v where x: "x \<in> set (rounds d)" "r_Height x = h" "r_RoundNumber x = r" and h: "lo \<le> h" "h \<le> hi"
      and v: "v \<in> set (votes d)" "vote_key v = (h, r, a, t)" "b = load_blockID v"
      by (auto simp: has_round_def is_round_def)
    have i: "i32 (r_RoundNumber x) = r" "i32 (vt_VoteType v) = t"
      using i32 x v by (auto simp: int32_ok_def i32_id vote_key_def)
    have "((h, r, a, t), b) \<in> set (round_votes d x)"
      using x v i by (force simp: round_votes_def GetVotesForRound_def vote_key_def)
    moreover have "x \<in> set (GetRoundsInRange lo hi d)" using x h by (simp add: GetRoundsInRange_def rounds_desc_def)
    ultimately show "((h, r, a, t), b) \<in> set ?L" by auto
  qed
  have dist: "distinct (map vote_key (votes d))" using keys by (simp add: keys_ok_def)
  have "\<forall>(k, b) \<in> set (rev ?L). ?f k = Some b"
    using rows vote_hashes_key [OF dist] by (fastforce simp: load_blockID_def)
  from map_of_functional [OF this]
  have "vote_at B (LoadRoundDataMap B lo hi d) (h, r, a, t) = (if (h, r, a, t) \<in> fst ` set (rev ?L) then ?f (h, r, a, t) else None)"
    by (simp add: LoadRoundDataMap_def load_rounds [OF B] new)
  moreover have "(h, r, a, t) \<in> fst ` set (rev ?L) \<longleftrightarrow> lo \<le> h \<and> h \<le> hi \<and> has_round d h r \<and> vote_hashes d (h, r, a, t) \<noteq> None"
  proof -
    have "(h, r, a, t) \<in> fst ` set (rev ?L) \<longleftrightarrow> (\<exists>b. ((h, r, a, t), b) \<in> set ?L)"
      by (simp only: set_rev in_fst_image)
    also have "\<dots> \<longleftrightarrow> lo \<le> h \<and> h \<le> hi \<and> has_round d h r \<and> (h, r, a, t) \<in> vote_key ` set (votes d)"
      unfolding rows by force
    finally show ?thesis unfolding vote_hashes_dom [symmetric] by auto
  qed
  ultimately show ?thesis by auto
qed

lemma StoreRoundData_int32:
  assumes "int32_ok d" "in_i32 r" "lists_votes order data"
    and "StoreRoundData S b c pick order h r data d = Some (d', None)"
    and "\<forall>a t b. round_vote data a t = Some b \<longrightarrow> in_i32 t"
  shows "int32_ok d'"
proof -
  note result = StoreRoundData_result [OF assms(4,3)]
  have old: "in_i32 r' \<and> in_i32 t" if "vote_hashes d (h', r', a, t) = Some x" for h' r' a t x
    using assms(1) that unfolding int32_ok_alt by blast
  have "in_i32 r'" if "has_round d' h' r'" for h' r'
    using that assms(1,2) result(1) by (auto simp: int32_ok_alt)
  moreover have "in_i32 r' \<and> in_i32 t" if "vote_hashes d' (h', r', a, t) = Some x" for h' r' a t x
    using that assms(2,5) old [of h' r' a t] unfolding result(2) by (auto split: if_splits)
  ultimately show ?thesis unfolding int32_ok_alt by blast
qed

lemma load_stored_hash:
  assumes "lawful_store_env S" "is_zero (se_rounds S) b \<or> bid_Hash b \<noteq> []"
  shows "load_hash (stored_hash S b) = (if is_zero (se_rounds S) b then zero_BlockID else zero_BlockID\<lparr>bid_Hash := bid_Hash b\<rparr>)"
    and "is_zero (se_rounds S) (load_hash (stored_hash S b)) \<longleftrightarrow> is_zero (se_rounds S) b"
proof -
  have z: "zero_BlockID\<lparr>bid_Hash := []\<rparr> = zero_BlockID" by (simp add: zero_BlockID_def)
  have iz: "is_zero (se_rounds S) (zero_BlockID\<lparr>bid_Hash := x\<rparr>) \<longleftrightarrow> x = []"
    and str: "hex_DecodeString (se_hash_str S x) = Some x" for x
    using assms(1) by (simp_all add: lawful_store_env_def)
  show l: "load_hash (stored_hash S b) = (if is_zero (se_rounds S) b then zero_BlockID else zero_BlockID\<lparr>bid_Hash := bid_Hash b\<rparr>)"
    by (simp add: load_hash_def stored_hash_def str)
  show "is_zero (se_rounds S) (load_hash (stored_hash S b)) \<longleftrightarrow> is_zero (se_rounds S) b"
    unfolding l using assms(2) iz [of "[]"] iz [of "bid_Hash b"] by (auto simp: z)
qed

subsection \<open>Validators\<close>

lemma UpsertValidator_result:
  "\<exists>d' row. UpsertValidator eng a d = Inr (d', row) \<and> d' = d\<lparr>validators := validators d'\<rparr>
     \<and> has_validator d' (uw_HexAddress a) \<and> (\<forall>x. has_validator d x \<longrightarrow> has_validator d' x)
     \<and> (\<forall>h x. reset_snapshot h x d \<longrightarrow> reset_snapshot h x d')"
proof -
  let ?r = "upsert_row (\<lambda>v. v_HexAddress v = uw_HexAddress a) (set_validator eng a) (new_validator eng a) (validators d)"
  have k: "map v_HexAddress (fst ?r) = (if uw_HexAddress a \<in> v_HexAddress ` set (validators d)
      then map v_HexAddress (validators d) else map v_HexAddress (validators d) @ [uw_HexAddress a])"
    by (rule upsert_row_keys) (auto simp: set_validator_def new_validator_def)
  then have "v_HexAddress ` set (fst ?r) = insert (uw_HexAddress a) (v_HexAddress ` set (validators d))"
    by (metis (no_types, lifting) insert_absorb list.simps(15) rotate1.simps(2) set_map set_rotate1)
  moreover have "UpsertValidator eng a d = Inr (d\<lparr>validators := fst ?r\<rparr>, snd ?r)"
    by (simp add: UpsertValidator_def case_prod_beta)
  ultimately show ?thesis by (auto simp: has_validator_image reset_snapshot_def has_height_def)
qed

lemma upsert_row_matching:
  assumes "m n" "\<And>x. m (u x) \<longleftrightarrow> m x"
  shows "\<exists>x \<in> set (fst (upsert_row m u n rows)). m x"
    and "x \<in> set (fst (upsert_row m u n rows)) \<Longrightarrow> m x \<Longrightarrow> x = n \<or> (\<exists>y. x = u y)"
    and "x \<in> set (fst (upsert_row m u n rows)) \<Longrightarrow> \<not> m x \<Longrightarrow> x \<in> set rows"
proof -
  have "(\<exists>x \<in> set (fst (upsert_row m u n rows)). m x)
      \<and> (x \<in> set (fst (upsert_row m u n rows)) \<longrightarrow> (m x \<longrightarrow> x = n \<or> (\<exists>y. x = u y)) \<and> (\<not> m x \<longrightarrow> x \<in> set rows))"
  proof (cases "find m rows")
    case None
    then have "\<not> m y" if "y \<in> set rows" for y using that by (auto simp: find_None_iff)
    with None assms show ?thesis by (auto simp: upsert_row_def)
  next
    case (Some r)
    then have "r \<in> set rows" "m r" by (auto simp: find_Some_iff)
    then have "u r \<in> set (fst (upsert_row m u n rows))" "m (u r)" using Some assms(2) by (auto simp: upsert_row_def)
    with Some assms(2) show ?thesis by (auto simp: upsert_row_def)
  qed
  then show "\<exists>x \<in> set (fst (upsert_row m u n rows)). m x"
    and "x \<in> set (fst (upsert_row m u n rows)) \<Longrightarrow> m x \<Longrightarrow> x = n \<or> (\<exists>y. x = u y)"
    and "x \<in> set (fst (upsert_row m u n rows)) \<Longrightarrow> \<not> m x \<Longrightarrow> x \<in> set rows" by blast+
qed

lemma UpsertValidatorSnapshot_result:
  assumes "has_height d (us_Height a)" "has_validator d (us_ValidatorHexAddress a)" "us_IsProposer a = None"
  shows "\<exists>d' row. UpsertValidatorSnapshot fk eng a d = Inr (d', row) \<and> d' = d\<lparr>validator_snapshots := validator_snapshots d'\<rparr>
     \<and> reset_snapshot (us_Height a) (us_ValidatorHexAddress a) d' \<and> (\<forall>h x. reset_snapshot h x d \<longrightarrow> reset_snapshot h x d')"
proof -
  let ?m = "is_snapshot (us_Height a) (us_ValidatorHexAddress a)"
  let ?u = "\<lambda>s. s\<lparr>s_VotingPower := us_VotingPower a, s_VotingPowerPercent := us_VotingPowerPercent a, s_IsProposer := us_IsProposer a\<rparr>"
  let ?r = "upsert_row ?m ?u (new_snapshot eng a) (validator_snapshots d)"
  let ?d = "d\<lparr>validator_snapshots := fst ?r\<rparr>"
  have "UpsertValidatorSnapshot fk eng a d = Inr (?d, snd ?r)"
    using assms(1,2) by (simp add: UpsertValidatorSnapshot_def case_prod_beta)
  moreover have new: "reset_snapshot (us_Height a) (us_ValidatorHexAddress a) ?d"
  proof -
    note match = upsert_row_matching(1,2) [where m = ?m and n = "new_snapshot eng a" and u = ?u and rows = "validator_snapshots d"]
    have m: "?m (new_snapshot eng a)" "?m (?u x) \<longleftrightarrow> ?m x" for x by (simp_all add: new_snapshot_def is_snapshot_def)
    have "s_IsProposer (?u s) = None" "s_IsProposer (new_snapshot eng a) = None" for s
      using assms(3) by (simp_all add: new_snapshot_def)
    then show ?thesis using match(1) [OF m] match(2) [OF m] assms(1,2)
      by (fastforce simp: reset_snapshot_def has_height_def has_validator_def)
  qed
  moreover have "reset_snapshot h x ?d" if "reset_snapshot h x d" for h x
  proof (cases "h = us_Height a \<and> x = us_ValidatorHexAddress a")
    case True
    with new show ?thesis by simp
  next
    case False
    note match = upsert_row_matching(3) [where m = ?m and n = "new_snapshot eng a" and u = ?u and rows = "validator_snapshots d"]
    have m: "?m (new_snapshot eng a)" "?m (?u x) \<longleftrightarrow> ?m x" for x by (simp_all add: new_snapshot_def is_snapshot_def)
    have "\<not> ?m s" if "is_snapshot h x s" for s using that False by (auto simp: is_snapshot_def)
    then show ?thesis using that match [OF m] upsert_row_keeps [of _ "validator_snapshots d" ?m ?u "new_snapshot eng a"]
      by (auto simp: reset_snapshot_def has_height_def has_validator_def)
  qed
  ultimately show ?thesis by (intro exI [of _ ?d] exI [of _ "snd ?r"]) simp
qed

lemma store_validators_reset:
  "has_height d h \<Longrightarrow> store_validators S h n vs d = Some d' \<Longrightarrow>
     heights d' = heights d \<and> (\<forall>a. reset_snapshot h a d \<longrightarrow> reset_snapshot h a d')
     \<and> (\<forall>v \<in> set vs. reset_snapshot h (GetDisplayAddress v) d')"
proof (induction vs arbitrary: n d)
  case (Cons v vs)
  then obtain comet where comet: "tv_CometValidator v = Some comet" by (auto split: option.splits)
  have addr: "uw_HexAddress (validator_params v comet) = GetDisplayAddress v"
    "us_ValidatorHexAddress (snapshot_params h v comet) = GetDisplayAddress v"
    "us_Height (snapshot_params h v comet) = h" "us_IsProposer (snapshot_params h v comet) = None"
    by (simp_all add: validator_params_def snapshot_params_def)
  from UpsertValidator_result [of "se_eng S n" "validator_params v comet" d, unfolded addr] obtain d1 row1 where
    d1: "UpsertValidator (se_eng S n) (validator_params v comet) d = Inr (d1, row1)" "d1 = d\<lparr>validators := validators d1\<rparr>"
      "has_validator d1 (GetDisplayAddress v)" "\<And>a. reset_snapshot h a d \<Longrightarrow> reset_snapshot h a d1" by blast
  have hh: "heights d1 = heights d" by (subst d1(2)) simp
  then have h1: "has_height d1 h" using Cons.prems(1) by (simp add: has_height_def)
  from UpsertValidatorSnapshot_result [of d1 "snapshot_params h v comet" "se_fk S" "se_eng S (n + 1)", unfolded addr] h1 d1(3)
  obtain d2 row2 where d2: "UpsertValidatorSnapshot (se_fk S) (se_eng S (n + 1)) (snapshot_params h v comet) d1 = Inr (d2, row2)"
      "d2 = d1\<lparr>validator_snapshots := validator_snapshots d2\<rparr>" "reset_snapshot h (GetDisplayAddress v) d2"
      "\<And>a. reset_snapshot h a d1 \<Longrightarrow> reset_snapshot h a d2"
    by blast
  have "heights d2 = heights d" by (subst d2(2)) (simp add: hh)
  moreover have "store_validators S h (n + 2) vs d2 = Some d'"
    using Cons.prems(2) comet d1(1) d2(1) by simp
  ultimately show ?case using Cons.IH [of d2 "n + 2"] Cons.prems(1) d1(4) d2(3,4)
    by (auto simp: has_height_def)
qed simp

lemma one_row_filter:
  assumes "\<exists>x \<in> set xs. P x" "\<forall>x \<in> set xs. P x \<longrightarrow> Q x"
  shows "\<exists>x. one_row (filter P xs) = Inr x \<and> Q x"
  using assms by (induction xs) (auto simp: one_row_def)

section \<open>Properties\<close>

text \<open>Whatever the application stores and cleans up, in any order and with any failing
  transactions, the constraints of the schema hold afterwards: unique keys, and no reference to a
  missing height or validator.\<close>

theorem store_ops_keep_schema:
  assumes "schema_ok d"
    and "consensus_storer.apply_ops (StoreRoundData (S\<lparr>se_fk := True\<rparr>) b c pick order)
      (StoreValidators (S\<lparr>se_fk := True\<rparr>) b c) (StoreCometBFTEvents (S\<lparr>se_fk := True\<rparr>) n)
      (CleanupOldData True config ct) ops d = Some d'"
  shows "schema_ok d'"
  by (rule sqlite_store.apply_ops_ok [OF assms])

text \<open>C18: a stored round is read back: every vote stored for a known validator is loaded with its
  kind (nil or for a block) and its block hash, and every other round loads as before. Only the part
  set header of a block ID is lost.\<close>

theorem StoreRoundData_LoadRoundDataMap:
  assumes "lawful_store_env S" "se_fk S" "schema_ok d" "int32_ok d" "in_i32 r" "lists_votes order data"
    and store: "StoreRoundData S b c pick order h r data d = Some (d', None)"
    and data: "\<forall>a t x. round_vote data a t = Some x \<longrightarrow>
      has_validator d a \<and> in_i32 t \<and> (is_zero (se_rounds S) x \<or> bid_Hash x \<noteq> [])"
    and "lo \<le> h" "h \<le> hi"
  shows "(\<forall>a t x. round_vote data a t = Some x \<longrightarrow>
      GetVote (se_rounds S) (LoadRoundDataMap (se_rounds S) lo hi d') h r a t =
        (if is_zero (se_rounds S) x then VoteStateNil else VoteStateForBlock)
      \<and> vote_at (se_rounds S) (LoadRoundDataMap (se_rounds S) lo hi d') (h, r, a, t) =
        Some (if is_zero (se_rounds S) x then zero_BlockID else zero_BlockID\<lparr>bid_Hash := bid_Hash x\<rparr>))
    \<and> (\<forall>h' r' a t. (h', r') \<noteq> (h, r) \<longrightarrow>
      GetVote (se_rounds S) (LoadRoundDataMap (se_rounds S) lo hi d') h' r' a t =
      GetVote (se_rounds S) (LoadRoundDataMap (se_rounds S) lo hi d) h' r' a t)"
proof -
  let ?B = "se_rounds S"
  have B: "lawful_rounds ?B" using assms(1) by (simp add: lawful_store_env_def)
  note get = vote_store.get_vote_votes [OF lawful_rounds.contract [OF B]]
  note result = StoreRoundData_result [OF store assms(6)]
  have "keys_ok d" using assms(3) by (simp add: schema_ok_def)
  note old = LoadRoundDataMap_votes [OF B this assms(4)]
  have "keys_ok d'" using StoreRoundData_ok [OF assms(2,3) store] by (simp add: schema_ok_def)
  moreover have "int32_ok d'" by (rule StoreRoundData_int32 [OF assms(4,5,6) store]) (use data in blast)
  ultimately have new: "vote_at ?B (LoadRoundDataMap ?B lo hi d') (h', r', a, t) =
    (if lo \<le> h' \<and> h' \<le> hi \<and> has_round d' h' r' then map_option load_hash (vote_hashes d' (h', r', a, t)) else None)" for h' r' a t
    by (rule LoadRoundDataMap_votes [OF B])
  have loaded: "vote_at ?B (LoadRoundDataMap ?B lo hi d') (h, r, a, t) = Some (load_hash (stored_hash S x))"
    if "round_vote data a t = Some x" for a t x
    using that data assms(9,10) by (simp add: new result)
  have other: "vote_at ?B (LoadRoundDataMap ?B lo hi d') (h', r', a, t) = vote_at ?B (LoadRoundDataMap ?B lo hi d) (h', r', a, t)"
    if "(h', r') \<noteq> (h, r)" for h' r' a t
    using that unfolding new old result by auto
  show ?thesis
  proof (intro conjI allI impI)
    fix a t x assume x: "round_vote data a t = Some x"
    then have z: "is_zero ?B x \<or> bid_Hash x \<noteq> []" using data by blast
    show "GetVote ?B (LoadRoundDataMap ?B lo hi d') h r a t = (if is_zero ?B x then VoteStateNil else VoteStateForBlock)"
      by (simp add: get loaded [OF x] classify_def load_stored_hash(2) [OF assms(1) z])
    show "vote_at ?B (LoadRoundDataMap ?B lo hi d') (h, r, a, t) =
        Some (if is_zero ?B x then zero_BlockID else zero_BlockID\<lparr>bid_Hash := bid_Hash x\<rparr>)"
      by (simp add: loaded [OF x] load_stored_hash(1) [OF assms(1) z])
  next
    fix h' r' a t assume "(h', r') \<noteq> (h, r)"
    then show "GetVote ?B (LoadRoundDataMap ?B lo hi d') h' r' a t = GetVote ?B (LoadRoundDataMap ?B lo hi d) h' r' a t"
      by (simp add: get other)
  qed
qed

text \<open>C19: storing the validators of a height replaces its height row, whose block time stays NULL, and
  leaves every one of their snapshots with a NULL \<open>is_proposer\<close>: whatever \<open>updateProposerInSnapshots\<close>
  had recorded for the height is lost.\<close>

theorem StoreValidators_resets_proposer:
  assumes "StoreValidators S b c h vs d = Some (d', None)"
  shows "(\<exists>row. GetHeight h d' = Inr row \<and> h_BlockTime row = None \<and> h_TotalValidators row = Some (int (length vs)))
    \<and> (\<forall>v \<in> set vs. \<exists>s. GetValidatorSnapshot h (GetDisplayAddress v) d' = Inr s \<and> s_IsProposer s = None)"
proof -
  obtain d1 row where d1: "UpsertHeight (se_fk S) (se_eng S 0) (height_params h vs) d = Inr (d1, row)"
    and d': "store_validators S h 1 vs d1 = Some d'"
    using assms by (auto simp: StoreValidators_def WithTx_def split: option.splits sum.splits)
  let ?m = "\<lambda>r. h_Height r = h"
  let ?u = "\<lambda>r. r\<lparr>h_BlockHash := None, h_BlockTime := None, h_ProposerAddress := None, h_TotalValidators := Some (int (length vs))\<rparr>"
  let ?n = "new_height (se_eng S 0) (height_params h vs)"
  note match = upsert_row_matching(1,2) [where m = ?m and n = ?n and u = ?u and rows = "heights d"]
  have m: "?m ?n" "?m (?u x) \<longleftrightarrow> ?m x" for x by (simp_all add: new_height_def height_params_def)
  have hs: "heights d1 = fst (upsert_row ?m ?u ?n (heights d))"
    using d1 by (auto simp: UpsertHeight_def height_params_def case_prod_beta ref_validator_def)
  then have "has_height d1 h" using match(1) [OF m] by (simp add: has_height_def)
  from store_validators_reset [OF this d'] have same: "heights d' = heights d1"
    and reset: "\<forall>v \<in> set vs. reset_snapshot h (GetDisplayAddress v) d'" by blast+
  have "h_BlockTime r = None \<and> h_TotalValidators r = Some (int (length vs))" if "r \<in> set (heights d')" "?m r" for r
  proof -
    have "r = ?n \<or> (\<exists>y. r = ?u y)" using match(2) [OF m _ that(2)] that(1) by (simp add: same hs)
    then show ?thesis by (elim disjE exE) (simp_all add: new_height_def height_params_def)
  qed
  moreover have "\<exists>r \<in> set (heights d'). ?m r" using match(1) [OF m] by (simp add: same hs)
  ultimately have "\<exists>row. GetHeight h d' = Inr row \<and> h_BlockTime row = None \<and> h_TotalValidators row = Some (int (length vs))"
    unfolding GetHeight_def by (intro one_row_filter) auto
  moreover have "\<exists>s. GetValidatorSnapshot h (GetDisplayAddress v) d' = Inr s \<and> s_IsProposer s = None" if "v \<in> set vs" for v
    using bspec [OF reset that] unfolding GetValidatorSnapshot_def reset_snapshot_def by (intro one_row_filter) auto
  ultimately show ?thesis by blast
qed

lemma sample_db_ok: "schema_ok sample_db" "int32_ok sample_db"
  by (simp_all add: schema_ok_def keys_ok_def refs_ok_def int32_ok_def sample_db_def empty_database_def
      new_height_def ref_validator_def)

lemma sample_store_lawful: "lawful_store_env sample_store_env"
proof -
  have "is_zero fmap_env (zero_BlockID\<lparr>bid_Hash := x\<rparr>) \<longleftrightarrow> x = []" for x
    by (simp add: fmap_env_def zero_BlockID_def)
  then show ?thesis
    by (simp add: lawful_store_env_def sample_store_env_def fmap_rounds.lawful_rounds_axioms hex_DecodeString_encode)
qed

theorem store_ops_keep_schema_witness:
  "\<exists>d'. consensus_storer.apply_ops (StoreRoundData (sample_store_env\<lparr>se_fk := True\<rparr>) None None (\<lambda>_. '''') (\<lambda>_. []))
      (StoreValidators (sample_store_env\<lparr>se_fk := True\<rparr>) None None)
      (StoreCometBFTEvents (sample_store_env\<lparr>se_fk := True\<rparr>) 0)
      (CleanupOldData True \<lparr>DatabasePath = '''', MaxRetainDays = 0, MaxRetainBlocks = 1\<rparr> (\<lambda>_. 0))
      [OpCleanup, OpEvents [EventDataNewRound 7 0 ''A'', OtherEventData]] sample_db = Some d' \<and> schema_ok d'"
proof -
  have "\<exists>d'. consensus_storer.apply_ops (StoreRoundData (sample_store_env\<lparr>se_fk := True\<rparr>) None None (\<lambda>_. '''') (\<lambda>_. []))
      (StoreValidators (sample_store_env\<lparr>se_fk := True\<rparr>) None None)
      (StoreCometBFTEvents (sample_store_env\<lparr>se_fk := True\<rparr>) 0)
      (CleanupOldData True \<lparr>DatabasePath = '''', MaxRetainDays = 0, MaxRetainBlocks = 1\<rparr> (\<lambda>_. 0))
      [OpCleanup, OpEvents [EventDataNewRound 7 0 ''A'', OtherEventData]] sample_db = Some d'"
    by (simp add: sqlite_store.apply_ops.simps sqlite_store.apply_op_def store_event_def)
  then show ?thesis using store_ops_keep_schema [OF sample_db_ok(1)] by blast
qed

lemma sample_round_votes:
  "round_vote sample_round a t = (if (a, t) = (''A'', PrevoteType) then Some sample_block else None)"
  by (auto simp: round_vote_def sample_round_def)

theorem StoreRoundData_LoadRoundDataMap_witness:
  "\<exists>d'. StoreRoundData sample_store_env None None (\<lambda>_. '''') (\<lambda>_. [(''A'', PrevoteType, sample_block)]) 7 0 sample_round sample_db
       = Some (d', None)
     \<and> GetVote fmap_env (LoadRoundDataMap fmap_env 1 9 d') 7 0 ''A'' PrevoteType = VoteStateForBlock"
proof -
  have fk: "se_fk sample_store_env" and rounds: "se_rounds sample_store_env = fmap_env"
    by (simp_all add: sample_store_env_def)
  let ?o = "\<lambda>rd. if rd = sample_round then [(''A'', PrevoteType, sample_block)] else []"
  obtain d' where d': "StoreRoundData sample_store_env None None (\<lambda>_. '''') (\<lambda>_. [(''A'', PrevoteType, sample_block)]) 7 0 sample_round sample_db
       = Some (d', None)"
    by (auto simp: StoreRoundData_def WithTx_def UpsertRound_def round_params_def sample_round_def sample_db_def
        has_height_def new_height_def ref_validator_def case_prod_beta)
  have "lists_votes (\<lambda>_. [(''A'', PrevoteType, sample_block)]) sample_round"
    by (auto simp: lists_votes_def sample_round_votes)
  moreover have "\<forall>a t x. round_vote sample_round a t = Some x \<longrightarrow>
      has_validator sample_db a \<and> in_i32 t \<and> (is_zero (se_rounds sample_store_env) x \<or> bid_Hash x \<noteq> [])"
    by (simp add: sample_round_votes has_validator_def sample_db_def new_validator_def in_i32_def PrevoteType_def
        sample_block_def zero_BlockID_def)
  ultimately have "GetVote (se_rounds sample_store_env) (LoadRoundDataMap (se_rounds sample_store_env) 1 9 d') 7 0 ''A'' PrevoteType =
        (if is_zero (se_rounds sample_store_env) sample_block then VoteStateNil else VoteStateForBlock)"
    using StoreRoundData_LoadRoundDataMap [OF sample_store_lawful fk sample_db_ok _ _ d', of 1 9]
    by (simp add: in_i32_def sample_round_votes)
  then show ?thesis using d' by (simp add: rounds fmap_env_def sample_block_def zero_BlockID_def)
qed

theorem StoreValidators_resets_proposer_witness:
  "\<exists>d'. StoreValidators sample_store_env None None 7 [sample_validator ''B'' 5] sample_db = Some (d', None)
     \<and> (\<exists>s. GetValidatorSnapshot 7 ''B'' d' = Inr s \<and> s_IsProposer s = None)"
proof -
  have "\<exists>d'. StoreValidators sample_store_env None None 7 [sample_validator ''B'' 5] sample_db = Some (d', None)"
    by (auto simp: StoreValidators_def WithTx_def UpsertHeight_def height_params_def ref_validator_def sample_validator_def
        case_prod_beta split: sum.split)
  then obtain d' where d': "StoreValidators sample_store_env None None 7 [sample_validator ''B'' 5] sample_db = Some (d', None)" ..
  from StoreValidators_resets_proposer [OF d'] d' show ?thesis
    by (auto simp: sample_validator_def GetDisplayAddress_def)
qed

end
