(* ===== verification/Analytics.thy ===== *)
theory Analytics
  imports Queries Store Config
begin

text \<open>
  \<open>pkg/analytics/analytics.go\<close>: the conversions of driver values and the methods of
  \<open>ValidatorAnalytics\<close>, on top of the queries. \<open>an_fail\<close> says which query the driver fails, so
  that every error branch is one of the model; \<open>strconv.ParseFloat\<close>, \<open>time.Parse\<close> and
  \<open>time.ParseDuration\<close> are arguments, and \<open>now\<close> is passed in. The time windows select by
  \<open>block_time\<close>, the live metrics by height. The composition with the store shows what the
  time windows see of a database the program itself has written.
\<close>

section \<open>Environment and types\<close>

record an_env =
  an_sql :: sql_env
  an_fail :: "string \<Rightarrow> goerror option"
  an_ParseFloat :: "string \<Rightarrow> goerror + rat"
  an_ParseTime :: "string \<Rightarrow> goerror + instant"
  an_ParseDuration :: "string \<Rightarrow> goerror + duration"

definition run_query :: "an_env \<Rightarrow> string \<Rightarrow> 'a \<Rightarrow> goerror + 'a" where
  "run_query A name x = (case an_fail A name of Some err \<Rightarrow> Inl err | None \<Rightarrow> Inr x)"

record TimeWindow =
  tw_Start :: instant
  tw_End :: instant

record PerformanceMetrics =
  pm_ValidatorHexAddress :: string
  pm_ValidatorMoniker :: string
  pm_TimeWindow :: TimeWindow
  pm_TotalBlocks :: int
  pm_BlocksSigned :: int
  pm_BlocksMissed :: int
  pm_SigningEfficiency :: rat
  pm_TotalRounds :: int
  pm_PrevoteRate :: rat
  pm_PrecommitRate :: rat
  pm_VotingPower :: int
  pm_LongestMissStreak :: int
  pm_CalculatedAt :: instant

record ConsensusMetrics =
  cm_ValidatorHexAddress :: string
  cm_TotalRounds :: int
  cm_RoundsWithPrevote :: int
  cm_RoundsWithPrecommit :: int
  cm_PrevoteRate :: rat
  cm_PrecommitRate :: rat

record MissedBlockStreak =
  mb_ConsecutiveMisses :: int
  mb_StreakStartHeight :: int
  mb_StreakEndHeight :: int
  mb_StreakStartTime :: instant
  mb_StreakEndTime :: instant

record UptimeMetrics =
  um_ValidatorHexAddress :: string
  um_TotalBlocksInWindow :: int
  um_BlocksParticipated :: int
  um_BlocksMissed :: int
  um_UptimePercentage :: rat
  um_WindowStart :: instant
  um_WindowEnd :: instant

record ValidatorRanking =
  vr_HexAddress :: string
  vr_Moniker :: string
  vr_TotalBlocks :: int
  vr_BlocksSigned :: int
  vr_BlocksMissed :: int
  vr_SigningEfficiency :: rat
  vr_PrevotesCast :: int
  vr_PrecommitsCast :: int
  vr_VotingPower :: int
  vr_EfficiencyRank :: int

record TimeSeriesPoint =
  tp_TimeBucket :: instant
  tp_BlocksInBucket :: int
  tp_BlocksSigned :: int
  tp_BlocksMissed :: int
  tp_SigningEfficiency :: rat

record ArrivalStats =
  at_AvgPrevote :: duration
  at_MaxPrevote :: duration
  at_AvgPrecommit :: duration
  at_MaxPrecommit :: duration

section \<open>Conversions\<close>

definition convertToInt64 :: "sql_value \<Rightarrow> int" where
  "convertToInt64 val =
     (case val of
        SqlNull \<Rightarrow> 0
      | SqlInt v \<Rightarrow> v
      | SqlFloat v \<Rightarrow> ftrunc v
      | SqlText v \<Rightarrow> (case ParseInt 64 v of (i, None) \<Rightarrow> i | _ \<Rightarrow> 0)
      | SqlTime _ \<Rightarrow> 0)"

definition convertToFloat64 :: "an_env \<Rightarrow> sql_value \<Rightarrow> rat" where
  "convertToFloat64 A val =
     (case val of
        SqlNull \<Rightarrow> 0
      | SqlFloat v \<Rightarrow> v
      | SqlInt v \<Rightarrow> float_of_int v
      | SqlText v \<Rightarrow> (case an_ParseFloat A v of Inr f \<Rightarrow> f | Inl _ \<Rightarrow> 0)
      | SqlTime _ \<Rightarrow> 0)"

definition convertToTime :: "an_env \<Rightarrow> sql_value \<Rightarrow> instant" where
  "convertToTime A val =
     (case val of
        SqlTime t \<Rightarrow> t
      | SqlText v \<Rightarrow> (case an_ParseTime A v of Inr t \<Rightarrow> t | Inl _ \<Rightarrow> 0)
      | _ \<Rightarrow> 0)"

section \<open>Time windows\<close>

definition GetSigningEfficiency ::
    "an_env \<Rightarrow> instant \<Rightarrow> string \<Rightarrow> TimeWindow \<Rightarrow> database \<Rightarrow> goerror + PerformanceMetrics" where
  "GetSigningEfficiency A now validatorAddr w d =
     (let s = Some (tw_Start w); e = Some (tw_End w)
      in case run_query A ''GetValidatorSigningEfficiency'' (GetValidatorSigningEfficiency (an_sql A) validatorAddr s e d) of
           Inl err \<Rightarrow> Inl err
         | Inr efficiency \<Rightarrow>
       (case run_query A ''GetValidatorConsensusParticipation''
               (GetValidatorConsensusParticipation (an_sql A) validatorAddr s e d) of
           Inl err \<Rightarrow> Inl err
         | Inr participation \<Rightarrow>
       (case run_query A ''GetValidatorMissedBlockStreaks'' (GetValidatorMissedBlockStreaks validatorAddr s e d) of
           Inl err \<Rightarrow> Inl err
         | Inr missStreaks \<Rightarrow>
       (let longest = (case missStreaks of [] \<Rightarrow> 0 | m # _ \<Rightarrow> ms_ConsecutiveMisses m)
        in Inr \<lparr>pm_ValidatorHexAddress = validatorAddr, pm_ValidatorMoniker = '''', pm_TimeWindow = w,
             pm_TotalBlocks = convertToInt64 (si_TotalBlocks efficiency),
             pm_BlocksSigned = convertToInt64 (si_BlocksSigned efficiency),
             pm_BlocksMissed = convertToInt64 (si_BlocksMissed efficiency),
             pm_SigningEfficiency = convertToFloat64 A (si_SigningEfficiency efficiency),
             pm_TotalRounds = convertToInt64 (cp_TotalRounds participation),
             pm_PrevoteRate = convertToFloat64 A (cp_PrevoteRate participation),
             pm_PrecommitRate = convertToFloat64 A (cp_PrecommitRate participation),
             pm_VotingPower = 0, pm_LongestMissStreak = longest, pm_CalculatedAt = now\<rparr>))))"

definition GetMissedBlockStreaks ::
    "an_env \<Rightarrow> string \<Rightarrow> TimeWindow \<Rightarrow> database \<Rightarrow> goerror + MissedBlockStreak list" where
  "GetMissedBlockStreaks A validatorAddr w d =
     map_sum id (map (\<lambda>s.
         \<lparr>mb_ConsecutiveMisses = ms_ConsecutiveMisses s,
          mb_StreakStartHeight = convertToInt64 (ms_StreakStartHeight s),
          mb_StreakEndHeight = convertToInt64 (ms_StreakEndHeight s),
          mb_StreakStartTime = convertToTime A (ms_StreakStartTime s),
          mb_StreakEndTime = convertToTime A (ms_StreakEndTime s)\<rparr>))
       (run_query A ''GetValidatorMissedBlockStreaks''
         (GetValidatorMissedBlockStreaks validatorAddr (Some (tw_Start w)) (Some (tw_End w)) d))"

definition GetConsensusParticipation ::
    "an_env \<Rightarrow> string \<Rightarrow> TimeWindow \<Rightarrow> database \<Rightarrow> goerror + ConsensusMetrics" where
  "GetConsensusParticipation A validatorAddr w d =
     map_sum id (\<lambda>p.
         \<lparr>cm_ValidatorHexAddress = validatorAddr, cm_TotalRounds = convertToInt64 (cp_TotalRounds p),
          cm_RoundsWithPrevote = convertToInt64 (cp_RoundsWithPrevote p),
          cm_RoundsWithPrecommit = convertToInt64 (cp_RoundsWithPrecommit p),
          cm_PrevoteRate = convertToFloat64 A (cp_PrevoteRate p),
          cm_PrecommitRate = convertToFloat64 A (cp_PrecommitRate p)\<rparr>)
       (run_query A ''GetValidatorConsensusParticipation''
         (GetValidatorConsensusParticipation (an_sql A) validatorAddr (Some (tw_Start w)) (Some (tw_End w)) d))"

definition GetValidatorUptime ::
    "an_env \<Rightarrow> string \<Rightarrow> TimeWindow \<Rightarrow> database \<Rightarrow> goerror + UptimeMetrics" where
  "GetValidatorUptime A validatorAddr w d =
     map_sum id (\<lambda>u.
         let windowStart = convertToTime A (up_WindowStart u); windowEnd = convertToTime A (up_WindowEnd u)
         in \<lparr>um_ValidatorHexAddress = validatorAddr, um_TotalBlocksInWindow = up_TotalBlocksInWindow u,
             um_BlocksParticipated = up_BlocksParticipated u, um_BlocksMissed = convertToInt64 (up_BlocksMissed u),
             um_UptimePercentage = convertToFloat64 A (up_UptimePercentage u),
             um_WindowStart = (if time_is_zero windowStart then tw_Start w else windowStart),
             um_WindowEnd = (if time_is_zero windowEnd then tw_End w else windowEnd)\<rparr>)
       (run_query A ''GetValidatorUptime''
         (GetValidatorUptime_q (an_sql A) validatorAddr (Some (tw_Start w)) (Some (tw_End w)) d))"

definition ranking_of :: "an_env \<Rightarrow> ranking_row \<Rightarrow> int \<Rightarrow> ValidatorRanking" where
  "ranking_of A r rank =
     \<lparr>vr_HexAddress = rk_HexAddress r,
      vr_Moniker = (case rk_Moniker r of None \<Rightarrow> '''' | Some m \<Rightarrow> m),
      vr_TotalBlocks = rk_TotalBlocks r, vr_BlocksSigned = rk_BlocksSigned r,
      vr_BlocksMissed = rk_BlocksMissed r,
      vr_SigningEfficiency = convertToFloat64 A (rk_SigningEfficiency r),
      vr_PrevotesCast = rk_PrevotesCast r, vr_PrecommitsCast = rk_PrecommitsCast r,
      vr_VotingPower = convertToInt64 (rk_VotingPower r), vr_EfficiencyRank = rank\<rparr>"

definition GetAllValidatorMetrics :: "an_env \<Rightarrow> TimeWindow \<Rightarrow> database \<Rightarrow> goerror + ValidatorRanking list" where
  "GetAllValidatorMetrics A w d =
     map_sum id (map (\<lambda>(r, k). ranking_of A r (convertToInt64 k)))
       (run_query A ''GetValidatorRanking''
         (GetValidatorRanking (an_sql A) (Some (tw_Start w)) (Some (tw_End w)) d))"

definition GetPerformanceTimeSeries ::
    "an_env \<Rightarrow> string \<Rightarrow> TimeWindow \<Rightarrow> database \<Rightarrow> goerror + TimeSeriesPoint list" where
  "GetPerformanceTimeSeries A validatorAddr w d =
     map_sum id (map (\<lambda>p.
         \<lparr>tp_TimeBucket = convertToTime A (ts_TimeBucket p), tp_BlocksInBucket = ts_BlocksInBucket p,
          tp_BlocksSigned = ftrunc (ts_BlocksSigned p), tp_BlocksMissed = convertToInt64 (ts_BlocksMissed p),
          tp_SigningEfficiency = convertToFloat64 A (ts_SigningEfficiency p)\<rparr>))
       (run_query A ''GetValidatorPerformanceTimeSeries''
         (GetValidatorPerformanceTimeSeries (an_sql A) validatorAddr (Some (tw_Start w)) (Some (tw_End w)) d))"

definition ParseTimeWindow :: "an_env \<Rightarrow> instant \<Rightarrow> string \<Rightarrow> goerror + TimeWindow" where
  "ParseTimeWindow A now durationStr =
     (case an_ParseDuration A durationStr of
        Inl err \<Rightarrow> Inl (''invalid duration format '' @ [CHR 0x27] @ durationStr @ [CHR 0x27] @ '': '' @ err @ ''. Examples: 1h, 30m, 24h, 168h (7 days)'')
      | Inr dur \<Rightarrow>
          (if dur \<le> 0 then Inl (''duration must be positive, got: '' @ durationStr)
           else Inr \<lparr>tw_Start = now - dur, tw_End = now\<rparr>))"

definition GetCommonTimeWindows :: "instant \<Rightarrow> string \<rightharpoonup> TimeWindow" where
  "GetCommonTimeWindows now =
     (let w = (\<lambda>hours. \<lparr>tw_Start = now - hours * 3600 * Second, tw_End = now\<rparr>)
      in [''1h'' \<mapsto> w 1, ''6h'' \<mapsto> w 6, ''24h'' \<mapsto> w 24, ''168h'' \<mapsto> w (7 * 24), ''720h'' \<mapsto> w (30 * 24)])"

section \<open>Height windows\<close>

definition GetMaxStoredHeight :: "an_env \<Rightarrow> database \<Rightarrow> goerror + int" where
  "GetMaxStoredHeight A d =
     map_sum id (\<lambda>raw. case raw of SqlInt v \<Rightarrow> v | SqlFloat v \<Rightarrow> ftrunc v | _ \<Rightarrow> 0)
       (run_query A ''GetMaxStoredHeight'' (GetMaxStoredHeight_q d))"

definition GetRankingByHeight :: "an_env \<Rightarrow> int \<Rightarrow> int \<Rightarrow> database \<Rightarrow> goerror + ValidatorRanking list" where
  "GetRankingByHeight A minH maxH d =
     map_sum id (map (\<lambda>r. ranking_of A r 0))
       (run_query A ''GetValidatorRankingByHeight'' (GetValidatorRankingByHeight (an_sql A) minH maxH d))"

definition secs_duration :: "rat \<Rightarrow> duration" where
  "secs_duration q = ftrunc (fmul q (float_of_int Second))"

definition add_arrival :: "an_env \<Rightarrow> (address \<rightharpoonup> ArrivalStats) \<Rightarrow> arrival_row \<Rightarrow> (address \<rightharpoonup> ArrivalStats)" where
  "add_arrival A out r =
     (if ar_HexAddress r = '''' then out
      else
        let avg = secs_duration (convertToFloat64 A (ar_AvgSecs r));
            mx = secs_duration (convertToFloat64 A (ar_MaxSecs r));
            s = (case out (ar_HexAddress r) of Some s \<Rightarrow> s
                 | None \<Rightarrow> \<lparr>at_AvgPrevote = 0, at_MaxPrevote = 0, at_AvgPrecommit = 0, at_MaxPrecommit = 0\<rparr>);
            s = (if ar_VoteType r = 1 then s\<lparr>at_AvgPrevote := avg, at_MaxPrevote := mx\<rparr>
                 else if ar_VoteType r = 2 then s\<lparr>at_AvgPrecommit := avg, at_MaxPrecommit := mx\<rparr>
                 else s)
        in out(ar_HexAddress r \<mapsto> s))"

definition GetVoteArrivalByHeight ::
    "an_env \<Rightarrow> int \<Rightarrow> int \<Rightarrow> database \<Rightarrow> goerror + (address \<rightharpoonup> ArrivalStats)" where
  "GetVoteArrivalByHeight A minH maxH d =
     map_sum id (foldl (add_arrival A) Map.empty)
       (run_query A ''GetVoteArrivalByHeight'' (GetVoteArrivalByHeight_q (an_sql A) minH maxH d))"

definition add_share :: "int \<Rightarrow> (address \<rightharpoonup> rat) \<Rightarrow> address option \<times> int \<Rightarrow> (address \<rightharpoonup> rat)" where
  "add_share tot out r =
     (if tot > 0 then
        out((case fst r of None \<Rightarrow> '''' | Some a \<Rightarrow> a) \<mapsto> fdiv (fmul 100 (float_of_int (snd r))) (float_of_int tot))
      else out)"

definition GetProposerShareByHeight ::
    "an_env \<Rightarrow> int \<Rightarrow> int \<Rightarrow> database \<Rightarrow> goerror + (address \<rightharpoonup> rat)" where
  "GetProposerShareByHeight A minH maxH d =
     map_sum id (\<lambda>rows. foldl (add_share (sum_list (map snd rows))) Map.empty rows)
       (run_query A ''GetProposerPerformanceByHeight'' (GetProposerPerformanceByHeight minH maxH d))"

section \<open>Specification\<close>

definition stored_heights :: "int \<Rightarrow> int \<Rightarrow> database \<Rightarrow> int set" where
  "stored_heights lo hi d = {h. lo \<le> h \<and> h \<le> hi \<and> has_height d h}"

definition signed_heights :: "int \<Rightarrow> int \<Rightarrow> address \<Rightarrow> database \<Rightarrow> int set" where
  "signed_heights lo hi a d =
     {h \<in> stored_heights lo hi d. \<exists>v \<in> set (votes d). vt_Height v = h \<and> vt_ValidatorHexAddress v = a}"

text \<open>What SQLite documents of \<open>ROUND\<close>, as far as percentages need it.\<close>

definition rounds_percent :: "sql_env \<Rightarrow> bool" where
  "rounds_percent Q \<longleftrightarrow> (\<forall>x. 0 \<le> x \<and> x \<le> 100 \<longrightarrow> 0 \<le> sq_round2 Q x \<and> sq_round2 Q x \<le> 100)"

definition no_block_times :: "database \<Rightarrow> bool" where
  "no_block_times d \<longleftrightarrow> (\<forall>h \<in> set (heights d). h_BlockTime h = None)"

text \<open>The heights of a time window in ascending order, and the ones a validator missed in a row.\<close>

definition miss_runs :: "address \<Rightarrow> TimeWindow \<Rightarrow> database \<Rightarrow> Height list list" where
  "miss_runs a w d = runs (\<lambda>h. votes_at a (h_Height h) d = [])
     (sort_key h_Height (window_heights (Some (tw_Start w)) (Some (tw_End w)) d))"

definition sample_an_env :: an_env where
  "sample_an_env = \<lparr>an_sql = \<lparr>sq_round2 = id, sq_avg = (\<lambda>_. 0), sq_julianday = (\<lambda>_. None), sq_hour = (\<lambda>_. None),
       sq_like = (=), sq_lower = id\<rparr>, an_fail = (\<lambda>_. None), an_ParseFloat = (\<lambda>_. Inr 0),
     an_ParseTime = (\<lambda>_. Inr 0), an_ParseDuration = (\<lambda>_. Inr Second)\<rparr>"

definition timed_height :: "int \<Rightarrow> Height" where
  "timed_height h = new_height (0, 0) \<lparr>uh_Height = h, uh_BlockHash = None, uh_BlockTime = Some h,
     uh_ProposerAddress = None, uh_TotalValidators = None\<rparr>"

text \<open>Heights 1 to 4, of which the validator A signed the second.\<close>

definition sample_history :: database where
  "sample_history = sample_db\<lparr>heights := map timed_height [4, 3, 2, 1],
     votes := [new_vote (0, 0) \<lparr>uv_Height = 2, uv_RoundNumber = 0, uv_ValidatorHexAddress = ''A'', uv_VoteType = 1,
       uv_BlockHash = None, uv_Signature = None, uv_Timestamp = None\<rparr>]\<rparr>"

section \<open>Lemmas\<close>

lemma run_query_Inr: "run_query A name x = Inr y \<longleftrightarrow> an_fail A name = None \<and> y = x"
  by (auto simp: run_query_def split: option.splits)

lemma map_sum_Inr: "map_sum id f r = Inr y \<longleftrightarrow> (\<exists>x. r = Inr x \<and> y = f x)"
  by (cases r) auto

lemma height_range_heights: "h_Height ` set (height_range lo hi d) = stored_heights lo hi d"
  by (auto simp: height_range_def stored_heights_def has_height_def)

lemma signed_heights_alt:
  "h_Height ` {h \<in> set (height_range lo hi d). votes_at a (h_Height h) d \<noteq> []} = signed_heights lo hi a d"
  by (auto simp: signed_heights_def height_range_heights [symmetric] votes_at_def filter_empty_conv)

lemma finite_stored: "finite (stored_heights lo hi d)"
  unfolding height_range_heights [symmetric] by simp

lemma card_signed: "card (signed_heights lo hi a d) \<le> card (stored_heights lo hi d)"
  by (rule card_mono [OF finite_stored]) (auto simp: signed_heights_def)

lemma card_stored: "card (stored_heights lo hi d) \<le> length (heights d)"
proof -
  have "card (stored_heights lo hi d) \<le> length (height_range lo hi d)"
    unfolding height_range_heights [symmetric] using card_image_le card_length le_trans by blast
  also have "\<dots> \<le> length (heights d)" by (simp add: height_range_def)
  finally show ?thesis .
qed

lemma metrics_spec:
  fixes lo hi :: int and val :: Validator
  assumes "rounds_percent Q" "int (length (heights d)) \<le> 2 ^ 46"
  defines "r \<equiv> validator_metrics Q (height_range lo hi d) d val"
  shows "rk_TotalBlocks r = int (card (stored_heights lo hi d))"
    "rk_BlocksSigned r = int (card (signed_heights lo hi (v_HexAddress val) d))"
    "rk_BlocksMissed r = rk_TotalBlocks r - rk_BlocksSigned r"
    "\<exists>e. rk_SigningEfficiency r = SqlFloat e \<and> 0 \<le> e \<and> e \<le> 100"
proof -
  show t: "rk_TotalBlocks r = int (card (stored_heights lo hi d))"
    by (simp add: r_def validator_metrics_counts height_range_heights)
  show s: "rk_BlocksSigned r = int (card (signed_heights lo hi (v_HexAddress val) d))"
    by (simp add: r_def validator_metrics_counts signed_heights_alt)
  show "rk_BlocksMissed r = rk_TotalBlocks r - rk_BlocksSigned r"
    by (simp add: r_def validator_metrics_def Let_def)
  have "rk_SigningEfficiency r = SqlFloat (percent2 Q (rk_BlocksSigned r) (rk_TotalBlocks r))"
    by (simp add: r_def validator_metrics_def Let_def)
  moreover have "int (card (stored_heights lo hi d)) \<le> 2 ^ 46"
    using card_stored [of lo hi d] assms(2) by simp
  ultimately show "\<exists>e. rk_SigningEfficiency r = SqlFloat e \<and> 0 \<le> e \<and> e \<le> 100"
    using percent2_bounds [of Q "rk_BlocksSigned r" "rk_TotalBlocks r"] assms(1) card_signed [of lo hi "v_HexAddress val" d]
    unfolding t s rounds_percent_def by simp
qed

lemma miss_runs_spec:
  assumes "r \<in> set (miss_runs a w d)"
  shows "r \<noteq> []" "min_of (map h_Height r) = Some (h_Height (hd r))" "max_of (map h_Height r) = Some (h_Height (last r))"
proof -
  let ?hs = "sort_key h_Height (window_heights (Some (tw_Start w)) (Some (tw_End w)) d)"
  obtain as bs where r: "r \<noteq> []" "?hs = as @ r @ bs"
    using runs_sublists [OF assms [unfolded miss_runs_def]] by blast
  have "sorted (map h_Height ?hs)" by simp
  then have "sorted (map h_Height r)" unfolding r(2) by (simp add: sorted_append)
  then show "min_of (map h_Height r) = Some (h_Height (hd r))" "max_of (map h_Height r) = Some (h_Height (last r))"
    using min_max_of_sorted [of "map h_Height r"] r(1) by (simp_all add: hd_map last_map)
  show "r \<noteq> []" by (rule r(1))
qed

lemma sort_key_desc: "sorted_wrt (\<lambda>x y. f y \<le> f x) (sort_key (\<lambda>x. - f x :: int) xs)"
proof -
  have "sorted_wrt (\<le>) (map (\<lambda>x. - f x) (sort_key (\<lambda>x. - f x) xs))" by simp
  then show ?thesis unfolding sorted_wrt_map by simp
qed

lemma sort_key_desc_rat: "sorted_wrt (\<lambda>x y. f y \<le> f x) (sort_key (\<lambda>x. - f x :: rat) xs)"
proof -
  have "sorted_wrt (\<le>) (map (\<lambda>x. - f x) (sort_key (\<lambda>x. - f x) xs))" by simp
  then show ?thesis unfolding sorted_wrt_map by simp
qed

lemma map_sort_key: "sort_key k (map f xs) = map f (sort_key (k \<circ> f) xs)"
proof (induction xs)
  case (Cons x xs)
  have "insort_key k (f x) (map f ys) = map f (insort_key (k \<circ> f) x ys)" for ys
    by (induction ys) auto
  with Cons show ?case by (simp add: sort_key_def comp_def)
qed (simp add: sort_key_def)

lemma streaks_sorted:
  "GetValidatorMissedBlockStreaks a (Some (tw_Start w)) (Some (tw_End w)) d =
     map streak_of (sort_key (\<lambda>r. - int (length r)) (miss_runs a w d))"
  by (simp add: missed_streaks_runs miss_runs_def map_sort_key comp_def streak_of_def)

lemma untimed_window: "no_block_times d \<Longrightarrow> window_heights t1 t2 d = []"
  by (auto simp: no_block_times_def window_heights_def filter_empty_conv time_in_def split: option.splits)

lemma untimed_mono: "no_block_times d \<Longrightarrow> set (heights d') \<subseteq> set (heights d) \<Longrightarrow> no_block_times d'"
  by (auto simp: no_block_times_def)

lemma WithTx_cases:
  "WithTx b c fn d = Some (d', err) \<Longrightarrow> d' = d \<or> (\<exists>e. fn d = Some (d', e))"
  by (auto simp: WithTx_def split: option.splits)

lemma store_votes_heights: "heights (store_votes S h r n vs d) = heights d"
proof (induction vs arbitrary: n d)
  case (Cons v vs)
  have "heights d' = heights d" if "UpsertVote fk eng a d = Inr (d', row)" for fk eng a d' row
    using that by (auto simp: UpsertVote_def case_prod_beta split: if_splits)
  with Cons show ?case by (auto split: sum.split)
qed simp

lemma StoreRoundData_heights:
  assumes "StoreRoundData S b c pick order h r data d = Some (d', err)"
  shows "heights d' = heights d"
proof (cases "d' = d")
  case False
  then obtain e where "(case UpsertRound (se_fk S) (se_eng S 0) (round_params S pick h r data) d of
      Inl err \<Rightarrow> Some (d, Some (''failed to store round: '' @ err))
    | Inr (d, _) \<Rightarrow> Some (store_votes S h r 1 (order data) d, None)) = Some (d', e)"
    using WithTx_cases [OF assms [unfolded StoreRoundData_def]] by blast
  with False show ?thesis
    by (auto simp: store_votes_heights UpsertRound_def case_prod_beta split: sum.splits if_splits)
qed simp

lemma UpsertValidator_heights: "UpsertValidator eng a d = Inr (d', row) \<Longrightarrow> heights d' = heights d"
  by (auto simp: UpsertValidator_def case_prod_beta)

lemma UpsertValidatorSnapshot_heights:
  "UpsertValidatorSnapshot fk eng a d = Inr (d', row) \<Longrightarrow> heights d' = heights d"
  by (auto simp: UpsertValidatorSnapshot_def case_prod_beta split: if_splits)

lemma store_validators_heights: "store_validators S h n vs d = Some d' \<Longrightarrow> heights d' = heights d"
proof (induction vs arbitrary: n d)
  case (Cons v vs)
  then obtain comet where comet: "tv_CometValidator v = Some comet" by (auto split: option.splits)
  obtain d1 row where d1: "UpsertValidator (se_eng S n) (validator_params v comet) d = Inr (d1, row)"
    using UpsertValidator_result [of "se_eng S n" "validator_params v comet" d] by blast
  show ?case
  proof (cases "UpsertValidatorSnapshot (se_fk S) (se_eng S (n + 1)) (snapshot_params h v comet) d1")
    case (Inl e)
    with Cons comet d1 have "heights d' = heights d1" by simp
    with UpsertValidator_heights [OF d1] show ?thesis by simp
  next
    case (Inr x)
    obtain d2 row2 where x: "x = (d2, row2)" by (cases x)
    with Inr Cons comet d1 have "heights d' = heights d2" by simp
    with UpsertValidator_heights [OF d1] UpsertValidatorSnapshot_heights [OF Inr [unfolded x]] show ?thesis by simp
  qed
qed simp

lemma StoreValidators_untimed:
  assumes "no_block_times d" "StoreValidators S b c h vs d = Some (d', err)"
  shows "no_block_times d'"
proof -
  have up: "no_block_times d1" if "UpsertHeight fk eng (height_params h vs) d = Inr (d1, row)" for fk eng d1 row
  proof -
    have d1: "heights d1 = fst (upsert_row (\<lambda>r. h_Height r = h) (\<lambda>r. r\<lparr>h_BlockHash := None, h_BlockTime := None,
        h_ProposerAddress := None, h_TotalValidators := Some (int (length vs))\<rparr>) (new_height eng (height_params h vs)) (heights d))"
      using that by (auto simp: UpsertHeight_def height_params_def case_prod_beta ref_validator_def)
    have "h_BlockTime r = None" if "r \<in> set (heights d1)" for r
      using upsert_row_set [OF that [unfolded d1]] assms(1)
      by (auto simp: no_block_times_def new_height_def height_params_def)
    then show ?thesis by (simp add: no_block_times_def)
  qed
  from WithTx_cases [OF assms(2) [unfolded StoreValidators_def]] show ?thesis
  proof (elim disjE exE)
    fix e
    assume fn: "(case UpsertHeight (se_fk S) (se_eng S 0) (height_params h vs) d of
        Inl err \<Rightarrow> Some (d, Some (''failed to store height: '' @ err))
      | Inr (d, _) \<Rightarrow> map_option (\<lambda>d. (d, None)) (store_validators S h 1 vs d)) = Some (d', e)"
    show ?thesis
    proof (cases "UpsertHeight (se_fk S) (se_eng S 0) (height_params h vs) d")
      case (Inl x)
      with fn assms(1) show ?thesis by simp
    next
      case (Inr x)
      then obtain d1 row where d1: "UpsertHeight (se_fk S) (se_eng S 0) (height_params h vs) d = Inr (d1, row)"
        by (cases x) simp
      with fn have "heights d' = heights d1" by (auto dest: store_validators_heights)
      with up [OF d1] show ?thesis by (simp add: no_block_times_def)
    qed
  qed (use assms(1) in simp)
qed

lemma StoreCometBFTEvents_heights: "StoreCometBFTEvents S n es d = Some d' \<Longrightarrow> heights d' = heights d"
proof (induction S n es d rule: StoreCometBFTEvents.induct)
  case (2 S n event events d)
  have c: "heights (fst (StoreConsensusEvent S n h r t kvs d)) = heights d" for h r t kvs d
    by (auto simp: StoreConsensusEvent_def CreateConsensusEvent_def Let_def split: sum.splits if_splits)
  have "heights d1 = heights d" if "store_event S n event d = Some d1" for d1
    using that by (auto simp: store_event_def updateProposerInSnapshots_def Let_def c
        split: TMEventData.splits option.splits)
  with 2 show ?case by (auto split: option.splits)
qed simp

text \<open>The same contract once more, with a stronger invariant: the store never writes a block time.\<close>

interpretation untimed_store: consensus_storer "\<lambda>d. schema_ok d \<and> no_block_times d" id
    "StoreRoundData (S\<lparr>se_fk := True\<rparr>) b c pick order" "StoreValidators (S\<lparr>se_fk := True\<rparr>) b c"
    "StoreCometBFTEvents (S\<lparr>se_fk := True\<rparr>) n" "CleanupOldData True config ct"
  for S b c pick order n config ct
proof unfold_locales
  fix s :: database
  assume s: "schema_ok s \<and> no_block_times s"
  have "no_block_times (from_height x s)" for x
    using s by (auto simp: no_block_times_def from_height_def)
  with s show "(schema_ok (fst (CleanupOldData True config ct s)) \<and> no_block_times (fst (CleanupOldData True config ct s)))
      \<and> snd (CleanupOldData True config ct s) = None"
    using Cleanup_from_height [of s] from_height_schema_ok by (simp add: schema_ok_def)
next
  fix s s' :: database and h r data err
  assume "schema_ok s \<and> no_block_times s" "StoreRoundData (S\<lparr>se_fk := True\<rparr>) b c pick order h r data s = Some (s', err)"
  moreover from this(2) have "heights s' = heights s" by (rule StoreRoundData_heights)
  ultimately show "schema_ok s' \<and> no_block_times s'"
    using sqlite_store.round_ok [of s] by (simp add: no_block_times_def)
next
  fix s s' :: database and h vs err
  assume "schema_ok s \<and> no_block_times s" "StoreValidators (S\<lparr>se_fk := True\<rparr>) b c h vs s = Some (s', err)"
  then show "schema_ok s' \<and> no_block_times s'"
    using sqlite_store.vals_ok [of s] StoreValidators_untimed by blast
next
  fix s s' :: database and es
  assume "schema_ok s \<and> no_block_times s" "StoreCometBFTEvents (S\<lparr>se_fk := True\<rparr>) n es s = Some s'"
  moreover from this(2) have "heights s' = heights s" by (rule StoreCometBFTEvents_heights)
  ultimately show "schema_ok s' \<and> no_block_times s'"
    using sqlite_store.events_ok [of s] by (simp add: no_block_times_def)
qed (use sqlite_store.round_atomic sqlite_store.vals_atomic in blast)+

section \<open>Properties\<close>

text \<open>C21: the live ranking covers every validator exactly once (when the window holds a height), counts
  for each the distinct stored heights of the window and those among them it voted at, reports the
  difference as missed, keeps the efficiency between 0 and 100 and sorts by it, best first.\<close>

theorem GetRankingByHeight_spec:
  assumes "GetRankingByHeight A lo hi d = Inr rs" "rounds_percent (an_sql A)" "int (length (heights d)) \<le> 2 ^ 46"
  shows "(stored_heights lo hi d \<noteq> {} \<longrightarrow> mset (map vr_HexAddress rs) = mset (map v_HexAddress (validators d)))
    \<and> (stored_heights lo hi d = {} \<longrightarrow> rs = [])
    \<and> sorted_wrt (\<lambda>x y. vr_SigningEfficiency y \<le> vr_SigningEfficiency x) rs
    \<and> (\<forall>r \<in> set rs. vr_TotalBlocks r = int (card (stored_heights lo hi d))
        \<and> vr_BlocksSigned r = int (card (signed_heights lo hi (vr_HexAddress r) d))
        \<and> vr_BlocksMissed r = vr_TotalBlocks r - vr_BlocksSigned r
        \<and> 0 \<le> vr_SigningEfficiency r \<and> vr_SigningEfficiency r \<le> 100)"
proof -
  let ?hs = "height_range lo hi d"
  let ?k = "\<lambda>r. float_of_sql (rk_SigningEfficiency r)"
  have rs: "rs = map (\<lambda>r. ranking_of A r 0) (sort_key (\<lambda>r. - ?k r) (all_metrics (an_sql A) ?hs d))"
    using assms(1) by (simp add: GetRankingByHeight_def map_sum_Inr run_query_Inr GetValidatorRankingByHeight_def)
  have empty: "?hs = [] \<longleftrightarrow> stored_heights lo hi d = {}"
    unfolding height_range_heights [symmetric] by simp
  have row: "\<exists>val. r = validator_metrics (an_sql A) ?hs d val" if "r \<in> set (all_metrics (an_sql A) ?hs d)" for r
    using that by (auto simp: all_metrics_def split: if_splits)
  have eff: "vr_SigningEfficiency (ranking_of A r 0) = ?k r" if "r \<in> set (all_metrics (an_sql A) ?hs d)" for r
    using row [OF that] by (auto simp: ranking_of_def validator_metrics_def Let_def convertToFloat64_def float_of_sql_def)
  have "mset (map vr_HexAddress rs) = mset (map v_HexAddress (validators d))" if "?hs \<noteq> []"
  proof -
    have "mset (map vr_HexAddress rs) = mset (map rk_HexAddress (all_metrics (an_sql A) ?hs d))"
      by (simp add: rs comp_def ranking_of_def)
    also have "map rk_HexAddress (all_metrics (an_sql A) ?hs d) = map v_HexAddress (validators d)"
      using that by (simp add: all_metrics_def comp_def validator_metrics_def Let_def)
    finally show ?thesis .
  qed
  moreover have "rs = []" if "?hs = []" using that by (simp add: rs all_metrics_def)
  moreover have "sorted_wrt (\<lambda>x y. vr_SigningEfficiency y \<le> vr_SigningEfficiency x) rs"
    unfolding rs sorted_wrt_map
    by (rule sorted_wrt_mono_rel [OF _ sort_key_desc_rat [of ?k]]) (simp add: eff)
  moreover have "vr_TotalBlocks r = int (card (stored_heights lo hi d))
        \<and> vr_BlocksSigned r = int (card (signed_heights lo hi (vr_HexAddress r) d))
        \<and> vr_BlocksMissed r = vr_TotalBlocks r - vr_BlocksSigned r
        \<and> 0 \<le> vr_SigningEfficiency r \<and> vr_SigningEfficiency r \<le> 100" if r: "r \<in> set rs" for r
  proof -
    obtain x where x: "r = ranking_of A x 0" "x \<in> set (all_metrics (an_sql A) ?hs d)" using r unfolding rs set_map set_sort by blast
    then obtain val where val: "x = validator_metrics (an_sql A) ?hs d val" using row by blast
    have addr: "v_HexAddress val = vr_HexAddress r" by (simp add: x(1) val ranking_of_def validator_metrics_def Let_def)
    have fields: "vr_TotalBlocks r = rk_TotalBlocks x" "vr_BlocksSigned r = rk_BlocksSigned x"
      "vr_BlocksMissed r = rk_BlocksMissed x" "vr_SigningEfficiency r = float_of_sql (rk_SigningEfficiency x)"
      using eff [OF x(2)] by (simp_all add: x(1) ranking_of_def)
    note spec = metrics_spec [OF assms(2,3), of lo hi val, folded val, unfolded addr]
    from spec(4) have "0 \<le> float_of_sql (rk_SigningEfficiency x) \<and> float_of_sql (rk_SigningEfficiency x) \<le> 100"
      by (auto simp: float_of_sql_def)
    with spec(1-3) show ?thesis by (simp only: fields)
  qed
  ultimately show ?thesis unfolding empty by blast
qed

text \<open>C20: the missed-block streaks are exactly the maximal runs of consecutive stored heights of the
  window without a vote of the validator, longest first, each with its length and its first and last
  height; the longest streak of the performance report is the first of them.\<close>

theorem GetMissedBlockStreaks_spec:
  assumes "GetMissedBlockStreaks A a w d = Inr ss"
  shows "\<exists>rs. mset rs = mset (miss_runs a w d) \<and> sorted_wrt (\<lambda>x y. length y \<le> length x) rs
    \<and> ss = map (\<lambda>r. \<lparr>mb_ConsecutiveMisses = int (length r), mb_StreakStartHeight = h_Height (hd r),
                     mb_StreakEndHeight = h_Height (last r),
                     mb_StreakStartTime = convertToTime A (ms_StreakStartTime (streak_of r)),
                     mb_StreakEndTime = convertToTime A (ms_StreakEndTime (streak_of r))\<rparr>) rs
    \<and> (\<forall>now m. GetSigningEfficiency A now a w d = Inr m \<longrightarrow>
         pm_LongestMissStreak m = (if rs = [] then 0 else int (length (hd rs))))"
proof -
  let ?rs = "sort_key (\<lambda>r. - int (length r)) (miss_runs a w d)"
  have sorted: "sorted_wrt (\<lambda>x y. length y \<le> length x) ?rs"
    by (rule sorted_wrt_mono_rel [OF _ sort_key_desc]) simp
  have rows: "r \<in> set ?rs \<Longrightarrow> convertToInt64 (ms_StreakStartHeight (streak_of r)) = h_Height (hd r)
      \<and> convertToInt64 (ms_StreakEndHeight (streak_of r)) = h_Height (last r)" for r
    using miss_runs_spec [of r a w d] by (simp add: streak_of_def sql_int_def convertToInt64_def)
  have "ss = map (\<lambda>r. \<lparr>mb_ConsecutiveMisses = int (length r), mb_StreakStartHeight = h_Height (hd r),
                     mb_StreakEndHeight = h_Height (last r),
                     mb_StreakStartTime = convertToTime A (ms_StreakStartTime (streak_of r)),
                     mb_StreakEndTime = convertToTime A (ms_StreakEndTime (streak_of r))\<rparr>) ?rs"
    using assms rows by (simp add: GetMissedBlockStreaks_def map_sum_Inr run_query_Inr streaks_sorted)
      (simp add: streak_of_def)
  moreover have "pm_LongestMissStreak m = (if ?rs = [] then 0 else int (length (hd ?rs)))"
    if "GetSigningEfficiency A now a w d = Inr m" for now m
  proof -
    have "pm_LongestMissStreak m = (case map streak_of ?rs of [] \<Rightarrow> 0 | s # _ \<Rightarrow> ms_ConsecutiveMisses s)"
      using that by (auto simp: GetSigningEfficiency_def Let_def run_query_def streaks_sorted split: option.splits)
    then show ?thesis by (cases ?rs) (simp_all add: streak_of_def)
  qed
  ultimately show ?thesis using sorted by (intro exI [of _ ?rs]) simp
qed

text \<open>On a database without block times every analysis by time window sees nothing: no block, no round, no
  streak, no ranking and no time series, for every validator and every window.\<close>

lemma untimed_analytics:
  assumes "no_block_times d'"
  shows "(\<forall>m. GetSigningEfficiency A now a w d' = Inr m \<longrightarrow>
       pm_TotalBlocks m = 0 \<and> pm_BlocksSigned m = 0 \<and> pm_TotalRounds m = 0 \<and> pm_LongestMissStreak m = 0)
    \<and> (\<forall>rs. GetAllValidatorMetrics A w d' = Inr rs \<longrightarrow> rs = [])
    \<and> (\<forall>ss. GetMissedBlockStreaks A a w d' = Inr ss \<longrightarrow> ss = [])
    \<and> (\<forall>ts. GetPerformanceTimeSeries A a w d' = Inr ts \<longrightarrow> ts = [])
    \<and> (\<forall>u. GetValidatorUptime A a w d' = Inr u \<longrightarrow> um_TotalBlocksInWindow u = 0)"
proof -
  have w: "window_heights t1 t2 d' = []" for t1 t2 using assms by (rule untimed_window)
  have "pm_TotalBlocks m = 0 \<and> pm_BlocksSigned m = 0 \<and> pm_TotalRounds m = 0 \<and> pm_LongestMissStreak m = 0"
    if "GetSigningEfficiency A now a w d' = Inr m" for m
    using that by (auto simp: GetSigningEfficiency_def Let_def run_query_def GetValidatorSigningEfficiency_def
        GetValidatorConsensusParticipation_def vote_participation_def w heights_votes_def group_rows_def
        missed_streaks_runs convertToInt64_def count_rows_def split: option.splits)
  moreover have "rs = []" if "GetAllValidatorMetrics A w d' = Inr rs" for rs
    using that by (simp add: GetAllValidatorMetrics_def map_sum_Inr run_query_Inr GetValidatorRanking_def all_metrics_def w)
  moreover have "ss = []" if "GetMissedBlockStreaks A a w d' = Inr ss" for ss
    using that by (simp add: GetMissedBlockStreaks_def map_sum_Inr run_query_Inr missed_streaks_runs w)
  moreover have "ts = []" if "GetPerformanceTimeSeries A a w d' = Inr ts" for ts
    using that by (simp add: GetPerformanceTimeSeries_def map_sum_Inr run_query_Inr GetValidatorPerformanceTimeSeries_def
        heights_votes_def group_rows_def w)
  moreover have "um_TotalBlocksInWindow u = 0" if "GetValidatorUptime A a w d' = Inr u" for u
    using that by (auto simp: GetValidatorUptime_def map_sum_Inr run_query_Inr GetValidatorUptime_q_def heights_votes_def w
        count_distinct_def Let_def)
  ultimately show ?thesis by blast
qed

lemma sample_db_untimed: "no_block_times sample_db"
  by (simp add: no_block_times_def sample_db_def new_height_def)

theorem GetRankingByHeight_spec_witness:
  "\<exists>rs. GetRankingByHeight sample_an_env 1 3 sample_history = Inr rs
     \<and> (\<forall>r \<in> set rs. vr_TotalBlocks r = int (card (stored_heights 1 3 sample_history)))"
proof -
  have "\<exists>rs. GetRankingByHeight sample_an_env 1 3 sample_history = Inr rs"
    by (simp add: GetRankingByHeight_def run_query_def sample_an_env_def)
  then obtain rs where rs: "GetRankingByHeight sample_an_env 1 3 sample_history = Inr rs" ..
  have "rounds_percent (an_sql sample_an_env)" by (simp add: rounds_percent_def sample_an_env_def)
  moreover have "int (length (heights sample_history)) \<le> 2 ^ 46" by (simp add: sample_history_def)
  ultimately show ?thesis using GetRankingByHeight_spec [OF rs] rs by blast
qed

theorem GetMissedBlockStreaks_spec_witness:
  "\<exists>ss. GetMissedBlockStreaks sample_an_env ''A'' \<lparr>tw_Start = 0, tw_End = 9\<rparr> sample_history = Inr ss
     \<and> length ss = 2 \<and> length (miss_runs ''A'' \<lparr>tw_Start = 0, tw_End = 9\<rparr> sample_history) = 2"
proof -
  let ?w = "\<lparr>tw_Start = 0, tw_End = 9\<rparr>"
  have "\<exists>ss. GetMissedBlockStreaks sample_an_env ''A'' ?w sample_history = Inr ss"
    by (simp add: GetMissedBlockStreaks_def run_query_def sample_an_env_def)
  then obtain ss where ss: "GetMissedBlockStreaks sample_an_env ''A'' ?w sample_history = Inr ss" ..
  have "window_heights (Some 0) (Some 9) sample_history = map timed_height [4, 3, 2, 1]"
    by (simp add: window_heights_def sample_history_def timed_height_def new_height_def time_in_def)
  then have "sort_key h_Height (window_heights (Some 0) (Some 9) sample_history) = map timed_height [1, 2, 3, 4]"
    by (simp add: timed_height_def new_height_def)
  moreover have "votes_at ''A'' (h_Height (timed_height h)) sample_history = [] \<longleftrightarrow> h \<noteq> 2" for h
    by (simp add: votes_at_def sample_history_def timed_height_def new_height_def new_vote_def)
  ultimately have runs: "miss_runs ''A'' ?w sample_history = [[timed_height 1], [timed_height 3, timed_height 4]]"
    by (simp add: miss_runs_def runs_take runs_skip)
  from GetMissedBlockStreaks_spec [OF ss]
  have "\<exists>rs. mset rs = mset (miss_runs ''A'' ?w sample_history) \<and> length ss = length rs"
    by (elim exE conjE) (rule exI, rule conjI, assumption, simp)
  then obtain rs where rs: "mset rs = mset (miss_runs ''A'' ?w sample_history)" "length ss = length rs" by blast
  from mset_eq_length [OF rs(1)] rs(2) runs have "length ss = 2" by simp
  with ss runs show ?thesis by simp
qed

end
