(* ===== verification/Metrics.thy ===== *)
theory Metrics
  imports Observe Decentralization Asn Analytics
begin

text \<open>
  The enrichers of \<open>pkg/metrics\<close> (\<open>enrich_asn.go\<close>, \<open>enrich_blocktime.go\<close>, \<open>enrich_latency.go\<close>,
  \<open>enrich_liveness.go\<close>, \<open>enrich_mempool.go\<close>, \<open>enrich_performance.go\<close>) and \<open>Build\<close> of \<open>builder.go\<close>,
  which runs all of them after \<open>observe\<close>. The dependencies of a builder are gathered in
  \<open>metrics_env\<close>: the analytics on a database (\<open>None\<close> for the \<open>nil\<close> pointer), the ASN table with
  \<open>net.ParseIP\<close>, and the orders in which the two loops over Go maps visit the entries. The clock is
  read once by \<open>observe\<close> and once by \<open>enrichLiveness\<close>; both readings are arguments.
\<close>

section \<open>Square roots\<close>

text \<open>\<open>math.Sqrt\<close> is correctly rounded. \<open>isqrt\<close> is the integer square root; \<open>fsqrt\<close> scales its
  argument so that the root has 53 bits, and rounds to nearest.\<close>

fun isqrt :: "nat \<Rightarrow> nat" where
  "isqrt n =
     (if n = 0 then 0
      else let s = 2 * isqrt (n div 4) in if (s + 1) * (s + 1) \<le> n then s + 1 else s)"

declare isqrt.simps [simp del]

definition rsqrt :: "rat \<Rightarrow> int" where
  "rsqrt r =
     (let f = int (isqrt (nat \<lfloor>r\<rfloor>))
      in if (of_int f + 1 / 2) * (of_int f + 1 / 2) \<le> r then f + 1 else f)"

definition fsqrt :: "rat \<Rightarrow> rat" where
  "fsqrt q =
     (if q \<le> 0 then 0
      else let u = power_int 2 (fexp q div 2 - 52) in of_int (rsqrt (q / (u * u))) * u)"

section \<open>Environment\<close>

record asnAccum =
  acc_asn :: int
  acc_org :: string
  acc_validators :: int
  acc_powerPct :: rat

record metrics_env =
  me_analytics :: "(an_env \<times> database) option"
  me_asn :: "asnRange list option"
  me_ParseIP :: "string \<Rightarrow> bytes option"
  me_asn_order :: "(int \<rightharpoonup> asnAccum) \<Rightarrow> asnAccum list"
  me_stats_order :: "(address \<rightharpoonup> ArrivalStats) \<Rightarrow> (address \<times> ArrivalStats) list"

section \<open>Liveness\<close>

definition haltThresholdSecs :: rat where
  "haltThresholdSecs = 15"

definition setHaltFields :: "NetworkHealth \<Rightarrow> Builder \<Rightarrow> instant \<Rightarrow> NetworkHealth" where
  "setHaltFields nh b now =
     (if time_is_zero (lastHeightChangeAt b) then nh
      else let secs = duration_seconds (time_sub now (lastHeightChangeAt b))
        in nh\<lparr>SecondsSinceHeight := secs, ChainHalted := secs > haltThresholdSecs\<rparr>)"

definition votedThisHeight ::
    "('h, 'r, 'k, 'p, 'z) state_env_scheme \<Rightarrow> ('h, 'k, 'p) State \<Rightarrow> int \<Rightarrow> int \<Rightarrow> address \<Rightarrow> bool" where
  "votedThisHeight E s height rnd addr =
     (let pre = GetVote (round_env.truncate E) (VotesByRound s) height rnd addr PrevoteType;
          pc = GetVote (round_env.truncate E) (VotesByRound s) height rnd addr PrecommitType
      in pre = VoteStateForBlock \<or> pre = VoteStateNil \<or> pc = VoteStateForBlock \<or> pc = VoteStateNil)"

text \<open>The loop over the validators: the offline count, the offline power and the total power.\<close>

fun liveness_loop :: "(address \<Rightarrow> bool) \<Rightarrow> TMValidators \<Rightarrow> int \<Rightarrow> rat \<Rightarrow> rat \<Rightarrow> int \<times> rat \<times> rat" where
  "liveness_loop on [] offline offlinePower totalPower = (offline, offlinePower, totalPower)"
| "liveness_loop on (v # vs) offline offlinePower totalPower =
     (case tv_CometValidator v of
        None \<Rightarrow> liveness_loop on vs offline offlinePower totalPower
      | Some c \<Rightarrow>
          (let power = float_of_int (cv_VotingPower c);
               totalPower = fadd totalPower power
           in if \<not> on (GetDisplayAddress v)
              then liveness_loop on vs (offline + 1) (fadd offlinePower power) totalPower
              else liveness_loop on vs offline offlinePower totalPower))"

definition enrichLiveness ::
    "('h, 'r, 'k, 'p, 'z) state_env_scheme \<Rightarrow> NetworkHealth \<Rightarrow> Builder \<Rightarrow> instant \<Rightarrow> ('h, 'k, 'p) State
      \<Rightarrow> NetworkHealth" where
  "enrichLiveness E nh b now s =
     (let nh = setHaltFields nh b now;
          nh = nh\<lparr>CurrentMaxRound := i32 (st_Round s)\<rparr>;
          (offline, offlinePower, totalPower) =
            liveness_loop (votedThisHeight E s (st_Height s) (i32 (st_Round s))) (GetTMValidators s) 0 0 0;
          nh = nh\<lparr>OfflineCount := offline\<rparr>
      in if totalPower > 0 then nh\<lparr>OfflinePowerPct := fdiv (fmul 100 offlinePower) totalPower\<rparr> else nh)"

definition enrichLivenessRows ::
    "('h, 'r, 'k, 'p, 'z) state_env_scheme \<Rightarrow> ValidatorHealthRow list \<Rightarrow> ('h, 'k, 'p) State \<Rightarrow> ValidatorHealthRow list" where
  "enrichLivenessRows E rows s =
     map (\<lambda>row. row\<lparr>vh_Online := votedThisHeight E s (st_Height s) (i32 (st_Round s)) (vh_Address row)\<rparr>) rows"

section \<open>Block time\<close>

definition sum_durations :: "duration list \<Rightarrow> duration" where
  "sum_durations ds = foldl (\<lambda>acc d. i64 (acc + d)) 0 ds"

definition enrichBlockTime :: "NetworkHealth \<Rightarrow> Builder \<Rightarrow> NetworkHealth" where
  "enrichBlockTime nh b =
     (let iv = blockIntervals b;
          nh = (if iv = [] then nh
                else
                  let mean = go_div (sum_durations iv) (int (length iv));
                      varAcc = foldl (\<lambda>acc d. let diff = float_of_int (i64 (d - mean)) in fadd acc (fmul diff diff)) 0 iv
                  in nh\<lparr>AvgBlockTime := mean,
                        BlockTimeStdDev := ftrunc (fsqrt (fdiv varAcc (float_of_int (int (length iv))))),
                        BlockIntervals := [] @ iv\<rparr>);
          mr = maxRoundPerHeight b
      in if mr = [] then nh
         else
           let roundSum = foldl (\<lambda>acc r. i64 (acc + r)) 0 mr;
               zero = count_rows (\<lambda>r. r = 0) mr
           in nh\<lparr>RoundsPerBlockAvg := fdiv (float_of_int roundSum) (float_of_int (int (length mr))),
                 RoundZeroCommitPct := fdiv (fmul 100 (float_of_int zero)) (float_of_int (int (length mr)))\<rparr>)"

section \<open>Mempool\<close>

definition enrichMempool :: "NetworkHealth \<Rightarrow> ('h, 'k, 'p) State \<Rightarrow> NetworkHealth" where
  "enrichMempool nh s =
     (let (txs, bs, known) = GetMempool s
      in nh\<lparr>MempoolTxs := txs, MempoolBytes := bs, MempoolKnown := known\<rparr>)"

section \<open>ASN\<close>

definition topASNCount :: nat where
  "topASNCount = 5"

definition add_ip :: "(address \<rightharpoonup> string) \<Rightarrow> string \<times> RPC \<Rightarrow> (address \<rightharpoonup> string)" where
  "add_ip m = (\<lambda>(_, rpc). if rpc_ValidatorAddress rpc \<noteq> '''' \<and> rpc_IP rpc \<noteq> ''''
     then m(rpc_ValidatorAddress rpc \<mapsto> rpc_IP rpc) else m)"

definition buildAddrToIPMap :: "('h, 'r, 'k, 'p, 'z) state_env_scheme \<Rightarrow> ('h, 'k, 'p) State \<Rightarrow> (address \<rightharpoonup> string)" where
  "buildAddrToIPMap E s = foldl add_ip Map.empty (om_entries (rpcs_ops E) (KnownRPCs s))"

text \<open>The ASN of a validator's address, where its IP is known.\<close>

definition asn_of :: "metrics_env \<Rightarrow> (address \<rightharpoonup> string) \<Rightarrow> address \<Rightarrow> (int \<times> string) option" where
  "asn_of M addrToIP addr =
     (case addrToIP addr of
        None \<Rightarrow> None
      | Some ip \<Rightarrow> (if ip = '''' then None else Lookup (me_ParseIP M) (me_asn M) ip))"

definition power_pct :: "TMValidator \<Rightarrow> rat" where
  "power_pct v = (case tv_VotingPowerPercent v of None \<Rightarrow> 0 | Some p \<Rightarrow> fl p)"

definition add_asn :: "(address \<Rightarrow> (int \<times> string) option) \<Rightarrow> (int \<rightharpoonup> asnAccum) \<Rightarrow> TMValidator \<Rightarrow> (int \<rightharpoonup> asnAccum)" where
  "add_asn asn m v =
     (case asn (GetDisplayAddress v) of
        None \<Rightarrow> m
      | Some (asnNum, org) \<Rightarrow>
          (let acc = (case m asnNum of Some acc \<Rightarrow> acc
                 | None \<Rightarrow> \<lparr>acc_asn = asnNum, acc_org = org, acc_validators = 0, acc_powerPct = 0\<rparr>)
           in m(asnNum \<mapsto> acc\<lparr>acc_validators := acc_validators acc + 1,
                              acc_powerPct := fadd (acc_powerPct acc) (power_pct v)\<rparr>)))"

definition share_of :: "asnAccum \<Rightarrow> ASNShare" where
  "share_of acc = \<lparr>as_ASN = acc_asn acc, as_Description = acc_org acc, as_Validators = acc_validators acc,
     as_PowerPct = acc_powerPct acc\<rparr>"

text \<open>The comparison of \<open>sort.Slice\<close>: power descending, then ASN ascending.\<close>

definition share_key :: "ASNShare \<Rightarrow> rat \<times> int" where
  "share_key s = (- as_PowerPct s, as_ASN s)"

definition enrichASN ::
    "('h, 'r, 'k, 'p, 'z) state_env_scheme \<Rightarrow> metrics_env \<Rightarrow> (ASNShare list \<Rightarrow> ASNShare list) \<Rightarrow> NetworkHealth
      \<Rightarrow> ('h, 'k, 'p) State \<Rightarrow> NetworkHealth" where
  "enrichASN E M srt nh s =
     (if me_asn M = None then nh
      else
        let asnMap = foldl (add_asn (asn_of M (buildAddrToIPMap E s))) Map.empty (GetTMValidators s);
            shares = srt (map share_of (me_asn_order M asnMap));
            shares = (if length shares > topASNCount then take topASNCount shares else shares)
        in nh\<lparr>TopASNs := shares\<rparr>)"

definition enrichASNRows ::
    "('h, 'r, 'k, 'p, 'z) state_env_scheme \<Rightarrow> metrics_env \<Rightarrow> ValidatorHealthRow list \<Rightarrow> ('h, 'k, 'p) State
      \<Rightarrow> ValidatorHealthRow list" where
  "enrichASNRows E M rows s =
     (if me_asn M = None then rows
      else map (\<lambda>row. case asn_of M (buildAddrToIPMap E s) (vh_Address row) of
             None \<Rightarrow> row
           | Some (asnNum, org) \<Rightarrow> row\<lparr>vh_ASN := asnNum, vh_ASNOrg := org\<rparr>) rows)"

section \<open>Performance and latency\<close>

definition maxStoredHeight :: "an_env \<times> database \<Rightarrow> goerror + int" where
  "maxStoredHeight a = GetMaxStoredHeight (fst a) (snd a)"

text \<open>\<open>byAddr\<close>: the last row of an address wins.\<close>

definition byAddr :: "ValidatorHealthRow list \<Rightarrow> address \<rightharpoonup> nat" where
  "byAddr rows = map_of (rev (zip (map vh_Address rows) [0..<length rows]))"

definition window_start :: "int \<Rightarrow> Builder \<Rightarrow> int" where
  "window_start maxH b = (let minH = i64 (maxH - windowBlocks b) in if minH < 1 then 1 else minH)"

definition rank_row ::
    "(address \<rightharpoonup> nat) \<Rightarrow> (address \<rightharpoonup> rat) \<Rightarrow> ValidatorHealthRow list \<Rightarrow> ValidatorRanking \<Rightarrow> ValidatorHealthRow list" where
  "rank_row idx share rows r =
     (case idx (vr_HexAddress r) of
        None \<Rightarrow> rows
      | Some i \<Rightarrow>
          (let row = rows ! i;
               row = row\<lparr>vh_HasHistory := True, vh_SigningRatePct := vr_SigningEfficiency r,
                         vh_BlocksMissed := vr_BlocksMissed r\<rparr>;
               row = (if vr_TotalBlocks r > 0 then
                        row\<lparr>vh_PrevoteRatePct := fdiv (fmul 100 (float_of_int (vr_PrevotesCast r)))
                                                  (float_of_int (vr_TotalBlocks r)),
                            vh_PrecommitRatePct := fdiv (fmul 100 (float_of_int (vr_PrecommitsCast r)))
                                                  (float_of_int (vr_TotalBlocks r))\<rparr>
                      else row);
               row = row\<lparr>vh_ProposerSharePct := (case share (vr_HexAddress r) of None \<Rightarrow> 0 | Some p \<Rightarrow> p)\<rparr>
           in rows[i := row]))"

definition enrichPerformance :: "metrics_env \<Rightarrow> ValidatorHealthRow list \<Rightarrow> Builder \<Rightarrow> ValidatorHealthRow list" where
  "enrichPerformance M rows b =
     (case me_analytics M of
        None \<Rightarrow> rows
      | Some (A, d) \<Rightarrow>
          (case maxStoredHeight (A, d) of
             Inl _ \<Rightarrow> rows
           | Inr maxH \<Rightarrow>
               (if maxH = 0 then rows
                else
                  case GetRankingByHeight A (window_start maxH b) maxH d of
                    Inl _ \<Rightarrow> rows
                  | Inr ranking \<Rightarrow>
                      (let share = (case GetProposerShareByHeight A (window_start maxH b) maxH d of
                             Inl _ \<Rightarrow> Map.empty | Inr share \<Rightarrow> share)
                       in foldl (rank_row (byAddr rows) share) rows ranking))))"

definition latency_row ::
    "(address \<rightharpoonup> nat) \<Rightarrow> ValidatorHealthRow list \<Rightarrow> address \<times> ArrivalStats \<Rightarrow> ValidatorHealthRow list" where
  "latency_row idx rows = (\<lambda>(addr, s).
     case idx addr of
       None \<Rightarrow> rows
     | Some i \<Rightarrow> rows[i := (rows ! i)\<lparr>vh_HasLatency := True, vh_AvgPrevoteArrival := at_AvgPrevote s,
         vh_AvgPrecommitArrival := at_AvgPrecommit s, vh_MaxPrecommitArrival := at_MaxPrecommit s\<rparr>])"

definition enrichLatency :: "metrics_env \<Rightarrow> ValidatorHealthRow list \<Rightarrow> Builder \<Rightarrow> ValidatorHealthRow list" where
  "enrichLatency M rows b =
     (case me_analytics M of
        None \<Rightarrow> rows
      | Some (A, d) \<Rightarrow>
          (case maxStoredHeight (A, d) of
             Inl _ \<Rightarrow> rows
           | Inr maxH \<Rightarrow>
               (if maxH = 0 then rows
                else
                  case GetVoteArrivalByHeight A (window_start maxH b) maxH d of
                    Inl _ \<Rightarrow> rows
                  | Inr stats \<Rightarrow> foldl (latency_row (byAddr rows)) rows (me_stats_order M stats))))"

section \<open>Build\<close>

definition buildBaseRows :: "TMValidators \<Rightarrow> ValidatorHealthRow list" where
  "buildBaseRows vs =
     map (\<lambda>v. zero_ValidatorHealthRow\<lparr>vh_Address := GetDisplayAddress v, vh_Moniker := GetDisplayName v,
            vh_VotingPowerPct := power_pct v\<rparr>) vs"

definition Build ::
    "('h, 'r, 'k, 'p, 'z) state_env_scheme \<Rightarrow> metrics_env \<Rightarrow> (ASNShare list \<Rightarrow> ASNShare list) \<Rightarrow> instant \<Rightarrow> instant
      \<Rightarrow> ('h, 'k, 'p) State \<Rightarrow> Builder \<Rightarrow> Builder \<times> NetworkHealth \<times> ValidatorHealthRow list" where
  "Build E M srt now1 now2 s b =
     (let b = observe (st_Height s) (st_Round s) now1 b;
          vs = GetTMValidators s;
          nh = zero_NetworkHealth;
          nh = enrichDecentralization nh vs;
          nh = enrichLiveness E nh b now2 s;
          nh = enrichBlockTime nh b;
          nh = enrichStepTiming nh b;
          nh = enrichMempool nh s;
          nh = enrichASN E M srt nh s;
          nh = enrichEquivocations nh b;
          rows = buildBaseRows vs;
          rows = enrichLivenessRows E rows s;
          rows = enrichPerformance M rows b;
          rows = enrichLatency M rows b;
          rows = enrichASNRows E M rows s;
          rows = enrichEquivocationFlags rows b
      in (b, nh, rows))"

section \<open>Specification\<close>

definition comet_power :: "TMValidator \<Rightarrow> int" where
  "comet_power v = (case tv_CometValidator v of None \<Rightarrow> 0 | Some c \<Rightarrow> cv_VotingPower c)"

definition offline :: "('h, 'r, 'k, 'p, 'z) state_env_scheme \<Rightarrow> ('h, 'k, 'p) State \<Rightarrow> TMValidator \<Rightarrow> bool" where
  "offline E s v \<longleftrightarrow> tv_CometValidator v \<noteq> None
     \<and> (\<forall>t \<in> {PrevoteType, PrecommitType}.
          GetVote (round_env.truncate E) (VotesByRound s) (st_Height s) (i32 (st_Round s)) (GetDisplayAddress v) t
            = VoteStateNone)"

text \<open>A row without the columns that come from the database and the ASN table.\<close>

definition base_columns :: "ValidatorHealthRow \<Rightarrow> string \<times> string \<times> rat \<times> bool \<times> bool" where
  "base_columns row = (vh_Address row, vh_Moniker row, vh_VotingPowerPct row, vh_Online row, vh_Equivocated row)"

text \<open>What ranging over a Go map of accumulators yields, in whatever order.\<close>

definition lists_values :: "((int \<rightharpoonup> asnAccum) \<Rightarrow> asnAccum list) \<Rightarrow> bool" where
  "lists_values order \<longleftrightarrow>
     (\<forall>m. finite (dom m) \<longrightarrow> (\<exists>ks. distinct ks \<and> set ks = dom m \<and> order m = map (\<lambda>k. the (m k)) ks))"

definition asn_hosts :: "(address \<Rightarrow> (int \<times> string) option) \<Rightarrow> TMValidators \<Rightarrow> int \<Rightarrow> TMValidators" where
  "asn_hosts asn vs n = filter (\<lambda>v. map_option fst (asn (GetDisplayAddress v)) = Some n) vs"

definition asn_entry :: "(address \<Rightarrow> (int \<times> string) option) \<Rightarrow> TMValidators \<Rightarrow> int \<Rightarrow> asnAccum" where
  "asn_entry asn vs n =
     (let us = asn_hosts asn vs n
      in \<lparr>acc_asn = n, acc_org = snd (the (asn (GetDisplayAddress (hd us)))), acc_validators = int (length us),
          acc_powerPct = foldl (\<lambda>acc v. fadd acc (power_pct v)) 0 us\<rparr>)"

definition sample_voter :: TMValidator where
  "sample_voter = sample_validator ''A'' 3"

definition sample_silent :: TMValidator where
  "sample_silent = sample_validator ''B'' 1"

definition sample_state where
  "sample_state = (NewState fmap_state_env '''' 0)\<lparr>st_Height := 7, st_TMValidators := [sample_voter, sample_silent],
     VotesByRound := AddVote fmap_env (NewRoundDataMap fmap_env) 7 0 ''A'' PrevoteType zero_BlockID\<rparr>"

definition sample_builder :: Builder where
  "sample_builder = observe 7 0 1000 (NewBuilder 100)"

text \<open>An ASN table that maps the address \<open>''abcd''\<close> to AS 64496, and maps visited by ascending ASN.\<close>

definition sample_metrics :: metrics_env where
  "sample_metrics = \<lparr>me_analytics = None,
     me_asn = Some [\<lparr>ar_start = 0, ar_end = 2 ^ 32 - 1, ar_asn = 64496, ar_org = ''Org''\<rparr>],
     me_ParseIP = (\<lambda>s. if length s = 4 then Some s else None),
     me_asn_order = (\<lambda>m. map (\<lambda>k. the (m k)) (sorted_list_of_set (dom m))), me_stats_order = (\<lambda>_. [])\<rparr>"

section \<open>Lemmas\<close>

lemma isqrt_bounds: "isqrt n * isqrt n \<le> n \<and> n < (isqrt n + 1) * (isqrt n + 1)"
proof (induction n rule: isqrt.induct)
  case (1 n)
  show ?case
  proof (cases "n = 0")
    case False
    define s where "s = isqrt (n div 4)"
    have "s * s \<le> n div 4" "n div 4 < (s + 1) * (s + 1)" using 1 False by (simp_all add: s_def)
    then have "4 * (s * s) \<le> n" "n < 4 * ((s + 1) * (s + 1))" by linarith+
    then show ?thesis using False by (subst (1 2 3 4) isqrt.simps) (simp add: s_def [symmetric] Let_def algebra_simps)
  qed (simp add: isqrt.simps)
qed

lemma map_update_same: "f y = f (xs ! i) \<Longrightarrow> map f (xs[i := y]) = map f xs"
  by (cases "i < length xs") (simp_all add: map_update list_update_same_conv list_update_beyond)

lemma foldl_map_same: "(\<And>xs x. map f (g xs x) = map f xs) \<Longrightarrow> map f (foldl g xs ys) = map f xs"
  by (induction ys arbitrary: xs) simp_all

lemma rank_row_base: "map base_columns (rank_row idx share rows r) = map base_columns rows"
  by (auto simp: rank_row_def Let_def base_columns_def intro!: map_update_same split: option.split)

lemma latency_row_base: "map base_columns (latency_row idx rows x) = map base_columns rows"
  by (auto simp: latency_row_def base_columns_def intro!: map_update_same split: prod.split option.split)

lemma enrichPerformance_base: "map base_columns (enrichPerformance M rows b) = map base_columns rows"
  by (auto simp: enrichPerformance_def Let_def foldl_map_same rank_row_base split: option.split sum.split)

lemma enrichLatency_base: "map base_columns (enrichLatency M rows b) = map base_columns rows"
  by (auto simp: enrichLatency_def Let_def foldl_map_same latency_row_base split: option.split sum.split)

lemma enrichASNRows_base: "map base_columns (enrichASNRows E M rows s) = map base_columns rows"
  by (auto simp: enrichASNRows_def base_columns_def split: option.split)

lemma voted_offline:
  "votedThisHeight E s (st_Height s) (i32 (st_Round s)) (GetDisplayAddress v) \<longleftrightarrow>
     \<not> (\<forall>t \<in> {PrevoteType, PrecommitType}.
          GetVote (round_env.truncate E) (VotesByRound s) (st_Height s) (i32 (st_Round s)) (GetDisplayAddress v) t
            = VoteStateNone)"
  unfolding votedThisHeight_def Let_def
  by (auto intro: VoteState.exhaust)

lemma liveness_loop_exact:
  assumes "\<forall>v \<in> set vs. 0 \<le> comet_power v" "0 \<le> a" "a \<le> t" "t + (\<Sum>v \<leftarrow> vs. comet_power v) \<le> 2 ^ 53"
  shows "liveness_loop on vs n (of_int a) (of_int t) =
    (n + int (length (filter (\<lambda>v. tv_CometValidator v \<noteq> None \<and> \<not> on (GetDisplayAddress v)) vs)),
     of_int (a + (\<Sum>v \<leftarrow> filter (\<lambda>v. tv_CometValidator v \<noteq> None \<and> \<not> on (GetDisplayAddress v)) vs. comet_power v)),
     of_int (t + (\<Sum>v \<leftarrow> vs. comet_power v)))"
  using assms
proof (induction vs arbitrary: n a t)
  case (Cons v vs)
  have rest: "0 \<le> (\<Sum>v \<leftarrow> vs. comet_power v)" using Cons.prems(1) by (intro sum_list_nonneg) auto
  show ?case
  proof (cases "tv_CometValidator v")
    case None
    with Cons show ?thesis by (simp add: comet_power_def)
  next
    case (Some c)
    let ?p = "cv_VotingPower c"
    have p: "comet_power v = ?p" "0 \<le> ?p" using Some Cons.prems(1) by (auto simp: comet_power_def)
    then have "?p \<le> 2 ^ 53" "t + ?p \<le> 2 ^ 53" "a + ?p \<le> 2 ^ 53" using Cons.prems rest by simp_all
    then have "fadd (of_int t) (float_of_int ?p) = of_int (t + ?p)" "fadd (of_int a) (float_of_int ?p) = of_int (a + ?p)"
      using p(2) Cons.prems(2,3) fl_of_int [of "t + ?p"] fl_of_int [of "a + ?p"]
      by (simp_all add: fadd_def float_of_int_exact)
    then show ?thesis using Some p Cons.prems Cons.IH [of a "t + ?p" n] Cons.IH [of "a + ?p" "t + ?p" "n + 1"]
      by (simp add: Let_def add.assoc)
  qed
qed simp

subsection \<open>ASN shares\<close>

lemma asn_hosts_snoc:
  "asn_hosts asn (vs @ [v]) n =
     (if map_option fst (asn (GetDisplayAddress v)) = Some n then asn_hosts asn vs n @ [v] else asn_hosts asn vs n)"
  by (simp add: asn_hosts_def)

lemma asn_map_entries:
  "foldl (add_asn asn) Map.empty vs = (\<lambda>n. if asn_hosts asn vs n = [] then None else Some (asn_entry asn vs n))"
proof (induction vs rule: rev_induct)
  case Nil
  show ?case by (simp add: asn_hosts_def)
next
  case (snoc v vs)
  show ?case
  proof (cases "asn (GetDisplayAddress v)")
    case None
    have "asn_hosts asn (vs @ [v]) n = asn_hosts asn vs n" for n by (simp add: asn_hosts_snoc None)
    then show ?thesis using snoc by (simp add: add_asn_def None asn_entry_def fun_eq_iff)
  next
    case (Some x)
    obtain num org where x: "x = (num, org)" by (cases x)
    have new: "asn_hosts asn (vs @ [v]) num = asn_hosts asn vs num @ [v]" by (simp add: asn_hosts_snoc Some x)
    have other: "asn_hosts asn (vs @ [v]) n = asn_hosts asn vs n" if "n \<noteq> num" for n
      using that by (simp add: asn_hosts_snoc Some x)
    have entry: "asn_entry asn (vs @ [v]) num =
        (let acc = (if asn_hosts asn vs num = [] then \<lparr>acc_asn = num, acc_org = org, acc_validators = 0, acc_powerPct = 0\<rparr>
                    else asn_entry asn vs num)
         in acc\<lparr>acc_validators := acc_validators acc + 1, acc_powerPct := fadd (acc_powerPct acc) (power_pct v)\<rparr>)"
      unfolding asn_entry_def new by (simp add: Some x Let_def)
    show ?thesis
      using snoc by (auto simp: add_asn_def Some x fun_eq_iff new other entry Let_def asn_entry_def)
  qed
qed

lemma asn_map_dom:
  "dom (foldl (add_asn asn) Map.empty vs) = {n. \<exists>v \<in> set vs. map_option fst (asn (GetDisplayAddress v)) = Some n}"
  by (auto simp: asn_map_entries dom_def asn_hosts_def filter_empty_conv)

lemma finite_asn_map: "finite (dom (foldl (add_asn asn) Map.empty vs))"
proof -
  have "dom (foldl (add_asn asn) Map.empty vs) \<subseteq> (\<lambda>v. fst (the (asn (GetDisplayAddress v)))) ` set vs"
    unfolding asn_map_dom by force
  then show ?thesis by (rule finite_subset) simp
qed

text \<open>Sorting by a key that is injective on the elements has only one result.\<close>

lemma sorts_by_unique:
  assumes "sorts_by key srt" "mset xs = mset ys" "inj_on key (set xs)"
  shows "srt xs = sort_key key ys"
proof -
  have "mset ys = mset (srt xs)" "sorted (map key (srt xs))" using assms(1,2) by (simp_all add: sorts_by_def)
  moreover have "inj_on key (set ys)" using assms(2,3) by (metis mset_eq_setD)
  ultimately show ?thesis by (metis sort_key_inj_key_eq)
qed

subsection \<open>No enricher disturbs another\<close>

lemma count_frame:
  "OfflineCount (enrichBlockTime nh b) = OfflineCount nh"
  "OfflineCount (enrichStepTiming nh b) = OfflineCount nh"
  "OfflineCount (enrichMempool nh s) = OfflineCount nh"
  "OfflineCount (enrichASN E M srt nh s) = OfflineCount nh"
  "OfflineCount (enrichEquivocations nh b) = OfflineCount nh"
  by (simp_all add: enrichBlockTime_def enrichStepTiming_def enrichMempool_def enrichASN_def enrichEquivocations_def
      Let_def split: prod.split)

lemma liveness_loop_count:
  "fst (liveness_loop on vs n x y) =
     n + int (length (filter (\<lambda>v. tv_CometValidator v \<noteq> None \<and> \<not> on (GetDisplayAddress v)) vs))"
  by (induction vs arbitrary: n x y) (auto simp: Let_def split: option.split)

lemma enrichLiveness_count:
  "OfflineCount (enrichLiveness E nh b now s) = int (length (filter (\<lambda>v. tv_CometValidator v \<noteq> None
     \<and> \<not> votedThisHeight E s (st_Height s) (i32 (st_Round s)) (GetDisplayAddress v)) (GetTMValidators s)))"
  using liveness_loop_count [of "votedThisHeight E s (st_Height s) (i32 (st_Round s))" "GetTMValidators s" 0 0 0]
  by (auto simp: enrichLiveness_def Let_def split: prod.split)

lemma sample_truncate: "round_env.truncate fmap_state_env = fmap_env"
  by (simp add: fmap_state_env_def round_env.defs fmap_env_def)

lemma sample_offline:
  "\<not> offline fmap_state_env sample_state sample_voter" "offline fmap_state_env sample_state sample_silent"
proof -
  have v: "VotesByRound sample_state = AddVote fmap_env (NewRoundDataMap fmap_env) 7 0 ''A'' PrevoteType zero_BlockID"
    "st_Height sample_state = 7" "st_Round sample_state = 0"
    by (simp_all add: sample_state_def NewState_def)
  have a: "GetDisplayAddress sample_voter = ''A''" "GetDisplayAddress sample_silent = ''B''"
    by (simp_all add: sample_voter_def sample_silent_def sample_validator_def GetDisplayAddress_def)
  have k: "vote_at fmap_env (VotesByRound sample_state) (7, 0, ''A'', PrevoteType) = Some zero_BlockID"
    "vote_at fmap_env (VotesByRound sample_state) (7, 0, ''B'', t) = None" for t
    unfolding v by (simp_all add: vote_at_def fmap_rounds.round_at_AddVote fmap_rounds.round_at_new new_RoundData_def)
  show "\<not> offline fmap_state_env sample_state sample_voter" "offline fmap_state_env sample_state sample_silent"
    unfolding offline_def sample_truncate a v(2,3) fmap_rounds.GetVote_classify
    by (simp_all add: k i32_def sample_silent_def sample_validator_def classify_def)
qed

lemma sample_powers: "comet_power sample_voter = 3" "comet_power sample_silent = 1"
  by (simp_all add: sample_voter_def sample_silent_def sample_validator_def comet_power_def)

lemma sample_vals: "GetTMValidators sample_state = [sample_voter, sample_silent]"
  by (simp add: sample_state_def GetTMValidators_def)

section \<open>Properties\<close>

text \<open>Liveness: exactly the validators without any vote in the current round count as offline, their
  share of the power lies between 0 and 100 per cent and is 0 only when no power is offline, and the
  chain is halted when more than 15 seconds have passed since the last new height.\<close>

theorem enrichLiveness_spec:
  fixes E :: "('h, 'r, 'k, 'p, 'z) state_env_scheme" and nh :: NetworkHealth and now :: instant
  assumes "\<forall>v \<in> set (GetTMValidators s). 0 \<le> comet_power v" "(\<Sum>v \<leftarrow> GetTMValidators s. comet_power v) \<le> 2 ^ 46"
    and "0 < (\<Sum>v \<leftarrow> GetTMValidators s. comet_power v)" "\<not> time_is_zero (lastHeightChangeAt b)"
  defines "nh' \<equiv> enrichLiveness E nh b now s"
  defines "off \<equiv> filter (offline E s) (GetTMValidators s)"
  shows "OfflineCount nh' = int (length off)
    \<and> OfflinePowerPct nh' = fl (100 * of_int (\<Sum>v \<leftarrow> off. comet_power v) / of_int (\<Sum>v \<leftarrow> GetTMValidators s. comet_power v))
    \<and> 0 \<le> OfflinePowerPct nh' \<and> OfflinePowerPct nh' \<le> 100
    \<and> (OfflinePowerPct nh' = 0 \<longleftrightarrow> (\<Sum>v \<leftarrow> off. comet_power v) = 0)
    \<and> (ChainHalted nh' \<longleftrightarrow> 15 < duration_seconds (time_sub now (lastHeightChangeAt b)))"
proof -
  let ?vs = "GetTMValidators s"
  let ?T = "\<Sum>v \<leftarrow> ?vs. comet_power v" and ?O = "\<Sum>v \<leftarrow> off. comet_power v"
  have off: "filter (\<lambda>v. tv_CometValidator v \<noteq> None \<and> \<not> votedThisHeight E s (st_Height s) (i32 (st_Round s)) (GetDisplayAddress v)) ?vs = off"
    by (simp add: off_def offline_def [abs_def] voted_offline)
  have O: "0 \<le> ?O" using assms(1) by (auto simp: off_def intro!: sum_list_nonneg)
  have OT: "?O \<le> ?T"
  proof -
    have "(\<Sum>v \<leftarrow> filter P vs. comet_power v) \<le> (\<Sum>v \<leftarrow> vs. comet_power v)" if "\<forall>v \<in> set vs. 0 \<le> comet_power v" for P vs
      using that by (induction vs) auto
    then show ?thesis using assms(1) by (simp add: off_def)
  qed
  have loop: "liveness_loop (votedThisHeight E s (st_Height s) (i32 (st_Round s))) ?vs 0 0 0 = (int (length off), of_int ?O, of_int ?T)"
    using liveness_loop_exact [of ?vs 0 0 "votedThisHeight E s (st_Height s) (i32 (st_Round s))" 0] assms(1,2)
    unfolding off by simp
  have "fmul 100 (of_int ?O) = 100 * of_int ?O"
    using fl_of_int [of "100 * ?O"] O OT assms(2) by (simp add: fmul_def)
  with loop assms(3) have pct: "OfflinePowerPct nh' = fl (100 * of_int ?O / of_int ?T)"
    and count: "OfflineCount nh' = int (length off)"
    by (simp_all add: nh'_def enrichLiveness_def setHaltFields_def Let_def fdiv_def)
  have "100 * of_int ?O / of_int ?T \<le> (of_int 100 :: rat)" using assms(3) OT by (simp add: divide_le_eq)
  then have "OfflinePowerPct nh' \<le> 100" using fl_int_bounds(1) [of 100] by (simp add: pct)
  moreover have "0 \<le> OfflinePowerPct nh'" using O assms(3) by (simp add: pct fl_nonneg)
  moreover have "OfflinePowerPct nh' = 0 \<longleftrightarrow> ?O = 0"
    using fl_pos [of "100 * of_int ?O / of_int ?T"] O assms(3) by (cases "?O = 0") (auto simp: pct)
  moreover have "ChainHalted nh' \<longleftrightarrow> 15 < duration_seconds (time_sub now (lastHeightChangeAt b))"
    using assms(4) by (simp add: nh'_def enrichLiveness_def setHaltFields_def haltThresholdSecs_def Let_def split: prod.split)
  ultimately show ?thesis using pct count by blast
qed

theorem enrichLiveness_spec_witness:
  "OfflineCount (enrichLiveness fmap_state_env zero_NetworkHealth sample_builder 20000001000 sample_state) = 1
    \<and> OfflinePowerPct (enrichLiveness fmap_state_env zero_NetworkHealth sample_builder 20000001000 sample_state) = fl 25
    \<and> ChainHalted (enrichLiveness fmap_state_env zero_NetworkHealth sample_builder 20000001000 sample_state)"
proof -
  have t: "lastHeightChangeAt sample_builder = 1000" "\<not> time_is_zero (lastHeightChangeAt sample_builder)"
    by (simp_all add: sample_builder_def observe_def NewBuilder_def time_is_zero_def)
  have f: "filter (offline fmap_state_env sample_state) (GetTMValidators sample_state) = [sample_silent]"
    by (simp add: sample_vals sample_offline)
  have d: "15 < duration_seconds (time_sub 20000001000 1000)"
    using fl_of_int [of 20]
    by (simp add: time_sub_def duration_seconds_def go_div_def float_of_int_exact fdiv_def fadd_def i64_def Second_def Let_def)
  show ?thesis
    using enrichLiveness_spec [of sample_state sample_builder fmap_state_env zero_NetworkHealth 20000001000] t d
    unfolding f by (simp add: sample_vals sample_powers)
qed

text \<open>C24: the hosting shares do not depend on the order in which Go visits its map nor on the sorting
  algorithm: there is one entry per ASN that hosts a validator with a known address, it counts exactly
  these validators, and the first five by power (ties by number) are kept.\<close>

theorem enrichASN_spec:
  fixes E :: "('h, 'r, 'k, 'p, 'z) state_env_scheme" and M :: metrics_env and s :: "('h, 'k, 'p) State"
  assumes "sorts_by share_key srt" "lists_values (me_asn_order M)" "me_asn M \<noteq> None"
  defines "asn \<equiv> asn_of M (buildAddrToIPMap E s)"
  defines "nums \<equiv> {n. \<exists>v \<in> set (GetTMValidators s). map_option fst (asn (GetDisplayAddress v)) = Some n}"
  shows "TopASNs (enrichASN E M srt nh s) =
      take 5 (sort_key share_key (map (share_of \<circ> asn_entry asn (GetTMValidators s)) (sorted_list_of_set nums)))
    \<and> (\<forall>n. as_Validators (share_of (asn_entry asn (GetTMValidators s) n)) =
         int (length (filter (\<lambda>v. map_option fst (asn (GetDisplayAddress v)) = Some n) (GetTMValidators s))))"
proof -
  let ?vs = "GetTMValidators s"
  let ?m = "foldl (add_asn asn) Map.empty ?vs"
  let ?f = "share_of \<circ> asn_entry asn ?vs"
  have dom: "dom ?m = nums" by (simp add: asn_map_dom nums_def)
  then have fin: "finite nums" using finite_asn_map [of asn ?vs] by simp
  obtain ks where ks: "distinct ks" "set ks = nums" "me_asn_order M ?m = map (\<lambda>k. the (?m k)) ks"
    using assms(2) finite_asn_map [of asn ?vs] dom unfolding lists_values_def by blast
  have "the (?m k) = asn_entry asn ?vs k" if "k \<in> set ks" for k
    using that ks(2) dom by (auto simp: asn_map_entries dom_def split: if_splits)
  then have listed: "map share_of (me_asn_order M ?m) = map ?f ks" by (simp add: ks(3))
  have "mset ks = mset (sorted_list_of_set nums)"
    using ks(1,2) fin by (metis distinct_sorted_list_of_set set_eq_iff_mset_eq_distinct set_sorted_list_of_set)
  then have "mset (map ?f ks) = mset (map ?f (sorted_list_of_set nums))" by simp
  moreover have "inj_on share_key (set (map ?f ks))"
    by (auto simp: inj_on_def share_key_def share_of_def asn_entry_def Let_def)
  ultimately have "srt (map ?f ks) = sort_key share_key (map ?f (sorted_list_of_set nums))"
    by (rule sorts_by_unique [OF assms(1)])
  then have "TopASNs (enrichASN E M srt nh s) = take 5 (sort_key share_key (map ?f (sorted_list_of_set nums)))"
    using assms(3) listed by (cases "me_asn M") (simp_all add: enrichASN_def Let_def asn_def topASNCount_def del: map_map)
  then show ?thesis by (simp add: share_of_def asn_entry_def asn_hosts_def Let_def)
qed

theorem enrichASN_spec_witness:
  "TopASNs (enrichASN fmap_state_env sample_metrics (sort_key share_key) zero_NetworkHealth
      (sample_state\<lparr>st_knownRPCs := om_set alist_ordered_ops (om_new alist_ordered_ops) ''u''
         (zero_RPC\<lparr>rpc_ValidatorAddress := ''A'', rpc_IP := ''abcd''\<rparr>)\<rparr>)) =
    [share_of (asn_entry (\<lambda>a. if a = ''A'' then Some (64496, ''Org'') else None) [sample_voter, sample_silent] 64496)]"
proof -
  let ?rpc = "zero_RPC\<lparr>rpc_ValidatorAddress := ''A'', rpc_IP := ''abcd''\<rparr>"
  let ?s = "sample_state\<lparr>st_knownRPCs := om_set alist_ordered_ops (om_new alist_ordered_ops) ''u'' ?rpc\<rparr>"
  have ip: "buildAddrToIPMap fmap_state_env ?s = [''A'' \<mapsto> ''abcd'']"
    by (simp add: buildAddrToIPMap_def KnownRPCs_def fmap_state_env_def round_env.defs alist_ordered_ops_def update.rep_eq
        empty.rep_eq add_ip_def)
  have u: "ipToU32 (\<lambda>s. if length s = 4 then Some s else None) ''abcd'' = Some 1633837924"
    by (simp add: ipToU32_def To4_def BigEndian_Uint32_def)
  have i: "sort_Search (Suc 0) (\<lambda>k. 1633837924 < ar_start ([\<lparr>ar_start = 0, ar_end = 4294967295, ar_asn = 64496, ar_org = ''Org''\<rparr>] ! k)) = 1"
    by (rule sort_Search_boundary) simp_all
  have asn: "asn_of sample_metrics (buildAddrToIPMap fmap_state_env ?s) = (\<lambda>a. if a = ''A'' then Some (64496, ''Org'') else None)"
    unfolding ip by (rule ext) (use i in \<open>simp add: asn_of_def sample_metrics_def Lookup_def u\<close>)
  have vals: "GetTMValidators ?s = [sample_voter, sample_silent]" by (simp add: sample_state_def GetTMValidators_def)
  have lists: "lists_values (me_asn_order sample_metrics)"
    unfolding lists_values_def sample_metrics_def by (auto intro!: exI [of _ "sorted_list_of_set (dom m)" for m])
  have addr: "GetDisplayAddress sample_voter = ''A''" "GetDisplayAddress sample_silent = ''B''"
    by (simp_all add: sample_voter_def sample_silent_def sample_validator_def GetDisplayAddress_def)
  have nums: "{n. \<exists>v \<in> set [sample_voter, sample_silent]. map_option fst
      (if GetDisplayAddress v = ''A'' then Some (64496, ''Org'') else None) = Some n} = {64496 :: int}"
    using addr by auto
  have "me_asn sample_metrics \<noteq> None" by (simp add: sample_metrics_def)
  from enrichASN_spec [OF sorts_by_sort_key lists this, of fmap_state_env zero_NetworkHealth ?s]
  show ?thesis unfolding asn vals nums by simp
qed

text \<open>C23: a snapshot is consistent: it has one row per validator in the validators' order, no enricher
  disturbs what another wrote, a row is online exactly when its validator voted in the current round,
  it is flagged exactly when an equivocation of its address is recorded, and the network-wide offline
  count is the number of rows that are not online.\<close>

theorem Build_consistent:
  assumes "Build E M srt now1 now2 s b = (b', nh, rows)"
    and "\<forall>v \<in> set (GetTMValidators s). tv_CometValidator v \<noteq> None"
  shows "map vh_Address rows = map GetDisplayAddress (GetTMValidators s)
    \<and> map vh_Moniker rows = map GetDisplayName (GetTMValidators s)
    \<and> map vh_Online rows = map (\<lambda>v. \<not> offline E s v) (GetTMValidators s)
    \<and> (\<forall>row \<in> set rows. vh_Equivocated row \<longleftrightarrow> vh_Address row \<in> ev_ValidatorAddress ` set (Equivocations nh))
    \<and> OfflineCount nh = int (length (filter (\<lambda>row. \<not> vh_Online row) rows))
    \<and> b' = observe (st_Height s) (st_Round s) now1 b \<and> Equivocations nh = eq_events (b_equiv b')"
proof -
  let ?b = "observe (st_Height s) (st_Round s) now1 b"
  let ?vs = "GetTMValidators s"
  let ?rows0 = "enrichLivenessRows E (buildBaseRows ?vs) s"
  let ?rows1 = "enrichASNRows E M (enrichLatency M (enrichPerformance M ?rows0 ?b) ?b) s"
  have b': "b' = ?b" and rows: "rows = enrichEquivocationFlags ?rows1 ?b"
    using assms(1) by (auto simp: Build_def Let_def)
  have voted: "votedThisHeight E s (st_Height s) (i32 (st_Round s)) (GetDisplayAddress v) \<longleftrightarrow> \<not> offline E s v"
    if "v \<in> set ?vs" for v
    using that assms(2) unfolding voted_offline offline_def by auto
  have base: "map base_columns ?rows1 =
      map (\<lambda>v. (GetDisplayAddress v, GetDisplayName v, power_pct v, \<not> offline E s v, False)) ?vs"
    using voted by (simp add: enrichASNRows_base enrichLatency_base enrichPerformance_base enrichLivenessRows_def
        buildBaseRows_def base_columns_def zero_ValidatorHealthRow_def)
  have flags: "rows = map (\<lambda>row. row\<lparr>vh_Equivocated := vh_Equivocated row
      \<or> vh_Address row \<in> ev_ValidatorAddress ` set (eq_events (b_equiv ?b))\<rparr>) ?rows1"
    by (auto simp: rows enrichEquivocationFlags_def Let_def intro!: map_cong)
  have cols: "map vh_Address ?rows1 = map GetDisplayAddress ?vs" "map vh_Moniker ?rows1 = map GetDisplayName ?vs"
    "map vh_Online ?rows1 = map (\<lambda>v. \<not> offline E s v) ?vs" "map vh_Equivocated ?rows1 = map (\<lambda>_. False) ?vs"
    using arg_cong [OF base, of "map fst"] arg_cong [OF base, of "map (\<lambda>x. fst (snd x))"]
      arg_cong [OF base, of "map (\<lambda>x. fst (snd (snd (snd x))))"] arg_cong [OF base, of "map (\<lambda>x. snd (snd (snd (snd x))))"]
    by (simp_all add: base_columns_def comp_def)
  have eqs: "Equivocations nh = eq_events (b_equiv ?b)"
    using assms(1) by (auto simp: Build_def Let_def enrichEquivocations_def)
  have "OfflineCount nh = OfflineCount (enrichLiveness E (enrichDecentralization zero_NetworkHealth ?vs) ?b now2 s)"
    using assms(1) by (auto simp: Build_def Let_def count_frame)
  also have "\<dots> = int (length (filter (offline E s) ?vs))"
    by (simp add: enrichLiveness_count offline_def [abs_def] voted_offline)
  also have "\<dots> = int (length (filter (\<lambda>x. \<not> x) (map vh_Online ?rows1)))"
    unfolding cols(3) by (simp add: filter_map comp_def)
  also have "\<dots> = int (length (filter (\<lambda>row. \<not> vh_Online row) rows))"
    by (simp add: flags filter_map comp_def)
  finally have count: "OfflineCount nh = int (length (filter (\<lambda>row. \<not> vh_Online row) rows))" .
  have none: "\<not> vh_Equivocated row" if "row \<in> set ?rows1" for row
  proof -
    have "vh_Equivocated row \<in> set (map vh_Equivocated ?rows1)" using that by simp
    then show ?thesis unfolding cols(4) by auto
  qed
  have "vh_Equivocated row \<longleftrightarrow> vh_Address row \<in> ev_ValidatorAddress ` set (Equivocations nh)" if "row \<in> set rows" for row
    using that none unfolding flags eqs by auto
  moreover have "map vh_Address rows = map GetDisplayAddress ?vs" "map vh_Moniker rows = map GetDisplayName ?vs"
    "map vh_Online rows = map (\<lambda>v. \<not> offline E s v) ?vs"
    unfolding flags map_map using cols by (simp_all add: comp_def)
  ultimately show ?thesis using count eqs unfolding b' by blast
qed

theorem Build_consistent_witness:
  "\<exists>b' nh rows. Build fmap_state_env sample_metrics (sort_key share_key) 1000 2000 sample_state (NewBuilder 100) = (b', nh, rows)
    \<and> map vh_Online rows = [True, False] \<and> OfflineCount nh = int (length (filter (\<lambda>row. \<not> vh_Online row) rows))"
proof -
  obtain b' nh rows where run: "Build fmap_state_env sample_metrics (sort_key share_key) 1000 2000 sample_state (NewBuilder 100) = (b', nh, rows)"
    by (cases "Build fmap_state_env sample_metrics (sort_key share_key) 1000 2000 sample_state (NewBuilder 100)") blast
  have "\<forall>v \<in> set (GetTMValidators sample_state). tv_CometValidator v \<noteq> None"
    by (simp add: sample_vals sample_voter_def sample_silent_def sample_validator_def)
  from Build_consistent [OF run this] run show ?thesis
    by (simp add: sample_vals sample_offline)
qed

end
