(* ===== verification/App.thy ===== *)
theory App
  imports Display Websocket Returns Metrics Store
begin

text \<open>
  \<open>pkg/app.go\<close>: the application, its refresh handlers and its loops. The \<open>State\<close> and the pause flag are
  shared with the display by pointer: the model keeps them once, in the wrapper. A handler is a function
  on the application and the world \<open>'w\<close> of the network; \<open>None\<close> is a panic or a call that never returns.
  Each handler is one atomic action: the locks of the components are not modelled. The two requests that
  \<open>RefreshConsensus\<close> makes at the same time are performed in the order its argument says. The consensus
  store is any implementation of the four operations the interface \<open>ConsensusStorer\<close> has here.
\<close>

section \<open>State\<close>

record 's storer =
  so_round :: "int \<Rightarrow> int \<Rightarrow> RoundData \<Rightarrow> 's \<Rightarrow> ('s \<times> goerror option) option"
  so_vals :: "int \<Rightarrow> TMValidators \<Rightarrow> 's \<Rightarrow> ('s \<times> goerror option) option"
  so_events :: "TMEventData list \<Rightarrow> 's \<Rightarrow> 's option"
  so_cleanup :: "'s \<Rightarrow> 's \<times> goerror option"

datatype shutdown_step = StopSignalled | FetcherClosed | ServerShutDown | TasksAwaited | StoreClosed

record ('h, 'k, 'p, 'g, 's, 'tz) App =
  app_Config :: "'tz Config"
  app_Display :: "('h, 'k, 'p, 'g) Wrapper"
  app_Store :: 's
  app_Builder :: Builder
  app_HasServer :: bool
  app_closed :: bool
  app_shutdown :: "shutdown_step list"

text \<open>What \<open>SetState\<close> of the display reads from its surroundings: float and time formatting, the sort of the
  peers, the screen and the clock.\<close>

record view =
  vw_panel :: panel_env
  vw_sort :: "Peer list \<Rightarrow> Peer list"
  vw_screen :: screen
  vw_clock :: clock

definition app_State :: "('h, 'k, 'p, 'g, 's, 'tz) App \<Rightarrow> ('h, 'k, 'p) State" where
  "app_State a = wr_State (app_Display a)"

definition IsPaused :: "('h, 'k, 'p, 'g, 's, 'tz) App \<Rightarrow> bool" where
  "IsPaused a = wr_paused (app_Display a)"

definition update_state ::
    "(('h, 'k, 'p) State \<Rightarrow> ('h, 'k, 'p) State) \<Rightarrow> ('h, 'k, 'p, 'g, 's, 'tz) App \<Rightarrow> ('h, 'k, 'p, 'g, 's, 'tz) App" where
  "update_state f a = a\<lparr>app_Display := (app_Display a)\<lparr>wr_State := f (app_State a)\<rparr>\<rparr>"

section \<open>Construction\<close>

definition database_path :: "(goerror + string) \<Rightarrow> 'tz Config \<Rightarrow> string" where
  "database_path userHomeDir config =
     (if cfg_DatabasePath config \<noteq> '''' then cfg_DatabasePath config
      else case userHomeDir of
        Inl err \<Rightarrow> ''tmtop.db''
      | Inr homeDir \<Rightarrow> path_Join (path_Join (path_Join homeDir ''.config'') ''tmtop'') ''tmtop.db'')"

text \<open>The configuration of the database, or \<open>None\<close> when the store is the no-op.\<close>

definition store_config :: "(goerror + string) \<Rightarrow> 'tz Config \<Rightarrow> db_Config option" where
  "store_config userHomeDir config =
     (if cfg_MaxRetainBlocks config > 0 \<or> cfg_MaxRetainDays config > 0
      then Some \<lparr>DatabasePath = database_path userHomeDir config, MaxRetainDays = cfg_MaxRetainDays config,
             MaxRetainBlocks = cfg_MaxRetainBlocks config\<rparr>
      else None)"

definition NewApp ::
    "('h, 'r, 'k, 'p, 'z) state_env_scheme \<Rightarrow> 'g grid_ops \<Rightarrow> 'tz Config \<Rightarrow> instant \<Rightarrow> 's
      \<Rightarrow> ('h, 'k, 'p, 'g, 's, 'tz) App" where
  "NewApp E G config now store =
     \<lparr>app_Config = config, app_Display = NewWrapper E G config (NewState E (cfg_RPCHost config) now) False,
      app_Store = store, app_Builder = NewBuilder (cfg_HealthWindowBlocks config), app_HasServer = False,
      app_closed = False, app_shutdown = []\<rparr>"

definition data_fetcher ::
    "('w, 'v, 'm, 'kk) sdk_env \<Rightarrow> ('h, 'r, 'k, 'p, 'z) state_env_scheme \<Rightarrow> ('h, 'k, 'p, 'g, 's, 'tz) App \<Rightarrow> 'w DataFetcher" where
  "data_fetcher S E a = NewDataFetcher S E (app_Config a) (\<lambda>_. app_State a)"

text \<open>The loops \<open>Start\<close> spawns, in its order, with the interval of those that tick.\<close>

definition background_tasks :: "'tz Config \<Rightarrow> (string \<times> duration option) list" where
  "background_tasks config =
     (if cfg_WithTopologyAPI config then [(''topology'', None)] else []) @
     [(''crawler'', None),
      (''consensus'', Some (cfg_RefreshRate config)),
      (''comet-node-info'', Some (cfg_ChainInfoRefreshRate config)),
      (''upgrade'', Some (cfg_UpgradeRefreshRate config)),
      (''block-time'', Some (cfg_BlockTimeRefreshRate config)),
      (''mempool'', Some (cfg_BlockTimeRefreshRate config)),
      (''net-info'', Some (cfg_RefreshRate config)),
      (''health'', Some (cfg_HealthRefreshRate config)),
      (''subscribe'', None), (''logs'', None), (''cleanup'', None)]"

text \<open>The part of \<open>Start\<close> before the display blocks, with its first draw.\<close>

definition app_Start ::
    "('h, 'r, 'k, 'p, 'z) state_env_scheme \<Rightarrow> 'g grid_ops \<Rightarrow> screen \<Rightarrow> ('h, 'k, 'p, 'g, 's, 'tz) App
      \<Rightarrow> ('h, 'k, 'p, 'g, 's, 'tz) App option" where
  "app_Start E G sc a =
     (if cfg_AnalyticsMode (app_Config a) then Some a
      else map_option (\<lambda>d. a\<lparr>app_HasServer := cfg_WithTopologyAPI (app_Config a), app_Display := d\<rparr>)
        (wrapper_Start E G sc (app_Display a)))"

text \<open>Errors and the timeout on the way are only logged.\<close>

definition app_Stop :: "('h, 'k, 'p, 'g, 's, 'tz) App \<Rightarrow> ('h, 'k, 'p, 'g, 's, 'tz) App" where
  "app_Stop a =
     a\<lparr>app_closed := True,
       app_shutdown := app_shutdown a @ (if app_closed a then [] else [StopSignalled]) @ [FetcherClosed] @
         (if app_HasServer a then [ServerShutDown] else []) @ [TasksAwaited, StoreClosed]\<rparr>"

section \<open>Handlers\<close>

definition show_state ::
    "('h, 'r, 'k, 'p, 'z) state_env_scheme \<Rightarrow> view \<Rightarrow> ('h, 'k, 'p, 'g, 's, 'tz) App \<Rightarrow> ('h, 'k, 'p, 'g, 's, 'tz) App option" where
  "show_state E V a =
     map_option (\<lambda>d. a\<lparr>app_Display := d\<rparr>)
       (SetState (vw_panel V) E (vw_sort V) (vw_screen V) (vw_clock V) (app_State a) (app_Display a))"

text \<open>The two requests of \<open>RefreshConsensus\<close>.\<close>

definition fetch_both ::
    "bool \<Rightarrow> ('w, 'z) comet_env_scheme \<Rightarrow> 'w DataFetcher \<Rightarrow> 'w
      \<Rightarrow> (((goerror + RoundState) \<times> (goerror + TMValidators)) \<times> 'w) option" where
  "fetch_both cons_first S f w =
     (if cons_first
      then Option.bind (fetch_GetConsensusState S f w) (\<lambda>(cons, w).
             Option.bind (fetch_GetValidators S f w) (\<lambda>(vals, w). Some ((cons, vals), w)))
      else Option.bind (fetch_GetValidators S f w) (\<lambda>(vals, w).
             Option.bind (fetch_GetConsensusState S f w) (\<lambda>(cons, w). Some ((cons, vals), w))))"

text \<open>Storing every round; an error is logged.\<close>

fun store_rounds :: "'s storer \<Rightarrow> (HeightAndRound \<times> RoundData) list \<Rightarrow> 's \<Rightarrow> 's option" where
  "store_rounds so [] s = Some s"
| "store_rounds so ((hr, roundData) # rest) s =
     Option.bind (so_round so (hr_Height hr) (hr_Round hr) roundData s) (\<lambda>(s, _). store_rounds so rest s)"

text \<open>What a successful \<open>RefreshConsensus\<close> does with the round state: height, proposer, store.\<close>

definition consensus_seen ::
    "('h, 'r, 'k, 'p, 'z) state_env_scheme \<Rightarrow> 's storer \<Rightarrow> RoundState \<Rightarrow> TMValidators
      \<Rightarrow> ('h, 'k, 'p, 'g, 's, 'tz) App \<Rightarrow> ('h, 'k, 'p, 'g, 's, 'tz) App option" where
  "consensus_seen E so consensus vals a =
     (let a = update_state (SetConsensusHeight (rst_Height consensus) (rst_Round consensus) (rst_Step consensus)
            (rst_StartTime consensus)) a;
          a = update_state (\<lambda>s. s\<lparr>VotesByRound := AddProposer (round_env.truncate E) (VotesByRound s)
            (rst_Height consensus) (rst_Round consensus) (rst_Proposer consensus)\<rparr>) a
      in Option.bind (so_vals so (rst_Height consensus) vals (app_Store a)) (\<lambda>(st, _).
         map_option (\<lambda>st. a\<lparr>app_Store := st\<rparr>)
           (store_rounds so (Iter (round_env.truncate E) (VotesByRound (app_State a))) st)))"

definition RefreshConsensus ::
    "('w, 'v, 'm, 'kk) sdk_env \<Rightarrow> ('h, 'r, 'k, 'p, 'z) state_env_scheme \<Rightarrow> 's storer \<Rightarrow> view \<Rightarrow> bool
      \<Rightarrow> ('h, 'k, 'p, 'g, 's, 'tz) App \<Rightarrow> 'w \<Rightarrow> (('h, 'k, 'p, 'g, 's, 'tz) App \<times> 'w) option" where
  "RefreshConsensus S E so V cons_first a w =
     (if IsPaused a then Some (a, w)
      else Option.bind (fetch_both cons_first S (data_fetcher S E a) w) (\<lambda>((cons, vals), w).
        map_option (\<lambda>a. (a, w))
          (case cons of
             Inl err \<Rightarrow> show_state E V (update_state (SetConsensusStateError (Some err)) a)
           | Inr consensus \<Rightarrow>
               (case vals of
                  Inl err \<Rightarrow> show_state E V (update_state (SetConsensusStateError (Some err)) a)
                | Inr vals \<Rightarrow>
                    (let a = update_state (SetTMValidators vals) a;
                         a = update_state (SetConsensusStateError None) a
                     in Option.bind (consensus_seen E so consensus vals a) (show_state E V))))))"

definition RefreshCometNodeInfo ::
    "('w, 'v, 'm, 'kk) sdk_env \<Rightarrow> ('h, 'r, 'k, 'p, 'z) state_env_scheme \<Rightarrow> view
      \<Rightarrow> ('h, 'k, 'p, 'g, 's, 'tz) App \<Rightarrow> 'w \<Rightarrow> (('h, 'k, 'p, 'g, 's, 'tz) App \<times> 'w) option" where
  "RefreshCometNodeInfo S E V a w =
     (if IsPaused a then Some (a, w)
      else Option.bind (fetch_GetCometNodeStatus S (data_fetcher S E a) (rpc_URL (CurrentRPC E (app_State a))) w) (\<lambda>(res, w).
        map_option (\<lambda>a. (a, w))
          (case res of
             Inl err \<Rightarrow> show_state E V (update_state (SetChainInfoError (Some err)) a)
           | Inr nodeStatus \<Rightarrow>
               show_state E V (update_state (SetChainInfoError None) (update_state (SetChainInfo (Some nodeStatus)) a)))))"

definition RefreshUpgrade ::
    "('w, 'v, 'm, 'kk) sdk_env \<Rightarrow> ('h, 'r, 'k, 'p, 'z) state_env_scheme \<Rightarrow> view
      \<Rightarrow> ('h, 'k, 'p, 'g, 's, 'tz) App \<Rightarrow> 'w \<Rightarrow> (('h, 'k, 'p, 'g, 's, 'tz) App \<times> 'w) option" where
  "RefreshUpgrade S E V a w =
     (if IsPaused a then Some (a, w)
      else if cfg_HaltHeight (app_Config a) > 0 then
        map_option (\<lambda>a. (a, w)) (show_state E V (update_state (SetUpgrade
          (Some \<lparr>up_Name = ''halt-height upgrade'', up_Height = cfg_HaltHeight (app_Config a)\<rparr>)) a))
      else Option.bind (fetch_GetUpgradePlan (data_fetcher S E a) w) (\<lambda>(res, w).
        map_option (\<lambda>a. (a, w))
          (case res of
             Inl err \<Rightarrow> show_state E V (update_state (SetUpgradePlanError (Some err)) a)
           | Inr upgrade \<Rightarrow> show_state E V (update_state (SetUpgradePlanError None) (update_state (SetUpgrade upgrade) a)))))"

definition RefreshBlockTime ::
    "('w, 'v, 'm, 'kk) sdk_env \<Rightarrow> ('h, 'r, 'k, 'p, 'z) state_env_scheme \<Rightarrow> view
      \<Rightarrow> ('h, 'k, 'p, 'g, 's, 'tz) App \<Rightarrow> 'w \<Rightarrow> (('h, 'k, 'p, 'g, 's, 'tz) App \<times> 'w) option" where
  "RefreshBlockTime S E V a w =
     (if IsPaused a then Some (a, w)
      else Option.bind (fetch_GetBlockTime S (data_fetcher S E a) w) (\<lambda>(res, w).
        case res of
          Inl err \<Rightarrow> Some (a, w)
        | Inr blockTime \<Rightarrow> map_option (\<lambda>a. (a, w)) (show_state E V (update_state (SetBlockTime blockTime) a))))"

definition RefreshMempool ::
    "('w, 'v, 'm, 'kk) sdk_env \<Rightarrow> ('h, 'r, 'k, 'p, 'z) state_env_scheme
      \<Rightarrow> ('h, 'k, 'p, 'g, 's, 'tz) App \<Rightarrow> 'w \<Rightarrow> (('h, 'k, 'p, 'g, 's, 'tz) App \<times> 'w) option" where
  "RefreshMempool S E a w =
     (if IsPaused a then Some (a, w)
      else Option.bind (fetch_GetNumUnconfirmedTxs S (data_fetcher S E a) w) (\<lambda>(res, w).
        case res of
          Inl err \<Rightarrow> Some (a, w)
        | Inr (txs, bytes) \<Rightarrow> Some (update_state (SetMempool txs bytes) a, w)))"

definition RefreshNetInfo ::
    "('w, 'v, 'm, 'kk) sdk_env \<Rightarrow> ('h, 'r, 'k, 'p, 'z) state_env_scheme \<Rightarrow> view
      \<Rightarrow> ('h, 'k, 'p, 'g, 's, 'tz) App \<Rightarrow> 'w \<Rightarrow> (('h, 'k, 'p, 'g, 's, 'tz) App \<times> 'w) option" where
  "RefreshNetInfo S E V a w =
     (if IsPaused a then Some (a, w)
      else Option.bind (fetch_GetNetInfo S (data_fetcher S E a) (rpc_URL (CurrentRPC E (app_State a))) w) (\<lambda>(res, w).
        case res of
          Inl err \<Rightarrow> Some (a, w)
        | Inr netInfo \<Rightarrow> map_option (\<lambda>a. (a, w)) (show_state E V (update_state (SetNetInfo (Some netInfo)) a))))"

definition RefreshHealthMetrics ::
    "('h, 'r, 'k, 'p, 'z) state_env_scheme \<Rightarrow> metrics_env \<Rightarrow> (ASNShare list \<Rightarrow> ASNShare list) \<Rightarrow> instant \<Rightarrow> instant \<Rightarrow> view
      \<Rightarrow> ('h, 'k, 'p, 'g, 's, 'tz) App \<Rightarrow> ('h, 'k, 'p, 'g, 's, 'tz) App option" where
  "RefreshHealthMetrics E M srt now1 now2 V a =
     (if IsPaused a then Some a
      else let (b, nh, rows) = Build E M srt now1 now2 (app_State a) (app_Builder a);
               a = a\<lparr>app_Builder := b\<rparr>;
               a = update_state (SetNetworkHealth (Some nh)) a;
               a = update_state (SetValidatorHealth (Some rows)) a
           in show_state E V a)"

text \<open>One turn of the loop of \<open>SubscribeCometBFT\<close> on the events the mailbox held, each with the time at which
  \<open>ObserveEvents\<close> reads the clock.\<close>

definition on_events ::
    "('h, 'r, 'k, 'p, 'z) state_env_scheme \<Rightarrow> (bytes \<Rightarrow> string) \<Rightarrow> 's storer \<Rightarrow> view \<Rightarrow> (TMEventData \<times> instant) list
      \<Rightarrow> ('h, 'k, 'p, 'g, 's, 'tz) App \<Rightarrow> ('h, 'k, 'p, 'g, 's, 'tz) App option" where
  "on_events E hash_str so V events a =
     Option.bind (AddCometBFTEvents E (map fst events) (app_State a)) (\<lambda>s.
       let a = update_state (\<lambda>_. s) a;
           a = a\<lparr>app_Builder := ObserveEvents hash_str events (app_Builder a)\<rparr>
       in Option.bind (if events \<noteq> [] then so_events so (map fst events) (app_Store a) else Some (app_Store a)) (\<lambda>st.
            show_state E V (a\<lparr>app_Store := st\<rparr>)))"

definition on_logs :: "string list \<Rightarrow> ('h, 'k, 'p, 'g, 's, 'tz) App \<Rightarrow> ('h, 'k, 'p, 'g, 's, 'tz) App" where
  "on_logs ls a = a\<lparr>app_Display := foldl (\<lambda>d l. DebugText l d) (app_Display a) ls\<rparr>"

text \<open>A turn of \<open>databaseCleanupRoutine\<close>; an error is logged.\<close>

definition on_cleanup :: "'s storer \<Rightarrow> ('h, 'k, 'p, 'g, 's, 'tz) App \<Rightarrow> ('h, 'k, 'p, 'g, 's, 'tz) App" where
  "on_cleanup so a = a\<lparr>app_Store := fst (so_cleanup so (app_Store a))\<rparr>"

section \<open>Runs\<close>

text \<open>What may happen to the application: the ticks of its loops, what its mailboxes deliver, what the user does, and the
  two writes of the crawler to the shared state.\<close>

datatype action =
    ConsensusTick view bool
  | NodeInfoTick view
  | UpgradeTick view
  | BlockTimeTick view
  | MempoolTick
  | NetInfoTick view
  | HealthTick view metrics_env "ASNShare list \<Rightarrow> ASNShare list" instant instant
  | EventsArrived view "(TMEventData \<times> instant) list"
  | LogsArrived "string list"
  | CleanupTick
  | KeyPressed screen key_event
  | RPCSelected screen int
  | RPCFound RPC
  | PeersFound string "Peer list"

definition run_action ::
    "('w, 'v, 'm, 'kk) sdk_env \<Rightarrow> ('h, 'r, 'k, 'p, 'z) state_env_scheme \<Rightarrow> 'g grid_ops \<Rightarrow> (bytes \<Rightarrow> string) \<Rightarrow> 's storer
      \<Rightarrow> action \<Rightarrow> ('h, 'k, 'p, 'g, 's, 'tz) App \<times> 'w \<Rightarrow> (('h, 'k, 'p, 'g, 's, 'tz) App \<times> 'w) option" where
  "run_action S E G hash_str so act = (\<lambda>(a, w).
     case act of
       ConsensusTick V first \<Rightarrow> RefreshConsensus S E so V first a w
     | NodeInfoTick V \<Rightarrow> RefreshCometNodeInfo S E V a w
     | UpgradeTick V \<Rightarrow> RefreshUpgrade S E V a w
     | BlockTimeTick V \<Rightarrow> RefreshBlockTime S E V a w
     | MempoolTick \<Rightarrow> RefreshMempool S E a w
     | NetInfoTick V \<Rightarrow> RefreshNetInfo S E V a w
     | HealthTick V M srt now1 now2 \<Rightarrow> map_option (\<lambda>a. (a, w)) (RefreshHealthMetrics E M srt now1 now2 V a)
     | EventsArrived V events \<Rightarrow> map_option (\<lambda>a. (a, w)) (on_events E hash_str so V events a)
     | LogsArrived ls \<Rightarrow> Some (on_logs ls a, w)
     | CleanupTick \<Rightarrow> Some (on_cleanup so a, w)
     | KeyPressed sc event \<Rightarrow> map_option (\<lambda>d. (a\<lparr>app_Display := d\<rparr>, w)) (handle_key E G sc event (app_Display a))
     | RPCSelected sc row \<Rightarrow> Some (a\<lparr>app_Display := select_rpc E G sc row (app_Display a)\<rparr>, w)
     | RPCFound rpc \<Rightarrow> Some (update_state (AddKnownRPC E rpc) a, w)
     | PeersFound url peers \<Rightarrow> Some (update_state (AddRPCPeers E url peers) a, w))"

text \<open>Actions one after the other, until the user quits.\<close>

fun run_app ::
    "('w, 'v, 'm, 'kk) sdk_env \<Rightarrow> ('h, 'r, 'k, 'p, 'z) state_env_scheme \<Rightarrow> 'g grid_ops \<Rightarrow> (bytes \<Rightarrow> string) \<Rightarrow> 's storer
      \<Rightarrow> action list \<Rightarrow> ('h, 'k, 'p, 'g, 's, 'tz) App \<times> 'w \<Rightarrow> (('h, 'k, 'p, 'g, 's, 'tz) App \<times> 'w) option" where
  "run_app S E G hash_str so [] (a, w) = Some (if wr_stopped (app_Display a) then app_Stop a else a, w)"
| "run_app S E G hash_str so (act # acts) (a, w) =
     (if wr_stopped (app_Display a) then Some (app_Stop a, w)
      else Option.bind (run_action S E G hash_str so act (a, w)) (run_app S E G hash_str so acts))"

section \<open>Specification\<close>

text \<open>What the application needs of a store beyond the interface: on validators that carry their CometBFT
  data and events without a nil vote no operation panics.\<close>

locale app_storer = consensus_storer ok content "so_round so" "so_vals so" "so_events so" "so_cleanup so"
  for ok :: "'s \<Rightarrow> bool" and content :: "'s \<Rightarrow> 'c" and so :: "'s storer" +
  assumes round_returns: "so_round so h r data s \<noteq> None"
    and vals_returns: "well_formed_validators vals \<Longrightarrow> so_vals so h vals s \<noteq> None"
    and events_return: "EventDataVote None \<notin> set es \<Longrightarrow> so_events so es s \<noteq> None"
begin

lemma store_rounds_ok: "ok s \<Longrightarrow> \<exists>s'. store_rounds so rs s = Some s' \<and> ok s'"
proof (induction rs arbitrary: s)
  case (Cons x rs)
  obtain hr data where x: "x = (hr, data)" by (cases x)
  obtain s1 err where s1: "so_round so (hr_Height hr) (hr_Round hr) data s = Some (s1, err)"
    using round_returns [of "hr_Height hr" "hr_Round hr" data s] by auto
  from Cons.IH [OF round_ok [OF Cons.prems s1]] show ?case by (simp add: x s1)
qed simp

lemma so_vals_ok:
  assumes "ok s" "well_formed_validators vals"
  shows "\<exists>s' err. so_vals so h vals s = Some (s', err) \<and> ok s'"
proof -
  obtain s' err where s': "so_vals so h vals s = Some (s', err)" using vals_returns [OF assms(2), of h s] by auto
  with vals_ok [OF assms(1) s'] show ?thesis by blast
qed

lemma so_events_ok:
  assumes "ok s" "EventDataVote None \<notin> set es"
  shows "\<exists>s'. so_events so es s = Some s' \<and> ok s'"
proof -
  obtain s' where s': "so_events so es s = Some s'" using events_return [OF assms(2), of s] by auto
  with events_ok [OF assms(1) s'] show ?thesis by blast
qed

end

text \<open>The two implementations of the program: the no-op, and SQLite, which counts its transactions so that
  each has its own errors, clock and row identifiers.\<close>

definition nop_storer :: "unit storer" where
  "nop_storer = \<lparr>so_round = Nop_StoreRoundData, so_vals = Nop_StoreValidators, so_events = Nop_StoreCometBFTEvents,
     so_cleanup = Nop_CleanupOldData\<rparr>"

definition sqlite_storer ::
    "(nat \<Rightarrow> ('h, 'r) store_env) \<Rightarrow> (nat \<Rightarrow> goerror option) \<Rightarrow> (nat \<Rightarrow> goerror option) \<Rightarrow> (address set \<Rightarrow> address)
      \<Rightarrow> (RoundData \<Rightarrow> slot_vote list) \<Rightarrow> db_Config \<Rightarrow> (nat \<Rightarrow> int \<Rightarrow> instant) \<Rightarrow> (nat \<times> database) storer" where
  "sqlite_storer Z begin_err commit_err pick order config cutoffTime =
     \<lparr>so_round = (\<lambda>h r data (n, d). map_option (\<lambda>(d, err). ((Suc n, d), err))
         (StoreRoundData ((Z n)\<lparr>se_fk := True\<rparr>) (begin_err n) (commit_err n) pick order h r data d)),
      so_vals = (\<lambda>h vs (n, d). map_option (\<lambda>(d, err). ((Suc n, d), err))
         (StoreValidators ((Z n)\<lparr>se_fk := True\<rparr>) (begin_err n) (commit_err n) h vs d)),
      so_events = (\<lambda>es (n, d). map_option (Pair (Suc n)) (StoreCometBFTEvents ((Z n)\<lparr>se_fk := True\<rparr>) 0 es d)),
      so_cleanup = (\<lambda>(n, d). let (d, err) = CleanupOldData True config (cutoffTime n) d in ((Suc n, d), err))\<rparr>"

text \<open>What the application needs of the network: nodes that answer as CometBFT does, and URLs that parse, of the
  configured hosts and of the RPCs of the shared state.\<close>

definition network_ok ::
    "('w, 'v, 'm, 'kk) sdk_env \<Rightarrow> ('h, 'r, 'k, 'p, 'z) state_env_scheme \<Rightarrow> ('h, 'k, 'p, 'g, 's, 'tz) App \<Rightarrow> bool" where
  "network_ok S E a \<longleftrightarrow> node_ok S \<and> hosts_parse S (app_Config a) \<and> urls_parse S E (app_State a)"

definition durations_ok :: "duration list \<Rightarrow> bool" where
  "durations_ok ds \<longleftrightarrow> (\<forall>d \<in> set ds. 0 \<le> d \<and> d < 2 ^ 63)"

definition builder_ok :: "instant \<Rightarrow> Builder \<Rightarrow> bool" where
  "builder_ok now b \<longleftrightarrow> durations_ok (blockIntervals b) \<and> lastHeightChangeAt b \<le> now"

definition state_ok :: "('h, 'k, 'p) State \<Rightarrow> bool" where
  "state_ok s \<longleftrightarrow> well_formed_validators (GetTMValidators s)
     \<and> (\<forall>nh. GetNetworkHealth s = Some nh \<longrightarrow> durations_ok (BlockIntervals nh))"

definition app_ok :: "('s \<Rightarrow> bool) \<Rightarrow> instant \<Rightarrow> ('h, 'k, 'p, 'g, 's, 'tz) App \<Rightarrow> bool" where
  "app_ok ok now a \<longleftrightarrow> wrapper_ok (app_Display a) \<and> state_ok (app_State a) \<and> ok (app_Store a) \<and> builder_ok now (app_Builder a)"

text \<open>The clock does not run backwards between health ticks, no event is a nil vote, and the crawler finds no URL that
  does not parse.\<close>

fun action_ok :: "('w, 'y) http_env_scheme \<Rightarrow> instant \<Rightarrow> action \<Rightarrow> bool" where
  "action_ok H now (HealthTick V M srt now1 now2) \<longleftrightarrow> now \<le> now1"
| "action_ok H now (EventsArrived V events) \<longleftrightarrow> EventDataVote None \<notin> set (map fst events)"
| "action_ok H now (RPCFound rpc) \<longleftrightarrow> he_parse H (rpc_URL rpc) \<noteq> None"
| "action_ok H now act \<longleftrightarrow> True"

fun clock_after :: "instant \<Rightarrow> action \<Rightarrow> instant" where
  "clock_after now (HealthTick V M srt now1 now2) = now1"
| "clock_after now act = now"

fun actions_ok :: "('w, 'y) http_env_scheme \<Rightarrow> instant \<Rightarrow> action list \<Rightarrow> bool" where
  "actions_ok H now [] \<longleftrightarrow> True"
| "actions_ok H now (act # acts) \<longleftrightarrow> action_ok H now act \<and> actions_ok H (clock_after now act) acts"

section \<open>Lemmas\<close>

interpretation nop_app: app_storer "\<lambda>_. True" id nop_storer
  using nop_store.consensus_storer_axioms
  by (auto simp: nop_storer_def Nop_StoreRoundData_def Nop_StoreValidators_def Nop_StoreCometBFTEvents_def
      intro!: app_storer.intro app_storer_axioms.intro)

lemma update_state_frame [simp]:
  "app_State (update_state f a) = f (app_State a)" "app_Store (update_state f a) = app_Store a"
  "app_Builder (update_state f a) = app_Builder a" "app_Config (update_state f a) = app_Config a"
  "wrapper_ok (app_Display (update_state f a)) = wrapper_ok (app_Display a)"
  by (simp_all add: update_state_def app_State_def wrapper_ok_def)

lemma show_state_ok:
  assumes "app_ok ok now a"
  shows "\<exists>a'. show_state E V a = Some a' \<and> app_ok ok now a' \<and> app_Config a' = app_Config a"
proof -
  have "\<exists>w'. SetState (vw_panel V) E (vw_sort V) (vw_screen V) (vw_clock V) (app_State a) (app_Display a) = Some w'
      \<and> wrapper_ok w' \<and> wr_State w' = app_State a"
    using assms SetState_kept [of "app_Display a" "app_State a" "vw_panel V" E "vw_sort V" "vw_screen V" "vw_clock V"]
    by (auto simp: app_ok_def state_ok_def durations_ok_def)
  then obtain w' where w': "SetState (vw_panel V) E (vw_sort V) (vw_screen V) (vw_clock V) (app_State a) (app_Display a) = Some w'"
    "wrapper_ok w'" "wr_State w' = app_State a" by (elim exE conjE)
  show ?thesis using assms w' by (simp add: show_state_def app_ok_def app_State_def)
qed

text \<open>A state setter followed by a redraw.\<close>

lemma set_and_show_ok:
  assumes "app_ok ok now a" "state_ok (f (app_State a))"
  shows "\<exists>a'. show_state E V (update_state f a) = Some a' \<and> app_ok ok now a' \<and> app_Config a' = app_Config a"
proof -
  have "app_ok ok now (update_state f a)" using assms by (simp add: app_ok_def)
  from show_state_ok [OF this, of E V] show ?thesis by simp
qed

lemma state_ok_setters [simp]:
  "state_ok (SetConsensusStateError e s) = state_ok s" "state_ok (SetChainInfoError e s) = state_ok s"
  "state_ok (SetChainInfo i s) = state_ok s" "state_ok (SetUpgrade u s) = state_ok s"
  "state_ok (SetUpgradePlanError e s) = state_ok s" "state_ok (SetBlockTime t s) = state_ok s"
  "state_ok (SetMempool x y s) = state_ok s" "state_ok (SetNetInfo n s) = state_ok s"
  "state_ok (SetConsensusHeight h r st t s) = state_ok s" "state_ok (SetCurrentRPCURL url s) = state_ok s"
  "state_ok (SetValidatorHealth rows s) = state_ok s" "state_ok (s\<lparr>VotesByRound := v\<rparr>) = state_ok s"
  by (simp_all add: state_ok_def GetTMValidators_def GetNetworkHealth_def SetConsensusStateError_def SetChainInfoError_def
      SetChainInfo_def SetUpgrade_def SetUpgradePlanError_def SetBlockTime_def SetMempool_def SetNetInfo_def
      SetConsensusHeight_def SetCurrentRPCURL_def SetValidatorHealth_def)


lemma WithTx_returns: "(\<And>d. f d \<noteq> None) \<Longrightarrow> WithTx b c f d \<noteq> None"
  using not_None_eq [of "f d"] by (fastforce simp: WithTx_def split: option.splits)

lemma store_validators_returns: "well_formed_validators vs \<Longrightarrow> store_validators Z h n vs d \<noteq> None"
  by (induction vs arbitrary: n d) (auto simp: well_formed_validators_def split: option.splits sum.splits)

lemma StoreRoundData_returns: "StoreRoundData Z b c pick order h r data d \<noteq> None"
  unfolding StoreRoundData_def by (rule WithTx_returns) (simp split: sum.split)

lemma StoreValidators_returns: "well_formed_validators vs \<Longrightarrow> StoreValidators Z b c h vs d \<noteq> None"
  unfolding StoreValidators_def
  by (rule WithTx_returns) (use store_validators_returns in \<open>auto split: sum.split\<close>)

lemma StoreCometBFTEvents_returns: "EventDataVote None \<notin> set es \<Longrightarrow> StoreCometBFTEvents Z n es d \<noteq> None"
  by (induction es arbitrary: n d) (auto simp: store_event_def Let_def split: TMEventData.splits option.splits)

lemma sqlite_storer_ops:
  "so_round (sqlite_storer Z b c pick order config ct) h r data (n, d) = map_option (\<lambda>(d, err). ((Suc n, d), err))
     (StoreRoundData ((Z n)\<lparr>se_fk := True\<rparr>) (b n) (c n) pick order h r data d)"
  "so_vals (sqlite_storer Z b c pick order config ct) h vs (n, d) = map_option (\<lambda>(d, err). ((Suc n, d), err))
     (StoreValidators ((Z n)\<lparr>se_fk := True\<rparr>) (b n) (c n) h vs d)"
  "so_events (sqlite_storer Z b c pick order config ct) es (n, d) =
     map_option (Pair (Suc n)) (StoreCometBFTEvents ((Z n)\<lparr>se_fk := True\<rparr>) 0 es d)"
  "so_cleanup (sqlite_storer Z b c pick order config ct) (n, d) =
     (let (d, err) = CleanupOldData True config (ct n) d in ((Suc n, d), err))"
  by (simp_all add: sqlite_storer_def)

lemma map_option_tick:
  "map_option (\<lambda>(d, err). ((Suc n, d), err)) m = Some ((n', d'), err) \<longleftrightarrow> n' = Suc n \<and> m = Some (d', err)"
  by auto

interpretation sqlite_app: app_storer "\<lambda>s. schema_ok (snd s)" snd "sqlite_storer Z b c pick order config ct"
  for Z b c pick order config ct
proof
  fix s s' :: "nat \<times> database" and h r data err e vs es
  let ?so = "sqlite_storer Z b c pick order config ct"
  obtain n d where s: "s = (n, d)" by (cases s)
  obtain n' d' where s': "s' = (n', d')" by (cases s')
  show "schema_ok (snd s')" if "schema_ok (snd s)" "so_round ?so h r data s = Some (s', err)"
    using that sqlite_store.round_ok [of d "Z n" "b n" "c n" pick order h r data d' err]
    by (simp add: s s' sqlite_storer_ops map_option_tick)
  show "snd s' = snd s" if "so_round ?so h r data s = Some (s', Some e)"
    using that sqlite_store.round_atomic [of "Z n" "b n" "c n" pick order h r data d d' e]
    by (simp add: s s' sqlite_storer_ops map_option_tick)
  show "schema_ok (snd s')" if "schema_ok (snd s)" "so_vals ?so h vs s = Some (s', err)"
    using that sqlite_store.vals_ok [of d "Z n" "b n" "c n" h vs d' err]
    by (simp add: s s' sqlite_storer_ops map_option_tick)
  show "snd s' = snd s" if "so_vals ?so h vs s = Some (s', Some e)"
    using that sqlite_store.vals_atomic [of "Z n" "b n" "c n" h vs d d' e]
    by (simp add: s s' sqlite_storer_ops map_option_tick)
  show "schema_ok (snd s')" if "schema_ok (snd s)" "so_events ?so es s = Some s'"
  proof -
    have "StoreCometBFTEvents ((Z n)\<lparr>se_fk := True\<rparr>) 0 es d = Some d'" using that(2) by (auto simp: s s' sqlite_storer_ops)
    from sqlite_store.events_ok [OF _ this] that(1) show ?thesis by (simp add: s s')
  qed
  show "schema_ok (snd (fst (so_cleanup ?so s))) \<and> snd (so_cleanup ?so s) = None" if "schema_ok (snd s)"
    using sqlite_store.cleanup_ok [of d config "ct n"] that by (simp add: s sqlite_storer_ops case_prod_unfold Let_def)
  show "so_round ?so h r data s \<noteq> None"
    using StoreRoundData_returns by (simp add: s sqlite_storer_ops)
  show "so_vals ?so h vs s \<noteq> None" if "well_formed_validators vs"
    using StoreValidators_returns [OF that] by (simp add: s sqlite_storer_ops)
  show "so_events ?so es s \<noteq> None" if "EventDataVote None \<notin> set es"
    using StoreCometBFTEvents_returns [OF that] by (simp add: s sqlite_storer_ops)
qed

text \<open>The metrics keep their intervals within \<open>int64\<close>.\<close>

lemma durations_ok_last_n: "durations_ok xs \<Longrightarrow> durations_ok (last_n n xs)"
  by (auto simp: durations_ok_def last_n_def dest: in_set_dropD)

lemma observe_builder_ok:
  assumes "builder_ok now b" "now \<le> now1"
  shows "builder_ok now1 (observe h r now1 b)"
proof -
  have "0 \<le> time_sub now1 (lastHeightChangeAt b)" "time_sub now1 (lastHeightChangeAt b) < 2 ^ 63"
    using assms by (auto simp: builder_ok_def time_sub_def)
  then have "durations_ok (appendRing (blockIntervals b) (time_sub now1 (lastHeightChangeAt b)))"
    using assms(1) unfolding appendRing_def by (intro durations_ok_last_n) (auto simp: builder_ok_def durations_ok_def)
  then show ?thesis using assms by (auto simp: observe_def builder_ok_def Let_def)
qed

lemma observe_event_frame:
  "blockIntervals (observeForStepTiming (observeForEquivocation f b e t) e t) = blockIntervals b"
  "lastHeightChangeAt (observeForStepTiming (observeForEquivocation f b e t) e t) = lastHeightChangeAt b"
  by (auto simp: observeForStepTiming_def observeForEquivocation_def split: TMEventData.split option.split)

lemma ObserveEvents_builder_ok: "builder_ok now (ObserveEvents f es b) = builder_ok now b"
proof (induction es arbitrary: b)
  case (Cons e es)
  obtain x t where "e = (x, t)" by (cases e)
  then have "ObserveEvents f (e # es) b = ObserveEvents f es (observeForStepTiming (observeForEquivocation f b x t) x t)"
    by (simp add: ObserveEvents_def)
  then show ?case by (simp add: Cons.IH) (simp add: builder_ok_def observe_event_frame)
qed (simp add: ObserveEvents_def)

lemma enrich_intervals:
  "BlockIntervals (enrichDecentralization nh vs) = BlockIntervals nh"
  "BlockIntervals (enrichLiveness E nh b now2 s) = BlockIntervals nh"
  "BlockIntervals (enrichBlockTime nh b) = (if blockIntervals b = [] then BlockIntervals nh else blockIntervals b)"
  "BlockIntervals (enrichStepTiming nh b) = BlockIntervals nh" "BlockIntervals (enrichMempool nh s) = BlockIntervals nh"
  "BlockIntervals (enrichASN E M srt nh s) = BlockIntervals nh" "BlockIntervals (enrichEquivocations nh b) = BlockIntervals nh"
  by (simp_all add: enrichDecentralization_def enrichLiveness_def setHaltFields_def enrichBlockTime_def enrichStepTiming_def
      enrichMempool_def enrichASN_def enrichEquivocations_def Let_def split: prod.split)

lemma Build_intervals:
  assumes "Build E M srt now1 now2 s b = (b', nh, rows)"
  shows "b' = observe (st_Height s) (st_Round s) now1 b" "BlockIntervals nh = blockIntervals b'"
  using assms by (auto simp: Build_def Let_def enrich_intervals zero_NetworkHealth_def)

text \<open>Every handler keeps the invariant.\<close>

lemma network_okD:
  fixes S :: "('w, 'v, 'm, 'kk) sdk_env" and E :: "('h, 'r, 'k, 'p, 'z) state_env_scheme" and a :: "('h, 'k, 'p, 'g, 's, 'tz) App"
  assumes "network_ok S E a"
  shows "\<exists>r. fetch_GetConsensusState S (data_fetcher S E a) w = Some r"
    "\<exists>res w'. fetch_GetValidators S (data_fetcher S E a) w = Some (res, w') \<and> (\<forall>vals. res = Inr vals \<longrightarrow> well_formed_validators vals)"
    "\<exists>r. fetch_GetCometNodeStatus S (data_fetcher S E a) (rpc_URL (CurrentRPC E (app_State a))) w = Some r"
    "\<exists>r. fetch_GetUpgradePlan (data_fetcher S E a) w = Some r"
    "\<exists>r. fetch_GetBlockTime S (data_fetcher S E a) w = Some r"
    "\<exists>r. fetch_GetNumUnconfirmedTxs S (data_fetcher S E a) w = Some r"
    "\<exists>r. fetch_GetNetInfo S (data_fetcher S E a) (rpc_URL (CurrentRPC E (app_State a))) w = Some r"
proof -
  have n: "node_ok S" "hosts_parse S (app_Config a)" "urls_parse S E (app_State a)" using assms by (simp_all add: network_ok_def)
  note returning = fetcher_returns [OF n, folded data_fetcher_def] and current = urls_parse_current [OF n(3)]
  show "\<exists>r. fetch_GetConsensusState S (data_fetcher S E a) w = Some r" "\<exists>r. fetch_GetUpgradePlan (data_fetcher S E a) w = Some r"
    "\<exists>r. fetch_GetBlockTime S (data_fetcher S E a) w = Some r" "\<exists>r. fetch_GetNumUnconfirmedTxs S (data_fetcher S E a) w = Some r"
    using returning(1,4-6) [of w] by (simp_all add: returns_def)
  show "\<exists>res w'. fetch_GetValidators S (data_fetcher S E a) w = Some (res, w') \<and> (\<forall>vals. res = Inr vals \<longrightarrow> well_formed_validators vals)"
    by (rule returning(2))
  show "\<exists>r. fetch_GetCometNodeStatus S (data_fetcher S E a) (rpc_URL (CurrentRPC E (app_State a))) w = Some r"
    "\<exists>r. fetch_GetNetInfo S (data_fetcher S E a) (rpc_URL (CurrentRPC E (app_State a))) w = Some r"
    using returning(3,7) [OF current, of w] by (simp_all add: returns_def)
qed

lemma fetch_both_ok:
  fixes S :: "('w, 'v, 'm, 'kk) sdk_env" and E :: "('h, 'r, 'k, 'p, 'z) state_env_scheme" and a :: "('h, 'k, 'p, 'g, 's, 'tz) App"
  assumes "network_ok S E a"
  shows "\<exists>cons vals w'. fetch_both first S (data_fetcher S E a) w = Some ((cons, vals), w')
    \<and> (\<forall>vs. vals = Inr vs \<longrightarrow> well_formed_validators vs)"
proof (cases first)
  case True
  obtain cons w1 where 1: "fetch_GetConsensusState S (data_fetcher S E a) w = Some (cons, w1)"
    using network_okD(1) [OF assms, of w] by auto
  obtain vals w2 where 2: "fetch_GetValidators S (data_fetcher S E a) w1 = Some (vals, w2)"
    "\<forall>vs. vals = Inr vs \<longrightarrow> well_formed_validators vs"
    using network_okD(2) [OF assms, of w1] by auto
  show ?thesis using True 1 2 by (simp add: fetch_both_def)
next
  case False
  obtain vals w1 where 1: "fetch_GetValidators S (data_fetcher S E a) w = Some (vals, w1)"
    "\<forall>vs. vals = Inr vs \<longrightarrow> well_formed_validators vs"
    using network_okD(2) [OF assms, of w] by auto
  obtain cons w2 where 2: "fetch_GetConsensusState S (data_fetcher S E a) w1 = Some (cons, w2)"
    using network_okD(1) [OF assms, of w1] by auto
  show ?thesis using False 1 2 by (simp add: fetch_both_def)
qed

definition keeps :: "('s \<Rightarrow> bool) \<Rightarrow> instant \<Rightarrow> ('h, 'k, 'p, 'g, 's, 'tz) App \<Rightarrow> ('h, 'k, 'p, 'g, 's, 'tz) App \<Rightarrow> bool" where
  "keeps ok now a a' \<longleftrightarrow> app_ok ok now a' \<and> app_Config a' = app_Config a"

lemma keeps_refl: "app_ok ok now a \<Longrightarrow> keeps ok now a a"
  by (simp add: keeps_def)

lemma set_and_show_keeps:
  assumes "app_ok ok now a" "state_ok (f (app_State a))"
  shows "\<exists>a'. show_state E V (update_state f a) = Some a' \<and> keeps ok now a a'"
  using set_and_show_ok [of ok now a f E V] assms by (simp add: keeps_def)

lemma update_state_twice: "update_state g (update_state f a) = update_state (\<lambda>s. g (f s)) a"
  by (simp add: update_state_def app_State_def)

lemma RefreshCometNodeInfo_keeps:
  assumes "app_ok ok now a" "network_ok S E a"
  shows "\<exists>a' w'. RefreshCometNodeInfo S E V a w = Some (a', w') \<and> keeps ok now a a'"
proof (cases "IsPaused a")
  case False
  obtain res w' where r: "fetch_GetCometNodeStatus S (data_fetcher S E a) (rpc_URL (CurrentRPC E (app_State a))) w = Some (res, w')"
    using network_okD(3) [OF assms(2), of w] by auto
  have s: "state_ok (app_State a)" using assms(1) by (simp add: app_ok_def)
  show ?thesis
  proof (cases res)
    case (Inl err)
    with set_and_show_keeps [OF assms(1), of "SetChainInfoError (Some err)" E V] s False r show ?thesis
      by (auto simp: RefreshCometNodeInfo_def)
  next
    case (Inr i)
    with set_and_show_keeps [OF assms(1), of "\<lambda>s. SetChainInfoError None (SetChainInfo (Some i) s)" E V] s False r show ?thesis
      by (auto simp: RefreshCometNodeInfo_def update_state_twice)
  qed
qed (use assms(1) in \<open>simp add: RefreshCometNodeInfo_def keeps_refl\<close>)

lemma RefreshUpgrade_keeps:
  assumes "app_ok ok now a" "network_ok S E a"
  shows "\<exists>a' w'. RefreshUpgrade S E V a w = Some (a', w') \<and> keeps ok now a a'"
proof (cases "IsPaused a")
  case False
  obtain res w' where r: "fetch_GetUpgradePlan (data_fetcher S E a) w = Some (res, w')"
    using network_okD(4) [OF assms(2), of w] by auto
  have s: "state_ok (app_State a)" using assms(1) by (simp add: app_ok_def)
  show ?thesis
  proof (cases "cfg_HaltHeight (app_Config a) > 0")
    case True
    with set_and_show_keeps [OF assms(1), of "SetUpgrade (Some \<lparr>up_Name = ''halt-height upgrade'',
      up_Height = cfg_HaltHeight (app_Config a)\<rparr>)" E V] s False show ?thesis
      by (auto simp: RefreshUpgrade_def)
  next
    case halt: False
    show ?thesis
    proof (cases res)
      case (Inl err)
      with set_and_show_keeps [OF assms(1), of "SetUpgradePlanError (Some err)" E V] s False halt r show ?thesis
        by (auto simp: RefreshUpgrade_def)
    next
      case (Inr u)
      with set_and_show_keeps [OF assms(1), of "\<lambda>s. SetUpgradePlanError None (SetUpgrade u s)" E V] s False halt r show ?thesis
        by (auto simp: RefreshUpgrade_def update_state_twice)
    qed
  qed
qed (use assms(1) in \<open>simp add: RefreshUpgrade_def keeps_refl\<close>)

lemma RefreshBlockTime_keeps:
  assumes "app_ok ok now a" "network_ok S E a"
  shows "\<exists>a' w'. RefreshBlockTime S E V a w = Some (a', w') \<and> keeps ok now a a'"
proof (cases "IsPaused a")
  case False
  obtain res w' where r: "fetch_GetBlockTime S (data_fetcher S E a) w = Some (res, w')"
    using network_okD(5) [OF assms(2), of w] by auto
  have s: "state_ok (app_State a)" using assms(1) by (simp add: app_ok_def)
  show ?thesis
  proof (cases res)
    case (Inr t)
    with set_and_show_keeps [OF assms(1), of "SetBlockTime t" E V] s False r show ?thesis
      by (auto simp: RefreshBlockTime_def)
  qed (use False r assms(1) in \<open>simp add: RefreshBlockTime_def keeps_refl\<close>)
qed (use assms(1) in \<open>simp add: RefreshBlockTime_def keeps_refl\<close>)

lemma RefreshMempool_keeps:
  assumes "app_ok ok now a" "network_ok S E a"
  shows "\<exists>a' w'. RefreshMempool S E a w = Some (a', w') \<and> keeps ok now a a'"
proof (cases "IsPaused a")
  case False
  obtain res w' where r: "fetch_GetNumUnconfirmedTxs S (data_fetcher S E a) w = Some (res, w')"
    using network_okD(6) [OF assms(2), of w] by auto
  show ?thesis using False r assms(1)
    by (cases res) (auto simp: RefreshMempool_def keeps_def app_ok_def split: prod.split)
qed (use assms(1) in \<open>simp add: RefreshMempool_def keeps_refl\<close>)

lemma RefreshNetInfo_keeps:
  assumes "app_ok ok now a" "network_ok S E a"
  shows "\<exists>a' w'. RefreshNetInfo S E V a w = Some (a', w') \<and> keeps ok now a a'"
proof (cases "IsPaused a")
  case False
  obtain res w' where r: "fetch_GetNetInfo S (data_fetcher S E a) (rpc_URL (CurrentRPC E (app_State a))) w = Some (res, w')"
    using network_okD(7) [OF assms(2), of w] by auto
  have s: "state_ok (app_State a)" using assms(1) by (simp add: app_ok_def)
  show ?thesis
  proof (cases res)
    case (Inr n)
    with set_and_show_keeps [OF assms(1), of "SetNetInfo (Some n)" E V] s False r show ?thesis
      by (auto simp: RefreshNetInfo_def)
  qed (use False r assms(1) in \<open>simp add: RefreshNetInfo_def keeps_refl\<close>)
qed (use assms(1) in \<open>simp add: RefreshNetInfo_def keeps_refl\<close>)

lemma RefreshHealthMetrics_keeps:
  assumes "app_ok ok now a" "now \<le> now1"
  shows "\<exists>a'. RefreshHealthMetrics E M srt now1 now2 V a = Some a' \<and> keeps ok now1 a a'"
proof -
  have "builder_ok now1 (app_Builder a)" using assms by (auto simp: app_ok_def builder_ok_def)
  then have later: "app_ok ok now1 a" using assms(1) by (simp add: app_ok_def)
  obtain b nh rows where b: "Build E M srt now1 now2 (app_State a) (app_Builder a) = (b, nh, rows)" by (metis prod_cases3)
  have "builder_ok now1 b"
    using Build_intervals(1) [OF b] assms observe_builder_ok [of now "app_Builder a" now1] by (simp add: app_ok_def)
  then have "app_ok ok now1 (a\<lparr>app_Builder := b\<rparr>)" "durations_ok (BlockIntervals nh)"
    using later Build_intervals(2) [OF b] by (simp_all add: app_ok_def app_State_def builder_ok_def)
  moreover from this have "state_ok (SetValidatorHealth (Some rows) (SetNetworkHealth (Some nh) (app_State (a\<lparr>app_Builder := b\<rparr>))))"
    by (simp add: app_ok_def) (simp add: state_ok_def GetTMValidators_def GetNetworkHealth_def SetNetworkHealth_def)
  ultimately obtain a' where "show_state E V (update_state (\<lambda>s. SetValidatorHealth (Some rows) (SetNetworkHealth (Some nh) s)) (a\<lparr>app_Builder := b\<rparr>)) = Some a'"
    "keeps ok now1 (a\<lparr>app_Builder := b\<rparr>) a'"
    using set_and_show_keeps [of ok now1 "a\<lparr>app_Builder := b\<rparr>" "\<lambda>s. SetValidatorHealth (Some rows) (SetNetworkHealth (Some nh) s)" E V]
    by blast
  with later b show ?thesis by (cases "IsPaused a") (auto simp: RefreshHealthMetrics_def update_state_twice keeps_def)
qed


lemma handle_key_keeps:
  assumes "app_ok ok now a"
  shows "\<exists>d. handle_key E G sc event (app_Display a) = Some d \<and> keeps ok now a (a\<lparr>app_Display := d\<rparr>)"
proof -
  have "wrapper_ok (app_Display a)" using assms by (simp add: app_ok_def)
  from handle_key_ok [OF this, of E G sc event] obtain d where
    "handle_key E G sc event (app_Display a) = Some d" "wrapper_ok d" "wr_State d = wr_State (app_Display a)" by (elim exE conjE)
  with assms show ?thesis by (simp add: keeps_def app_ok_def app_State_def)
qed

lemma select_rpc_keeps:
  assumes "app_ok ok now a"
  shows "keeps ok now a (a\<lparr>app_Display := select_rpc E G sc row (app_Display a)\<rparr>)"
proof -
  let ?d = "app_Display a"
  define s where "s = (case RPCAtIndex E (wr_State ?d) row of
     None \<Rightarrow> app_State a | Some rpc \<Rightarrow> SetCurrentRPCURL (rpc_URL rpc) (app_State a))"
  have s: "select_rpc E G sc row ?d = ToggleRPCList G sc (?d\<lparr>wr_State := s\<rparr>)"
    by (simp add: s_def select_rpc_def app_State_def split: option.split)
  have "state_ok s" using assms by (simp add: s_def app_ok_def split: option.split)
  moreover have "wrapper_ok (?d\<lparr>wr_State := s\<rparr>)" using assms by (simp add: app_ok_def wrapper_ok_def)
  ultimately have d: "wrapper_ok (?d\<lparr>wr_State := s\<rparr>)" "state_ok s" by simp_all
  have "wrapper_ok (ToggleRPCList G sc (?d\<lparr>wr_State := s\<rparr>))"
    using d(1) [unfolded wrapper_ok_def] wrapper_okD [OF d(1)] by (simp add: ToggleRPCList_def Redraw_ok)
  with assms d(2) show ?thesis
    by (simp add: keeps_def app_ok_def app_State_def s ToggleRPCList_def Redraw_frame)
qed

lemma DebugText_fold:
  "wrapper_ok (foldl (\<lambda>d l. DebugText l d) d ls) = wrapper_ok d \<and> wr_State (foldl (\<lambda>d l. DebugText l d) d ls) = wr_State d"
  by (induction ls arbitrary: d) (simp_all add: DebugText_def wrapper_ok_def)

lemma on_logs_keeps: "app_ok ok now a \<Longrightarrow> keeps ok now a (on_logs ls a)"
  by (simp add: on_logs_def keeps_def app_ok_def app_State_def DebugText_fold)

context app_storer
begin

lemma on_cleanup_keeps: "app_ok ok now a \<Longrightarrow> keeps ok now a (on_cleanup so a)"
  using cleanup_ok [of "app_Store a"] by (simp add: on_cleanup_def keeps_def app_ok_def app_State_def)

lemma consensus_seen_keeps:
  assumes "app_ok ok now a" "well_formed_validators vals"
  shows "\<exists>a'. consensus_seen E so consensus vals a = Some a' \<and> keeps ok now a a'"
proof -
  let ?a = "update_state (\<lambda>s. s\<lparr>VotesByRound := AddProposer (round_env.truncate E) (VotesByRound s)
            (rst_Height consensus) (rst_Round consensus) (rst_Proposer consensus)\<rparr>)
     (update_state (SetConsensusHeight (rst_Height consensus) (rst_Round consensus) (rst_Step consensus)
            (rst_StartTime consensus)) a)"
  have store: "ok (app_Store a)" using assms(1) by (simp add: app_ok_def)
  obtain st err where st: "so_vals so (rst_Height consensus) vals (app_Store a) = Some (st, err)" "ok st"
    using so_vals_ok [OF store assms(2)] by blast
  obtain st' where st': "store_rounds so (Iter (round_env.truncate E) (VotesByRound (app_State ?a))) st = Some st'" "ok st'"
    using store_rounds_ok [OF st(2)] by blast
  have "app_ok ok now (?a\<lparr>app_Store := st'\<rparr>)"
    using assms(1) st'(2) by (simp add: app_ok_def) (simp add: app_State_def update_state_def)
  then show ?thesis using st st' by (simp add: consensus_seen_def Let_def keeps_def)
qed

lemma RefreshConsensus_keeps:
  assumes "app_ok ok now a" "network_ok S E a"
  shows "\<exists>a' w'. RefreshConsensus S E so V first a w = Some (a', w') \<and> keeps ok now a a'"
proof (cases "IsPaused a")
  case False
  obtain cons vals w' where r: "fetch_both first S (data_fetcher S E a) w = Some ((cons, vals), w')"
    "\<forall>vs. vals = Inr vs \<longrightarrow> well_formed_validators vs"
    using fetch_both_ok [OF assms(2), of first w] by blast
  have s: "state_ok (app_State a)" using assms(1) by (simp add: app_ok_def)
  show ?thesis
  proof (cases "\<exists>c vs. cons = Inr c \<and> vals = Inr vs")
    case True
    then obtain c vs where cv: "cons = Inr c" "vals = Inr vs" by blast
    let ?a = "update_state (\<lambda>s. SetConsensusStateError None (SetTMValidators vs s)) a"
    have "state_ok (SetTMValidators vs (app_State a))"
      using s r(2) cv(2) by (simp add: state_ok_def SetTMValidators_def GetTMValidators_def GetNetworkHealth_def)
    then have "app_ok ok now ?a" using assms(1) by (simp add: app_ok_def)
    then obtain a1 where a1: "consensus_seen E so c vs ?a = Some a1" "keeps ok now ?a a1"
      using consensus_seen_keeps r(2) cv(2) by blast
    then have "app_ok ok now a1" by (simp add: keeps_def)
    from show_state_ok [OF this, of E V] obtain a2 where "show_state E V a1 = Some a2" "keeps ok now a1 a2"
      by (auto simp: keeps_def)
    with a1 False r(1) cv show ?thesis
      by (simp add: RefreshConsensus_def update_state_twice Let_def keeps_def)
  next
    case err: False
    obtain e where "(case cons of Inl err \<Rightarrow> show_state E V (update_state (SetConsensusStateError (Some err)) a)
           | Inr consensus \<Rightarrow>
               (case vals of
                  Inl err \<Rightarrow> show_state E V (update_state (SetConsensusStateError (Some err)) a)
                | Inr vals \<Rightarrow>
                    (let a = update_state (SetTMValidators vals) a;
                         a = update_state (SetConsensusStateError None) a
                     in Option.bind (consensus_seen E so consensus vals a) (show_state E V)))) =
       show_state E V (update_state (SetConsensusStateError (Some e)) a)"
      using err by (cases cons; cases vals) auto
    with set_and_show_keeps [OF assms(1), of "SetConsensusStateError (Some e)" E V] s False r(1) show ?thesis
      by (auto simp: RefreshConsensus_def)
  qed
qed (use assms(1) in \<open>simp add: RefreshConsensus_def keeps_refl\<close>)

lemma on_events_keeps:
  assumes "app_ok ok now a" "EventDataVote None \<notin> set (map fst events)"
  shows "\<exists>a'. on_events E hash_str so V events a = Some a' \<and> keeps ok now a a'"
proof -
  obtain v where v: "add_events (round_env.truncate E) (VotesByRound (app_State a)) (map fst events) = Some v"
    using assms(2) add_events_total [where B = "round_env.truncate E" and v = "VotesByRound (app_State a)" and es = "map fst events"]
    by blast
  let ?a = "(update_state (\<lambda>_. (app_State a)\<lparr>VotesByRound := v\<rparr>) a)\<lparr>app_Builder := ObserveEvents hash_str events (app_Builder a)\<rparr>"
  have store: "ok (app_Store a)" using assms(1) by (simp add: app_ok_def)
  obtain st where st: "(if events \<noteq> [] then so_events so (map fst events) (app_Store a) else Some (app_Store a)) = Some st" "ok st"
    using so_events_ok [OF store assms(2)] store by (cases "events = []") auto
  have "app_ok ok now (?a\<lparr>app_Store := st\<rparr>)"
    using assms(1) st(2) by (simp add: app_ok_def ObserveEvents_builder_ok) (simp add: app_State_def update_state_def wrapper_ok_def)
  moreover have same: "(update_state f a)\<lparr>app_Builder := app_Builder a, app_Store := app_Store a\<rparr> = update_state f a" for f
    by (simp add: update_state_def)
  ultimately obtain a' where "show_state E V (?a\<lparr>app_Store := st\<rparr>) = Some a'" "keeps ok now (?a\<lparr>app_Store := st\<rparr>) a'"
    using show_state_ok [of ok now "?a\<lparr>app_Store := st\<rparr>" E V] by (auto simp: keeps_def)
  then show ?thesis using v st(1)
    by (cases "events = []") (auto simp add: on_events_def AddCometBFTEvents_def Let_def keeps_def same)
qed

end


text \<open>What a redraw leaves alone.\<close>

lemma bind_SomeE: "Option.bind m f = Some r \<Longrightarrow> (\<And>x. m = Some x \<Longrightarrow> f x = Some r \<Longrightarrow> P) \<Longrightarrow> P"
  by (cases m) simp_all

lemma SetState_state: "SetState P E srt sc ck s w = Some w' \<Longrightarrow> wr_State w' = s \<and> wr_paused w' = wr_paused w"
  by (auto simp: SetState_def Let_def elim!: bind_SomeE)

lemma show_state_frame:
  assumes "show_state E V a = Some a'"
  shows "app_State a' = app_State a" "app_Store a' = app_Store a" "app_Builder a' = app_Builder a" "IsPaused a' = IsPaused a"
    "app_Config a' = app_Config a"
  using assms by (auto simp: show_state_def app_State_def IsPaused_def dest: SetState_state)

lemma consensus_seen_result:
  assumes "consensus_seen E so c vals a = Some a'"
  shows "app_State a' = (SetConsensusHeight (rst_Height c) (rst_Round c) (rst_Step c) (rst_StartTime c) (app_State a))
      \<lparr>VotesByRound := AddProposer (round_env.truncate E) (VotesByRound (app_State a)) (rst_Height c) (rst_Round c) (rst_Proposer c)\<rparr>"
    and "app_Builder a' = app_Builder a" "IsPaused a' = IsPaused a"
  using assms
  by (auto simp: consensus_seen_def Let_def update_state_def app_State_def IsPaused_def SetConsensusHeight_def elim!: bind_SomeE)

lemma SetState_rounds:
  assumes "SetState P E srt sc ck s w = Some w'"
  shows "ar_RoundData (wr_AllRounds w') = Some (VotesByRound s)"
proof -
  obtain a where a: "update_all_rounds E s (wr_AllRounds (w\<lparr>wr_State := s\<rparr>)) = Some a" "wr_AllRounds w' = a"
    using assms by (auto simp: SetState_def Let_def elim!: bind_SomeE)
  obtain h r x y where c: "GetConsensusHeight s = (h, r, x, y)" by (metis prod_cases4)
  from a(1) have "ar_RoundData a = Some (VotesByRound s)"
    by (auto simp: update_all_rounds_def c ar_Update_def ar_SetRoundData_def Let_def)
  with a(2) show ?thesis by simp
qed

lemma on_events_result:
  assumes "on_events E hash_str so V events a = Some a'"
  shows "add_events (round_env.truncate E) (VotesByRound (app_State a)) (map fst events) = Some (VotesByRound (app_State a'))"
    and "app_State a' = (app_State a)\<lparr>VotesByRound := VotesByRound (app_State a')\<rparr>"
    and "ar_RoundData (wr_AllRounds (app_Display a')) = Some (VotesByRound (app_State a'))"
proof -
  obtain v st where v: "add_events (round_env.truncate E) (VotesByRound (app_State a)) (map fst events) = Some v"
    and shown: "show_state E V ((update_state (\<lambda>_. (app_State a)\<lparr>VotesByRound := v\<rparr>) a)
      \<lparr>app_Builder := ObserveEvents hash_str events (app_Builder a), app_Store := st\<rparr>) = Some a'"
    using assms by (auto simp: on_events_def AddCometBFTEvents_def Let_def elim!: bind_SomeE)
  have s: "app_State a' = (app_State a)\<lparr>VotesByRound := v\<rparr>"
    using show_state_frame(1) [OF shown] by (simp add: app_State_def update_state_def)
  then show "app_State a' = (app_State a)\<lparr>VotesByRound := VotesByRound (app_State a')\<rparr>" by simp
  show "add_events (round_env.truncate E) (VotesByRound (app_State a)) (map fst events) = Some (VotesByRound (app_State a'))"
    using v s by simp
  show "ar_RoundData (wr_AllRounds (app_Display a')) = Some (VotesByRound (app_State a'))"
    using shown s by (auto simp: show_state_def app_State_def update_state_def dest: SetState_rounds)
qed

text \<open>No action but those of the crawler and the selection of an RPC touches the URLs of the nodes.\<close>

definition same_urls :: "('h, 'k, 'p, 'g, 's, 'tz) App \<Rightarrow> ('h, 'k, 'p, 'g, 's, 'tz) App \<Rightarrow> bool" where
  "same_urls a a' \<longleftrightarrow> st_knownRPCs (app_State a') = st_knownRPCs (app_State a)
     \<and> st_currentRPC (app_State a') = st_currentRPC (app_State a)"

lemma same_urls_network: "same_urls a a' \<Longrightarrow> app_Config a' = app_Config a \<Longrightarrow> network_ok S E a \<Longrightarrow> network_ok S E a'"
  by (simp add: same_urls_def network_ok_def urls_parse_def KnownRPCByURL_def)

lemma shown_urls:
  assumes "show_state E V (update_state f a) = Some a'"
    and "st_knownRPCs (f (app_State a)) = st_knownRPCs (app_State a)" "st_currentRPC (f (app_State a)) = st_currentRPC (app_State a)"
  shows "same_urls a a'"
  using show_state_frame(1) [OF assms(1)] assms(2,3) by (simp add: same_urls_def)

lemma refresh_urls:
  assumes "RefreshConsensus S E so V first a w = Some (a', w')"
  shows "same_urls a a'"
proof (cases "IsPaused a")
  case False
  obtain cons vals w1 where f: "fetch_both first S (data_fetcher S E a) w = Some ((cons, vals), w1)"
    using assms False by (auto simp: RefreshConsensus_def elim!: bind_SomeE)
  show ?thesis
  proof (cases "\<exists>c vs. cons = Inr c \<and> vals = Inr vs")
    case True
    then obtain c vs where cv: "cons = Inr c" "vals = Inr vs" by blast
    let ?a = "update_state (\<lambda>s. SetConsensusStateError None (SetTMValidators vs s)) a"
    obtain a1 where a1: "consensus_seen E so c vs ?a = Some a1" "show_state E V a1 = Some a'"
      using assms False f cv by (auto simp: RefreshConsensus_def update_state_twice Let_def elim!: bind_SomeE)
    show ?thesis using consensus_seen_result(1) [OF a1(1)] show_state_frame(1) [OF a1(2)]
      by (simp add: same_urls_def SetConsensusHeight_def SetConsensusStateError_def SetTMValidators_def)
  next
    case err: False
    then have "\<exists>e. show_state E V (update_state (SetConsensusStateError (Some e)) a) = Some a'"
      using assms False f by (cases cons; cases vals) (auto simp: RefreshConsensus_def)
    then show ?thesis by (auto intro!: shown_urls simp: SetConsensusStateError_def)
  qed
qed (use assms in \<open>simp add: RefreshConsensus_def same_urls_def\<close>)

lemma tick_urls:
  "RefreshCometNodeInfo S E V a w = Some (a', w') \<Longrightarrow> same_urls a a'"
  "RefreshUpgrade S E V a w = Some (a', w') \<Longrightarrow> same_urls a a'"
  "RefreshBlockTime S E V a w = Some (a', w') \<Longrightarrow> same_urls a a'"
  "RefreshMempool S E a w = Some (a', w') \<Longrightarrow> same_urls a a'"
  "RefreshNetInfo S E V a w = Some (a', w') \<Longrightarrow> same_urls a a'"
  "RefreshHealthMetrics E M srt now1 now2 V a = Some a' \<Longrightarrow> same_urls a a'"
  "on_events E hash_str so V events a = Some a' \<Longrightarrow> same_urls a a'"
proof -
  show "same_urls a a'" if "RefreshCometNodeInfo S E V a w = Some (a', w')"
    using that by (auto simp: RefreshCometNodeInfo_def same_urls_def SetChainInfoError_def SetChainInfo_def
        dest!: show_state_frame(1) elim!: bind_SomeE split: if_splits sum.splits)
  show "same_urls a a'" if "RefreshUpgrade S E V a w = Some (a', w')"
    using that by (auto simp: RefreshUpgrade_def same_urls_def SetUpgrade_def SetUpgradePlanError_def
        dest!: show_state_frame(1) elim!: bind_SomeE split: if_splits sum.splits)
  show "same_urls a a'" if "RefreshBlockTime S E V a w = Some (a', w')"
    using that by (auto simp: RefreshBlockTime_def same_urls_def SetBlockTime_def
        dest!: show_state_frame(1) elim!: bind_SomeE split: if_splits sum.splits)
  show "same_urls a a'" if "RefreshMempool S E a w = Some (a', w')"
    using that by (auto simp: RefreshMempool_def same_urls_def SetMempool_def elim!: bind_SomeE split: if_splits sum.splits)
  show "same_urls a a'" if "RefreshNetInfo S E V a w = Some (a', w')"
    using that by (auto simp: RefreshNetInfo_def same_urls_def SetNetInfo_def
        dest!: show_state_frame(1) elim!: bind_SomeE split: if_splits sum.splits)
  show "same_urls a a'" if "RefreshHealthMetrics E M srt now1 now2 V a = Some a'"
  proof (cases "IsPaused a")
    case False
    obtain b nh rows where b: "Build E M srt now1 now2 (app_State a) (app_Builder a) = (b, nh, rows)" by (metis prod_cases3)
    with that False have "show_state E V (update_state (SetValidatorHealth (Some rows)) (update_state (SetNetworkHealth (Some nh))
        (a\<lparr>app_Builder := b\<rparr>))) = Some a'" by (simp add: RefreshHealthMetrics_def Let_def)
    from show_state_frame(1) [OF this] show ?thesis
      by (simp add: same_urls_def SetValidatorHealth_def SetNetworkHealth_def) (simp add: app_State_def)
  qed (use that in \<open>simp add: RefreshHealthMetrics_def same_urls_def\<close>)
  show "same_urls a a'" if r: "on_events E hash_str so V events a = Some a'"
  proof -
    obtain v where "app_State a' = (app_State a)\<lparr>VotesByRound := v\<rparr>" using on_events_result(2) [OF r] by blast
    then show ?thesis by (simp add: same_urls_def)
  qed
qed

text \<open>Selecting an RPC takes a known one; the crawler adds one.\<close>

lemma select_rpc_state:
  "wr_State (select_rpc E G sc row w) = (case RPCAtIndex E (wr_State w) row of None \<Rightarrow> wr_State w
     | Some rpc \<Rightarrow> SetCurrentRPCURL (rpc_URL rpc) (wr_State w))"
  by (simp add: select_rpc_def Let_def ToggleRPCList_def Redraw_frame split: option.split)

lemma known_urls:
  assumes "ordered_map (rpcs_ops E)" "urls_parse H E s"
  shows "RPCAtIndex E s row = Some rpc \<Longrightarrow> urls_parse H E (SetCurrentRPCURL (rpc_URL rpc) s)"
    and "he_parse H (rpc_URL rpc) \<noteq> None \<Longrightarrow> urls_parse H E (AddKnownRPC E rpc s)"
proof -
  show "urls_parse H E (SetCurrentRPCURL (rpc_URL rpc) s)" if at: "RPCAtIndex E s row = Some rpc"
  proof -
    obtain url where "om_get_by_index (rpcs_ops E) (st_knownRPCs s) row = Some (url, rpc)"
      using at by (cases "om_get_by_index (rpcs_ops E) (st_knownRPCs s) row") (auto simp: RPCAtIndex_def)
    from ordered_map.om_index_mem [OF assms(1) this] have "KnownRPCByURL E s url = Some rpc" by (simp add: KnownRPCByURL_def)
    then show ?thesis using assms(2) by (auto simp: urls_parse_def SetCurrentRPCURL_def KnownRPCByURL_def)
  qed
  show "urls_parse H E (AddKnownRPC E rpc s)" if "he_parse H (rpc_URL rpc) \<noteq> None"
    using assms(2) that by (auto simp: urls_parse_def AddKnownRPC_def KnownRPCByURL_def ordered_map.om_get_set [OF assms(1)] split: if_splits)
qed

context app_storer
begin

lemma run_action_keeps:
  assumes "ordered_map (rpcs_ops E)" "app_ok ok now a" "network_ok S E a" "action_ok S now act"
  shows "\<exists>a' w'. run_action S E G hash_str so act (a, w) = Some (a', w') \<and> keeps ok (clock_after now act) a a' \<and> network_ok S E a'"
proof -
  have urls: "network_ok S E a'" if "same_urls a a'" "keeps ok t a a'" for a' t
    using same_urls_network [OF that(1) _ assms(3)] that(2) by (simp add: keeps_def)
  have known: "node_ok S" "hosts_parse S (app_Config a)" "urls_parse S E (app_State a)" using assms(3) by (simp_all add: network_ok_def)
  show ?thesis
  proof (cases act)
    case (HealthTick V M srt now1 now2)
    with assms(4) RefreshHealthMetrics_keeps [OF assms(2), of now1 E M srt now2 V] obtain a' where
      a': "RefreshHealthMetrics E M srt now1 now2 V a = Some a'" "keeps ok now1 a a'" by auto
    with urls [OF tick_urls(6)] HealthTick show ?thesis by (auto simp: run_action_def)
  next
    case (EventsArrived V events)
    with assms(4) on_events_keeps [OF assms(2), of events E hash_str V] obtain a' where
      a': "on_events E hash_str so V events a = Some a'" "keeps ok now a a'" by auto
    with urls [OF tick_urls(7)] EventsArrived show ?thesis by (auto simp: run_action_def)
  next
    case (KeyPressed sc event)
    obtain d where d: "handle_key E G sc event (app_Display a) = Some d" "keeps ok now a (a\<lparr>app_Display := d\<rparr>)"
      using handle_key_keeps [OF assms(2), of E G sc event] by blast
    have "wrapper_ok (app_Display a)" using assms(2) by (simp add: app_ok_def)
    from handle_key_ok [OF this, of E G sc event] d(1) have "wr_State d = wr_State (app_Display a)" by auto
    then have "same_urls a (a\<lparr>app_Display := d\<rparr>)" by (simp add: same_urls_def app_State_def)
    with d urls KeyPressed show ?thesis by (auto simp: run_action_def)
  next
    case (ConsensusTick V first)
    obtain a' w' where a': "RefreshConsensus S E so V first a w = Some (a', w')" "keeps ok now a a'"
      using RefreshConsensus_keeps [OF assms(2,3)] by blast
    from urls [OF refresh_urls [OF a'(1)] a'(2)] a' ConsensusTick show ?thesis by (simp add: run_action_def)
  next
    case (NodeInfoTick V)
    obtain a' w' where a': "RefreshCometNodeInfo S E V a w = Some (a', w')" "keeps ok now a a'"
      using RefreshCometNodeInfo_keeps [OF assms(2,3)] by blast
    from urls [OF tick_urls(1) [OF a'(1)] a'(2)] a' NodeInfoTick show ?thesis by (simp add: run_action_def)
  next
    case (UpgradeTick V)
    obtain a' w' where a': "RefreshUpgrade S E V a w = Some (a', w')" "keeps ok now a a'"
      using RefreshUpgrade_keeps [OF assms(2,3)] by blast
    from urls [OF tick_urls(2) [OF a'(1)] a'(2)] a' UpgradeTick show ?thesis by (simp add: run_action_def)
  next
    case (BlockTimeTick V)
    obtain a' w' where a': "RefreshBlockTime S E V a w = Some (a', w')" "keeps ok now a a'"
      using RefreshBlockTime_keeps [OF assms(2,3)] by blast
    from urls [OF tick_urls(3) [OF a'(1)] a'(2)] a' BlockTimeTick show ?thesis by (simp add: run_action_def)
  next
    case MempoolTick
    obtain a' w' where a': "RefreshMempool S E a w = Some (a', w')" "keeps ok now a a'"
      using RefreshMempool_keeps [OF assms(2,3)] by blast
    from urls [OF tick_urls(4) [OF a'(1)] a'(2)] a' MempoolTick show ?thesis by (simp add: run_action_def)
  next
    case (NetInfoTick V)
    obtain a' w' where a': "RefreshNetInfo S E V a w = Some (a', w')" "keeps ok now a a'"
      using RefreshNetInfo_keeps [OF assms(2,3)] by blast
    from urls [OF tick_urls(5) [OF a'(1)] a'(2)] a' NetInfoTick show ?thesis by (simp add: run_action_def)
  next
    case (LogsArrived ls)
    have "same_urls a (on_logs ls a)" by (simp add: same_urls_def on_logs_def app_State_def DebugText_fold)
    with LogsArrived on_logs_keeps [OF assms(2), of ls] urls show ?thesis by (auto simp: run_action_def)
  next
    case CleanupTick
    have "same_urls a (on_cleanup so a)" by (simp add: same_urls_def on_cleanup_def app_State_def)
    with CleanupTick on_cleanup_keeps [OF assms(2)] urls show ?thesis by (auto simp: run_action_def)
  next
    case (RPCSelected sc row)
    let ?a = "a\<lparr>app_Display := select_rpc E G sc row (app_Display a)\<rparr>"
    have "urls_parse S E (app_State ?a)"
      using known_urls(1) [OF assms(1) known(3)] known(3) by (simp add: app_State_def select_rpc_state split: option.split)
    then have "network_ok S E ?a" using known by (simp add: network_ok_def)
    with RPCSelected select_rpc_keeps [OF assms(2), of E G sc row] show ?thesis by (simp add: run_action_def)
  next
    case (RPCFound rpc)
    then have "network_ok S E (update_state (AddKnownRPC E rpc) a)"
      using known_urls(2) [OF assms(1) known(3), of rpc] assms(4) known by (simp add: network_ok_def)
    moreover have "keeps ok now a (update_state (AddKnownRPC E rpc) a)"
      using assms(2) by (simp add: keeps_def app_ok_def) (simp add: AddKnownRPC_def state_ok_def GetTMValidators_def GetNetworkHealth_def)
    ultimately show ?thesis using RPCFound by (simp add: run_action_def)
  next
    case (PeersFound url peers)
    have "network_ok S E (update_state (AddRPCPeers E url peers) a)"
      using known by (simp add: network_ok_def) (simp add: urls_parse_def KnownRPCByURL_def AddRPCPeers_def)
    moreover have "keeps ok now a (update_state (AddRPCPeers E url peers) a)"
      using assms(2) by (simp add: keeps_def app_ok_def) (simp add: AddRPCPeers_def state_ok_def GetTMValidators_def GetNetworkHealth_def)
    ultimately show ?thesis using PeersFound by (simp add: run_action_def)
  qed
qed

text \<open>Whatever happens, in any order.\<close>

lemma run_app_keeps:
  assumes "ordered_map (rpcs_ops E)" "app_ok ok now a" "network_ok S E a" "actions_ok S now acts"
  shows "\<exists>a' w' t. run_app S E G hash_str so acts (a, w) = Some (a', w') \<and> keeps ok t a a'"
  using assms(2-)
proof (induction acts arbitrary: now a w)
  case (Cons act acts)
  show ?case
  proof (cases "wr_stopped (app_Display a)")
    case True
    have "keeps ok now a (app_Stop a)" using Cons.prems(1) by (simp add: keeps_def app_ok_def app_Stop_def app_State_def)
    with True show ?thesis by auto
  next
    case False
    obtain a1 w1 where a1: "run_action S E G hash_str so act (a, w) = Some (a1, w1)" "keeps ok (clock_after now act) a a1"
      "network_ok S E a1"
      using run_action_keeps [OF assms(1) Cons.prems(1,2)] Cons.prems(3) by fastforce
    have "\<exists>a' w' t. run_app S E G hash_str so acts (a1, w1) = Some (a', w') \<and> keeps ok t a1 a'"
      using Cons.IH [of "clock_after now act" a1 w1] a1(2,3) Cons.prems(3) by (simp add: keeps_def)
    with a1 False show ?thesis by (auto simp: keeps_def)
  qed
qed (auto simp: keeps_def app_ok_def app_Stop_def app_State_def)

end

text \<open>The ticks that look at the pause flag.\<close>

definition quiet :: "action \<Rightarrow> bool" where
  "quiet act \<longleftrightarrow> (case act of EventsArrived _ _ \<Rightarrow> False | LogsArrived _ \<Rightarrow> False | CleanupTick \<Rightarrow> False
     | KeyPressed _ _ \<Rightarrow> False | RPCSelected _ _ \<Rightarrow> False | RPCFound _ \<Rightarrow> False | PeersFound _ _ \<Rightarrow> False | _ \<Rightarrow> True)"

definition sample_view :: view where
  "sample_view = \<lparr>vw_panel = \<lparr>pe_float = (\<lambda>_. ''''), pe_time = itoa\<rparr>, vw_sort = id, vw_screen = sample_screen,
     vw_clock = \<lparr>ck_consensus = (1, 2), ck_chain = (3, 4)\<rparr>\<rparr>"

definition sample_app where
  "sample_app = NewApp fmap_state_env list_grid sample_config 0 ()"

section \<open>Properties\<close>

lemma new_network_ok:
  assumes "ordered_map (rpcs_ops E)" "node_ok S" "hosts_parse S config" "he_parse S (cfg_RPCHost config) \<noteq> None"
  shows "network_ok S E (NewApp E G config start st)"
proof -
  have "KnownRPCByURL E (NewState E (cfg_RPCHost config) start) url = None" for url
    using ordered_map.om_get_new [OF assms(1)] by (simp add: KnownRPCByURL_def NewState_def)
  then show ?thesis using assms(2-4)
    by (simp add: network_ok_def NewApp_def app_State_def NewWrapper_def urls_parse_def) (simp add: NewState_def)
qed


text \<open>Of the sample network every URL parses, and every page of validators holds the only one.\<close>

lemma sample_node_ok: "node_ok sample_sdk" "hosts_parse sample_sdk config" "he_parse sample_sdk url \<noteq> None"
proof -
  have "ce_round_state sample_sdk = (\<lambda>_. Inr None)" by (simp add: sample_sdk_def comet_env.defs sample_comet_def)
  then show "node_ok sample_sdk" by (auto simp: node_ok_def sample_sdk_fields sample_comet_validator_def)
qed (simp_all add: hosts_parse_def sample_sdk_fields)

lemma fmap_rpcs: "ordered_map (rpcs_ops fmap_state_env)"
  by (simp add: fmap_state_env_def round_env.defs alist_ordered.ordered_map_axioms)

lemma fmap_state_env_truncate: "round_env.truncate fmap_state_env = fmap_env"
  by (simp add: fmap_state_env_def round_env.defs fmap_env_def)

lemma sample_app_ok:
  "app_ok (\<lambda>_. True) 0 sample_app" "network_ok sample_sdk fmap_state_env sample_app" "\<not> IsPaused sample_app"
  using NewWrapper_ok [of fmap_state_env list_grid sample_config "NewState fmap_state_env (cfg_RPCHost sample_config) 0" False]
    new_network_ok [OF fmap_rpcs sample_node_ok]
  by (simp_all add: sample_app_def IsPaused_def app_ok_def NewApp_def app_State_def NewWrapper_def NewState_def state_ok_def
      GetTMValidators_def GetNetworkHealth_def well_formed_validators_def builder_ok_def durations_ok_def NewBuilder_def)


text \<open>C30: one consensus refresh takes over height, round, step, proposer and validators of the node and clears
  the error exactly when both requests succeed; otherwise only the error changes, to that of the round state
  if it failed and else to that of the validators, and nothing is stored.\<close>

theorem RefreshConsensus_spec:
  assumes "\<not> IsPaused a" "fetch_both first S (data_fetcher S E a) w = Some ((cons, vals), w1)"
    and "RefreshConsensus S E so V first a w = Some (a', w')"
  shows "w' = w1 \<and> app_Builder a' = app_Builder a \<and> \<not> IsPaused a' \<and>
    (case (cons, vals) of
       (Inr c, Inr vs) \<Rightarrow> app_State a' = (app_State a)
          \<lparr>st_Height := rst_Height c, st_Round := rst_Round c, st_Step := rst_Step c, st_StartTime := rst_StartTime c,
           st_TMValidators := vs, st_ConsensusStateError := None,
           VotesByRound := AddProposer (round_env.truncate E) (VotesByRound (app_State a)) (rst_Height c) (rst_Round c) (rst_Proposer c)\<rparr>
     | (Inr c, Inl err) \<Rightarrow> app_State a' = (app_State a)\<lparr>st_ConsensusStateError := Some err\<rparr> \<and> app_Store a' = app_Store a
     | (Inl err, _) \<Rightarrow> app_State a' = (app_State a)\<lparr>st_ConsensusStateError := Some err\<rparr> \<and> app_Store a' = app_Store a)"
proof -
  have paused: "IsPaused (update_state f a) = IsPaused a" for f by (simp add: IsPaused_def update_state_def)
  have error: ?thesis if "show_state E V (update_state (SetConsensusStateError (Some err)) a) = Some a'" "w' = w1"
    "cons = Inl err \<or> (\<exists>c. cons = Inr c) \<and> vals = Inl err" for err
    using show_state_frame [OF that(1)] that(2,3) assms(1) paused by (auto simp: SetConsensusStateError_def)
  show ?thesis
  proof (cases "\<exists>c vs. cons = Inr c \<and> vals = Inr vs")
    case True
    then obtain c vs where cv: "cons = Inr c" "vals = Inr vs" by blast
    let ?a = "update_state (\<lambda>s. SetConsensusStateError None (SetTMValidators vs s)) a"
    obtain a1 where a1: "consensus_seen E so c vs ?a = Some a1" "show_state E V a1 = Some a'" "w' = w1"
      using assms cv by (auto simp: RefreshConsensus_def update_state_twice Let_def elim!: bind_SomeE)
    show ?thesis
      using consensus_seen_result [OF a1(1)] show_state_frame [OF a1(2)] a1(3) cv assms(1) paused
      by (simp add: SetConsensusHeight_def SetConsensusStateError_def SetTMValidators_def)
  next
    case False
    then consider err where "cons = Inl err" | c err where "cons = Inr c" "vals = Inl err" by (cases cons; cases vals) auto
    then show ?thesis
    proof cases
      case 1
      with assms error [of err] show ?thesis by (auto simp: RefreshConsensus_def)
    next
      case 2
      with assms error [of err] show ?thesis by (auto simp: RefreshConsensus_def)
    qed
  qed
qed

theorem RefreshConsensus_spec_witness:
  "\<exists>a' w' err. RefreshConsensus sample_sdk fmap_state_env nop_storer sample_view True sample_app 0 = Some (a', w')
    \<and> st_ConsensusStateError (app_State a') = Some err \<and> app_State a' = (app_State sample_app)\<lparr>st_ConsensusStateError := Some err\<rparr>"
proof -
  obtain a' w' where r: "RefreshConsensus sample_sdk fmap_state_env nop_storer sample_view True sample_app 0 = Some (a', w')"
    using nop_app.RefreshConsensus_keeps [OF sample_app_ok(1,2), where V = sample_view and first = True and w = 0] by auto
  obtain cons vals w1 where f: "fetch_both True sample_sdk (data_fetcher sample_sdk fmap_state_env sample_app) 0 = Some ((cons, vals), w1)"
    using fetch_both_ok [OF sample_app_ok(2), of True 0] by auto
  have "\<exists>err w2. GetConsensusState sample_sdk rpc w = Some (Inl err, w2)" if "GetConsensusState sample_sdk rpc w \<noteq> None" for rpc w
    using that by (auto simp: GetConsensusState_def sample_sdk_def comet_env.defs sample_comet_def elim!: bind_SomeE split: sum.splits)
  then obtain err where "cons = Inl err"
    using f by (fastforce simp: fetch_both_def fetch_GetConsensusState_def elim!: bind_SomeE)
  with RefreshConsensus_spec [OF sample_app_ok(3) f r] r show ?thesis by auto
qed

text \<open>C31: pausing stops every refresh, which then neither asks the network nor changes anything, but not the
  events of the websocket: their votes still enter the shared state and the table on the screen.\<close>

theorem pausing:
  assumes "IsPaused a"
  shows "(quiet act \<longrightarrow> run_action S E G hash_str so act (a, w) = Some (a, w))
    \<and> (\<forall>V events a' w'. run_action S E G hash_str so (EventsArrived V events) (a, w) = Some (a', w') \<longrightarrow>
        add_events (round_env.truncate E) (VotesByRound (app_State a)) (map fst events) = Some (VotesByRound (app_State a'))
      \<and> ar_RoundData (wr_AllRounds (app_Display a')) = Some (VotesByRound (app_State a')))"
proof -
  have "run_action S E G hash_str so act (a, w) = Some (a, w)" if "quiet act"
    using that assms
    by (cases act) (simp_all add: quiet_def run_action_def RefreshConsensus_def RefreshCometNodeInfo_def RefreshUpgrade_def
        RefreshBlockTime_def RefreshMempool_def RefreshNetInfo_def RefreshHealthMetrics_def)
  then show ?thesis using on_events_result by (auto simp: run_action_def)
qed

theorem pausing_witness:
  "let a = sample_app\<lparr>app_Display := (app_Display sample_app)\<lparr>wr_paused := True\<rparr>\<rparr>;
       event = EventDataNewRound 7 0 ''P''
   in run_action sample_sdk fmap_state_env list_grid id nop_storer MempoolTick (a, 0) = Some (a, 0)
    \<and> (\<exists>a' w'. run_action sample_sdk fmap_state_env list_grid id nop_storer (EventsArrived sample_view [(event, 5)]) (a, 0) = Some (a', w')
        \<and> VotesByRound (app_State a') = AddProposer fmap_env (NewRoundDataMap fmap_env) 7 0 ''P'')"
proof -
  let ?a = "sample_app\<lparr>app_Display := (app_Display sample_app)\<lparr>wr_paused := True\<rparr>\<rparr>"
  let ?es = "[(EventDataNewRound 7 0 ''P'', 5 :: instant)]"
  have p: "IsPaused ?a" by (simp add: IsPaused_def)
  have "app_ok (\<lambda>_. True) 0 ?a" using sample_app_ok(1) by (simp add: app_ok_def app_State_def wrapper_ok_def)
  then obtain a' where r: "run_action sample_sdk fmap_state_env list_grid id nop_storer (EventsArrived sample_view ?es) (?a, 0) = Some (a', 0)"
    using nop_app.on_events_keeps [of 0 ?a ?es fmap_state_env id sample_view] by (auto simp: run_action_def)
  have s: "VotesByRound (app_State ?a) = NewRoundDataMap fmap_env"
    by (simp add: app_State_def sample_app_def NewApp_def NewWrapper_def NewState_def fmap_state_env_truncate)
  note paused = pausing [OF p, of MempoolTick sample_sdk fmap_state_env list_grid id nop_storer 0]
  have "run_action sample_sdk fmap_state_env list_grid id nop_storer MempoolTick (?a, 0) = Some (?a, 0)"
    using paused by (simp add: quiet_def)
  moreover have "add_events fmap_env (NewRoundDataMap fmap_env) (map fst ?es) = Some (VotesByRound (app_State a'))"
    using conjunct1 [OF paused [THEN conjunct2, rule_format, OF r]] unfolding s fmap_state_env_truncate .
  ultimately show ?thesis using r by (auto simp: Let_def add_event_def)
qed

end
