(* ===== verification/Cmd.thy ===== *)
theory Cmd
  imports App
begin

text \<open>
  \<open>cmd/tmtop.go\<close>, \<open>pkg/logger/logger.go\<close> and the opening of the store in \<open>NewApp\<close>: how a command line
  becomes a running application. cobra, viper, the file system and SQLite are arguments: cobra returns the
  flags given on the command line, viper the settings of its sources. The variables the flags are bound to
  are a path of the configuration file and an \<open>InputConfig\<close>. A run ends in one of the values of
  \<open>launch\<close>, together with the lines printed before and the schema the database file is left with.
\<close>

section \<open>logger.go\<close>

text \<open>A debug file is what was appended to it. \<open>lg_open\<close>, \<open>lg_write\<close> and \<open>lg_sync\<close> say which of the
  calls on it fail; a failure is a panic, the value \<open>None\<close>.\<close>

record log_env =
  lg_open :: "string \<Rightarrow> goerror + string"
  lg_write :: "string \<Rightarrow> goerror option"
  lg_sync :: "string \<Rightarrow> goerror option"

record 'm Writer =
  wt_DebugFile :: "string option"
  wt_Mailbox :: 'm

definition NewWriter :: "log_env \<Rightarrow> 'm \<Rightarrow> 'tz Config \<Rightarrow> 'm Writer option" where
  "NewWriter L mb config =
     (let writer = \<lparr>wt_DebugFile = None, wt_Mailbox = mb\<rparr>
      in if cfg_DebugFile config \<noteq> '''' then
           (case lg_open L (cfg_DebugFile config) of
              Inl err \<Rightarrow> None
            | Inr debugFile \<Rightarrow> Some (writer\<lparr>wt_DebugFile := Some debugFile\<rparr>))
         else Some writer)"

definition Writer_Write :: "log_env \<Rightarrow> ('m \<Rightarrow> string \<Rightarrow> 'm) \<Rightarrow> string \<Rightarrow> 'm Writer \<Rightarrow> ('m Writer \<times> int) option" where
  "Writer_Write L deliver msg w =
     (let w = w\<lparr>wt_Mailbox := deliver (wt_Mailbox w) msg\<rparr>
      in case wt_DebugFile w of
           None \<Rightarrow> Some (w, int (length msg))
         | Some f \<Rightarrow>
             (if lg_write L msg \<noteq> None then None
              else if lg_sync L msg \<noteq> None then None
              else Some (w\<lparr>wt_DebugFile := Some (f @ msg)\<rparr>, int (length msg))))"

datatype log_level = DebugLevel | WarnLevel

definition GetLogger :: "log_env \<Rightarrow> 'm \<Rightarrow> 'tz Config \<Rightarrow> ('m Writer \<times> log_level) option" where
  "GetLogger L mb config =
     map_option (\<lambda>w. (w, if cfg_Verbose config then DebugLevel else WarnLevel)) (NewWriter L mb config)"

section \<open>Flags\<close>

datatype flag_value =
    StringValue string
  | DurationValue duration
  | BoolValue bool
  | Int64Value int
  | Uint64Value nat
  | IntValue int

text \<open>The variables of \<open>main\<close>.\<close>

type_synonym cmd_vars = "string \<times> InputConfig"

record flag =
  fl_name :: string
  fl_default :: flag_value
  fl_set :: "flag_value \<Rightarrow> cmd_vars \<Rightarrow> cmd_vars"

text \<open>pflag's \<open>StringVar\<close> and its siblings: a name, a default and the variable the value is stored in.\<close>

definition StringVar :: "string \<Rightarrow> string \<Rightarrow> (string \<Rightarrow> InputConfig \<Rightarrow> InputConfig) \<Rightarrow> flag" where
  "StringVar name def upd = \<lparr>fl_name = name, fl_default = StringValue def,
     fl_set = (\<lambda>v (f, c). case v of StringValue s \<Rightarrow> (f, upd s c) | _ \<Rightarrow> (f, c))\<rparr>"

definition DurationVar :: "string \<Rightarrow> duration \<Rightarrow> (duration \<Rightarrow> InputConfig \<Rightarrow> InputConfig) \<Rightarrow> flag" where
  "DurationVar name def upd = \<lparr>fl_name = name, fl_default = DurationValue def,
     fl_set = (\<lambda>v (f, c). case v of DurationValue s \<Rightarrow> (f, upd s c) | _ \<Rightarrow> (f, c))\<rparr>"

definition BoolVar :: "string \<Rightarrow> bool \<Rightarrow> (bool \<Rightarrow> InputConfig \<Rightarrow> InputConfig) \<Rightarrow> flag" where
  "BoolVar name def upd = \<lparr>fl_name = name, fl_default = BoolValue def,
     fl_set = (\<lambda>v (f, c). case v of BoolValue s \<Rightarrow> (f, upd s c) | _ \<Rightarrow> (f, c))\<rparr>"

definition Int64Var :: "string \<Rightarrow> int \<Rightarrow> (int \<Rightarrow> InputConfig \<Rightarrow> InputConfig) \<Rightarrow> flag" where
  "Int64Var name def upd = \<lparr>fl_name = name, fl_default = Int64Value def,
     fl_set = (\<lambda>v (f, c). case v of Int64Value s \<Rightarrow> (f, upd s c) | _ \<Rightarrow> (f, c))\<rparr>"

definition Uint64Var :: "string \<Rightarrow> nat \<Rightarrow> (nat \<Rightarrow> InputConfig \<Rightarrow> InputConfig) \<Rightarrow> flag" where
  "Uint64Var name def upd = \<lparr>fl_name = name, fl_default = Uint64Value def,
     fl_set = (\<lambda>v (f, c). case v of Uint64Value s \<Rightarrow> (f, upd s c) | _ \<Rightarrow> (f, c))\<rparr>"

definition IntVar :: "string \<Rightarrow> int \<Rightarrow> (int \<Rightarrow> InputConfig \<Rightarrow> InputConfig) \<Rightarrow> flag" where
  "IntVar name def upd = \<lparr>fl_name = name, fl_default = IntValue def,
     fl_set = (\<lambda>v (f, c). case v of IntValue s \<Rightarrow> (f, upd s c) | _ \<Rightarrow> (f, c))\<rparr>"

definition config_file_flag :: flag where
  "config_file_flag = \<lparr>fl_name = ''config-file'', fl_default = StringValue '''',
     fl_set = (\<lambda>v (f, c). case v of StringValue s \<Rightarrow> (s, c) | _ \<Rightarrow> (f, c))\<rparr>"

definition root_flags :: "flag list" where
  "root_flags =
     [config_file_flag,
      StringVar ''provider-rpc-host'' '''' (\<lambda>v c. c\<lparr>in_ProviderRPCHost := v\<rparr>),
      StringVar ''consumer-id'' '''' (\<lambda>v c. c\<lparr>in_ConsumerID := v\<rparr>),
      DurationVar ''refresh-rate'' Second (\<lambda>v c. c\<lparr>in_RefreshRate := v\<rparr>),
      BoolVar ''verbose'' False (\<lambda>v c. c\<lparr>in_Verbose := v\<rparr>),
      BoolVar ''disable-emojis'' False (\<lambda>v c. c\<lparr>in_DisableEmojis := v\<rparr>),
      StringVar ''chain-type'' ''cosmos-rpc'' (\<lambda>v c. c\<lparr>in_ChainType := v\<rparr>),
      DurationVar ''validators-refresh-rate'' (60 * Second) (\<lambda>v c. c\<lparr>in_ValidatorsRefreshRate := v\<rparr>),
      DurationVar ''chain-info-refresh-rate'' (5 * (60 * Second)) (\<lambda>v c. c\<lparr>in_ChainInfoRefreshRate := v\<rparr>),
      DurationVar ''upgrade-refresh-rate'' (30 * (60 * Second)) (\<lambda>v c. c\<lparr>in_UpgradeRefreshRate := v\<rparr>),
      DurationVar ''block-time-refresh-rate'' (30 * Second) (\<lambda>v c. c\<lparr>in_BlockTimeRefreshRate := v\<rparr>),
      StringVar ''lcd-host'' '''' (\<lambda>v c. c\<lparr>in_LCDHost := v\<rparr>),
      StringVar ''debug-file'' '''' (\<lambda>v c. c\<lparr>in_DebugFile := v\<rparr>),
      Int64Var ''halt-height'' 0 (\<lambda>v c. c\<lparr>in_HaltHeight := v\<rparr>),
      Uint64Var ''blocks-behind'' 1000 (\<lambda>v c. c\<lparr>in_BlocksBehind := v\<rparr>),
      StringVar ''timezone'' '''' (\<lambda>v c. c\<lparr>in_Timezone := v\<rparr>),
      BoolVar ''with-topology-api'' False (\<lambda>v c. c\<lparr>in_WithTopologyAPI := v\<rparr>),
      StringVar ''topology-listen-addr'' ''0.0.0.0:8080'' (\<lambda>v c. c\<lparr>in_TopologyListenAddr := v\<rparr>),
      StringVar ''database-path'' '''' (\<lambda>v c. c\<lparr>in_DatabasePath := v\<rparr>),
      Int64Var ''max-retain-blocks'' 10000 (\<lambda>v c. c\<lparr>in_MaxRetainBlocks := v\<rparr>),
      IntVar ''max-retain-days'' 7 (\<lambda>v c. c\<lparr>in_MaxRetainDays := v\<rparr>),
      BoolVar ''analytics'' False (\<lambda>v c. c\<lparr>in_AnalyticsMode := v\<rparr>),
      StringVar ''analytics-validator'' '''' (\<lambda>v c. c\<lparr>in_AnalyticsValidator := v\<rparr>),
      StringVar ''analytics-time-window'' ''24h'' (\<lambda>v c. c\<lparr>in_AnalyticsTimeWindow := v\<rparr>),
      StringVar ''analytics-command'' ''performance'' (\<lambda>v c. c\<lparr>in_AnalyticsCommand := v\<rparr>),
      DurationVar ''health-refresh-rate'' (5 * Second) (\<lambda>v c. c\<lparr>in_HealthRefreshRate := v\<rparr>),
      Int64Var ''health-window-blocks'' 1000 (\<lambda>v c. c\<lparr>in_HealthWindowBlocks := v\<rparr>),
      StringVar ''asn-database-path'' '''' (\<lambda>v c. c\<lparr>in_ASNDatabasePath := v\<rparr>)]"

text \<open>\<open>var config configPkg.InputConfig\<close>.\<close>

definition zero_InputConfig :: InputConfig where
  "zero_InputConfig =
     \<lparr>in_RPCHost = '''', in_ProviderRPCHost = '''', in_ConsumerID = '''', in_RefreshRate = 0, in_ValidatorsRefreshRate = 0,
      in_ChainInfoRefreshRate = 0, in_UpgradeRefreshRate = 0, in_BlockTimeRefreshRate = 0, in_ChainType = '''',
      in_Verbose = False, in_DisableEmojis = False, in_DebugFile = '''', in_HaltHeight = 0, in_BlocksBehind = 0,
      in_LCDHost = '''', in_Timezone = '''', in_WithTopologyAPI = False, in_TopologyListenAddr = '''',
      in_DatabasePath = '''', in_MaxRetainBlocks = 0, in_MaxRetainDays = 0, in_AnalyticsMode = False,
      in_AnalyticsValidator = '''', in_AnalyticsTimeWindow = '''', in_AnalyticsCommand = '''', in_HealthRefreshRate = 0,
      in_HealthWindowBlocks = 0, in_ASNDatabasePath = ''''\<rparr>"

text \<open>Declaring a flag stores its default; parsing stores the values given, in order.\<close>

definition declare_flags :: "flag list \<Rightarrow> cmd_vars \<Rightarrow> cmd_vars" where
  "declare_flags = fold (\<lambda>g. fl_set g (fl_default g))"

definition store_flags :: "flag list \<Rightarrow> (string \<times> flag_value) list \<Rightarrow> cmd_vars \<Rightarrow> cmd_vars" where
  "store_flags gs = fold (\<lambda>(name, v) vars.
     case List.find (\<lambda>g. fl_name g = name) gs of None \<Rightarrow> vars | Some g \<Rightarrow> fl_set g v vars)"


section \<open>Configuration file and environment\<close>

text \<open>Where viper is told to look: one file, or a name and type in directories tried in order; and the
  environment variable of each key.\<close>

datatype config_source = ConfigFile string | ConfigSearch string string "string list"

record viper_setup =
  vs_source :: config_source
  vs_prefix :: string
  vs_env :: "(string \<times> string) list"

datatype read_error = ConfigFileNotFound goerror | ReadError goerror

record viper =
  vp_ReadInConfig :: "read_error option"
  vp_ConfigFileUsed :: string
  vp_IsSet :: "string \<Rightarrow> bool"
  vp_GetString :: "string \<Rightarrow> string"
  vp_GetDuration :: "string \<Rightarrow> duration"
  vp_GetBool :: "string \<Rightarrow> bool"
  vp_GetInt64 :: "string \<Rightarrow> int"
  vp_GetUint64 :: "string \<Rightarrow> nat"
  vp_GetInt :: "string \<Rightarrow> int"

definition env_bindings :: "(string \<times> string) list" where
  "env_bindings =
     [(''rpc-host'', ''TMTOP_RPC_HOST''), (''provider-rpc-host'', ''TMTOP_PROVIDER_RPC_HOST''),
      (''consumer-id'', ''TMTOP_CONSUMER_ID''), (''refresh-rate'', ''TMTOP_REFRESH_RATE''),
      (''validators-refresh-rate'', ''TMTOP_VALIDATORS_REFRESH_RATE''),
      (''chain-info-refresh-rate'', ''TMTOP_CHAIN_INFO_REFRESH_RATE''),
      (''upgrade-refresh-rate'', ''TMTOP_UPGRADE_REFRESH_RATE''),
      (''block-time-refresh-rate'', ''TMTOP_BLOCK_TIME_REFRESH_RATE''), (''chain-type'', ''TMTOP_CHAIN_TYPE''),
      (''verbose'', ''TMTOP_VERBOSE''), (''disable-emojis'', ''TMTOP_DISABLE_EMOJIS''), (''debug-file'', ''TMTOP_DEBUG_FILE''),
      (''halt-height'', ''TMTOP_HALT_HEIGHT''), (''blocks-behind'', ''TMTOP_BLOCKS_BEHIND''), (''lcd-host'', ''TMTOP_LCD_HOST''),
      (''timezone'', ''TMTOP_TIMEZONE''), (''with-topology-api'', ''TMTOP_WITH_TOPOLOGY_API''),
      (''topology-listen-addr'', ''TMTOP_TOPOLOGY_LISTEN_ADDR''), (''database-path'', ''TMTOP_DATABASE_PATH''),
      (''max-retain-blocks'', ''TMTOP_MAX_RETAIN_BLOCKS''), (''max-retain-days'', ''TMTOP_MAX_RETAIN_DAYS''),
      (''health-refresh-rate'', ''TMTOP_HEALTH_REFRESH_RATE''), (''health-window-blocks'', ''TMTOP_HEALTH_WINDOW_BLOCKS''),
      (''asn-database-path'', ''TMTOP_ASN_DATABASE_PATH'')]"

text \<open>The field of the configuration each key is copied to, in the order of the code.\<close>

definition config_keys :: "viper \<Rightarrow> (string \<times> (InputConfig \<Rightarrow> InputConfig)) list" where
  "config_keys v =
     [(''rpc-host'', \<lambda>c. c\<lparr>in_RPCHost := vp_GetString v ''rpc-host''\<rparr>),
      (''provider-rpc-host'', \<lambda>c. c\<lparr>in_ProviderRPCHost := vp_GetString v ''provider-rpc-host''\<rparr>),
      (''consumer-id'', \<lambda>c. c\<lparr>in_ConsumerID := vp_GetString v ''consumer-id''\<rparr>),
      (''refresh-rate'', \<lambda>c. c\<lparr>in_RefreshRate := vp_GetDuration v ''refresh-rate''\<rparr>),
      (''validators-refresh-rate'', \<lambda>c. c\<lparr>in_ValidatorsRefreshRate := vp_GetDuration v ''validators-refresh-rate''\<rparr>),
      (''chain-info-refresh-rate'', \<lambda>c. c\<lparr>in_ChainInfoRefreshRate := vp_GetDuration v ''chain-info-refresh-rate''\<rparr>),
      (''upgrade-refresh-rate'', \<lambda>c. c\<lparr>in_UpgradeRefreshRate := vp_GetDuration v ''upgrade-refresh-rate''\<rparr>),
      (''block-time-refresh-rate'', \<lambda>c. c\<lparr>in_BlockTimeRefreshRate := vp_GetDuration v ''block-time-refresh-rate''\<rparr>),
      (''chain-type'', \<lambda>c. c\<lparr>in_ChainType := vp_GetString v ''chain-type''\<rparr>),
      (''verbose'', \<lambda>c. c\<lparr>in_Verbose := vp_GetBool v ''verbose''\<rparr>),
      (''disable-emojis'', \<lambda>c. c\<lparr>in_DisableEmojis := vp_GetBool v ''disable-emojis''\<rparr>),
      (''debug-file'', \<lambda>c. c\<lparr>in_DebugFile := vp_GetString v ''debug-file''\<rparr>),
      (''halt-height'', \<lambda>c. c\<lparr>in_HaltHeight := vp_GetInt64 v ''halt-height''\<rparr>),
      (''blocks-behind'', \<lambda>c. c\<lparr>in_BlocksBehind := vp_GetUint64 v ''blocks-behind''\<rparr>),
      (''lcd-host'', \<lambda>c. c\<lparr>in_LCDHost := vp_GetString v ''lcd-host''\<rparr>),
      (''timezone'', \<lambda>c. c\<lparr>in_Timezone := vp_GetString v ''timezone''\<rparr>),
      (''with-topology-api'', \<lambda>c. c\<lparr>in_WithTopologyAPI := vp_GetBool v ''with-topology-api''\<rparr>),
      (''topology-listen-addr'', \<lambda>c. c\<lparr>in_TopologyListenAddr := vp_GetString v ''topology-listen-addr''\<rparr>),
      (''database-path'', \<lambda>c. c\<lparr>in_DatabasePath := vp_GetString v ''database-path''\<rparr>),
      (''max-retain-blocks'', \<lambda>c. c\<lparr>in_MaxRetainBlocks := vp_GetInt64 v ''max-retain-blocks''\<rparr>),
      (''max-retain-days'', \<lambda>c. c\<lparr>in_MaxRetainDays := vp_GetInt v ''max-retain-days''\<rparr>),
      (''health-refresh-rate'', \<lambda>c. c\<lparr>in_HealthRefreshRate := vp_GetDuration v ''health-refresh-rate''\<rparr>),
      (''health-window-blocks'', \<lambda>c. c\<lparr>in_HealthWindowBlocks := vp_GetInt64 v ''health-window-blocks''\<rparr>),
      (''asn-database-path'', \<lambda>c. c\<lparr>in_ASNDatabasePath := vp_GetString v ''asn-database-path''\<rparr>)]"

definition overlay :: "viper \<Rightarrow> InputConfig \<Rightarrow> InputConfig" where
  "overlay v = fold (\<lambda>(key, upd) c. if vp_IsSet v key then upd c else c) (config_keys v)"

definition config_source_of :: "(goerror + string) \<Rightarrow> string \<Rightarrow> goerror + config_source" where
  "config_source_of userHomeDir configFile =
     (if configFile \<noteq> '''' then Inr (ConfigFile configFile)
      else case userHomeDir of
        Inl err \<Rightarrow> Inl (''locating user home directory: '' @ err)
      | Inr homeDir \<Rightarrow> Inr (ConfigSearch ''config'' ''toml'' [path_Join (path_Join homeDir ''.config'') ''tmtop'', ''.'']))"

definition loadConfigFile ::
    "(viper_setup \<Rightarrow> viper) \<Rightarrow> (goerror + string) \<Rightarrow> string \<Rightarrow> InputConfig \<Rightarrow> string list \<times> (goerror + InputConfig)" where
  "loadConfigFile load userHomeDir configFile config =
     (let out = [''Loading config file: '' @ configFile]
      in case config_source_of userHomeDir configFile of
           Inl err \<Rightarrow> (out, Inl err)
         | Inr src \<Rightarrow>
             (let v = load \<lparr>vs_source = src, vs_prefix = ''TMTOP'', vs_env = env_bindings\<rparr>;
                  out' = out @ (if vp_ConfigFileUsed v \<noteq> '''' then [''Loaded config file: '' @ vp_ConfigFileUsed v] else [])
              in case vp_ReadInConfig v of
                   Some (ReadError err) \<Rightarrow>
                     (out, Inl (''reading config file '' @ vp_ConfigFileUsed v @ '': '' @ err))
                 | Some (ConfigFileNotFound err) \<Rightarrow> (out', Inr (overlay v config))
                 | None \<Rightarrow> (out', Inr (overlay v config))))"

section \<open>Start\<close>

text \<open>How a run of the command ends up: exit status 1 with a fatal entry (message and error) of the default logger on
  standard output, or of the application's logger, which only reaches the mailbox of the display and the debug
  file; a panic; the help or version text of cobra; or an application with its configuration and, unless the store
  is the no-op, the configuration of its database.\<close>

datatype 'tz launch =
    Fatal string goerror
  | FatalInLog string goerror
  | Panicked goerror
  | HelpShown
  | Launched "'tz Config" "db_Config option"

definition set_RPCHost :: "string list \<Rightarrow> InputConfig \<Rightarrow> InputConfig" where
  "set_RPCHost args c =
     (if length args > 0 \<and> hd args \<noteq> '''' then c\<lparr>in_RPCHost := hd args\<rparr>
      else if in_RPCHost c = '''' then c\<lparr>in_RPCHost := ''http://localhost:26657''\<rparr>
      else c)"

text \<open>The surroundings of the process.\<close>

record ('s, 'tz) os_env =
  os_load :: "viper_setup \<Rightarrow> viper"
  os_home :: "goerror + string"
  os_local :: 'tz
  os_LoadLocation :: "string \<Rightarrow> goerror + 'tz"
  os_log :: log_env
  os_sqlite :: "'s sqlite_env"

text \<open>The opening of the log and of the store at the beginning of \<open>NewApp\<close>.\<close>

definition open_store :: "('s, 'tz) os_env \<Rightarrow> 'tz Config \<Rightarrow> 's schema_db \<Rightarrow> 'tz launch \<times> 's schema_db" where
  "open_store P config d =
     (case NewWriter (os_log P) () config of
        None \<Rightarrow> (Panicked ''cannot open the debug file'', d)
      | Some _ \<Rightarrow>
          (case store_config (os_home P) config of
             None \<Rightarrow> (Launched config None, d)
           | Some dbConfig \<Rightarrow>
               (case db_New (os_sqlite P) dbConfig d of
                  (d, Some err) \<Rightarrow> (FatalInLog ''failed to initialize database'' err, d)
                | (d, None) \<Rightarrow> (Launched config (Some dbConfig), d))))"

definition Execute ::
    "('s, 'tz) os_env \<Rightarrow> InputConfig \<Rightarrow> string list \<Rightarrow> string \<Rightarrow> 's schema_db \<Rightarrow> string list \<times> 'tz launch \<times> 's schema_db" where
  "Execute P inputConfig args configFile d =
     (case loadConfigFile (os_load P) (os_home P) configFile inputConfig of
        (out, Inl err) \<Rightarrow> (out, Fatal ''Could not load configuration file'' err, d)
      | (out, Inr inputConfig) \<Rightarrow>
          (case ParseAndValidateConfig (os_local P) (os_LoadLocation P) (set_RPCHost args inputConfig) of
             Inl err \<Rightarrow> (out, Panicked err, d)
           | Inr config \<Rightarrow> (out, open_store P config d)))"

text \<open>What cobra makes of the command line: an error, its own output, or the flags given and the
  positional arguments.\<close>

datatype command_line = CobraError goerror | CobraOutput | CobraRun "(string \<times> flag_value) list" "string list"

definition tmtop_main :: "('s, 'tz) os_env \<Rightarrow> command_line \<Rightarrow> 's schema_db \<Rightarrow> string list \<times> 'tz launch \<times> 's schema_db" where
  "tmtop_main P cl d =
     (let vars = declare_flags root_flags ('''', zero_InputConfig)
      in case cl of
           CobraError err \<Rightarrow> ([], Fatal ''Could not start application'' err, d)
         | CobraOutput \<Rightarrow> ([], HelpShown, d)
         | CobraRun given args \<Rightarrow>
             (let (configFile, config) = store_flags root_flags given vars
              in Execute P config args configFile d))"


section \<open>Specification\<close>

text \<open>The settings viper has found for a run, and what a key contributes to the configuration: its value where
  viper has one, else what the variable held.\<close>

definition settings :: "('s, 'tz) os_env \<Rightarrow> string \<Rightarrow> viper" where
  "settings P configFile =
     os_load P \<lparr>vs_source = (case config_source_of (os_home P) configFile of Inr src \<Rightarrow> src | Inl _ \<Rightarrow> ConfigFile configFile),
       vs_prefix = ''TMTOP'', vs_env = env_bindings\<rparr>"

definition chosen :: "viper \<Rightarrow> string \<Rightarrow> (viper \<Rightarrow> string \<Rightarrow> 'a) \<Rightarrow> 'a \<Rightarrow> 'a" where
  "chosen v key get old = (if vp_IsSet v key then get v key else old)"

text \<open>The configuration of a command line without flags.\<close>

definition default_InputConfig :: InputConfig where
  "default_InputConfig =
     \<lparr>in_RPCHost = '''', in_ProviderRPCHost = '''', in_ConsumerID = '''', in_RefreshRate = Second,
      in_ValidatorsRefreshRate = 60 * Second, in_ChainInfoRefreshRate = 300 * Second,
      in_UpgradeRefreshRate = 1800 * Second, in_BlockTimeRefreshRate = 30 * Second, in_ChainType = ''cosmos-rpc'',
      in_Verbose = False, in_DisableEmojis = False, in_DebugFile = '''', in_HaltHeight = 0, in_BlocksBehind = 1000,
      in_LCDHost = '''', in_Timezone = '''', in_WithTopologyAPI = False, in_TopologyListenAddr = ''0.0.0.0:8080'',
      in_DatabasePath = '''', in_MaxRetainBlocks = 10000, in_MaxRetainDays = 7, in_AnalyticsMode = False,
      in_AnalyticsValidator = '''', in_AnalyticsTimeWindow = ''24h'', in_AnalyticsCommand = ''performance'',
      in_HealthRefreshRate = 5 * Second, in_HealthWindowBlocks = 1000, in_ASNDatabasePath = ''''\<rparr>"

definition no_viper :: viper where
  "no_viper =
     \<lparr>vp_ReadInConfig = Some (ConfigFileNotFound ''not found''), vp_ConfigFileUsed = '''', vp_IsSet = (\<lambda>_. False),
      vp_GetString = (\<lambda>_. ''''), vp_GetDuration = (\<lambda>_. 0), vp_GetBool = (\<lambda>_. False), vp_GetInt64 = (\<lambda>_. 0),
      vp_GetUint64 = (\<lambda>_. 0), vp_GetInt = (\<lambda>_. 0)\<rparr>"

text \<open>A configuration file that sets the refresh rate to two seconds.\<close>

definition sample_viper :: viper where
  "sample_viper = no_viper\<lparr>vp_ReadInConfig := None, vp_IsSet := (\<lambda>k. k = ''refresh-rate''), vp_GetDuration := (\<lambda>_. 2 * Second)\<rparr>"

definition sample_os :: "viper \<Rightarrow> (nat, string) os_env" where
  "sample_os v =
     \<lparr>os_load = (\<lambda>_. v), os_home = Inr ''/home/u'', os_local = ''local'', os_LoadLocation = Inr,
      os_log = \<lparr>lg_open = Inl, lg_write = (\<lambda>_. None), lg_sync = (\<lambda>_. None)\<rparr>,
      os_sqlite = \<lparr>sl_ddl = (\<lambda>_ s. Inr (Suc s)), sl_mkdir = (\<lambda>_. None), sl_open = (\<lambda>_. None), sl_exec = (\<lambda>_. None),
        sl_count = (\<lambda>_. None), sl_begin = (\<lambda>_. None), sl_commit = (\<lambda>_. None)\<rparr>\<rparr>"

section \<open>Lemmas\<close>

lemma declared_defaults: "declare_flags root_flags ('''', zero_InputConfig) = ('''', default_InputConfig)"
  by (simp add: declare_flags_def root_flags_def config_file_flag_def StringVar_def DurationVar_def BoolVar_def Int64Var_def
      Uint64Var_def IntVar_def zero_InputConfig_def default_InputConfig_def)

text \<open>A guarded copy writes the chosen value.\<close>

lemma guarded_copy:
  "(if vp_IsSet v ''rpc-host'' then c\<lparr>in_RPCHost := vp_GetString v ''rpc-host''\<rparr> else c) = c\<lparr>in_RPCHost := chosen v ''rpc-host'' vp_GetString (in_RPCHost c)\<rparr>"
  "(if vp_IsSet v ''provider-rpc-host'' then c\<lparr>in_ProviderRPCHost := vp_GetString v ''provider-rpc-host''\<rparr> else c) = c\<lparr>in_ProviderRPCHost := chosen v ''provider-rpc-host'' vp_GetString (in_ProviderRPCHost c)\<rparr>"
  "(if vp_IsSet v ''consumer-id'' then c\<lparr>in_ConsumerID := vp_GetString v ''consumer-id''\<rparr> else c) = c\<lparr>in_ConsumerID := chosen v ''consumer-id'' vp_GetString (in_ConsumerID c)\<rparr>"
  "(if vp_IsSet v ''refresh-rate'' then c\<lparr>in_RefreshRate := vp_GetDuration v ''refresh-rate''\<rparr> else c) = c\<lparr>in_RefreshRate := chosen v ''refresh-rate'' vp_GetDuration (in_RefreshRate c)\<rparr>"
  "(if vp_IsSet v ''validators-refresh-rate'' then c\<lparr>in_ValidatorsRefreshRate := vp_GetDuration v ''validators-refresh-rate''\<rparr> else c) = c\<lparr>in_ValidatorsRefreshRate := chosen v ''validators-refresh-rate'' vp_GetDuration (in_ValidatorsRefreshRate c)\<rparr>"
  "(if vp_IsSet v ''chain-info-refresh-rate'' then c\<lparr>in_ChainInfoRefreshRate := vp_GetDuration v ''chain-info-refresh-rate''\<rparr> else c) = c\<lparr>in_ChainInfoRefreshRate := chosen v ''chain-info-refresh-rate'' vp_GetDuration (in_ChainInfoRefreshRate c)\<rparr>"
  "(if vp_IsSet v ''upgrade-refresh-rate'' then c\<lparr>in_UpgradeRefreshRate := vp_GetDuration v ''upgrade-refresh-rate''\<rparr> else c) = c\<lparr>in_UpgradeRefreshRate := chosen v ''upgrade-refresh-rate'' vp_GetDuration (in_UpgradeRefreshRate c)\<rparr>"
  "(if vp_IsSet v ''block-time-refresh-rate'' then c\<lparr>in_BlockTimeRefreshRate := vp_GetDuration v ''block-time-refresh-rate''\<rparr> else c) = c\<lparr>in_BlockTimeRefreshRate := chosen v ''block-time-refresh-rate'' vp_GetDuration (in_BlockTimeRefreshRate c)\<rparr>"
  "(if vp_IsSet v ''chain-type'' then c\<lparr>in_ChainType := vp_GetString v ''chain-type''\<rparr> else c) = c\<lparr>in_ChainType := chosen v ''chain-type'' vp_GetString (in_ChainType c)\<rparr>"
  "(if vp_IsSet v ''verbose'' then c\<lparr>in_Verbose := vp_GetBool v ''verbose''\<rparr> else c) = c\<lparr>in_Verbose := chosen v ''verbose'' vp_GetBool (in_Verbose c)\<rparr>"
  "(if vp_IsSet v ''disable-emojis'' then c\<lparr>in_DisableEmojis := vp_GetBool v ''disable-emojis''\<rparr> else c) = c\<lparr>in_DisableEmojis := chosen v ''disable-emojis'' vp_GetBool (in_DisableEmojis c)\<rparr>"
  "(if vp_IsSet v ''debug-file'' then c\<lparr>in_DebugFile := vp_GetString v ''debug-file''\<rparr> else c) = c\<lparr>in_DebugFile := chosen v ''debug-file'' vp_GetString (in_DebugFile c)\<rparr>"
  "(if vp_IsSet v ''halt-height'' then c\<lparr>in_HaltHeight := vp_GetInt64 v ''halt-height''\<rparr> else c) = c\<lparr>in_HaltHeight := chosen v ''halt-height'' vp_GetInt64 (in_HaltHeight c)\<rparr>"
  "(if vp_IsSet v ''blocks-behind'' then c\<lparr>in_BlocksBehind := vp_GetUint64 v ''blocks-behind''\<rparr> else c) = c\<lparr>in_BlocksBehind := chosen v ''blocks-behind'' vp_GetUint64 (in_BlocksBehind c)\<rparr>"
  "(if vp_IsSet v ''lcd-host'' then c\<lparr>in_LCDHost := vp_GetString v ''lcd-host''\<rparr> else c) = c\<lparr>in_LCDHost := chosen v ''lcd-host'' vp_GetString (in_LCDHost c)\<rparr>"
  "(if vp_IsSet v ''timezone'' then c\<lparr>in_Timezone := vp_GetString v ''timezone''\<rparr> else c) = c\<lparr>in_Timezone := chosen v ''timezone'' vp_GetString (in_Timezone c)\<rparr>"
  "(if vp_IsSet v ''with-topology-api'' then c\<lparr>in_WithTopologyAPI := vp_GetBool v ''with-topology-api''\<rparr> else c) = c\<lparr>in_WithTopologyAPI := chosen v ''with-topology-api'' vp_GetBool (in_WithTopologyAPI c)\<rparr>"
  "(if vp_IsSet v ''topology-listen-addr'' then c\<lparr>in_TopologyListenAddr := vp_GetString v ''topology-listen-addr''\<rparr> else c) = c\<lparr>in_TopologyListenAddr := chosen v ''topology-listen-addr'' vp_GetString (in_TopologyListenAddr c)\<rparr>"
  "(if vp_IsSet v ''database-path'' then c\<lparr>in_DatabasePath := vp_GetString v ''database-path''\<rparr> else c) = c\<lparr>in_DatabasePath := chosen v ''database-path'' vp_GetString (in_DatabasePath c)\<rparr>"
  "(if vp_IsSet v ''max-retain-blocks'' then c\<lparr>in_MaxRetainBlocks := vp_GetInt64 v ''max-retain-blocks''\<rparr> else c) = c\<lparr>in_MaxRetainBlocks := chosen v ''max-retain-blocks'' vp_GetInt64 (in_MaxRetainBlocks c)\<rparr>"
  "(if vp_IsSet v ''max-retain-days'' then c\<lparr>in_MaxRetainDays := vp_GetInt v ''max-retain-days''\<rparr> else c) = c\<lparr>in_MaxRetainDays := chosen v ''max-retain-days'' vp_GetInt (in_MaxRetainDays c)\<rparr>"
  "(if vp_IsSet v ''health-refresh-rate'' then c\<lparr>in_HealthRefreshRate := vp_GetDuration v ''health-refresh-rate''\<rparr> else c) = c\<lparr>in_HealthRefreshRate := chosen v ''health-refresh-rate'' vp_GetDuration (in_HealthRefreshRate c)\<rparr>"
  "(if vp_IsSet v ''health-window-blocks'' then c\<lparr>in_HealthWindowBlocks := vp_GetInt64 v ''health-window-blocks''\<rparr> else c) = c\<lparr>in_HealthWindowBlocks := chosen v ''health-window-blocks'' vp_GetInt64 (in_HealthWindowBlocks c)\<rparr>"
  "(if vp_IsSet v ''asn-database-path'' then c\<lparr>in_ASNDatabasePath := vp_GetString v ''asn-database-path''\<rparr> else c) = c\<lparr>in_ASNDatabasePath := chosen v ''asn-database-path'' vp_GetString (in_ASNDatabasePath c)\<rparr>"
  by (simp_all add: chosen_def)

lemma overlay_spec:
  "overlay v c = c\<lparr>in_RPCHost := chosen v ''rpc-host'' vp_GetString (in_RPCHost c),
     in_ProviderRPCHost := chosen v ''provider-rpc-host'' vp_GetString (in_ProviderRPCHost c),
     in_ConsumerID := chosen v ''consumer-id'' vp_GetString (in_ConsumerID c),
     in_RefreshRate := chosen v ''refresh-rate'' vp_GetDuration (in_RefreshRate c),
     in_ValidatorsRefreshRate := chosen v ''validators-refresh-rate'' vp_GetDuration (in_ValidatorsRefreshRate c),
     in_ChainInfoRefreshRate := chosen v ''chain-info-refresh-rate'' vp_GetDuration (in_ChainInfoRefreshRate c),
     in_UpgradeRefreshRate := chosen v ''upgrade-refresh-rate'' vp_GetDuration (in_UpgradeRefreshRate c),
     in_BlockTimeRefreshRate := chosen v ''block-time-refresh-rate'' vp_GetDuration (in_BlockTimeRefreshRate c),
     in_ChainType := chosen v ''chain-type'' vp_GetString (in_ChainType c),
     in_Verbose := chosen v ''verbose'' vp_GetBool (in_Verbose c),
     in_DisableEmojis := chosen v ''disable-emojis'' vp_GetBool (in_DisableEmojis c),
     in_DebugFile := chosen v ''debug-file'' vp_GetString (in_DebugFile c),
     in_HaltHeight := chosen v ''halt-height'' vp_GetInt64 (in_HaltHeight c),
     in_BlocksBehind := chosen v ''blocks-behind'' vp_GetUint64 (in_BlocksBehind c),
     in_LCDHost := chosen v ''lcd-host'' vp_GetString (in_LCDHost c),
     in_Timezone := chosen v ''timezone'' vp_GetString (in_Timezone c),
     in_WithTopologyAPI := chosen v ''with-topology-api'' vp_GetBool (in_WithTopologyAPI c),
     in_TopologyListenAddr := chosen v ''topology-listen-addr'' vp_GetString (in_TopologyListenAddr c),
     in_DatabasePath := chosen v ''database-path'' vp_GetString (in_DatabasePath c),
     in_MaxRetainBlocks := chosen v ''max-retain-blocks'' vp_GetInt64 (in_MaxRetainBlocks c),
     in_MaxRetainDays := chosen v ''max-retain-days'' vp_GetInt (in_MaxRetainDays c),
     in_HealthRefreshRate := chosen v ''health-refresh-rate'' vp_GetDuration (in_HealthRefreshRate c),
     in_HealthWindowBlocks := chosen v ''health-window-blocks'' vp_GetInt64 (in_HealthWindowBlocks c),
     in_ASNDatabasePath := chosen v ''asn-database-path'' vp_GetString (in_ASNDatabasePath c)\<rparr>"
  by (simp add: overlay_def config_keys_def guarded_copy)

lemma accepted_fields:
  assumes "ParseAndValidateConfig local ll i = Inr c"
  shows "cfg_RPCHost c = in_RPCHost i
    \<and> cfg_ProviderRPCHost c = in_ProviderRPCHost i
    \<and> cfg_ConsumerID c = in_ConsumerID i
    \<and> cfg_RefreshRate c = in_RefreshRate i
    \<and> cfg_ValidatorsRefreshRate c = in_ValidatorsRefreshRate i
    \<and> cfg_ChainInfoRefreshRate c = in_ChainInfoRefreshRate i
    \<and> cfg_UpgradeRefreshRate c = in_UpgradeRefreshRate i
    \<and> cfg_BlockTimeRefreshRate c = in_BlockTimeRefreshRate i
    \<and> cfg_Verbose c = in_Verbose i
    \<and> cfg_DisableEmojis c = in_DisableEmojis i
    \<and> cfg_DebugFile c = in_DebugFile i
    \<and> cfg_HaltHeight c = in_HaltHeight i
    \<and> cfg_BlocksBehind c = in_BlocksBehind i
    \<and> cfg_LCDHost c = in_LCDHost i
    \<and> cfg_WithTopologyAPI c = in_WithTopologyAPI i
    \<and> cfg_TopologyListenAddr c = in_TopologyListenAddr i
    \<and> cfg_DatabasePath c = in_DatabasePath i
    \<and> cfg_MaxRetainBlocks c = in_MaxRetainBlocks i
    \<and> cfg_MaxRetainDays c = in_MaxRetainDays i
    \<and> cfg_AnalyticsMode c = in_AnalyticsMode i
    \<and> cfg_AnalyticsValidator c = in_AnalyticsValidator i
    \<and> cfg_AnalyticsTimeWindow c = in_AnalyticsTimeWindow i
    \<and> cfg_AnalyticsCommand c = in_AnalyticsCommand i
    \<and> cfg_HealthRefreshRate c = in_HealthRefreshRate i
    \<and> cfg_HealthWindowBlocks c = in_HealthWindowBlocks i
    \<and> cfg_ASNDatabasePath c = in_ASNDatabasePath i"
  using assms by (auto simp: ParseAndValidateConfig_def split: sum.splits if_splits)


lemma Execute_Launched:
  assumes "Execute P i args configFile d = (out, Launched c st, d')"
  shows "ParseAndValidateConfig (os_local P) (os_LoadLocation P) (set_RPCHost args (overlay (settings P configFile) i)) = Inr c
    \<and> open_store P c d = (Launched c st, d')"
proof -
  obtain out' r where l: "loadConfigFile (os_load P) (os_home P) configFile i = (out', r)" by fastforce
  with assms obtain i' where r: "r = Inr i'" by (cases r) (simp_all add: Execute_def)
  have "i' = overlay (settings P configFile) i"
    using l r by (auto simp: loadConfigFile_def settings_def Let_def split: sum.splits option.splits read_error.splits)
  moreover have "ParseAndValidateConfig (os_local P) (os_LoadLocation P) (set_RPCHost args i') = Inr c
      \<and> open_store P c d = (Launched c st, d')"
    using assms l r by (auto simp: Execute_def open_store_def split: sum.splits option.splits prod.splits)
  ultimately show ?thesis by simp
qed

lemma set_RPCHost_fields:
  "\<exists>h. set_RPCHost args i = i\<lparr>in_RPCHost := h\<rparr> \<and> h \<noteq> []
     \<and> h = (if args \<noteq> [] \<and> hd args \<noteq> [] then hd args else if in_RPCHost i = [] then ''http://localhost:26657'' else in_RPCHost i)"
  by (auto simp: set_RPCHost_def)

text \<open>A store is opened only on a database that already has the second migration.\<close>

lemma open_store_unmigrated:
  assumes "''002_drop_operator_unique'' \<notin> set (sd_versions d)" "cfg_DebugFile config = []" "store_config (os_home P) config \<noteq> None"
  shows "\<exists>err d'. open_store P config d = (FatalInLog ''failed to initialize database'' err, d')
    \<and> ''002_drop_operator_unique'' \<notin> set (sd_versions d')"
proof -
  obtain dbc where dbc: "store_config (os_home P) config = Some dbc" using assms(3) by blast
  obtain d' err where "db_New (os_sqlite P) dbc d = (d', Some err)" "''002_drop_operator_unique'' \<notin> set (sd_versions d')"
    using db_New_fails [OF assms(1)] by blast
  then show ?thesis by (simp add: open_store_def NewWriter_def Let_def assms(2) dbc)
qed

lemma unset_overlay: "\<forall>k. \<not> vp_IsSet v k \<Longrightarrow> overlay v c = c"
  by (simp add: overlay_spec chosen_def)

text \<open>A command line whose flags leave the variables at \<open>i\<close>, when there is nothing in the configuration file and
  the environment.\<close>

lemma loadConfigFile_ok:
  assumes "config_source_of (os_home P) f = Inr src" "\<forall>err. vp_ReadInConfig (settings P f) \<noteq> Some (ReadError err)"
  shows "\<exists>out. loadConfigFile (os_load P) (os_home P) f i = (out, Inr (overlay (settings P f) i))"
proof -
  have v: "os_load P \<lparr>vs_source = src, vs_prefix = ''TMTOP'', vs_env = env_bindings\<rparr> = settings P f"
    by (simp add: settings_def assms(1))
  show ?thesis
    using assms(2) by (auto simp: loadConfigFile_def assms(1) Let_def v split: option.split read_error.split)
qed

lemma Execute_unset:
  assumes "\<forall>k. \<not> vp_IsSet (settings P []) k" "\<forall>err. vp_ReadInConfig (settings P []) \<noteq> Some (ReadError err)" "os_home P = Inr home"
    and "ParseAndValidateConfig (os_local P) (os_LoadLocation P) (set_RPCHost args i) = Inr c"
  shows "\<exists>out. Execute P i args [] d = (out, open_store P c d)"
proof -
  obtain src where "config_source_of (os_home P) [] = Inr src" by (simp add: config_source_of_def assms(3))
  then obtain out where "loadConfigFile (os_load P) (os_home P) [] i = (out, Inr (overlay (settings P []) i))"
    using loadConfigFile_ok [OF _ assms(2)] by blast
  with assms(4) show ?thesis by (simp add: Execute_def unset_overlay [OF assms(1)])
qed

lemma plain_accepted:
  assumes "in_ChainType i = ''cosmos-rpc''" "in_ProviderRPCHost i = []" "in_BlocksBehind i = 1000" "in_Timezone i = []"
    "in_DebugFile i = []"
  shows "\<exists>c. ParseAndValidateConfig l ll (set_RPCHost args i) = Inr c \<and> cfg_DebugFile c = []
    \<and> cfg_MaxRetainBlocks c = in_MaxRetainBlocks i \<and> cfg_MaxRetainDays c = in_MaxRetainDays i"
proof -
  obtain h where "set_RPCHost args i = i\<lparr>in_RPCHost := h\<rparr>" using set_RPCHost_fields by blast
  with assms show ?thesis by (simp add: ParseAndValidateConfig_def ParseChainType_def)
qed

section \<open>Properties\<close>

text \<open>C15: where the configuration of a started application comes from. The RPC host is the positional argument, else
  the configured one, else localhost, and is never empty; every other field that has a key is the value of the
  configuration file or the environment where there is one (zero values included) and that of the flag only
  otherwise; the analytics settings come from the flags alone.\<close>

theorem settings_precedence:
  assumes "Execute P i args configFile d = (out, Launched c st, d')" "v = settings P configFile"
  shows "cfg_RPCHost c \<noteq> ''''
    \<and> cfg_RPCHost c = (if args \<noteq> [] \<and> hd args \<noteq> '''' then hd args
        else let h = chosen v ''rpc-host'' vp_GetString (in_RPCHost i) in if h = '''' then ''http://localhost:26657'' else h)
    \<and> cfg_ProviderRPCHost c = chosen v ''provider-rpc-host'' vp_GetString (in_ProviderRPCHost i)
    \<and> cfg_ConsumerID c = chosen v ''consumer-id'' vp_GetString (in_ConsumerID i)
    \<and> cfg_RefreshRate c = chosen v ''refresh-rate'' vp_GetDuration (in_RefreshRate i)
    \<and> cfg_ValidatorsRefreshRate c = chosen v ''validators-refresh-rate'' vp_GetDuration (in_ValidatorsRefreshRate i)
    \<and> cfg_ChainInfoRefreshRate c = chosen v ''chain-info-refresh-rate'' vp_GetDuration (in_ChainInfoRefreshRate i)
    \<and> cfg_UpgradeRefreshRate c = chosen v ''upgrade-refresh-rate'' vp_GetDuration (in_UpgradeRefreshRate i)
    \<and> cfg_BlockTimeRefreshRate c = chosen v ''block-time-refresh-rate'' vp_GetDuration (in_BlockTimeRefreshRate i)
    \<and> cfg_Verbose c = chosen v ''verbose'' vp_GetBool (in_Verbose i)
    \<and> cfg_DisableEmojis c = chosen v ''disable-emojis'' vp_GetBool (in_DisableEmojis i)
    \<and> cfg_DebugFile c = chosen v ''debug-file'' vp_GetString (in_DebugFile i)
    \<and> cfg_HaltHeight c = chosen v ''halt-height'' vp_GetInt64 (in_HaltHeight i)
    \<and> cfg_BlocksBehind c = chosen v ''blocks-behind'' vp_GetUint64 (in_BlocksBehind i)
    \<and> cfg_LCDHost c = chosen v ''lcd-host'' vp_GetString (in_LCDHost i)
    \<and> cfg_WithTopologyAPI c = chosen v ''with-topology-api'' vp_GetBool (in_WithTopologyAPI i)
    \<and> cfg_TopologyListenAddr c = chosen v ''topology-listen-addr'' vp_GetString (in_TopologyListenAddr i)
    \<and> cfg_DatabasePath c = chosen v ''database-path'' vp_GetString (in_DatabasePath i)
    \<and> cfg_MaxRetainBlocks c = chosen v ''max-retain-blocks'' vp_GetInt64 (in_MaxRetainBlocks i)
    \<and> cfg_MaxRetainDays c = chosen v ''max-retain-days'' vp_GetInt (in_MaxRetainDays i)
    \<and> cfg_HealthRefreshRate c = chosen v ''health-refresh-rate'' vp_GetDuration (in_HealthRefreshRate i)
    \<and> cfg_HealthWindowBlocks c = chosen v ''health-window-blocks'' vp_GetInt64 (in_HealthWindowBlocks i)
    \<and> cfg_ASNDatabasePath c = chosen v ''asn-database-path'' vp_GetString (in_ASNDatabasePath i)
    \<and> ParseChainType (chosen v ''chain-type'' vp_GetString (in_ChainType i)) = Inr (cfg_ChainType c)
    \<and> (let tz = chosen v ''timezone'' vp_GetString (in_Timezone i)
       in (if tz = [] then Inr (os_local P) else os_LoadLocation P tz) = Inr (cfg_Timezone c))
    \<and> cfg_AnalyticsMode c = in_AnalyticsMode i \<and> cfg_AnalyticsValidator c = in_AnalyticsValidator i
    \<and> cfg_AnalyticsTimeWindow c = in_AnalyticsTimeWindow i \<and> cfg_AnalyticsCommand c = in_AnalyticsCommand i"
proof -
  obtain h where h: "set_RPCHost args (overlay v i) = (overlay v i)\<lparr>in_RPCHost := h\<rparr>" "h \<noteq> []"
    "h = (if args \<noteq> [] \<and> hd args \<noteq> [] then hd args
      else if in_RPCHost (overlay v i) = [] then ''http://localhost:26657'' else in_RPCHost (overlay v i))"
    using set_RPCHost_fields [of args "overlay v i"] by blast
  have p: "ParseAndValidateConfig (os_local P) (os_LoadLocation P) ((overlay v i)\<lparr>in_RPCHost := h\<rparr>) = Inr c"
    using Execute_Launched [OF assms(1)] unfolding assms(2) [symmetric] h(1) by blast
  have ct: "ParseChainType (in_ChainType (overlay v i)) = Inr (cfg_ChainType c)"
    and tz: "(if in_Timezone (overlay v i) = [] then Inr (os_local P) else os_LoadLocation P (in_Timezone (overlay v i))) = Inr (cfg_Timezone c)"
    using p by (auto simp: ParseAndValidateConfig_def split: sum.splits if_splits)
  have host: "cfg_RPCHost c = h" using accepted_fields [OF p] by simp
  show ?thesis
  proof (intro conjI)
    show "cfg_RPCHost c = (if args \<noteq> [] \<and> hd args \<noteq> [] then hd args
        else let h = chosen v ''rpc-host'' vp_GetString (in_RPCHost i) in if h = [] then ''http://localhost:26657'' else h)"
      unfolding host h(3) by (simp add: overlay_spec Let_def)
  next
    have "in_Timezone (overlay v i) = chosen v ''timezone'' vp_GetString (in_Timezone i)" by (simp add: overlay_spec)
    from tz [unfolded this] show "let tz = chosen v ''timezone'' vp_GetString (in_Timezone i)
        in (if tz = [] then Inr (os_local P) else os_LoadLocation P tz) = Inr (cfg_Timezone c)"
      unfolding Let_def .
  qed (use accepted_fields [OF p] ct tz h(2) in \<open>simp_all add: overlay_spec Let_def\<close>)
qed

theorem settings_precedence_witness:
  "\<exists>out c. Execute (sample_os sample_viper) (default_InputConfig\<lparr>in_MaxRetainBlocks := 0, in_MaxRetainDays := 0\<rparr>) [] []
      \<lparr>sd_schema = 0, sd_versions = []\<rparr> = (out, Launched c None, \<lparr>sd_schema = 0, sd_versions = []\<rparr>)
    \<and> cfg_RefreshRate c = 2 * Second \<and> cfg_RPCHost c = ''http://localhost:26657''"
proof -
  let ?P = "sample_os sample_viper" and ?i = "default_InputConfig\<lparr>in_MaxRetainBlocks := 0, in_MaxRetainDays := 0\<rparr>"
    and ?d = "\<lparr>sd_schema = (0::nat), sd_versions = []\<rparr>"
  have v: "settings ?P [] = sample_viper" by (simp add: settings_def sample_os_def)
  have "\<exists>out c. Execute ?P ?i [] [] ?d = (out, Launched c None, ?d)"
    by (simp add: Execute_def loadConfigFile_def config_source_of_def sample_os_def sample_viper_def no_viper_def Let_def
        overlay_spec chosen_def set_RPCHost_def ParseAndValidateConfig_def ParseChainType_def default_InputConfig_def open_store_def
        NewWriter_def store_config_def)
  then obtain out c where run: "Execute ?P ?i [] [] ?d = (out, Launched c None, ?d)" by blast
  from settings_precedence [OF run refl] have "cfg_RefreshRate c = 2 * Second" "cfg_RPCHost c = ''http://localhost:26657''"
    unfolding v by (simp_all add: chosen_def sample_viper_def no_viper_def default_InputConfig_def)
  with run show ?thesis by blast
qed



end
