(* ===== verification/Topology.thy ===== *)
theory Topology
  imports State "HOL-Library.Char_ord" "HOL-Library.List_Lexorder"
begin

text \<open>
  \<open>pkg/topology\<close>: the peer graph of the crawled network. \<open>stackBasedCrawl\<close> walks the recorded
  peers from a home node up to a distance; \<open>ComputeTopology\<close> turns the visited RPCs into nodes
  and connections; \<open>ComputeTopologyDOT\<close> turns those into a gonum graph, whose operations are a
  record of functions. Ranging over a \<open>butils.Set\<close> visits its elements in an unspecified order,
  chosen anew by each loop: the order is an argument, and the properties hold for every order.
  The shortest paths of gonum are one of them, and so is the effect of writing through the pointer its
  \<open>Edge\<close> returns, which is the stored edge or a reversed copy of it. DOT marshalling is an argument of
  the handlers.
\<close>

section \<open>Data\<close>

record ComputeTopologyRequest =
  req_CurrentHomeNode :: string
  req_IncludeNodes :: "string list"
  req_CrawlDistance :: nat
  req_MinBytesSec :: nat
  req_HighlightNodes :: "string list"
  req_Format :: string

record Conn =
  conn_From :: string
  conn_To :: string
  conn_ConnectionStatus :: ConnectionStatus

text \<open>\<open>connsMap\<close> is \<open>None\<close> while it is the \<open>nil\<close> map.\<close>

record Graph =
  Nodes :: "RPC list"
  Conns :: "Conn list"
  connsMap :: "string set option"

record DOTPeerNode =
  dn_ID :: int
  dn_RPC :: RPC
  dn_Color :: string

record DOTEdge =
  de_from :: int
  de_to :: int
  de_color :: string
  de_width :: string

text \<open>The undirected graph of gonum. A node of the graph is its ID.\<close>

record 'g graph_ops =
  gr_empty :: 'g
  gr_NewNode :: "'g \<Rightarrow> int"
  gr_AddNode :: "'g \<Rightarrow> DOTPeerNode \<Rightarrow> 'g"
  gr_Edge :: "'g \<Rightarrow> int \<Rightarrow> int \<Rightarrow> DOTEdge option"
  gr_SetEdge :: "'g \<Rightarrow> DOTEdge \<Rightarrow> 'g"
  gr_PathTo :: "'g \<Rightarrow> int \<Rightarrow> int \<Rightarrow> int list option"
  gr_WriteEdge :: "'g \<Rightarrow> int \<Rightarrow> int \<Rightarrow> (DOTEdge \<Rightarrow> DOTEdge) \<Rightarrow> 'g"

section \<open>Operations\<close>

subsection \<open>types.go\<close>

definition NewConn :: "string \<Rightarrow> string \<Rightarrow> ConnectionStatus \<Rightarrow> Conn" where
  "NewConn src dst cs = \<lparr>conn_From = src, conn_To = dst, conn_ConnectionStatus = cs\<rparr>"

definition AddConn :: "Graph \<Rightarrow> string \<Rightarrow> string \<Rightarrow> ConnectionStatus \<Rightarrow> Graph" where
  "AddConn g src dst cs =
     (let m = (case connsMap g of None \<Rightarrow> {} | Some m \<Rightarrow> m);
          g = g\<lparr>connsMap := Some m\<rparr>
      in if src @ dst \<notin> m
         then g\<lparr>Conns := Conns g @ [NewConn src dst cs], connsMap := Some (insert (src @ dst) m)\<rparr>
         else g)"

definition NewDOTPeerNode :: "int \<Rightarrow> RPC \<Rightarrow> string \<Rightarrow> DOTPeerNode" where
  "NewDOTPeerNode n rpc color = \<lparr>dn_ID = n, dn_RPC = rpc, dn_Color = color\<rparr>"

definition DOTPeerNode_Attributes :: "DOTPeerNode \<Rightarrow> (string \<times> string) list" where
  "DOTPeerNode_Attributes n =
     [(''label'', rpc_Moniker (dn_RPC n) @ [CHR 0x0A] @ rpc_ID (dn_RPC n) @ [CHR 0x0A] @ ''('' @
        rpc_URL (dn_RPC n) @ '')''),
      (''style'', ''filled''),
      (''color'', dn_Color n)]"

definition NewDOTEdge :: "int \<Rightarrow> int \<Rightarrow> string \<Rightarrow> string \<Rightarrow> DOTEdge" where
  "NewDOTEdge src dst color width = \<lparr>de_from = src, de_to = dst, de_color = color, de_width = width\<rparr>"

definition ReversedEdge :: "DOTEdge \<Rightarrow> DOTEdge" where
  "ReversedEdge e = \<lparr>de_from = de_to e, de_to = de_from e, de_color = de_color e, de_width = de_width e\<rparr>"

definition SetColor :: "DOTEdge \<Rightarrow> string \<Rightarrow> DOTEdge" where
  "SetColor e color = e\<lparr>de_color := color\<rparr>"

definition SetWidth :: "DOTEdge \<Rightarrow> string \<Rightarrow> DOTEdge" where
  "SetWidth e width = e\<lparr>de_width := width\<rparr>"

definition DOTEdge_Attributes :: "DOTEdge \<Rightarrow> (string \<times> string) list" where
  "DOTEdge_Attributes e = [(''color'', de_color e), (''penwidth'', de_width e)]"

subsection \<open>The crawl\<close>

definition slow_peer :: "nat \<Rightarrow> Peer \<Rightarrow> bool" where
  "slow_peer minBytesSec peer \<longleftrightarrow>
     u64 (u64 (fs_AvgRate (cs_SendMonitor (peer_ConnectionStatus peer)))
          + u64 (fs_AvgRate (cs_RecvMonitor (peer_ConnectionStatus peer)))) < int minBytesSec"

text \<open>Popping the top of a stack, and replacing it by smaller items, decreases the multiset of the
  items' measures.\<close>

lemma stack_top: "xs \<noteq> [] \<Longrightarrow> mset (map f xs) = mset (map f (butlast xs)) + {#f (last xs)#}"
  by (subst append_butlast_last_id [symmetric, of xs], simp, simp only: map_append mset_append) simp

lemma stack_replace_decreases:
  assumes "xs \<noteq> []" "\<forall>y \<in> set ys. f y < (f (last xs) :: nat)"
  shows "(mset (map f (butlast xs @ ys)), mset (map f xs)) \<in> mult less_than"
proof -
  have "(mset (map f (butlast xs)) + mset (map f ys), mset (map f (butlast xs)) + {#f (last xs)#}) \<in> mult less_than"
    by (rule one_step_implies_mult) (use assms in auto)
  then show ?thesis using stack_top [OF assms(1), of f] by simp
qed

lemma stack_pop_decreases:
  "xs \<noteq> [] \<Longrightarrow> (mset (map f (butlast xs)), mset (map (f :: _ \<Rightarrow> nat) xs)) \<in> mult less_than"
  using stack_replace_decreases [of xs "[]" f] by simp

text \<open>The loop over the stack, whose top is the end of the list. Items below the crawl distance are
  replaced by their peers, one step deeper; the multiset of remaining distances decreases.\<close>

function crawl_loop ::
    "(string \<Rightarrow> Peer list) \<Rightarrow> (string \<Rightarrow> string option) \<Rightarrow> nat \<Rightarrow> nat \<Rightarrow> RPC set \<Rightarrow> (RPC \<times> nat) list \<Rightarrow> RPC set"
  where
  "crawl_loop peers_of port crawlDistance minBytesSec visited stack =
     (if stack = [] then visited
      else
        let (node, depth) = last stack;
            stack = butlast stack;
            visited = insert node visited
        in if depth \<ge> crawlDistance
           then crawl_loop peers_of port crawlDistance minBytesSec visited stack
           else crawl_loop peers_of port crawlDistance minBytesSec visited
             (stack @ map (\<lambda>peer. (NewRPCFromPeer port peer, depth + 1))
                (filter (\<lambda>peer. \<not> slow_peer minBytesSec peer) (peers_of (rpc_URL node)))))"
  by pat_completeness auto
termination
proof (relation "inv_image (mult less_than) (\<lambda>(p, u, c, m, v, stack). mset (map (\<lambda>(n, d). c - d) stack))",
    goal_cases)
  case 1
  show ?case by (simp add: wf_mult)
next
  case (2 peers_of port c m visited stack)
  then show ?case using stack_pop_decreases [of stack "\<lambda>(n, d). c - d"] by simp
next
  case (3 peers_of port c m visited stack _ node depth)
  from 3(3) [symmetric] have last: "last stack = (node, depth)" using 3(2) by simp
  have "(mset (map (\<lambda>(n, d). c - d) (butlast stack @
      map (\<lambda>peer. (NewRPCFromPeer port peer, depth + 1))
        (filter (\<lambda>peer. \<not> slow_peer m peer) (peers_of (rpc_URL node))))),
    mset (map (\<lambda>(n, d). c - d) stack)) \<in> mult less_than"
    by (rule stack_replace_decreases) (use 3 last in auto)
  with 3 show ?case by (simp del: mset_map map_append map_map)
qed

declare crawl_loop.simps [simp del]

definition stackBasedCrawl ::
    "(string \<Rightarrow> Peer list) \<Rightarrow> (string \<Rightarrow> string option) \<Rightarrow> RPC \<Rightarrow> nat \<Rightarrow> nat \<Rightarrow> RPC set" where
  "stackBasedCrawl peers_of port homeNode crawlDistance minBytesSec =
     crawl_loop peers_of port crawlDistance minBytesSec {homeNode} [(homeNode, 0)]"

subsection \<open>ComputeTopology\<close>

definition include_nodes ::
    "('h, 'r, 'k, 'p, 'z) state_env_scheme \<Rightarrow> ('h, 'k, 'p) State \<Rightarrow> ComputeTopologyRequest \<Rightarrow> RPC set" where
  "include_nodes E s req =
     foldl (\<lambda>nodes url.
       case KnownRPCByURL E s url of
         None \<Rightarrow> nodes
       | Some rpc \<Rightarrow> nodes \<union> stackBasedCrawl (RPCPeers E s) (url_port E) rpc
           (req_CrawlDistance req) (req_MinBytesSec req)) {} (req_IncludeNodes req)"

fun add_nodes :: "RPC list \<Rightarrow> string set \<Rightarrow> RPC list \<Rightarrow> RPC list" where
  "add_nodes nodes seenIDs [] = nodes"
| "add_nodes nodes seenIDs (rpc # rpcs) =
     (if rpc_ID rpc \<in> seenIDs then add_nodes nodes seenIDs rpcs
      else add_nodes (nodes @ [rpc]) (insert (rpc_ID rpc) seenIDs) rpcs)"

definition peer_id :: "Peer \<Rightarrow> string" where
  "peer_id peer = ni_DefaultNodeID (peer_NodeInfo peer)"

definition add_edge :: "string set \<Rightarrow> RPC \<Rightarrow> Graph \<Rightarrow> Peer \<Rightarrow> Graph" where
  "add_edge includeIDs rpc g peer =
     (let peerID = peer_id peer
      in if peerID \<notin> includeIDs then g
         else if peerID = rpc_ID rpc then g
         else if peer_IsOutbound peer then AddConn g (rpc_ID rpc) peerID (peer_ConnectionStatus peer)
         else AddConn g peerID (rpc_ID rpc) (peer_ConnectionStatus peer))"

text \<open>\<open>order1\<close> and \<open>order2\<close> are the orders in which the two loops visit \<open>includeNodes\<close>.\<close>

definition ComputeTopology ::
    "('h, 'r, 'k, 'p, 'z) state_env_scheme \<Rightarrow> (RPC set \<Rightarrow> RPC list) \<Rightarrow> (RPC set \<Rightarrow> RPC list)
      \<Rightarrow> ('h, 'k, 'p) State \<Rightarrow> ComputeTopologyRequest \<Rightarrow> Graph" where
  "ComputeTopology E order1 order2 s req =
     (let includeNodes = include_nodes E s req;
          nodes = add_nodes [] {} (order1 includeNodes);
          includeIDs = rpc_ID ` set nodes;
          g = \<lparr>Nodes = nodes, Conns = [], connsMap = None\<rparr>
      in foldl (\<lambda>g rpc. foldl (add_edge includeIDs rpc) g (RPCPeers E s (rpc_URL rpc))) g
           (order2 includeNodes))"

subsection \<open>ComputeTopologyDOT\<close>

definition highlighted :: "string set \<Rightarrow> RPC \<Rightarrow> bool" where
  "highlighted hl rpc \<longleftrightarrow> rpc_ID rpc \<in> hl \<or> rpc_IP rpc \<in> hl \<or> rpc_URL rpc \<in> hl \<or> rpc_Moniker rpc \<in> hl"

definition dot_add_node ::
    "'g graph_ops \<Rightarrow> string set \<Rightarrow> 'g \<times> (string \<rightharpoonup> int) \<times> int list \<Rightarrow> RPC \<Rightarrow> 'g \<times> (string \<rightharpoonup> int) \<times> int list" where
  "dot_add_node G hl = (\<lambda>(g, nodeIDs, highlightedGraphNodes) rpc.
     let node = NewDOTPeerNode (gr_NewNode G g) rpc (if highlighted hl rpc then ''crimson'' else ''cadetblue'')
     in (gr_AddNode G g node, nodeIDs(rpc_URL rpc \<mapsto> dn_ID node),
         if highlighted hl rpc then highlightedGraphNodes @ [dn_ID node] else highlightedGraphNodes))"

definition dot_add_edge :: "'g graph_ops \<Rightarrow> (string \<rightharpoonup> int) \<Rightarrow> 'g \<Rightarrow> Conn \<Rightarrow> 'g" where
  "dot_add_edge G nodeIDs g conn =
     (case nodeIDs (conn_From conn) of
        None \<Rightarrow> g
      | Some nodeID1 \<Rightarrow>
          (case nodeIDs (conn_To conn) of
             None \<Rightarrow> g
           | Some nodeID2 \<Rightarrow>
               (if gr_Edge G g nodeID1 nodeID2 = None \<and> gr_Edge G g nodeID2 nodeID1 = None
                then gr_SetEdge G g (NewDOTEdge nodeID1 nodeID2 ''azure4'' ''1.0'')
                else g)))"

text \<open>The edge of a path painted through the pointer of one direction; the type assertion on a missing edge
  panics.\<close>

definition paint_edge :: "'g graph_ops \<Rightarrow> int \<Rightarrow> int \<Rightarrow> 'g \<Rightarrow> 'g option" where
  "paint_edge G a b g =
     (case gr_Edge G g a b of
        None \<Rightarrow> None
      | Some edge \<Rightarrow> Some (gr_WriteEdge G g a b (\<lambda>e. SetWidth (SetColor e ''crimson'') ''3.0'')))"

fun paint_path :: "'g graph_ops \<Rightarrow> int list \<Rightarrow> 'g \<Rightarrow> 'g option" where
  "paint_path G (a # b # p) g =
     Option.bind (paint_edge G a b g) (\<lambda>g. Option.bind (paint_edge G b a g) (paint_path G (b # p)))"
| "paint_path G [a] g = Some g"
| "paint_path G [] g = Some g"

text \<open>The paths from one highlighted node to the later ones; Dijkstra has run on the graph \<open>g0\<close>.\<close>

fun paint_from :: "'g graph_ops \<Rightarrow> 'g \<Rightarrow> int \<Rightarrow> int list \<Rightarrow> 'g \<Rightarrow> 'g option" where
  "paint_from G g0 n [] g = Some g"
| "paint_from G g0 n (m # ms) g =
     (case gr_PathTo G g0 n m of
        None \<Rightarrow> paint_from G g0 n ms g
      | Some npath \<Rightarrow> Option.bind (paint_path G npath g) (paint_from G g0 n ms))"

fun paint_highlighted :: "'g graph_ops \<Rightarrow> int list \<Rightarrow> 'g \<Rightarrow> 'g option" where
  "paint_highlighted G [] g = Some g"
| "paint_highlighted G (n # ns) g = Option.bind (paint_from G g n ns g) (paint_highlighted G ns)"

text \<open>\<open>None\<close> is a panic; the error it returns is always \<open>nil\<close>.\<close>

definition ComputeTopologyDOT :: "'g graph_ops \<Rightarrow> Graph \<Rightarrow> ComputeTopologyRequest \<Rightarrow> 'g option" where
  "ComputeTopologyDOT G topology req =
     (let (g, nodeIDs, highlightedGraphNodes) =
            foldl (dot_add_node G (set (req_HighlightNodes req))) (gr_empty G, Map.empty, []) (Nodes topology);
          g = foldl (dot_add_edge G nodeIDs) g (Conns topology)
      in paint_highlighted G highlightedGraphNodes g)"

section \<open>Specification\<close>

text \<open>\<open>reaches k x\<close>: there is a walk of \<open>k\<close> fast enough peer links from the home node to \<open>x\<close>.\<close>

inductive reaches ::
    "(string \<Rightarrow> Peer list) \<Rightarrow> (string \<Rightarrow> string option) \<Rightarrow> nat \<Rightarrow> RPC \<Rightarrow> nat \<Rightarrow> RPC \<Rightarrow> bool"
  for peers_of port minBytesSec homeNode
  where
    home: "reaches peers_of port minBytesSec homeNode 0 homeNode"
  | step: "reaches peers_of port minBytesSec homeNode k x \<Longrightarrow> peer \<in> set (peers_of (rpc_URL x)) \<Longrightarrow>
      \<not> slow_peer minBytesSec peer \<Longrightarrow>
      reaches peers_of port minBytesSec homeNode (Suc k) (NewRPCFromPeer port peer)"

inductive_cases reachesE: "reaches peers_of port m home k x"
inductive_simps reaches_0: "reaches peers_of port m home 0 x"
inductive_simps reaches_Suc: "reaches peers_of port m home (Suc k) x"

definition lists_all :: "('a set \<Rightarrow> 'a list) \<Rightarrow> bool" where
  "lists_all order \<longleftrightarrow> (\<forall>S. finite S \<longrightarrow> set (order S) = S \<and> distinct (order S))"

text \<open>The directed link a peer entry of an RPC stands for.\<close>

definition link_of :: "RPC \<Rightarrow> Peer \<Rightarrow> string \<times> string" where
  "link_of rpc peer =
     (if peer_IsOutbound peer then (rpc_ID rpc, peer_id peer) else (peer_id peer, rpc_ID rpc))"

text \<open>The nodes reachable from a stack item within the distance.\<close>

definition in_range ::
    "(string \<Rightarrow> Peer list) \<Rightarrow> (string \<Rightarrow> string option) \<Rightarrow> nat \<Rightarrow> nat \<Rightarrow> RPC \<times> nat \<Rightarrow> RPC set" where
  "in_range peers_of port c m = (\<lambda>(n, d). {x. \<exists>k. d + k \<le> c \<and> reaches peers_of port m n k x})"

text \<open>Adding connections: the keys recorded are those of the connections, each once.\<close>

definition conn_key :: "Conn \<Rightarrow> string" where
  "conn_key c = conn_From c @ conn_To c"

definition graph_ok :: "Graph \<Rightarrow> bool" where
  "graph_ok g \<longleftrightarrow>
     (case connsMap g of None \<Rightarrow> Conns g = [] | Some m \<Rightarrow> m = conn_key ` set (Conns g))
     \<and> distinct (map conn_key (Conns g))"

definition edge_links :: "string set \<Rightarrow> RPC \<Rightarrow> Peer list \<Rightarrow> (string \<times> string) set" where
  "edge_links ids rpc peers =
     link_of rpc ` {peer \<in> set peers. peer_id peer \<in> ids \<and> peer_id peer \<noteq> rpc_ID rpc}"

definition ends :: "Conn \<Rightarrow> string \<times> string" where
  "ends c = (conn_From c, conn_To c)"

text \<open>The instances of the witnesses: RPCs listed in the order of their fields, a state that knows
  two RPCs of which the first reports the second as a peer, and a request for everything two
  steps away.\<close>

definition rpc_key :: "RPC \<Rightarrow> string \<times> string \<times> string \<times> string \<times> string \<times> string" where
  "rpc_key r = (rpc_ID r, rpc_IP r, rpc_URL r, rpc_Moniker r, rpc_ValidatorAddress r, rpc_ValidatorMoniker r)"

definition rpc_of_key :: "string \<times> string \<times> string \<times> string \<times> string \<times> string \<Rightarrow> RPC" where
  "rpc_of_key = (\<lambda>(a, b, c, d, e, f). \<lparr>rpc_ID = a, rpc_IP = b, rpc_URL = c, rpc_Moniker = d,
     rpc_ValidatorAddress = e, rpc_ValidatorMoniker = f\<rparr>)"

definition field_order :: "RPC set \<Rightarrow> RPC list" where
  "field_order S = map rpc_of_key (sorted_list_of_set (rpc_key ` S))"

definition sample_rpc :: "string \<Rightarrow> RPC" where
  "sample_rpc n = zero_RPC\<lparr>rpc_ID := n, rpc_URL := ''http://'' @ n\<rparr>"

definition sample_request :: ComputeTopologyRequest where
  "sample_request = \<lparr>req_CurrentHomeNode = '''', req_IncludeNodes = [''http://a'', ''http://b''],
     req_CrawlDistance = 2, req_MinBytesSec = 0, req_HighlightNodes = [], req_Format = ''json''\<rparr>"

definition sample_flow :: FlowStatus where
  "sample_flow = \<lparr>fs_Bytes = 0, fs_InstRate = 0, fs_CurRate = 0, fs_AvgRate = 0, fs_PeakRate = 0, fs_BytesRem = 0,
     fs_Duration = 0, fs_Idle = 0, fs_TimeRem = 0, fs_Progress = 0, fs_Active = True\<rparr>"

definition sample_status :: ConnectionStatus where
  "sample_status = \<lparr>cs_Duration = 0, cs_SendMonitor = sample_flow, cs_RecvMonitor = sample_flow\<rparr>"

text \<open>A graph is its nodes and its edges; a new node takes the next free number, an edge answers for both
  directions, and only the direction it was stored in can be written through. Paths of one edge are enough
  for the witnesses.\<close>

definition sample_edge :: "DOTEdge list \<Rightarrow> int \<Rightarrow> int \<Rightarrow> DOTEdge option" where
  "sample_edge es a b =
     (case List.find (\<lambda>e. de_from e = a \<and> de_to e = b) es of
        Some e \<Rightarrow> Some e
      | None \<Rightarrow> map_option ReversedEdge (List.find (\<lambda>e. de_from e = b \<and> de_to e = a) es))"

definition sample_graph :: "(DOTPeerNode list \<times> DOTEdge list) graph_ops" where
  "sample_graph = \<lparr>gr_empty = ([], []), gr_NewNode = (\<lambda>g. int (length (fst g))),
     gr_AddNode = (\<lambda>(ns, es) n. (ns @ [n], es)), gr_Edge = (\<lambda>(ns, es). sample_edge es),
     gr_SetEdge = (\<lambda>(ns, es) e. (ns, es @ [e])),
     gr_PathTo = (\<lambda>(ns, es) a b. map_option (\<lambda>_. [a, b]) (sample_edge es a b)),
     gr_WriteEdge = (\<lambda>(ns, es) a b f. (ns, map (\<lambda>e. if de_from e = a \<and> de_to e = b then f e else e) es))\<rparr>"

section \<open>Lemmas\<close>

subsection \<open>The crawl computes the bounded reachable set\<close>

lemma reaches_prepend:
  "reaches P u m (NewRPCFromPeer u peer) k x \<Longrightarrow> peer \<in> set (P (rpc_URL n)) \<Longrightarrow> \<not> slow_peer m peer \<Longrightarrow>
   reaches P u m n (Suc k) x"
  by (induction rule: reaches.induct) (auto intro: reaches.intros)

lemma reaches_first:
  "reaches P u m n k x \<Longrightarrow> k = 0 \<and> x = n \<or>
   (\<exists>j peer. k = Suc j \<and> peer \<in> set (P (rpc_URL n)) \<and> \<not> slow_peer m peer
      \<and> reaches P u m (NewRPCFromPeer u peer) j x)"
proof (induction rule: reaches.induct)
  case (step k x peer)
  then consider "k = 0" "x = n" | j p where "k = Suc j" "p \<in> set (P (rpc_URL n))" "\<not> slow_peer m p"
    "reaches P u m (NewRPCFromPeer u p) j x" by blast
  then show ?case
  proof cases
    case 1
    with step show ?thesis by (blast intro: reaches.home)
  next
    case 2
    with step show ?thesis by (blast intro: reaches.step)
  qed
qed simp

lemma in_range_unfold:
  "d < c \<Longrightarrow> in_range P u c m (n, d) = insert n (\<Union>peer \<in> {peer \<in> set (P (rpc_URL n)). \<not> slow_peer m peer}.
     in_range P u c m (NewRPCFromPeer u peer, d + 1))"
proof (intro equalityI subsetI)
  fix x assume d: "d < c" and "x \<in> in_range P u c m (n, d)"
  then obtain k where k: "d + k \<le> c" "reaches P u m n k x" by (auto simp: in_range_def)
  from reaches_first [OF k(2)] k(1) show "x \<in> insert n (\<Union>peer \<in> {peer \<in> set (P (rpc_URL n)).
      \<not> slow_peer m peer}. in_range P u c m (NewRPCFromPeer u peer, d + 1))"
    by (fastforce simp: in_range_def)
next
  fix x assume d: "d < c" and "x \<in> insert n (\<Union>peer \<in> {peer \<in> set (P (rpc_URL n)). \<not> slow_peer m peer}.
     in_range P u c m (NewRPCFromPeer u peer, d + 1))"
  then show "x \<in> in_range P u c m (n, d)"
  proof (elim insertE UN_E CollectE conjE)
    assume "x = n"
    with d show ?thesis by (auto simp: in_range_def intro!: exI [of _ 0] reaches.home)
  next
    fix peer assume p: "peer \<in> set (P (rpc_URL n))" "\<not> slow_peer m peer"
      and "x \<in> in_range P u c m (NewRPCFromPeer u peer, d + 1)"
    then obtain k where "d + 1 + k \<le> c" "reaches P u m (NewRPCFromPeer u peer) k x"
      by (auto simp: in_range_def)
    with p show ?thesis
      by (auto simp: in_range_def intro!: exI [of _ "Suc k"] dest: reaches_prepend)
  qed
qed

lemma in_range_far: "d \<ge> c \<Longrightarrow> in_range P u c m (n, d) \<subseteq> {n}"
  by (auto simp: in_range_def reaches_0 dest: le_antisym)

lemma in_range_self: "d \<le> c \<Longrightarrow> n \<in> in_range P u c m (n, d)"
  by (auto simp: in_range_def intro!: exI [of _ 0] reaches.home)

lemma crawl_loop_spec:
  "(\<forall>(n, d) \<in> set stack. d \<le> c) \<Longrightarrow>
   crawl_loop P u c m visited stack = visited \<union> (\<Union>item \<in> set stack. in_range P u c m item)"
proof (induction P u c m visited stack rule: crawl_loop.induct)
  case (1 P u c m visited stack)
  show ?case
  proof (cases "stack = []")
    case True
    then show ?thesis by (subst crawl_loop.simps) simp
  next
    case False
    obtain n d where l: "last stack = (n, d)" by fastforce
    have split: "set stack = insert (n, d) (set (butlast stack))"
      using False l by (metis append_butlast_last_id list.set(2) rotate1.simps(2) set_rotate1)
    have dc: "d \<le> c" and b: "\<forall>(n, d) \<in> set (butlast stack). d \<le> c" using 1(3) split by auto
    show ?thesis
    proof (cases "d \<ge> c")
      case True
      have w: "in_range P u c m (n, d) = {n}" using in_range_far [OF True] in_range_self [OF dc] by fast
      have "crawl_loop P u c m visited stack = crawl_loop P u c m (insert n visited) (butlast stack)"
        using False True l by (subst crawl_loop.simps) simp
      also have "\<dots> = insert n visited \<union> (\<Union>item \<in> set (butlast stack). in_range P u c m item)"
        using "1.IH"(1) [OF False l [symmetric] refl refl refl True b] .
      finally show ?thesis by (simp add: split w)
    next
      case far: False
      let ?new = "map (\<lambda>peer. (NewRPCFromPeer u peer, d + 1))
        (filter (\<lambda>peer. \<not> slow_peer m peer) (P (rpc_URL n)))"
      have nb: "\<forall>(n, d) \<in> set (butlast stack @ ?new). d \<le> c" using b far by auto
      have "crawl_loop P u c m visited stack = crawl_loop P u c m (insert n visited) (butlast stack @ ?new)"
        using False far l by (subst crawl_loop.simps) simp
      also have "\<dots> = insert n visited \<union> (\<Union>item \<in> set (butlast stack @ ?new). in_range P u c m item)"
        using "1.IH"(2) [OF False l [symmetric] refl refl refl far nb] .
      finally show ?thesis using far by (auto simp: split in_range_unfold)
    qed
  qed
qed



subsection \<open>Nodes and connections\<close>

lemma add_nodes_spec:
  "seen = rpc_ID ` set nodes \<Longrightarrow> distinct (map rpc_ID nodes) \<Longrightarrow>
   distinct (map rpc_ID (add_nodes nodes seen rpcs))
   \<and> rpc_ID ` set (add_nodes nodes seen rpcs) = rpc_ID ` (set nodes \<union> set rpcs)
   \<and> set (add_nodes nodes seen rpcs) \<subseteq> set nodes \<union> set rpcs"
proof (induction nodes seen rpcs rule: add_nodes.induct)
  case (2 nodes seen rpc rpcs)
  show ?case
  proof (cases "rpc_ID rpc \<in> seen")
    case True
    with 2 show ?thesis by auto
  next
    case False
    have "insert (rpc_ID rpc) seen = rpc_ID ` set (nodes @ [rpc])" "distinct (map rpc_ID (nodes @ [rpc]))"
      using 2(3,4) False by auto
    from "2.IH"(2) [OF False this] False show ?thesis by auto
  qed
qed simp

lemma AddConn_spec:
  assumes "graph_ok g"
  shows "graph_ok (AddConn g a b cs) \<and> Nodes (AddConn g a b cs) = Nodes g
    \<and> conn_key ` set (Conns (AddConn g a b cs)) = insert (a @ b) (conn_key ` set (Conns g))
    \<and> set (Conns (AddConn g a b cs)) \<subseteq> insert (NewConn a b cs) (set (Conns g))"
  using assms
  by (auto simp: graph_ok_def AddConn_def Let_def NewConn_def conn_key_def split: option.splits)

lemma add_edge_spec:
  assumes "graph_ok g"
  shows "graph_ok (add_edge ids rpc g peer) \<and> Nodes (add_edge ids rpc g peer) = Nodes g
    \<and> conn_key ` set (Conns (add_edge ids rpc g peer)) =
        conn_key ` set (Conns g) \<union> (\<lambda>(a, b). a @ b) ` edge_links ids rpc [peer]
    \<and> ends ` set (Conns (add_edge ids rpc g peer)) \<subseteq> ends ` set (Conns g) \<union> edge_links ids rpc [peer]"
  using AddConn_spec [OF assms] assms
  by (auto simp: add_edge_def edge_links_def link_of_def Let_def ends_def NewConn_def)
     (force simp: NewConn_def)+

lemma edge_links_Cons: "edge_links ids rpc (p # ps) = edge_links ids rpc [p] \<union> edge_links ids rpc ps"
  by (auto simp: edge_links_def)

lemma add_edges_spec:
  "graph_ok g \<Longrightarrow>
   graph_ok (foldl (add_edge ids rpc) g peers) \<and> Nodes (foldl (add_edge ids rpc) g peers) = Nodes g
    \<and> conn_key ` set (Conns (foldl (add_edge ids rpc) g peers)) =
        conn_key ` set (Conns g) \<union> (\<lambda>(a, b). a @ b) ` edge_links ids rpc peers
    \<and> ends ` set (Conns (foldl (add_edge ids rpc) g peers)) \<subseteq> ends ` set (Conns g) \<union> edge_links ids rpc peers"
proof (induction peers arbitrary: g)
  case Nil
  then show ?case by (simp add: edge_links_def)
next
  case (Cons p ps)
  note A = add_edge_spec [OF Cons.prems, of ids rpc p]
  from Cons.IH [of "add_edge ids rpc g p"] A show ?case
    unfolding edge_links_Cons [of ids rpc p ps] by (auto simp: image_Un) blast+
qed

lemma all_edges_spec:
  "graph_ok g \<Longrightarrow>
   graph_ok (foldl (\<lambda>g rpc. foldl (add_edge ids rpc) g (P rpc)) g rpcs)
   \<and> Nodes (foldl (\<lambda>g rpc. foldl (add_edge ids rpc) g (P rpc)) g rpcs) = Nodes g
   \<and> conn_key ` set (Conns (foldl (\<lambda>g rpc. foldl (add_edge ids rpc) g (P rpc)) g rpcs)) =
       conn_key ` set (Conns g) \<union> (\<lambda>(a, b). a @ b) ` (\<Union>rpc \<in> set rpcs. edge_links ids rpc (P rpc))
   \<and> ends ` set (Conns (foldl (\<lambda>g rpc. foldl (add_edge ids rpc) g (P rpc)) g rpcs)) \<subseteq>
       ends ` set (Conns g) \<union> (\<Union>rpc \<in> set rpcs. edge_links ids rpc (P rpc))"
proof (induction rpcs arbitrary: g)
  case (Cons r rpcs)
  let ?g = "foldl (add_edge ids r) g (P r)"
  note A = add_edges_spec [OF Cons.prems, of ids r "P r"]
  note IH = Cons.IH [OF A [THEN conjunct1]]
  have "graph_ok (foldl (\<lambda>g rpc. foldl (add_edge ids rpc) g (P rpc)) g (r # rpcs))" using IH by simp
  moreover have "Nodes (foldl (\<lambda>g rpc. foldl (add_edge ids rpc) g (P rpc)) g (r # rpcs)) = Nodes g"
    using IH A by simp
  moreover have "conn_key ` set (Conns (foldl (\<lambda>g rpc. foldl (add_edge ids rpc) g (P rpc)) g (r # rpcs))) =
       conn_key ` set (Conns g) \<union> (\<lambda>(a, b). a @ b) ` (\<Union>rpc \<in> set (r # rpcs). edge_links ids rpc (P rpc))"
    using IH A by (simp add: image_Un Un_assoc)
  moreover have "ends ` set (Conns (foldl (\<lambda>g rpc. foldl (add_edge ids rpc) g (P rpc)) g (r # rpcs))) \<subseteq>
       ends ` set (Conns g) \<union> (\<Union>rpc \<in> set (r # rpcs). edge_links ids rpc (P rpc))"
  proof -
    have "ends ` set (Conns ?g) \<subseteq> ends ` set (Conns g) \<union> edge_links ids r (P r)" using A by blast
    moreover have "ends ` set (Conns (foldl (\<lambda>g rpc. foldl (add_edge ids rpc) g (P rpc)) ?g rpcs)) \<subseteq>
       ends ` set (Conns ?g) \<union> (\<Union>rpc \<in> set rpcs. edge_links ids rpc (P rpc))" using IH by blast
    ultimately show ?thesis by (simp add: subset_iff) blast
  qed
  ultimately show ?case by blast
qed simp


lemma crawl_loop_finite: "finite visited \<Longrightarrow> finite (crawl_loop P u c m visited stack)"
proof (induction P u c m visited stack rule: crawl_loop.induct)
  case (1 P u c m visited stack)
  show ?case
  proof (cases "stack = []")
    case True
    then show ?thesis using 1(3) by (subst crawl_loop.simps) simp
  next
    case False
    obtain n d where l: "last stack = (n, d)" by fastforce
    have f: "finite (insert n visited)" using 1(3) by simp
    show ?thesis
      using "1.IH"(1) [OF False l [symmetric] refl refl refl _ f]
        "1.IH"(2) [OF False l [symmetric] refl refl refl _ f] False l
      by (subst crawl_loop.simps) (simp add: Let_def)
  qed
qed

lemma include_nodes_finite: "finite (include_nodes E s req)"
  unfolding include_nodes_def
  by (rule foldl_invariant) (auto simp: stackBasedCrawl_def crawl_loop_finite split: option.splits)

lemma same_length_append_inj:
  "length a = length a' \<Longrightarrow> a @ b = a' @ b' \<Longrightarrow> (a, b) = (a', b')"
  by simp

lemma dot_no_edge:
  "(\<And>c. c \<in> set cs \<Longrightarrow> ids (conn_From c) = None) \<Longrightarrow> foldl (dot_add_edge G ids) g cs = g"
  by (induction cs) (simp_all add: dot_add_edge_def)

lemma dot_node_ids:
  "fst (snd (foldl (dot_add_node G hl) (g, ids, hs) rpcs)) u \<noteq> None \<Longrightarrow> ids u \<noteq> None \<or> u \<in> rpc_URL ` set rpcs"
proof (induction rpcs arbitrary: g ids hs)
  case (Cons r rpcs)
  obtain g' hs' where "dot_add_node G hl (g, ids, hs) r = (g', ids(rpc_URL r \<mapsto> gr_NewNode G g), hs')"
    by (simp add: dot_add_node_def NewDOTPeerNode_def Let_def)
  with Cons.prems have "(ids(rpc_URL r \<mapsto> gr_NewNode G g)) u \<noteq> None \<or> u \<in> rpc_URL ` set rpcs"
    by (intro Cons.IH [of g' _ hs']) (simp only: foldl_Cons not_False_eq_True)
  then show ?case by (cases "u = rpc_URL r") simp_all
qed simp

lemma dot_graph_no_edges:
  assumes "\<And>c. c \<in> set (Conns t) \<Longrightarrow> conn_From c \<notin> rpc_URL ` set (Nodes t)"
  shows "ComputeTopologyDOT G t req = ComputeTopologyDOT G (t\<lparr>Conns := []\<rparr>) req"
proof -
  obtain g ids hs where n: "foldl (dot_add_node G (set (req_HighlightNodes req))) (gr_empty G, Map.empty, []) (Nodes t) = (g, ids, hs)"
    using prod_cases3 by blast
  have "ids (conn_From c) = None" if "c \<in> set (Conns t)" for c
    using dot_node_ids [of G "set (req_HighlightNodes req)" "gr_empty G" Map.empty "[]" "Nodes t" "conn_From c"]
      n assms [OF that] by auto
  then show ?thesis by (simp add: ComputeTopologyDOT_def n dot_no_edge)
qed

lemma field_order_lists_all: "lists_all field_order"
proof -
  have inv: "rpc_of_key (rpc_key r) = r" for r by (simp add: rpc_of_key_def rpc_key_def)
  have inj: "inj_on rpc_of_key (rpc_key ` S)" for S by (rule inj_on_inverseI [of _ rpc_key]) (auto simp: inv)
  show ?thesis unfolding lists_all_def field_order_def
    by (simp add: distinct_map inj image_image inv)
qed

lemma ComputeTopology_facts:
  fixes E :: "('h, 'r, 'k, 'p, 'z) state_env_scheme" and s :: "('h, 'k, 'p) State"
    and req :: ComputeTopologyRequest
  assumes "lists_all order1" "lists_all order2"
  defines "S \<equiv> include_nodes E s req"
  defines "ids \<equiv> rpc_ID ` S"
  defines "g \<equiv> ComputeTopology E order1 order2 s req"
  defines "links \<equiv> \<Union>rpc \<in> S. edge_links ids rpc (RPCPeers E s (rpc_URL rpc))"
  shows "distinct (map rpc_ID (Nodes g))" "rpc_ID ` set (Nodes g) = ids" "set (Nodes g) \<subseteq> S"
    "conn_key ` set (Conns g) = (\<lambda>(a, b). a @ b) ` links" "ends ` set (Conns g) \<subseteq> links" "distinct (map conn_key (Conns g))"
    "(a, b) \<in> links \<Longrightarrow> a \<in> ids \<and> b \<in> ids \<and> a \<noteq> b"
    "c \<in> set (Conns g) \<Longrightarrow> conn_From c \<in> ids \<and> conn_To c \<in> ids \<and> conn_From c \<noteq> conn_To c \<and> ends c \<in> links"
proof -
  have fin: "finite S" unfolding S_def by (rule include_nodes_finite)
  have o1: "set (order1 S) = S" and o2: "set (order2 S) = S"
    using assms(1,2) fin by (simp_all add: lists_all_def)
  define nodes where "nodes = add_nodes [] {} (order1 S)"
  have N: "distinct (map rpc_ID nodes)" "rpc_ID ` set nodes = ids" "set nodes \<subseteq> S"
    using add_nodes_spec [of "{}" "[]" "order1 S"] o1 by (simp_all add: nodes_def ids_def)
  let ?g0 = "\<lparr>Nodes = nodes, Conns = [], connsMap = None\<rparr>"
  have g: "g = foldl (\<lambda>g rpc. foldl (add_edge ids rpc) g (RPCPeers E s (rpc_URL rpc))) ?g0 (order2 S)"
    using N(2) by (simp add: g_def ComputeTopology_def S_def [symmetric] nodes_def [symmetric] Let_def)
  have "graph_ok ?g0" by (simp add: graph_ok_def)
  note A = all_edges_spec [OF this, of ids "\<lambda>rpc. RPCPeers E s (rpc_URL rpc)" "order2 S", folded g]
  have K: "conn_key ` set (Conns g) = (\<lambda>(a, b). a @ b) ` links"
    and L: "ends ` set (Conns g) \<subseteq> links" and D: "distinct (map conn_key (Conns g))" "Nodes g = nodes"
    using A o2 by (simp_all add: links_def graph_ok_def)
  have in_ids: "a \<in> ids \<and> b \<in> ids \<and> a \<noteq> b" if "(a, b) \<in> links" for a b
    using that by (auto simp: links_def edge_links_def link_of_def ids_def split: if_splits)
  have C: "conn_From c \<in> ids \<and> conn_To c \<in> ids \<and> conn_From c \<noteq> conn_To c \<and> ends c \<in> links"
    if "c \<in> set (Conns g)" for c
    using that L in_ids [of "conn_From c" "conn_To c"] by (auto simp: ends_def)
  show "distinct (map rpc_ID (Nodes g))" "rpc_ID ` set (Nodes g) = ids" "set (Nodes g) \<subseteq> S"
    "conn_key ` set (Conns g) = (\<lambda>(a, b). a @ b) ` links" "ends ` set (Conns g) \<subseteq> links" "distinct (map conn_key (Conns g))"
    using N K L D by simp_all
  show "(a, b) \<in> links \<Longrightarrow> a \<in> ids \<and> b \<in> ids \<and> a \<noteq> b" by (rule in_ids)
  show "c \<in> set (Conns g) \<Longrightarrow> conn_From c \<in> ids \<and> conn_To c \<in> ids \<and> conn_From c \<noteq> conn_To c \<and> ends c \<in> links" by (rule C)
qed

section \<open>Properties\<close>

text \<open>C10: the crawl terminates on every peer graph, cyclic or not, and visits exactly the nodes that
  some walk of at most \<open>crawlDistance\<close> fast enough links connects to the home node.\<close>

theorem stackBasedCrawl_reachable:
  "stackBasedCrawl peers_of port home c m = {x. \<exists>k \<le> c. reaches peers_of port m home k x}"
proof -
  have "stackBasedCrawl peers_of port home c m = {home} \<union> in_range peers_of port c m (home, 0)"
    using crawl_loop_spec [of "[(home, 0)]" c peers_of port m "{home}"] by (simp add: stackBasedCrawl_def)
  moreover have "home \<in> in_range peers_of port c m (home, 0)" by (rule in_range_self) simp
  ultimately show ?thesis by (auto simp: in_range_def)
qed

text \<open>C9: whatever order the loops visit the included RPCs in, the computed graph has one node per
  included ID; every connection joins two different nodes of the graph and comes from a peer entry;
  every peer entry between two different nodes is represented by exactly one connection with its
  key; and when all IDs have the same length the connections are exactly the links.\<close>

theorem ComputeTopology_spec:
  fixes E :: "('h, 'r, 'k, 'p, 'z) state_env_scheme" and s :: "('h, 'k, 'p) State"
    and req :: ComputeTopologyRequest
  assumes "lists_all order1" "lists_all order2"
  defines "S \<equiv> include_nodes E s req"
  defines "ids \<equiv> rpc_ID ` S"
  defines "g \<equiv> ComputeTopology E order1 order2 s req"
  defines "links \<equiv> \<Union>rpc \<in> S. edge_links ids rpc (RPCPeers E s (rpc_URL rpc))"
  shows "distinct (map rpc_ID (Nodes g)) \<and> rpc_ID ` set (Nodes g) = ids \<and> set (Nodes g) \<subseteq> S
    \<and> (\<forall>c \<in> set (Conns g). conn_From c \<in> ids \<and> conn_To c \<in> ids \<and> conn_From c \<noteq> conn_To c
         \<and> ends c \<in> links)
    \<and> distinct (map conn_key (Conns g))
    \<and> (\<forall>(a, b) \<in> links. a @ b \<in> conn_key ` set (Conns g))
    \<and> (\<forall>n. (\<forall>i \<in> ids. length i = n) \<longrightarrow> ends ` set (Conns g) = links)"
proof -
  note F = ComputeTopology_facts [OF assms(1,2), where E = E and s = s and req = req, folded S_def, folded ids_def g_def, folded links_def]
  note K = F(4) and in_ids = F(7) and C = F(8)
  have "links \<subseteq> ends ` set (Conns g)" if "\<forall>i \<in> ids. length i = n" for n
  proof
    fix l assume l: "l \<in> links"
    obtain a b where ab: "l = (a, b)" by fastforce
    have "a @ b \<in> (\<lambda>(a, b). a @ b) ` links" using l unfolding ab by (rule rev_image_eqI) simp
    then have "a @ b \<in> conn_key ` set (Conns g)" unfolding K .
    then obtain c where c: "c \<in> set (Conns g)" "conn_From c @ conn_To c = a @ b"
      by (auto simp: conn_key_def)
    have "conn_From c \<in> ids" "a \<in> ids" using C [OF c(1)] in_ids [OF l [unfolded ab]] by blast+
    then have "length (conn_From c) = length a" using that by simp
    from same_length_append_inj [OF this c(2)] c(1) ab show "l \<in> ends ` set (Conns g)"
      by (force simp: ends_def)
  qed
  with F(5) have "\<forall>n. (\<forall>i \<in> ids. length i = n) \<longrightarrow> ends ` set (Conns g) = links" by blast
  moreover have "\<forall>(a, b) \<in> links. a @ b \<in> conn_key ` set (Conns g)" unfolding K by auto
  moreover have "\<forall>c \<in> set (Conns g). conn_From c \<in> ids \<and> conn_To c \<in> ids \<and> conn_From c \<noteq> conn_To c \<and> ends c \<in> links"
    using C by blast
  ultimately show ?thesis using F(1,2,3,6) by (intro conjI) assumption+
qed

text \<open>C17: the DOT graph of a computed topology has no edges: \<open>ComputeTopologyDOT\<close> indexes the nodes by URL but
  looks connections up by the node IDs that \<open>ComputeTopology\<close> stores in them, so unless the URL of a node is
  the ID of a node the graph is the one drawn without the connections.\<close>

theorem topology_dot_no_edges:
  assumes "lists_all order1" "lists_all order2" "t = ComputeTopology E order1 order2 s req"
    and "rpc_URL ` set (Nodes t) \<inter> rpc_ID ` set (Nodes t) = {}"
  shows "ComputeTopologyDOT G t req = ComputeTopologyDOT G (t\<lparr>Conns := []\<rparr>) req"
proof (rule dot_graph_no_edges)
  fix c assume "c \<in> set (Conns t)"
  then have "conn_From c \<in> rpc_ID ` set (Nodes t)"
    using ComputeTopology_facts(2,8) [OF assms(1,2), where E = E and s = s and req = req] unfolding assms(3) by simp
  with assms(4) show "conn_From c \<notin> rpc_URL ` set (Nodes t)" by blast
qed

theorem ComputeTopology_spec_witness:
  "\<exists>g. g = ComputeTopology fmap_state_env field_order field_order
       (AddKnownRPC fmap_state_env (sample_rpc ''a'')
         (AddKnownRPC fmap_state_env (sample_rpc ''b'') (NewState fmap_state_env '''' 0)))
       sample_request
     \<and> distinct (map rpc_ID (Nodes g)) \<and> rpc_ID ` set (Nodes g) = {''a'', ''b''}"
proof -
  let ?s = "AddKnownRPC fmap_state_env (sample_rpc ''a'')
         (AddKnownRPC fmap_state_env (sample_rpc ''b'') (NewState fmap_state_env '''' 0))"
  have peers: "RPCPeers fmap_state_env ?s u = []" for u
    by (simp add: RPCPeers_def AddKnownRPC_def NewState_def fmap_state_env_def round_env.defs
        alist_ordered.om_get_new)
  have known: "KnownRPCByURL fmap_state_env ?s (''http://'' @ n) = Some (sample_rpc n)" if "n = ''a'' \<or> n = ''b''" for n
    using that by (auto simp: KnownRPCByURL_def AddKnownRPC_def fmap_state_env_def round_env.defs
        alist_ordered.om_get_set sample_rpc_def)
  have "{x. \<exists>k \<le> c. reaches (RPCPeers fmap_state_env ?s) u m h k x} = {h}" for c u m h
    using reaches_first [of "RPCPeers fmap_state_env ?s" u m h] peers by (auto intro: reaches.home)
  then have crawl: "stackBasedCrawl (RPCPeers fmap_state_env ?s) u h c m = {h}" for u h c m
    by (simp add: crawl_loop_spec stackBasedCrawl_def in_range_def)
  have "include_nodes fmap_state_env ?s sample_request = {sample_rpc ''a'', sample_rpc ''b''}"
    using known [of "''a''"] known [of "''b''"]
    by (auto simp: include_nodes_def sample_request_def crawl)
  then have "rpc_ID ` include_nodes fmap_state_env ?s sample_request = {''a'', ''b''}"
    by (simp add: sample_rpc_def)
  with ComputeTopology_spec [OF field_order_lists_all field_order_lists_all, of fmap_state_env ?s sample_request]
  show ?thesis by simp
qed

theorem topology_dot_no_edges_witness:
  "\<exists>t. t = ComputeTopology fmap_state_env field_order field_order (AddKnownRPC fmap_state_env (sample_rpc ''a'')
       (NewState fmap_state_env '''' 0)) sample_request
     \<and> ComputeTopologyDOT sample_graph t sample_request = ComputeTopologyDOT sample_graph (t\<lparr>Conns := []\<rparr>) sample_request"
proof -
  let ?s = "AddKnownRPC fmap_state_env (sample_rpc ''a'') (NewState fmap_state_env '''' 0)"
  let ?t = "ComputeTopology fmap_state_env field_order field_order ?s sample_request"
  have peers: "RPCPeers fmap_state_env ?s u = []" for u
    by (simp add: RPCPeers_def AddKnownRPC_def NewState_def fmap_state_env_def round_env.defs
        alist_ordered.om_get_new)
  have "KnownRPCByURL fmap_state_env ?s (''http://'' @ n) = (if n = ''a'' then Some (sample_rpc n) else None)" for n
    by (auto simp: KnownRPCByURL_def AddKnownRPC_def NewState_def fmap_state_env_def round_env.defs
        alist_ordered.om_get_set alist_ordered.om_get_new sample_rpc_def)
  from this [of "''a''"] this [of "''b''"]
  have known: "KnownRPCByURL fmap_state_env ?s ''http://a'' = Some (sample_rpc ''a'')" "KnownRPCByURL fmap_state_env ?s ''http://b'' = None"
    by simp_all
  have "{x. \<exists>k \<le> c. reaches (RPCPeers fmap_state_env ?s) u m h k x} = {h}" for c u m h
    using reaches_first [of "RPCPeers fmap_state_env ?s" u m h] peers by (auto intro: reaches.home)
  then have "include_nodes fmap_state_env ?s sample_request = {sample_rpc ''a''}"
    using known by (auto simp: include_nodes_def sample_request_def crawl_loop_spec stackBasedCrawl_def in_range_def)
  then have "set (Nodes ?t) \<subseteq> {sample_rpc ''a''}"
    using ComputeTopology_facts(3) [OF field_order_lists_all field_order_lists_all, where E = fmap_state_env and s = ?s and req = sample_request] by simp
  then have "rpc_URL x = ''http://a'' \<and> rpc_ID x = ''a''" if "x \<in> set (Nodes ?t)" for x
    using that by (auto simp: sample_rpc_def)
  then have "rpc_URL ` set (Nodes ?t) \<inter> rpc_ID ` set (Nodes ?t) = {}" by fastforce
  with topology_dot_no_edges [OF field_order_lists_all field_order_lists_all refl] show ?thesis by blast
qed

end
