(* ===== verification/Server.thy ===== *)
theory Server
  imports Topology CometRpc
begin

text \<open>
  \<open>pkg/http/server.go\<close> and \<open>pkg/topology/http.go\<close>: the topology API. The router of gorilla/mux is a record
  of functions whose documented behaviour is \<open>router_ok\<close>; the request of net/http is opaque (\<open>'q\<close>), decoded by
  \<open>butils.UnmarshalHTTPRequest\<close>; JSON and DOT encoding and the CORS wrapper are arguments, of which nothing is
  assumed. A handler is a transformer of the response it writes, or \<open>None\<close> when it panics. Not modelled: listening,
  draining and connections that break while a response is written.
\<close>

section \<open>Responses\<close>

text \<open>\<open>http.ResponseWriter\<close>: the headers set so far; the status and the headers that went out with the first
  write or \<open>WriteHeader\<close>; the body.\<close>

type_synonym headers = "string \<rightharpoonup> string"

record response =
  rs_header :: headers
  rs_sent :: "(int \<times> headers) option"
  rs_body :: string

definition new_response :: response where
  "new_response = \<lparr>rs_header = Map.empty, rs_sent = None, rs_body = ''''\<rparr>"

definition set_header :: "string \<Rightarrow> string \<Rightarrow> response \<Rightarrow> response" where
  "set_header k v w = w\<lparr>rs_header := (rs_header w)(k \<mapsto> v)\<rparr>"

definition WriteHeader :: "int \<Rightarrow> response \<Rightarrow> response" where
  "WriteHeader code w =
     (case rs_sent w of None \<Rightarrow> w\<lparr>rs_sent := Some (code, rs_header w)\<rparr> | Some _ \<Rightarrow> w)"

definition write_body :: "string \<Rightarrow> response \<Rightarrow> response" where
  "write_body s w = (let w = WriteHeader 200 w in w\<lparr>rs_body := rs_body w @ s\<rparr>)"

text \<open>\<open>http.Error\<close>.\<close>

definition http_Error :: "string \<Rightarrow> int \<Rightarrow> response \<Rightarrow> response" where
  "http_Error msg code w =
     write_body (msg @ [CHR 0x0A])
       (WriteHeader code
         (set_header ''X-Content-Type-Options'' ''nosniff''
           (set_header ''Content-Type'' ''text/plain; charset=utf-8'' (w\<lparr>rs_header := (rs_header w)(''Content-Length'' := None)\<rparr>))))"

section \<open>server.go\<close>

type_synonym 'q handler = "'q \<Rightarrow> response \<Rightarrow> response option"

record ('q, 'r) router_ops =
  ro_NewRouter :: 'r
  ro_Route :: "'r \<Rightarrow> string \<Rightarrow> string \<Rightarrow> 'q handler \<Rightarrow> 'r"
  ro_NotFoundHandler :: "'r \<Rightarrow> 'q handler \<Rightarrow> 'r"
  ro_Match :: "'r \<Rightarrow> string \<Rightarrow> string \<Rightarrow> 'q handler option"
  ro_cleanPath :: "string \<Rightarrow> string"
  ro_with_path :: "'q \<Rightarrow> string \<Rightarrow> string"

record 'r Server =
  sv_Addr :: string
  sv_ReadHeaderTimeout :: duration
  sv_router :: 'r

text \<open>An option changes the server, or panics.\<close>

type_synonym 'r server_option = "'r Server \<Rightarrow> 'r Server option"

definition WithOptions :: "'r server_option list \<Rightarrow> 'r server_option" where
  "WithOptions opts s = fold (\<lambda>opt s. Option.bind s opt) opts (Some s)"

definition WithRouterOption :: "('r \<Rightarrow> 'r option) \<Rightarrow> 'r server_option" where
  "WithRouterOption opt s = map_option (\<lambda>r. s\<lparr>sv_router := r\<rparr>) (opt (sv_router s))"

definition WithServerOption :: "('r Server \<Rightarrow> 'r Server) \<Rightarrow> 'r server_option" where
  "WithServerOption opt s = Some ((opt s)\<lparr>sv_router := sv_router s\<rparr>)"

definition WithRoute :: "('q, 'r) router_ops \<Rightarrow> string \<Rightarrow> string \<Rightarrow> 'q handler \<Rightarrow> 'r server_option" where
  "WithRoute R httpmethod path handler = WithRouterOption (\<lambda>r. Some (ro_Route R r httpmethod path handler))"

definition NewServer :: "('q, 'r) router_ops \<Rightarrow> string \<Rightarrow> 'r server_option list \<Rightarrow> 'r Server option" where
  "NewServer R addr opts =
     (let s = \<lparr>sv_Addr = addr, sv_ReadHeaderTimeout = 5 * Second, sv_router = ro_NewRouter R\<rparr>
      in WithOptions opts s)"

section \<open>http.go\<close>

record ('q, 'g) api_env =
  ae_UnmarshalHTTPRequest :: "'q \<Rightarrow> goerror + ComputeTopologyRequest"
  ae_UnrestrictedCors :: "'q handler \<Rightarrow> 'q handler"
  ae_json_graph :: "Graph \<Rightarrow> goerror + string"
  ae_json_rpcs :: "RPC list \<Rightarrow> goerror + string"
  ae_json_validators :: "TMValidators \<Rightarrow> goerror + string"
  ae_graph :: "'g graph_ops"
  ae_dot_Marshal :: "'g \<Rightarrow> goerror + string"
  ae_assets :: "goerror + 'q handler"
  ae_order1 :: "RPC set \<Rightarrow> RPC list"
  ae_order2 :: "RPC set \<Rightarrow> RPC list"

text \<open>Writing into the response does not fail; \<open>json.Encoder\<close> writes nothing unless the whole value could be
  encoded.\<close>

definition RenderTopologyDOT :: "('q, 'g) api_env \<Rightarrow> 'g \<Rightarrow> response \<Rightarrow> response \<times> goerror option" where
  "RenderTopologyDOT A g w =
     (case ae_dot_Marshal A g of
        Inl err \<Rightarrow> (w, Some (''marshalling DOT graph: '' @ err))
      | Inr raw \<Rightarrow> (write_body raw w, None))"

definition json_Encode :: "(goerror + string) \<Rightarrow> response \<Rightarrow> response \<times> goerror option" where
  "json_Encode v w = (case v of Inl err \<Rightarrow> (w, Some err) | Inr s \<Rightarrow> (write_body s w, None))"

definition topology_handler ::
    "('h, 'r, 'k, 'p, 'z) state_env_scheme \<Rightarrow> ('q, 'g) api_env \<Rightarrow> ('h, 'k, 'p) State \<Rightarrow> 'q handler" where
  "topology_handler E A state r w =
     (case ae_UnmarshalHTTPRequest A r of
        Inl err \<Rightarrow> Some (http_Error (''bad request: '' @ err) 400 w)
      | Inr req \<Rightarrow>
          (let topo = ComputeTopology E (ae_order1 A) (ae_order2 A) state req
           in if req_Format req = ''dot'' then
                (case ComputeTopologyDOT (ae_graph A) topo req of
                   None \<Rightarrow> None
                 | Some g \<Rightarrow>
                     Some (case RenderTopologyDOT A g (set_header ''Content-Type'' ''text/vnd.graphviz'' w) of
                       (w, Some err) \<Rightarrow> http_Error (''could not marshal dot: '' @ err) 500 w
                     | (w, None) \<Rightarrow> w))
              else
                Some (case json_Encode (ae_json_graph A topo) (set_header ''Content-Type'' ''application/json'' w) of
                  (w, Some err) \<Rightarrow> http_Error (''could not marshal json: '' @ err) 500 w
                | (w, None) \<Rightarrow> w)))"

definition WithHTTPTopologyAPI ::
    "('h, 'r, 'k, 'p, 'z) state_env_scheme \<Rightarrow> ('q, 'g) api_env \<Rightarrow> ('q, 'rt) router_ops \<Rightarrow> ('h, 'k, 'p) State \<Rightarrow> 'rt server_option" where
  "WithHTTPTopologyAPI E A R state = WithRoute R ''GET'' ''/topology'' (ae_UnrestrictedCors A (topology_handler E A state))"

definition WithHTTPPeersAPI ::
    "('h, 'r, 'k, 'p, 'z) state_env_scheme \<Rightarrow> ('q, 'g) api_env \<Rightarrow> ('q, 'rt) router_ops \<Rightarrow> ('h, 'k, 'p) State \<Rightarrow> 'rt server_option" where
  "WithHTTPPeersAPI E A R state = WithRoute R ''GET'' ''/peers'' (ae_UnrestrictedCors A (\<lambda>r w.
     let peers = map snd (om_entries (rpcs_ops E) (KnownRPCs state))
     in Some (fst (json_Encode (ae_json_rpcs A peers) w))))"

definition WithHTTPDebugAPI ::
    "('q, 'g) api_env \<Rightarrow> ('q, 'rt) router_ops \<Rightarrow> ('h, 'k, 'p) State \<Rightarrow> 'rt server_option" where
  "WithHTTPDebugAPI A R state = WithRoute R ''GET'' ''/debug'' (ae_UnrestrictedCors A (\<lambda>r w.
     Some (fst (json_Encode (ae_json_validators A (GetTMValidators state)) w))))"

definition WithFrontendStaticAssets :: "('q, 'g) api_env \<Rightarrow> ('q, 'rt) router_ops \<Rightarrow> 'rt server_option" where
  "WithFrontendStaticAssets A R = WithRouterOption (\<lambda>r.
     case ae_assets A of
       Inl err \<Rightarrow> None
     | Inr assets \<Rightarrow> Some (ro_NotFoundHandler R r assets))"

text \<open>The server \<open>Start\<close> of the application constructs. The handlers read the state they share with the
  application: \<open>state\<close> is its value when the request is served.\<close>

definition topology_server ::
    "('h, 'r, 'k, 'p, 'z) state_env_scheme \<Rightarrow> ('q, 'g) api_env \<Rightarrow> ('q, 'rt) router_ops \<Rightarrow> string \<Rightarrow> ('h, 'k, 'p) State \<Rightarrow> 'rt Server option" where
  "topology_server E A R addr state =
     NewServer R addr
       [WithHTTPTopologyAPI E A R state, WithHTTPPeersAPI E A R state, WithHTTPDebugAPI A R state,
        WithFrontendStaticAssets A R]"

text \<open>What net/http answers. The router is one of \<open>mux.NewRouter\<close>, which cleans paths: a path that is not in canonical form
  is redirected to its clean one (\<open>ro_with_path\<close> is the URL of the request with another path). Otherwise the handler
  that the router has matched answers, or the router itself (\<open>None\<close>: not found or method not allowed).\<close>

definition redirect :: "string \<Rightarrow> response \<Rightarrow> response" where
  "redirect url w = WriteHeader 301 (set_header ''Location'' url w)"

definition serve :: "('q, 'r) router_ops \<Rightarrow> 'r Server \<Rightarrow> string \<Rightarrow> string \<Rightarrow> 'q \<Rightarrow> response option option" where
  "serve R s httpmethod path q =
     (let p = ro_cleanPath R path
      in if p \<noteq> path then Some (Some (redirect (ro_with_path R q p) new_response))
         else map_option (\<lambda>h. map_option (WriteHeader 200) (h q new_response)) (ro_Match R (sv_router s) httpmethod path))"

section \<open>Specification\<close>

text \<open>What mux documents of a router built by these calls: the first route whose method and path match answers;
  a path that only other methods have is answered by the router itself (method not allowed); every other request by the
  not-found handler when there is one.\<close>

definition matches :: "(string \<times> string \<times> 'q handler) list \<Rightarrow> 'q handler option \<Rightarrow> string \<Rightarrow> string \<Rightarrow> 'q handler option" where
  "matches routes fallback m p =
     (case List.find (\<lambda>(m', p', h). m' = m \<and> p' = p) routes of
        Some (_, _, h) \<Rightarrow> Some h
      | None \<Rightarrow> (if \<exists>(m', p', h) \<in> set routes. p' = p then None else fallback))"

text \<open>A path in canonical form: a slash, and between its slashes no element that is empty, \<open>.\<close> or \<open>..\<close>.\<close>

definition canonical :: "string \<Rightarrow> bool" where
  "canonical p \<longleftrightarrow> (\<exists>t. p = CHR ''/'' # t \<and> set (split_on CHR ''/'' t) \<inter> {'''', ''.'', ''..''} = {})"

definition router_ok ::
    "('q, 'r) router_ops \<Rightarrow> ('r \<Rightarrow> (string \<times> string \<times> 'q handler) list) \<Rightarrow> ('r \<Rightarrow> 'q handler option) \<Rightarrow> bool" where
  "router_ok R routes fallback \<longleftrightarrow>
     routes (ro_NewRouter R) = [] \<and> fallback (ro_NewRouter R) = None
     \<and> (\<forall>r m p h. routes (ro_Route R r m p h) = routes r @ [(m, p, h)] \<and> fallback (ro_Route R r m p h) = fallback r)
     \<and> (\<forall>r h. routes (ro_NotFoundHandler R r h) = routes r \<and> fallback (ro_NotFoundHandler R r h) = Some h)
     \<and> (\<forall>r m p. ro_Match R r m p = matches (routes r) (fallback r) m p)
     \<and> (\<forall>p. canonical p \<longrightarrow> ro_cleanPath R p = p)"

text \<open>The answer as the client sees it: status, content type and body; inside, \<open>None\<close> is the panic of the handler.\<close>

definition answer :: "response \<Rightarrow> int \<times> string option \<times> string" where
  "answer w =
     (case rs_sent w of
        None \<Rightarrow> (200, rs_header w ''Content-Type'', rs_body w)
      | Some (code, hs) \<Rightarrow> (code, hs ''Content-Type'', rs_body w))"

text \<open>What the topology endpoint should answer to a decoded request.\<close>

definition topology_answer :: "('q, 'g) api_env \<Rightarrow> Graph \<Rightarrow> ComputeTopologyRequest \<Rightarrow> (int \<times> string \<times> string) option" where
  "topology_answer A topo req =
     (if req_Format req = ''dot'' then
        map_option (\<lambda>g. case ae_dot_Marshal A g of
            Inl err \<Rightarrow> (500, ''text/plain; charset=utf-8'', ''could not marshal dot: marshalling DOT graph: '' @ err @ [CHR 0x0A])
          | Inr raw \<Rightarrow> (200, ''text/vnd.graphviz'', raw)) (ComputeTopologyDOT (ae_graph A) topo req)
      else Some (case ae_json_graph A topo of
            Inl err \<Rightarrow> (500, ''text/plain; charset=utf-8'', ''could not marshal json: '' @ err @ [CHR 0x0A])
          | Inr raw \<Rightarrow> (200, ''application/json'', raw)))"

text \<open>A router for the witnesses, with the path cleaning of net/http.\<close>

definition clean_path :: "string \<Rightarrow> string" where
  "clean_path p =
     (let p = (if p = '''' \<or> hd p \<noteq> CHR ''/'' then CHR ''/'' # p else p); np = path_Clean p
      in if last p = CHR ''/'' \<and> np \<noteq> ''/'' then np @ ''/'' else np)"

definition list_router :: "('q, (string \<times> string \<times> 'q handler) list \<times> 'q handler option) router_ops" where
  "list_router =
     \<lparr>ro_NewRouter = ([], None), ro_Route = (\<lambda>(rs, f) m p h. (rs @ [(m, p, h)], f)),
      ro_NotFoundHandler = (\<lambda>(rs, f) h. (rs, Some h)), ro_Match = (\<lambda>(rs, f) m p. matches rs f m p),
      ro_cleanPath = clean_path, ro_with_path = (\<lambda>q p. p)\<rparr>"

definition sample_api :: "(goerror + ComputeTopologyRequest, DOTPeerNode list \<times> DOTEdge list) api_env" where
  "sample_api =
     \<lparr>ae_UnmarshalHTTPRequest = id, ae_UnrestrictedCors = id, ae_json_graph = (\<lambda>g. Inr ''{}''), ae_json_rpcs = (\<lambda>_. Inr ''[]''),
      ae_json_validators = (\<lambda>_. Inr ''[]''), ae_graph = sample_graph, ae_dot_Marshal = (\<lambda>g. Inr ''strict graph {}''),
      ae_assets = Inr (\<lambda>q w. Some (write_body ''index'' w)), ae_order1 = field_order, ae_order2 = field_order\<rparr>"


section \<open>Lemmas\<close>

lemmas response_defs = new_response_def set_header_def WriteHeader_def write_body_def http_Error_def json_Encode_def
  RenderTopologyDOT_def answer_def

lemma join_split_on: "join [sep] (split_on sep s) = s"
proof (induction s)
  case (Cons c s)
  obtain x xs where "split_on sep s = x # xs" using split_on_not_Nil [of sep s] by (cases "split_on sep s") auto
  with Cons show ?case by (cases xs) auto
qed simp

lemma clean_elems_canonical:
  "set es \<inter> {'''', ''.'', ''..''} = {} \<Longrightarrow> clean_elems rooted acc es = rev acc @ es"
  by (induction es arbitrary: acc) auto

lemma split_on_last: "split_on sep (s @ [sep]) = split_on sep s @ ['''']"
proof (induction s)
  case (Cons c s)
  then show ?case by (cases "split_on sep s"; cases "c = sep") auto
qed simp

lemma clean_path_canonical:
  assumes "canonical p"
  shows "clean_path p = p"
proof -
  obtain t where t: "p = CHR ''/'' # t" "set (split_on CHR ''/'' t) \<inter> {'''', ''.'', ''..''} = {}"
    using assms by (auto simp: canonical_def)
  have "split_on CHR ''/'' p = '''' # split_on CHR ''/'' t"
    using t(1) split_on_append [of "CHR ''/''" "''''" t] by simp
  then have c: "path_Clean p = p" using clean_elems_canonical [OF t(2), of True "[]"] t(1)
    by (simp add: path_Clean_def join_split_on)
  have "t \<noteq> ''''" using t(2) by auto
  moreover have "last t \<noteq> CHR ''/''"
  proof
    assume "last t = CHR ''/''"
    then have "t = butlast t @ [CHR ''/'']" using \<open>t \<noteq> ''''\<close> append_butlast_last_id [of t] by simp
    then have "'''' \<in> set (split_on CHR ''/'' t)" using split_on_last [of "CHR ''/''" "butlast t"] by simp
    with t(2) show False by blast
  qed
  ultimately have "last p \<noteq> CHR ''/''" using t(1) by simp
  with c t(1) show ?thesis by (simp add: clean_path_def)
qed

lemma list_router_ok: "router_ok list_router fst snd"
  using clean_path_canonical by (auto simp: router_ok_def list_router_def)

lemma api_canonical: "p \<in> {''/topology'', ''/peers'', ''/debug''} \<Longrightarrow> canonical p"
  by (auto simp: canonical_def)

text \<open>The three routes in order and the static assets behind them.\<close>

lemma topology_server_routes:
  assumes "router_ok R routes fallback" "ae_assets A = Inr assets"
  shows "\<exists>s. topology_server E A R addr state = Some s \<and> fallback (sv_router s) = Some assets
    \<and> map (\<lambda>(m, p, h). (m, p)) (routes (sv_router s)) = [(''GET'', ''/topology''), (''GET'', ''/peers''), (''GET'', ''/debug'')]
    \<and> (\<exists>rest. routes (sv_router s) = (''GET'', ''/topology'', ae_UnrestrictedCors A (topology_handler E A state)) # rest)"
  using assms
  by (simp add: topology_server_def NewServer_def WithOptions_def WithHTTPTopologyAPI_def WithHTTPPeersAPI_def
      WithHTTPDebugAPI_def WithFrontendStaticAssets_def WithRoute_def WithRouterOption_def router_ok_def Let_def)

lemma serve_matches:
  assumes "router_ok R routes fallback" "ro_cleanPath R p = p"
  shows "serve R s m p q = map_option (\<lambda>h. map_option (WriteHeader 200) (h q new_response)) (matches (routes (sv_router s)) (fallback (sv_router s)) m p)"
  using assms by (simp add: serve_def router_ok_def)

lemma matches_keys:
  assumes "map (\<lambda>(m, p, h). (m, p)) routes = keys"
  shows "(m, p) \<notin> set keys \<Longrightarrow> matches routes f m p = (if p \<in> snd ` set keys then None else f)"
proof -
  assume no: "(m, p) \<notin> set keys"
  have k: "set keys = (\<lambda>(m, p, h). (m, p)) ` set routes" using assms by (metis set_map)
  have "List.find (\<lambda>(m', p', h). m' = m \<and> p' = p) routes = None"
    using no unfolding k find_None_iff by (auto simp: image_iff)
  moreover have "(\<exists>(m', p', h) \<in> set routes. p' = p) \<longleftrightarrow> p \<in> snd ` set keys"
    unfolding k by (force simp: image_iff)
  ultimately show ?thesis by (simp add: matches_def)
qed

text \<open>The handler itself, whatever headers have been set before it is called.\<close>

lemma topology_handler_bad:
  assumes "ae_UnmarshalHTTPRequest A q = Inl err"
  shows "map_option (\<lambda>w. answer (WriteHeader 200 w)) (topology_handler E A state q (new_response\<lparr>rs_header := hs\<rparr>)) =
    Some (400, Some ''text/plain; charset=utf-8'', ''bad request: '' @ err @ [CHR 0x0A])"
  by (simp add: topology_handler_def assms response_defs)

lemma topology_handler_good:
  assumes "ae_UnmarshalHTTPRequest A q = Inr req"
  shows "map_option (\<lambda>w. answer (WriteHeader 200 w)) (topology_handler E A state q (new_response\<lparr>rs_header := hs\<rparr>)) =
    map_option (\<lambda>(code, ct, body). (code, Some ct, body))
      (topology_answer A (ComputeTopology E (ae_order1 A) (ae_order2 A) state req) req)"
proof (cases "req_Format req = ''dot''")
  case True
  then show ?thesis
    by (cases "ComputeTopologyDOT (ae_graph A) (ComputeTopology E (ae_order1 A) (ae_order2 A) state req) req")
      (simp_all add: topology_handler_def assms topology_answer_def Let_def response_defs split: sum.split)
next
  case False
  then show ?thesis
    by (simp add: topology_handler_def assms topology_answer_def Let_def response_defs split: sum.split)
qed

section \<open>Properties\<close>

text \<open>C36: the topology API. What \<open>GET /topology\<close> answers is what the CORS wrapper makes of the handler, and on a response
  of which nothing has been sent, whatever headers are set, the handler answers a request that cannot be decoded
  with status 400 and every other one with the computed topology in the format asked for, or status 500 when it
  cannot be encoded. Other methods on the paths of the API are refused; a path that is not clean is redirected
  with its query to the clean one; all other paths are served from the static assets.\<close>

theorem topology_api_spec:
  assumes "router_ok R routes fallback" "ae_assets A = Inr assets"
  shows "\<exists>s. topology_server E A R addr state = Some s
    \<and> (\<forall>q. serve R s ''GET'' ''/topology'' q =
         Some (map_option (WriteHeader 200) (ae_UnrestrictedCors A (topology_handler E A state) q new_response)))
    \<and> (\<forall>q w. rs_sent w = None \<and> rs_body w = '''' \<longrightarrow>
         map_option (\<lambda>w. answer (WriteHeader 200 w)) (topology_handler E A state q w) =
           (case ae_UnmarshalHTTPRequest A q of
              Inl err \<Rightarrow> Some (400, Some ''text/plain; charset=utf-8'', ''bad request: '' @ err @ [CHR 0x0A])
            | Inr req \<Rightarrow> map_option (\<lambda>(code, ct, body). (code, Some ct, body))
                (topology_answer A (ComputeTopology E (ae_order1 A) (ae_order2 A) state req) req)))
    \<and> (\<forall>m p q. m \<noteq> ''GET'' \<and> p \<in> {''/topology'', ''/peers'', ''/debug''} \<longrightarrow> serve R s m p q = None)
    \<and> (\<forall>m p q. ro_cleanPath R p \<noteq> p \<longrightarrow> serve R s m p q =
         Some (Some \<lparr>rs_header = [''Location'' \<mapsto> ro_with_path R q (ro_cleanPath R p)],
           rs_sent = Some (301, [''Location'' \<mapsto> ro_with_path R q (ro_cleanPath R p)]), rs_body = ''''\<rparr>))
    \<and> (\<forall>m p q. ro_cleanPath R p = p \<and> p \<notin> {''/topology'', ''/peers'', ''/debug''} \<longrightarrow>
         serve R s m p q = Some (map_option (WriteHeader 200) (assets q new_response)))"
proof -
  obtain s rest where s: "topology_server E A R addr state = Some s" "fallback (sv_router s) = Some assets"
    and keys: "map (\<lambda>(m, p, h). (m, p)) (routes (sv_router s)) = [(''GET'', ''/topology''), (''GET'', ''/peers''), (''GET'', ''/debug'')]"
    and rest: "routes (sv_router s) = (''GET'', ''/topology'', ae_UnrestrictedCors A (topology_handler E A state)) # rest"
    using topology_server_routes [OF assms, where E = E and addr = addr and state = state] by (elim exE conjE)
  note serve = serve_matches [OF assms(1)] and other = matches_keys [OF keys]
  have clean: "ro_cleanPath R p = p" if "p \<in> {''/topology'', ''/peers'', ''/debug''}" for p
    using assms(1) api_canonical [OF that] by (simp add: router_ok_def)
  have top: "serve R s ''GET'' ''/topology'' q =
      Some (map_option (WriteHeader 200) (ae_UnrestrictedCors A (topology_handler E A state) q new_response))" for q
  proof -
    have "ro_cleanPath R ''/topology'' = ''/topology''" by (rule clean) simp
    from serve [OF this] show ?thesis by (simp add: matches_def rest)
  qed
  have handler: "map_option (\<lambda>w. answer (WriteHeader 200 w)) (topology_handler E A state q w) =
           (case ae_UnmarshalHTTPRequest A q of
              Inl err \<Rightarrow> Some (400, Some ''text/plain; charset=utf-8'', ''bad request: '' @ err @ [CHR 0x0A])
            | Inr req \<Rightarrow> map_option (\<lambda>(code, ct, body). (code, Some ct, body))
                (topology_answer A (ComputeTopology E (ae_order1 A) (ae_order2 A) state req) req))"
    if "rs_sent w = None \<and> rs_body w = ''''" for q w
  proof -
    have w: "w = new_response\<lparr>rs_header := rs_header w\<rparr>" using that by (simp add: new_response_def)
    show ?thesis
      by (subst w, cases "ae_UnmarshalHTTPRequest A q") (simp_all only: topology_handler_bad topology_handler_good sum.case)
  qed
  have refused: "serve R s m p q = None" if "m \<noteq> ''GET'' \<and> p \<in> {''/topology'', ''/peers'', ''/debug''}" for m p q
  proof -
    have "matches (routes (sv_router s)) (fallback (sv_router s)) m p = None"
      by (subst other) (use that in simp_all)
    then show ?thesis using serve [OF clean] that by simp
  qed
  have redirected: "serve R s m p q = Some (Some \<lparr>rs_header = [''Location'' \<mapsto> ro_with_path R q (ro_cleanPath R p)],
           rs_sent = Some (301, [''Location'' \<mapsto> ro_with_path R q (ro_cleanPath R p)]), rs_body = ''''\<rparr>)"
    if "ro_cleanPath R p \<noteq> p" for m p q
    using that by (simp add: serve_def redirect_def response_defs Let_def)
  have static: "serve R s m p q = Some (map_option (WriteHeader 200) (assets q new_response))"
    if "ro_cleanPath R p = p \<and> p \<notin> {''/topology'', ''/peers'', ''/debug''}" for m p q
  proof -
    have "matches (routes (sv_router s)) (fallback (sv_router s)) m p = Some assets"
      by (subst other) (use that s(2) in simp_all)
    then show ?thesis using serve that by simp
  qed
  show ?thesis
    by (intro exI [of _ s] conjI allI impI; (rule s(1) top | (rule handler refused redirected static, assumption)))
qed

theorem topology_api_spec_witness:
  "\<exists>s w. topology_server fmap_state_env sample_api list_router ''0.0.0.0:8080'' (NewState fmap_state_env '''' 0) = Some s
     \<and> serve list_router s ''GET'' ''/topology'' (Inl ''bad query'') = Some (Some w)
     \<and> answer w = (400, Some ''text/plain; charset=utf-8'', ''bad request: bad query'' @ [CHR 0x0A])
     \<and> serve list_router s ''POST'' ''/topology'' (Inl ''bad query'') = None
     \<and> map_option (map_option rs_sent) (serve list_router s ''GET'' ''//topology'' (Inl ''bad query'')) =
         Some (Some (Some (301, [''Location'' \<mapsto> ''/topology''])))"
proof -
  let ?state = "NewState fmap_state_env '''' 0"
  let ?h = "topology_handler fmap_state_env sample_api ?state"
  have "ae_assets sample_api = Inr (\<lambda>q w. Some (write_body ''index'' w))" by (simp add: sample_api_def)
  note spec = topology_api_spec [OF list_router_ok this, of fmap_state_env "''0.0.0.0:8080''" ?state]
  have api: "ae_UnmarshalHTTPRequest sample_api (Inl ''bad query'') = Inl ''bad query''" "ae_UnrestrictedCors sample_api = id"
    by (simp_all add: sample_api_def)
  have fresh: "rs_sent new_response = None \<and> rs_body new_response = ''''" by (simp add: new_response_def)
  have clean: "ro_cleanPath list_router ''//topology'' = ''/topology''"
    by (simp add: list_router_def clean_path_def path_Clean_def)
  from spec show ?thesis
  proof (elim exE conjE, goal_cases)
    case (1 s)
    note top = 1(2) [rule_format, of "Inl ''bad query''"] and handler = 1(3) [rule_format, OF fresh, of "Inl ''bad query''"]
    obtain w where w: "?h (Inl ''bad query'') new_response = Some w"
      "answer (WriteHeader 200 w) = (400, Some ''text/plain; charset=utf-8'', ''bad request: bad query'' @ [CHR 0x0A])"
      using handler by (cases "?h (Inl ''bad query'') new_response") (simp_all add: api)
    have "serve list_router s ''GET'' ''/topology'' (Inl ''bad query'') = Some (Some (WriteHeader 200 w))"
      using top by (simp add: api w(1))
    moreover have "map_option (map_option rs_sent) (serve list_router s ''GET'' ''//topology'' (Inl ''bad query'')) =
         Some (Some (Some (301, [''Location'' \<mapsto> ''/topology''])))"
      using 1(5) [rule_format, of "''//topology''" "''GET''" "Inl ''bad query''"] by (simp add: clean) (simp add: list_router_def)
    moreover have "serve list_router s ''POST'' ''/topology'' (Inl ''bad query'') = None" using 1(4) by simp
    ultimately show ?case using 1(1) w(2) by (intro exI [of _ s] exI [of _ "WriteHeader 200 w"] conjI)
  qed
qed

end
