(* ===== verification/Cli.thy ===== *)
theory Cli
  imports Analytics Panels
begin

text \<open>
  The command line of the analytics mode: \<open>pkg/analytics/cli.go\<close>, \<open>debug.go\<close> and \<open>run.go\<close>. A command is
  the lines it prints on standard output and the error it returns. \<open>time.Format\<close> and \<open>strconv.Quote\<close> are
  arguments, as are the driver failures (\<open>an_fail\<close>) and the readings of the clock. The composition with
  the analytics says what these commands can show of a database the program has written.
\<close>

section \<open>Output\<close>

record cli_env =
  cl_an :: an_env
  cl_time :: "string \<Rightarrow> instant \<Rightarrow> string"
  cl_quote :: "string \<Rightarrow> string"

type_synonym printed = "string list \<times> goerror option"

definition bar_chart :: string where "bar_chart = utf8 [0xF0, 0x9F, 0x93, 0x8A]"
definition light_bulb :: string where "light_bulb = utf8 [0xF0, 0x9F, 0x92, 0xA1]"
definition thought :: string where "thought = utf8 [0xF0, 0x9F, 0x92, 0xAD]"
definition bullet :: string where "bullet = utf8 [0xE2, 0x80, 0xA2]"
definition ballot_box :: string where "ballot_box = utf8 [0xF0, 0x9F, 0x97, 0xB3, 0xEF, 0xB8, 0x8F]"
definition warning_emoji :: string where "warning_emoji = utf8 [0xE2, 0x9A, 0xA0, 0xEF, 0xB8, 0x8F]"
definition stopwatch :: string where "stopwatch = utf8 [0xE2, 0x8F, 0xB1, 0xEF, 0xB8, 0x8F]"
definition cross_mark :: string where "cross_mark = utf8 [0xE2, 0x9D, 0x8C]"
definition check_mark :: string where "check_mark = utf8 [0xE2, 0x9C, 0x85]"
definition people :: string where "people = utf8 [0xF0, 0x9F, 0x91, 0xA5]"
definition ruler :: string where "ruler = utf8 [0xF0, 0x9F, 0x93, 0x8F]"
definition magnifier :: string where "magnifier = utf8 [0xF0, 0x9F, 0x94, 0x8D]"

definition date_time :: string where
  "date_time = ''2006-01-02 15:04:05''"

section \<open>cli.go\<close>

definition window_line :: "cli_env \<Rightarrow> string \<Rightarrow> TimeWindow \<Rightarrow> string" where
  "window_line C durationStr w =
     ''Time Window: '' @ durationStr @ '' ('' @ cl_time C date_time (tw_Start w) @ '' to '' @ cl_time C date_time (tw_End w) @ '')''"

definition no_data_lines :: "string \<Rightarrow> string list" where
  "no_data_lines validatorAddr =
     [bar_chart @ '' No data found for validator '' @ validatorAddr @ '' in the specified time window.'',
      light_bulb @ '' This could mean:'',
      ''   '' @ bullet @ '' The database is empty (tmtop hasn'' @ [CHR 0x27] @ ''t been running long enough)'',
      ''   '' @ bullet @ '' The validator address is incorrect'',
      ''   '' @ bullet @ '' The time window doesn'' @ [CHR 0x27] @ ''t contain any recorded blocks'',
      '''',
      thought @ '' Try:'',
      ''   '' @ bullet @ '' Run tmtop in normal mode first to collect data'',
      ''   '' @ bullet @ '' Use a different time window (e.g., --analytics-time-window 1h)'',
      ''   '' @ bullet @ '' Check if the validator address is correct'']"

definition metrics_lines :: "PerformanceMetrics \<Rightarrow> string list" where
  "metrics_lines m =
     [bar_chart @ '' Block Signing Performance:'',
      ''  Total Blocks:       '' @ itoa (pm_TotalBlocks m),
      ''  Blocks Signed:      '' @ itoa (pm_BlocksSigned m),
      ''  Blocks Missed:      '' @ itoa (pm_BlocksMissed m),
      ''  Signing Efficiency: '' @ fmt_fixed 2 (pm_SigningEfficiency m) @ ''%'',
      '''',
      ballot_box @ ''  Consensus Participation:'',
      ''  Total Rounds:       '' @ itoa (pm_TotalRounds m),
      ''  Prevote Rate:       '' @ fmt_fixed 2 (pm_PrevoteRate m) @ ''%'',
      ''  Precommit Rate:     '' @ fmt_fixed 2 (pm_PrecommitRate m) @ ''%'',
      '''',
      warning_emoji @ ''  Miss Analysis:'',
      ''  Longest Miss Streak: '' @ itoa (pm_LongestMissStreak m) @ '' blocks'']"

definition streak_line :: "MissedBlockStreak \<Rightarrow> string" where
  "streak_line s = ''    - '' @ itoa (mb_ConsecutiveMisses s) @ '' blocks (heights '' @ itoa (mb_StreakStartHeight s) @ ''-'' @
     itoa (mb_StreakEndHeight s) @ '')''"

definition streak_lines :: "goerror + MissedBlockStreak list \<Rightarrow> string list" where
  "streak_lines res =
     (case res of
        Inl err \<Rightarrow> []
      | Inr streaks \<Rightarrow> (if streaks \<noteq> [] then ''  Recent Miss Streaks:'' # map streak_line (take 5 streaks) else []))"

definition uptime_lines :: "goerror + UptimeMetrics \<Rightarrow> string list" where
  "uptime_lines res =
     (case res of
        Inl err \<Rightarrow> []
      | Inr u \<Rightarrow>
          [stopwatch @ ''  Uptime Metrics:'',
           ''  Uptime Percentage:  '' @ fmt_fixed 2 (um_UptimePercentage u) @ ''%'',
           ''  Blocks Participated: '' @ itoa (um_BlocksParticipated u) @ ''/'' @ itoa (um_TotalBlocksInWindow u)])"

definition PrintValidatorPerformance ::
    "cli_env \<Rightarrow> instant \<Rightarrow> instant \<Rightarrow> string \<Rightarrow> string \<Rightarrow> database \<Rightarrow> printed" where
  "PrintValidatorPerformance C now1 now2 validatorAddr durationStr d =
     (case ParseTimeWindow (cl_an C) now1 durationStr of
        Inl err \<Rightarrow> ([], Some (''invalid time window: '' @ err))
      | Inr window \<Rightarrow>
          (let head = ['''', ''=== Validator Performance Analysis ==='', ''Validator: '' @ validatorAddr,
                       window_line C durationStr window, ''======================================='', '''']
           in case GetSigningEfficiency (cl_an C) now2 validatorAddr window d of
                Inl err \<Rightarrow> (head, Some (''failed to get performance metrics: '' @ err))
              | Inr metrics \<Rightarrow>
                  (if pm_TotalBlocks metrics = 0 then (head @ no_data_lines validatorAddr, None)
                   else (head @ metrics_lines metrics @
                     (if pm_LongestMissStreak metrics > 0
                      then streak_lines (GetMissedBlockStreaks (cl_an C) validatorAddr window d) else []) @ [''''] @
                     uptime_lines (GetValidatorUptime (cl_an C) validatorAddr window d), None))))"

text \<open>The moniker column; the Go slices cut bytes, not runes.\<close>

definition ranking_moniker :: "ValidatorRanking \<Rightarrow> string" where
  "ranking_moniker v =
     (let moniker = vr_Moniker v;
          moniker = (if length moniker > 20 then take 17 moniker @ ''...'' else moniker)
      in if moniker = '''' then
           (if length (vr_HexAddress v) > 12 then take 12 (vr_HexAddress v) @ ''...'' else vr_HexAddress v)
         else moniker)"

definition ranking_line :: "ValidatorRanking \<Rightarrow> string" where
  "ranking_line v =
     pad_right 4 (itoa (vr_EfficiencyRank v)) @ '' '' @ pad_right 20 (ranking_moniker v) @ '' '' @
     pad_right 12 (itoa (vr_BlocksSigned v) @ ''/'' @ itoa (vr_TotalBlocks v)) @ '' '' @
     pad_right 12 (fmt_fixed 2 (vr_SigningEfficiency v) @ ''%'') @ '' '' @ pad_right 12 (itoa (vr_VotingPower v)) @ '' '' @
     pad_right 8 (itoa (vr_PrevotesCast v)) @ '' '' @ pad_right 12 (itoa (vr_PrecommitsCast v))"

definition ranking_header :: "string list" where
  "ranking_header =
     [pad_right 4 ''Rank'' @ '' '' @ pad_right 20 ''Moniker'' @ '' '' @ pad_right 12 ''Blocks Signed'' @ '' '' @
        pad_right 12 ''Efficiency'' @ '' '' @ pad_right 12 ''Voting Power'' @ '' '' @ pad_right 8 ''Prevotes'' @ '' '' @
        pad_right 12 ''Precommits'',
      ''---- -------------------- ------------ ------------ ------------ -------- ------------'']"

text \<open>\<open>rankings[i]\<close> for \<open>i < displayCount\<close>: the count is at most the length of the slice.\<close>

definition PrintValidatorRankings :: "cli_env \<Rightarrow> instant \<Rightarrow> string \<Rightarrow> nat \<Rightarrow> database \<Rightarrow> printed" where
  "PrintValidatorRankings C now durationStr limit d =
     (case ParseTimeWindow (cl_an C) now durationStr of
        Inl err \<Rightarrow> ([], Some (''invalid time window: '' @ err))
      | Inr window \<Rightarrow>
          (let head = ['''', ''=== Validator Performance Rankings ==='', window_line C durationStr window,
                       ''======================================'', '''']
           in case GetAllValidatorMetrics (cl_an C) window d of
                Inl err \<Rightarrow> (head, Some (''failed to get validator rankings: '' @ err))
              | Inr rankings \<Rightarrow>
                  (if rankings = [] then (head @ [''No validator data found for the specified time window.''], None)
                   else
                     let displayCount = (if length rankings < limit then length rankings else limit)
                     in (head @ ranking_header @ map (\<lambda>i. ranking_line (rankings ! i)) [0..<displayCount] @
                         (if length rankings > limit
                          then ['''', ''... and '' @ itoa (int (length rankings - limit)) @ '' more validators''] else []), None))))"

definition series_line :: "cli_env \<Rightarrow> TimeSeriesPoint \<Rightarrow> string" where
  "series_line C p =
     pad_right 20 (cl_time C ''2006-01-02 15:04'' (tp_TimeBucket p)) @ '' '' @ pad_right 12 (itoa (tp_BlocksInBucket p)) @ '' '' @
     pad_right 12 (itoa (tp_BlocksSigned p)) @ '' '' @ pad_right 12 (fmt_fixed 2 (tp_SigningEfficiency p) @ ''%'')"

definition PrintPerformanceTimeSeries :: "cli_env \<Rightarrow> instant \<Rightarrow> string \<Rightarrow> string \<Rightarrow> database \<Rightarrow> printed" where
  "PrintPerformanceTimeSeries C now validatorAddr durationStr d =
     (case ParseTimeWindow (cl_an C) now durationStr of
        Inl err \<Rightarrow> ([], Some (''invalid time window: '' @ err))
      | Inr window \<Rightarrow>
          (let head = ['''', ''=== Validator Performance Time Series ==='', ''Validator: '' @ validatorAddr,
                       ''Time Window: '' @ durationStr @ '' (hourly buckets)'', ''========================================='', '''']
           in case GetPerformanceTimeSeries (cl_an C) validatorAddr window d of
                Inl err \<Rightarrow> (head, Some (''failed to get performance time series: '' @ err))
              | Inr series \<Rightarrow>
                  (if series = [] then (head @ [''No time series data found for the specified time window.''], None)
                   else (head @
                     [pad_right 20 ''Time'' @ '' '' @ pad_right 12 ''Blocks'' @ '' '' @ pad_right 12 ''Signed'' @ '' '' @ pad_right 12 ''Efficiency'',
                      ''-------------------- ------------ ------------ ------------''] @ map (series_line C) series, None))))"

text \<open>\<open>Duration.Minutes\<close> and \<open>Duration.Hours\<close>.\<close>

definition duration_in :: "duration \<Rightarrow> duration \<Rightarrow> rat" where
  "duration_in unit d =
     (let n = go_div d unit in fadd (float_of_int n) (fdiv (float_of_int (d - n * unit)) (float_of_int unit)))"

definition FormatDuration :: "duration \<Rightarrow> string" where
  "FormatDuration d =
     (if d < 60 * Second then fmt_fixed 0 (duration_seconds d) @ ''s''
      else if d < 3600 * Second then fmt_fixed 1 (duration_in (60 * Second) d) @ ''m''
      else if d < 24 * (3600 * Second) then fmt_fixed 1 (duration_in (3600 * Second) d) @ ''h''
      else fmt_fixed 1 (fdiv (duration_in (3600 * Second) d) 24) @ ''d'')"

section \<open>debug.go\<close>

definition nullTimeStr :: "cli_env \<Rightarrow> string \<Rightarrow> instant option \<Rightarrow> string" where
  "nullTimeStr C layout t = (case t of None \<Rightarrow> ''NULL'' | Some t \<Rightarrow> cl_time C layout t)"

definition nullStringStr :: "string option \<Rightarrow> string" where
  "nullStringStr s = (case s of None \<Rightarrow> ''NULL'' | Some s \<Rightarrow> s)"

definition null_moniker :: "string option \<Rightarrow> string" where
  "null_moniker m = (case m of None \<Rightarrow> '''' | Some m \<Rightarrow> m)"

definition counter_line :: "string \<times> (goerror + int) \<Rightarrow> string" where
  "counter_line = (\<lambda>(name, res).
     case res of
       Inl err \<Rightarrow> cross_mark @ '' '' @ name @ '': ERROR - '' @ err
     | Inr n \<Rightarrow> bar_chart @ '' '' @ name @ '': '' @ itoa n @ '' records'')"

definition printSampleValidators :: "cli_env \<Rightarrow> database \<Rightarrow> printed" where
  "printSampleValidators C d =
     (case run_query (cl_an C) ''SampleValidators'' (SampleValidators d) of
        Inl err \<Rightarrow> ([], Some (''sampling validators: '' @ err))
      | Inr rows \<Rightarrow>
          ((people @ '' Sample Validators:'') # map (\<lambda>(oper, moniker, power).
             ''   '' @ oper @ '' ('' @ null_moniker moniker @ '') - Power: '' @ itoa power) rows, None))"

definition printSampleHeights :: "cli_env \<Rightarrow> database \<Rightarrow> printed" where
  "printSampleHeights C d =
     (case run_query (cl_an C) ''SampleHeights'' (SampleHeights d) of
        Inl err \<Rightarrow> ([], Some (''sampling heights: '' @ err))
      | Inr rows \<Rightarrow>
          ((ruler @ '' Sample Heights (latest):'') # map (\<lambda>(height, t, proposer).
             ''   Height: '' @ itoa height @ '', Time: '' @ nullTimeStr C date_time t @ '', Proposer: '' @ nullStringStr proposer) rows, None))"

definition printSampleVotes :: "cli_env \<Rightarrow> database \<Rightarrow> printed" where
  "printSampleVotes C d =
     (case run_query (cl_an C) ''SampleVotes'' (SampleVotes d) of
        Inl err \<Rightarrow> ([], Some (''sampling votes: '' @ err))
      | Inr rows \<Rightarrow>
          ((ballot_box @ ''  Sample Votes:'') # map (\<lambda>(height, rnd, addr, t, ts).
             ''   H:'' @ itoa height @ '' R:'' @ itoa rnd @ '' Validator:'' @ addr @ '' Type:'' @ itoa t @
             '' Time:'' @ nullTimeStr C ''15:04:05'' ts) rows, None))"

text \<open>The counters of \<open>PrintDatabaseSummary\<close>, in its order.\<close>

definition counters :: "cli_env \<Rightarrow> database \<Rightarrow> (string \<times> (goerror + int)) list" where
  "counters C d =
     (let q = run_query (cl_an C)
      in [(''validators'', q ''CountValidators'' (CountValidators d)), (''heights'', q ''CountHeights'' (CountHeights d)),
          (''rounds'', q ''CountRounds'' (CountRounds d)), (''votes'', q ''CountVotes'' (CountVotes d)),
          (''consensus_events'', q ''CountConsensusEvents'' (CountConsensusEvents d)),
          (''validator_snapshots'', q ''CountValidatorSnapshots'' (CountValidatorSnapshots d))])"

text \<open>A sample whose error is printed in place.\<close>

definition sample_or_error :: "string \<Rightarrow> printed \<Rightarrow> string list" where
  "sample_or_error what p =
     fst p @ (case snd p of None \<Rightarrow> [] | Some err \<Rightarrow> [cross_mark @ '' Error getting '' @ what @ '': '' @ err])"

definition PrintDatabaseSummary :: "cli_env \<Rightarrow> database \<Rightarrow> printed" where
  "PrintDatabaseSummary C d =
     ([''''] @ [''=== Database Summary ===''] @ map counter_line (counters C d) @ ['''', ''=== Sample Data ===''] @
      sample_or_error ''validators'' (printSampleValidators C d) @
      sample_or_error ''heights'' (printSampleHeights C d) @
      sample_or_error ''votes'' (printSampleVotes C d), None)"

definition listed_validator :: "nat \<times> string \<times> string option \<Rightarrow> string" where
  "listed_validator = (\<lambda>(i, oper, moniker).
     if null_moniker moniker \<noteq> '''' then ''   '' @ itoa (int i + 1) @ ''. '' @ oper @ '' ('' @ null_moniker moniker @ '')''
     else ''   '' @ itoa (int i + 1) @ ''. '' @ oper)"

definition printAllValidators :: "cli_env \<Rightarrow> database \<Rightarrow> printed" where
  "printAllValidators C d =
     (case run_query (cl_an C) ''CountValidators'' (CountValidators d) of
        Inl err \<Rightarrow> ([], Some (''counting validators: '' @ err))
      | Inr totalCount \<Rightarrow>
          (let head = [''   Total validators in database: '' @ itoa totalCount]
           in case run_query (cl_an C) ''ListAllValidators'' (ListAllValidators d) of
                Inl err \<Rightarrow> (head, Some (''listing validators: '' @ err))
              | Inr rows \<Rightarrow> (head @ [''   All validators:''] @ map listed_validator (enumerate 0 rows), None)))"

definition printSampleValidatorVotes :: "cli_env \<Rightarrow> string \<Rightarrow> int \<Rightarrow> database \<Rightarrow> printed" where
  "printSampleValidatorVotes C validatorAddr limit d =
     (case run_query (cl_an C) ''SampleVotesForValidator'' (SampleVotesForValidator validatorAddr limit d) of
        Inl err \<Rightarrow> ([], Some (''sampling votes for validator: '' @ err))
      | Inr rows \<Rightarrow>
          ([magnifier @ '' Sample votes for validator '' @ validatorAddr @ '':''] @
           map (\<lambda>(height, rnd, t, voteTime, blockTime).
             ''   H:'' @ itoa height @ '' R:'' @ itoa rnd @ '' Type:'' @ itoa t @ '' VoteTime:'' @ nullTimeStr C ''15:04:05'' voteTime @
             '' BlockTime:'' @ nullTimeStr C ''15:04:05'' blockTime) rows @
           (if rows = [] then [''   No votes found for this validator''] else []), None))"

definition DiagnoseValidatorData :: "cli_env \<Rightarrow> string \<Rightarrow> TimeWindow \<Rightarrow> database \<Rightarrow> printed" where
  "DiagnoseValidatorData C validatorAddr w d =
     (let start = Some (tw_Start w); end_time = Some (tw_End w);
          head = ['''', ''=== Validator Diagnosis ==='', ''Validator: '' @ validatorAddr,
            ''Time Window: '' @ cl_time C date_time (tw_Start w) @ '' to '' @ cl_time C date_time (tw_End w),
            ''=========================='', '''']
      in case run_query (cl_an C) ''ValidatorExistsByOperator'' (ValidatorExistsByOperator validatorAddr d) of
           Inl err \<Rightarrow> (head, Some (''checking validator existence: '' @ err))
         | Inr n \<Rightarrow>
             (let out = head @
                (if n > 0 then [check_mark @ '' Validator found in validators table'']
                 else [cross_mark @ '' Validator NOT found in validators table'', light_bulb @ '' Available validators:''] @
                   (let (ls, e) = printAllValidators C d
                    in ls @ (case e of None \<Rightarrow> [] | Some err \<Rightarrow> [''   Error listing validators: '' @ err])))
              in case run_query (cl_an C) ''CountHeightsInTimeWindow'' (CountHeightsInTimeWindow start end_time d) of
                   Inl err \<Rightarrow> (out, Some (''counting heights in window: '' @ err))
                 | Inr heightCount \<Rightarrow>
                     (let out = out @ [bar_chart @ '' Heights in time window: '' @ itoa heightCount]
                      in case run_query (cl_an C) ''CountVotesForValidatorInTimeWindow''
                           (CountVotesForValidatorInTimeWindow validatorAddr start end_time d) of
                           Inl err \<Rightarrow> (out, Some (''counting votes for validator in window: '' @ err))
                         | Inr voteCount \<Rightarrow>
                             (let out = out @ [ballot_box @ ''  Votes for validator in time window: '' @ itoa voteCount];
                                  (ls, e) = printSampleValidatorVotes C validatorAddr 5 d
                              in (out @ ls @ (case e of None \<Rightarrow> []
                                    | Some err \<Rightarrow> [cross_mark @ '' Error getting sample votes: '' @ err]), None)))))"

definition found_validator :: "nat \<times> string \<times> string option \<times> int \<Rightarrow> string" where
  "found_validator = (\<lambda>(i, oper, moniker, power).
     if null_moniker moniker \<noteq> ''''
     then ''   '' @ itoa (int i + 1) @ ''. '' @ oper @ '' ('' @ null_moniker moniker @ '') - Power: '' @ itoa power
     else ''   '' @ itoa (int i + 1) @ ''. '' @ oper @ '' - Power: '' @ itoa power)"

definition SearchValidators :: "cli_env \<Rightarrow> string \<Rightarrow> database \<Rightarrow> printed" where
  "SearchValidators C searchTerm d =
     (let head = ['''', ''=== Validator Search ==='', ''Search term: '' @ searchTerm, ''======================='', ''''];
          pattern = ''%'' @ searchTerm @ ''%''
      in case run_query (cl_an C) ''SearchValidatorsByOperatorOrMoniker''
           (SearchValidatorsByOperatorOrMoniker (an_sql (cl_an C)) pattern pattern d) of
           Inl err \<Rightarrow> (head, Some (''searching validators: '' @ err))
         | Inr rows \<Rightarrow>
             (head @ [magnifier @ '' Matching validators:''] @ map found_validator (enumerate 0 rows) @
              (if rows = [] then
                 [''   No validators found matching '' @ [CHR 0x27] @ searchTerm @ [CHR 0x27], '''', light_bulb @ '' Try:'',
                  ''   - Use a shorter search term'', ''   - Check the exact validator address format'',
                  ''   - Run the '' @ [CHR 0x27] @ ''debug'' @ [CHR 0x27] @ '' command to see all available validators'']
               else ['''', ''Found '' @ itoa (int (length rows)) @ '' matching validator(s)'']), None))"

definition DiagnoseValidator :: "cli_env \<Rightarrow> instant \<Rightarrow> string \<Rightarrow> string \<Rightarrow> database \<Rightarrow> printed" where
  "DiagnoseValidator C now validatorAddr durationStr d =
     (case ParseTimeWindow (cl_an C) now durationStr of
        Inl err \<Rightarrow> ([], Some (''invalid time window: '' @ err))
      | Inr window \<Rightarrow> DiagnoseValidatorData C validatorAddr window d)"

section \<open>run.go\<close>

text \<open>How the process ends: normally, or with status 1 and a message on standard error.\<close>

datatype outcome = Finished | ExitFailure string

definition finish :: "string \<Rightarrow> printed \<Rightarrow> string list \<times> outcome" where
  "finish what = (\<lambda>(out, e).
     (out, case e of None \<Rightarrow> Finished | Some err \<Rightarrow> ExitFailure (''Error running '' @ what @ '': '' @ err)))"

definition requireValidator :: "'tz Config \<Rightarrow> string \<Rightarrow> string list \<times> outcome \<Rightarrow> string list \<times> outcome" where
  "requireValidator cfg what rest =
     (if cfg_AnalyticsValidator cfg = '''' then ([], ExitFailure (''Error: --analytics-validator is required for '' @ what)) else rest)"

definition analytics_Run ::
    "cli_env \<Rightarrow> instant \<Rightarrow> instant \<Rightarrow> 'tz Config \<Rightarrow> database option \<Rightarrow> string list \<times> outcome" where
  "analytics_Run C now1 now2 cfg db =
     (let addr = cfg_AnalyticsValidator cfg; window = cfg_AnalyticsTimeWindow cfg; cmd = cfg_AnalyticsCommand cfg
      in case db of
           None \<Rightarrow> ([], ExitFailure ''Error: analytics mode requires database to be enabled (--database-path or a non-zero retention).'')
         | Some d \<Rightarrow>
             if cmd = ''performance'' then
               requireValidator cfg ''performance analysis'' (finish ''performance analysis'' (PrintValidatorPerformance C now1 now2 addr window d))
             else if cmd = ''rankings'' then finish ''rankings analysis'' (PrintValidatorRankings C now1 window 20 d)
             else if cmd = ''timeseries'' then
               requireValidator cfg ''time series analysis'' (finish ''time series analysis'' (PrintPerformanceTimeSeries C now1 addr window d))
             else if cmd = ''debug'' then finish ''database debug'' (PrintDatabaseSummary C d)
             else if cmd = ''diagnose'' then
               requireValidator cfg ''validator diagnosis'' (finish ''validator diagnosis'' (DiagnoseValidator C now1 addr window d))
             else if cmd = ''search'' then
               requireValidator cfg ''validator search (use --analytics-validator as search term)''
                 (finish ''validator search'' (SearchValidators C addr d))
             else ([], ExitFailure (''Error: unknown analytics command '' @ cl_quote C cmd @
               ''. Available: performance, rankings, timeseries, debug, diagnose, search'')))"

section \<open>Specification\<close>

definition known_commands :: "string list" where
  "known_commands = [''performance'', ''rankings'', ''timeseries'', ''debug'', ''diagnose'', ''search'']"

text \<open>The commands that need \<open>--analytics-validator\<close>, and those that read the time window.\<close>

definition needs_validator :: "string \<Rightarrow> bool" where
  "needs_validator cmd \<longleftrightarrow> cmd \<in> {''performance'', ''timeseries'', ''diagnose'', ''search''}"

definition needs_window :: "string \<Rightarrow> bool" where
  "needs_window cmd \<longleftrightarrow> cmd \<in> {''performance'', ''rankings'', ''timeseries'', ''diagnose''}"

text \<open>The parameters are usable for the command.\<close>

definition usable :: "an_env \<Rightarrow> 'tz Config \<Rightarrow> bool" where
  "usable A cfg \<longleftrightarrow> cfg_AnalyticsCommand cfg \<in> set known_commands
     \<and> (needs_validator (cfg_AnalyticsCommand cfg) \<longrightarrow> cfg_AnalyticsValidator cfg \<noteq> '''')
     \<and> (needs_window (cfg_AnalyticsCommand cfg) \<longrightarrow>
         (\<exists>dur. an_ParseDuration A (cfg_AnalyticsTimeWindow cfg) = Inr dur \<and> 0 < dur))"

text \<open>What a command by time window says when it has seen nothing.\<close>

definition nothing_seen :: "'tz Config \<Rightarrow> string list" where
  "nothing_seen cfg =
     (if cfg_AnalyticsCommand cfg = ''performance'' then no_data_lines (cfg_AnalyticsValidator cfg)
      else if cfg_AnalyticsCommand cfg = ''rankings'' then [''No validator data found for the specified time window.'']
      else [''No time series data found for the specified time window.''])"

definition sample_cli :: cli_env where
  "sample_cli = \<lparr>cl_an = sample_an_env, cl_time = (\<lambda>_ _. ''t''), cl_quote = id\<rparr>"


definition sample_cfg :: "string \<Rightarrow> string Config" where
  "sample_cfg cmd = (projr (ParseAndValidateConfig ''local'' Inl sample_input))
     \<lparr>cfg_AnalyticsCommand := cmd, cfg_AnalyticsTimeWindow := ''1h'', cfg_AnalyticsValidator := ''A''\<rparr>"

section \<open>Lemmas\<close>

lemma finish_Finished [simp]: "snd (finish what p) = Finished \<longleftrightarrow> snd p = None"
  by (cases p) (simp add: finish_def split: option.split)

lemma finish_fst [simp]: "fst (finish what p) = fst p"
  by (cases p) (simp add: finish_def)

lemma finish_eq: "finish what p = (out, Finished) \<longleftrightarrow> p = (out, None)"
  by (cases p) (auto simp: finish_def split: option.split)

text \<open>What the three reports by time window print on a database without block times.\<close>

lemma performance_sees_nothing:
  assumes "no_block_times d" "PrintValidatorPerformance C now1 now2 a ds d = (out, None)"
  shows "\<exists>head. length head = 6 \<and> out = head @ no_data_lines a"
  using assms(2) untimed_analytics [OF assms(1), of "cl_an C" now2 a]
  by (auto simp: PrintValidatorPerformance_def Let_def split: sum.splits if_splits)

lemma rankings_see_nothing:
  assumes "no_block_times d" "PrintValidatorRankings C now ds n d = (out, None)"
  shows "\<exists>head. length head = 5 \<and> out = head @ [''No validator data found for the specified time window.'']"
  using assms(2) untimed_analytics [OF assms(1), of "cl_an C" now]
  by (auto simp: PrintValidatorRankings_def Let_def split: sum.splits if_splits)

lemma timeseries_see_nothing:
  assumes "no_block_times d" "PrintPerformanceTimeSeries C now a ds d = (out, None)"
  shows "\<exists>head. length head = 6 \<and> out = head @ [''No time series data found for the specified time window.'']"
  using assms(2) untimed_analytics [OF assms(1), of "cl_an C" now a]
  by (auto simp: PrintPerformanceTimeSeries_def Let_def split: sum.splits if_splits)

lemma ParseTimeWindow_ok:
  "(\<exists>w. ParseTimeWindow A now ds = Inr w) \<longleftrightarrow> (\<exists>dur. an_ParseDuration A ds = Inr dur \<and> 0 < dur)"
  by (auto simp: ParseTimeWindow_def split: sum.splits if_splits)

lemma invalid_window:
  assumes "\<nexists>dur. an_ParseDuration (cl_an C) ds = Inr dur \<and> 0 < dur"
  shows "fst (PrintValidatorPerformance C now now2 a ds d) = [] \<and> snd (PrintValidatorPerformance C now now2 a ds d) \<noteq> None"
    "fst (PrintValidatorRankings C now ds n d) = [] \<and> snd (PrintValidatorRankings C now ds n d) \<noteq> None"
    "fst (PrintPerformanceTimeSeries C now a ds d) = [] \<and> snd (PrintPerformanceTimeSeries C now a ds d) \<noteq> None"
    "fst (DiagnoseValidator C now a ds d) = [] \<and> snd (DiagnoseValidator C now a ds d) \<noteq> None"
proof -
  obtain err where "ParseTimeWindow (cl_an C) now ds = Inl err"
    using assms ParseTimeWindow_ok [of "cl_an C" now ds] by (cases "ParseTimeWindow (cl_an C) now ds") auto
  then show "fst (PrintValidatorPerformance C now now2 a ds d) = [] \<and> snd (PrintValidatorPerformance C now now2 a ds d) \<noteq> None"
    "fst (PrintValidatorRankings C now ds n d) = [] \<and> snd (PrintValidatorRankings C now ds n d) \<noteq> None"
    "fst (PrintPerformanceTimeSeries C now a ds d) = [] \<and> snd (PrintPerformanceTimeSeries C now a ds d) \<noteq> None"
    "fst (DiagnoseValidator C now a ds d) = [] \<and> snd (DiagnoseValidator C now a ds d) \<noteq> None"
    by (simp_all add: PrintValidatorPerformance_def PrintValidatorRankings_def PrintPerformanceTimeSeries_def DiagnoseValidator_def)
qed

text \<open>With a usable window and no driver failure no report ends in an error.\<close>

lemma reports_succeed:
  assumes fail: "\<And>q. an_fail (cl_an C) q = None"
    and w: "ParseTimeWindow (cl_an C) now ds = Inr w"
  shows "snd (PrintValidatorPerformance C now now2 a ds d) = None" "snd (PrintValidatorRankings C now ds n d) = None"
    "snd (PrintPerformanceTimeSeries C now a ds d) = None" "snd (DiagnoseValidator C now a ds d) = None"
  using fail
  by (simp_all add: w PrintValidatorPerformance_def PrintValidatorRankings_def PrintPerformanceTimeSeries_def DiagnoseValidator_def
      Let_def GetSigningEfficiency_def GetAllValidatorMetrics_def GetPerformanceTimeSeries_def run_query_def
      DiagnoseValidatorData_def case_prod_beta)


section \<open>Properties\<close>

text \<open>How the analytics mode ends. Without a database, with an unknown command, without the validator a
  command needs or with a time window that does not parse to a positive duration it prints nothing and exits
  with status 1; with usable parameters it finishes normally unless the driver fails a query.\<close>

theorem Run_exit:
  "(db = None \<or> \<not> usable (cl_an C) cfg \<longrightarrow>
      fst (analytics_Run C now1 now2 cfg db) = [] \<and> snd (analytics_Run C now1 now2 cfg db) \<noteq> Finished)
   \<and> (db \<noteq> None \<and> usable (cl_an C) cfg \<and> (\<forall>q. an_fail (cl_an C) q = None) \<longrightarrow>
      snd (analytics_Run C now1 now2 cfg db) = Finished)"
proof (cases db)
  case None
  then show ?thesis by (simp add: analytics_Run_def)
next
  case (Some d)
  let ?cmd = "cfg_AnalyticsCommand cfg" and ?ds = "cfg_AnalyticsTimeWindow cfg"
  have rest: "snd (PrintDatabaseSummary C d) = None" "\<forall>q. an_fail (cl_an C) q = None \<Longrightarrow> snd (SearchValidators C a d) = None" for a
    by (simp_all add: PrintDatabaseSummary_def SearchValidators_def run_query_def Let_def)
  show ?thesis
  proof (cases "\<exists>dur. an_ParseDuration (cl_an C) ?ds = Inr dur \<and> 0 < dur")
    case True
    then obtain w where w: "ParseTimeWindow (cl_an C) now1 ?ds = Inr w" using ParseTimeWindow_ok by blast
    have "\<forall>q. an_fail (cl_an C) q = None \<Longrightarrow> snd (analytics_Run C now1 now2 cfg db) = Finished" if "usable (cl_an C) cfg"
      using that reports_succeed [OF _ w] rest
      by (auto simp: Some analytics_Run_def Let_def usable_def known_commands_def needs_validator_def requireValidator_def)
    moreover have "fst (analytics_Run C now1 now2 cfg db) = [] \<and> snd (analytics_Run C now1 now2 cfg db) \<noteq> Finished"
      if "\<not> usable (cl_an C) cfg"
      using that True
      by (auto simp: Some analytics_Run_def Let_def usable_def known_commands_def needs_validator_def requireValidator_def)
    ultimately show ?thesis using Some by blast
  next
    case False
    note bad = invalid_window [OF False]
    have "fst (analytics_Run C now1 now2 cfg db) = [] \<and> snd (analytics_Run C now1 now2 cfg db) \<noteq> Finished"
      if "\<not> usable (cl_an C) cfg"
      using that bad
      by (auto simp: Some analytics_Run_def Let_def usable_def known_commands_def needs_validator_def needs_window_def
          requireValidator_def)
    moreover have "snd (analytics_Run C now1 now2 cfg db) = Finished"
      if "usable (cl_an C) cfg" "\<forall>q. an_fail (cl_an C) q = None"
      using that rest False
      by (auto simp: Some analytics_Run_def Let_def usable_def known_commands_def needs_validator_def needs_window_def
          requireValidator_def)
    ultimately show ?thesis using Some by blast
  qed
qed

theorem Run_exit_witness:
  "snd (analytics_Run sample_cli 5 6 (sample_cfg ''rankings'') (Some sample_db)) = Finished
   \<and> snd (analytics_Run sample_cli 5 6 (sample_cfg ''rankings'') None) \<noteq> Finished"
  using Run_exit [of "Some sample_db" sample_cli "sample_cfg ''rankings''" 5 6]
    Run_exit [of None sample_cli "sample_cfg ''rankings''" 5 6]
  by (simp add: usable_def known_commands_def needs_validator_def needs_window_def sample_cfg_def sample_cli_def
      sample_an_env_def Second_def)

text \<open>C22: whatever the program stores, in any order, it never records a block time, so on its own database the
  commands performance, rankings and timeseries never report anything: they end with their no-data message,
  for every validator and every window.\<close>

theorem run_sees_nothing:
  assumes "schema_ok d" "no_block_times d"
    and "consensus_storer.apply_ops (StoreRoundData (S\<lparr>se_fk := True\<rparr>) b c pick order)
      (StoreValidators (S\<lparr>se_fk := True\<rparr>) b c) (StoreCometBFTEvents (S\<lparr>se_fk := True\<rparr>) n)
      (CleanupOldData True config ct) ops d = Some d'"
    and "cfg_AnalyticsCommand cfg \<in> {''performance'', ''rankings'', ''timeseries''}"
    and "analytics_Run C now1 now2 cfg (Some d') = (out, Finished)"
  shows "\<exists>head. length head \<le> 6 \<and> out = head @ nothing_seen cfg"
proof -
  let ?a = "cfg_AnalyticsValidator cfg" and ?ds = "cfg_AnalyticsTimeWindow cfg"
  have d': "no_block_times d'" using untimed_store.apply_ops_ok [OF conjI [OF assms(1,2)] assms(3)] by blast
  from assms(4) consider (p) "cfg_AnalyticsCommand cfg = ''performance''" | (r) "cfg_AnalyticsCommand cfg = ''rankings''"
    | (t) "cfg_AnalyticsCommand cfg = ''timeseries''" by blast
  then show ?thesis
  proof cases
    case p
    with assms(5) have "PrintValidatorPerformance C now1 now2 ?a ?ds d' = (out, None)"
      by (simp add: analytics_Run_def requireValidator_def finish_eq split: if_splits)
    with performance_sees_nothing [OF d'] p show ?thesis by (fastforce simp: nothing_seen_def)
  next
    case r
    with assms(5) have "PrintValidatorRankings C now1 ?ds 20 d' = (out, None)"
      by (simp add: analytics_Run_def finish_eq)
    with rankings_see_nothing [OF d'] r show ?thesis by (fastforce simp: nothing_seen_def)
  next
    case t
    with assms(5) have "PrintPerformanceTimeSeries C now1 ?a ?ds d' = (out, None)"
      by (simp add: analytics_Run_def requireValidator_def finish_eq split: if_splits)
    with timeseries_see_nothing [OF d'] t show ?thesis by (fastforce simp: nothing_seen_def)
  qed
qed

theorem run_sees_nothing_witness:
  "\<exists>d' out head. consensus_storer.apply_ops (StoreRoundData (sample_store_env\<lparr>se_fk := True\<rparr>) None None (\<lambda>_. '''') (\<lambda>_. []))
      (StoreValidators (sample_store_env\<lparr>se_fk := True\<rparr>) None None)
      (StoreCometBFTEvents (sample_store_env\<lparr>se_fk := True\<rparr>) 0)
      (CleanupOldData True \<lparr>DatabasePath = '''', MaxRetainDays = 0, MaxRetainBlocks = 1\<rparr> (\<lambda>_. 0))
      [OpEvents [OtherEventData]] sample_db = Some d'
    \<and> analytics_Run sample_cli 5 6 (sample_cfg ''rankings'') (Some d') = (out, Finished)
    \<and> out = head @ [''No validator data found for the specified time window.'']"
proof -
  have ops: "consensus_storer.apply_ops (StoreRoundData (sample_store_env\<lparr>se_fk := True\<rparr>) None None (\<lambda>_. '''') (\<lambda>_. []))
      (StoreValidators (sample_store_env\<lparr>se_fk := True\<rparr>) None None)
      (StoreCometBFTEvents (sample_store_env\<lparr>se_fk := True\<rparr>) 0)
      (CleanupOldData True \<lparr>DatabasePath = '''', MaxRetainDays = 0, MaxRetainBlocks = 1\<rparr> (\<lambda>_. 0))
      [OpEvents [OtherEventData]] sample_db = Some sample_db"
    by (simp add: untimed_store.apply_ops.simps untimed_store.apply_op_def store_event_def)
  have cmd: "cfg_AnalyticsCommand (sample_cfg ''rankings'') = ''rankings''" by (simp add: sample_cfg_def)
  have w: "ParseTimeWindow (cl_an sample_cli) 5 (cfg_AnalyticsTimeWindow (sample_cfg ''rankings'')) = Inr \<lparr>tw_Start = 5 - Second, tw_End = 5\<rparr>"
    by (simp add: ParseTimeWindow_def sample_cli_def sample_an_env_def Second_def)
  have "snd (analytics_Run sample_cli 5 6 (sample_cfg ''rankings'') (Some sample_db)) = Finished"
    using reports_succeed(2) [OF _ w] by (simp add: analytics_Run_def cmd) (simp add: sample_cli_def sample_an_env_def)
  then obtain out where run: "analytics_Run sample_cli 5 6 (sample_cfg ''rankings'') (Some sample_db) = (out, Finished)"
    by (cases "analytics_Run sample_cli 5 6 (sample_cfg ''rankings'') (Some sample_db)") simp
  with run_sees_nothing [OF sample_db_ok(1) sample_db_untimed ops _ run] ops cmd show ?thesis
    by (fastforce simp: nothing_seen_def)
qed

end
