(* ===== verification/Persist.thy ===== *)
theory Persist
  imports App
begin

text \<open>
  What the application leaves in the database: the composition of the consensus refresh of \<open>App\<close>, the votes of
  the shared state and the SQLite store. A refresh stores the validators of the height first and then every
  round of the state, in the order of its keys; a round whose proposer or height is unknown to the database is
  skipped, and so is a vote of an unknown validator.
\<close>

section \<open>Specification\<close>

text \<open>The column a block ID is stored as, for the rendering \<open>hs\<close> of hashes.\<close>

definition hash_column :: "('h, 'r) round_env \<Rightarrow> (bytes \<Rightarrow> string) \<Rightarrow> BlockID \<Rightarrow> string option" where
  "hash_column B hs b = (if is_zero B b then None else Some (hs (bid_Hash b)))"

text \<open>Ranging over the maps of a round yields one of its proposers and exactly its votes.\<close>

definition ranges :: "(address set \<Rightarrow> address) \<Rightarrow> (RoundData \<Rightarrow> slot_vote list) \<Rightarrow> RoundData \<Rightarrow> bool" where
  "ranges pick order data \<longleftrightarrow> (Proposers data \<noteq> {} \<longrightarrow> pick (Proposers data) \<in> Proposers data) \<and> lists_votes order data"

text \<open>A node whose round state can be read: it is at height 7 with the only validator as proposer.\<close>

definition live_sdk :: "(int, unit, unit, unit) sdk_env" where
  "live_sdk = sample_sdk\<lparr>ce_consensus_state := (\<lambda>_. Inr []), ce_round_state_simple :=
     (\<lambda>_. Inr \<lparr>rss_HeightRoundStep = ''7/0/1'', rss_StartTime = 0, rss_Proposer = ''A''\<rparr>)\<rparr>"

definition live_app where
  "live_app = (let a = NewApp fmap_state_env list_grid sample_config 0 (0::nat, empty_database)
     in update_state (\<lambda>s. s\<lparr>VotesByRound := AddVote fmap_env (VotesByRound s) 7 0 ''A'' PrevoteType sample_block\<rparr>) a)"

section \<open>Lemmas\<close>

text \<open>Storing rounds leaves the validators and the heights alone, so it does not change which rows the foreign keys
  admit.\<close>

definition same_refs :: "database \<Rightarrow> database \<Rightarrow> bool" where
  "same_refs d d' \<longleftrightarrow> validators d' = validators d \<and> heights d' = heights d"

lemma same_refs_trans: "same_refs d d1 \<Longrightarrow> same_refs d1 d2 \<Longrightarrow> same_refs d d2"
  by (simp add: same_refs_def)

lemma same_refs_has: "same_refs d d' \<Longrightarrow> has_height d' = has_height d \<and> has_validator d' = has_validator d"
  by (simp add: same_refs_def has_height_def has_validator_def fun_eq_iff)

lemma UpsertVote_refs: "UpsertVote fk eng a d = Inr (d', row) \<Longrightarrow> same_refs d d'"
  by (auto simp: UpsertVote_def case_prod_beta same_refs_def split: if_splits)

lemma store_votes_refs: "same_refs d (store_votes S h r n vs d)"
proof (induction vs arbitrary: n d)
  case (Cons v vs)
  show ?case
  proof (cases "UpsertVote (se_fk S) (se_eng S n) (vote_params S h r n v) d")
    case (Inl e)
    then show ?thesis using Cons.IH [of d "n + 1"] by simp
  next
    case (Inr x)
    obtain d1 row where x: "x = (d1, row)" by (cases x)
    with Inr have "same_refs d d1" by (auto dest: UpsertVote_refs)
    then show ?thesis using Cons.IH [of d1 "n + 1"] by (simp add: Inr x same_refs_trans)
  qed
qed (simp add: same_refs_def)

lemma StoreRoundData_refs:
  assumes "StoreRoundData S b c pick order h r data d = Some (d', err)"
  shows "same_refs d d'"
proof (cases err)
  case None
  then obtain d1 row where d1: "UpsertRound (se_fk S) (se_eng S 0) (round_params S pick h r data) d = Inr (d1, row)"
    "d' = store_votes S h r 1 (order data) d1"
    using assms by (auto simp: StoreRoundData_def WithTx_def split: option.splits sum.splits)
  have "same_refs d d1" using d1(1) by (auto simp: UpsertRound_def case_prod_beta same_refs_def split: if_splits)
  then show ?thesis unfolding d1(2) using store_votes_refs same_refs_trans by blast
next
  case (Some e)
  with assms have "d' = d" unfolding StoreRoundData_def by (auto dest: WithTx_err)
  then show ?thesis by (simp add: same_refs_def)
qed

text \<open>A round is stored unless its height or the proposer picked is unknown.\<close>

lemma StoreRoundData_succeeds:
  assumes "has_height d h" "Proposers data \<noteq> {} \<Longrightarrow> has_validator d (pick (Proposers data))"
  shows "\<exists>d'. StoreRoundData S None None pick order h r data d = Some (d', None)"
proof -
  have "ref_validator d (ur_ProposerAddress (round_params S pick h r data))"
    using assms(2) by (simp add: round_params_def ref_validator_def)
  then have "\<exists>d1 row. UpsertRound (se_fk S) (se_eng S 0) (round_params S pick h r data) d = Inr (d1, row)"
    using assms(1) by (simp add: UpsertRound_def round_params_def case_prod_beta)
  then show ?thesis by (auto simp: StoreRoundData_def WithTx_def)
qed

text \<open>The loop over the rounds.\<close>

lemma store_rounds_persist:
  fixes Z :: "nat \<Rightarrow> ('h, 'r) store_env"
  assumes "store_rounds (sqlite_storer Z (\<lambda>_. None) (\<lambda>_. None) pick order config ct) rs (n, d) = Some (n', d')"
    and "distinct (map fst rs)" "\<And>hr data. (hr, data) \<in> set rs \<Longrightarrow> ranges pick order data"
    and "\<And>k. se_rounds (Z k) = B" "\<And>k. se_hash_str (Z k) = hs"
  shows "same_refs d d'
    \<and> (\<forall>h r a t. (\<forall>hr data. (hr, data) \<in> set rs \<longrightarrow> (hr_Height hr, hr_Round hr) \<noteq> (h, r)) \<longrightarrow>
         vote_hashes d' (h, r, a, t) = vote_hashes d (h, r, a, t))
    \<and> (\<forall>hr data a t b. (hr, data) \<in> set rs \<and> has_height d (hr_Height hr) \<and> (\<forall>p \<in> Proposers data. has_validator d p)
         \<and> has_validator d a \<and> round_vote data a t = Some b \<longrightarrow>
         vote_hashes d' (hr_Height hr, hr_Round hr, a, t) = Some (hash_column B hs b))"
  using assms(1-3)
proof (induction rs arbitrary: n d)
  case Nil
  then show ?case by (simp add: same_refs_def)
next
  case (Cons x rs)
  obtain hr data where x: "x = (hr, data)" by (cases x)
  let ?S = "(Z n)\<lparr>se_fk := True\<rparr>" and ?h = "hr_Height hr" and ?r = "hr_Round hr"
  obtain d1 err where s1: "StoreRoundData ?S None None pick order ?h ?r data d = Some (d1, err)"
    and rest: "store_rounds (sqlite_storer Z (\<lambda>_. None) (\<lambda>_. None) pick order config ct) rs (Suc n, d1) = Some (n', d')"
    using Cons.prems(1) by (auto simp: x sqlite_storer_ops elim!: bind_SomeE)
  have refs: "same_refs d d1" by (rule StoreRoundData_refs [OF s1])
  note has = same_refs_has [OF refs]
  have ranges: "ranges pick order data" using Cons.prems(3) [of hr data] x by simp
  then have order: "lists_votes order data" by (simp add: ranges_def)
  have tail: "same_refs d1 d'
    \<and> (\<forall>h r a t. (\<forall>hr data. (hr, data) \<in> set rs \<longrightarrow> (hr_Height hr, hr_Round hr) \<noteq> (h, r)) \<longrightarrow>
         vote_hashes d' (h, r, a, t) = vote_hashes d1 (h, r, a, t))
    \<and> (\<forall>hr data a t b. (hr, data) \<in> set rs \<and> has_height d1 (hr_Height hr) \<and> (\<forall>p \<in> Proposers data. has_validator d1 p)
         \<and> has_validator d1 a \<and> round_vote data a t = Some b \<longrightarrow>
         vote_hashes d' (hr_Height hr, hr_Round hr, a, t) = Some (hash_column B hs b))"
    by (rule Cons.IH [OF rest]) (use Cons.prems(2,3) in auto)
  have other: "vote_hashes d1 (h, r, a, t) = vote_hashes d (h, r, a, t)" if "(h, r) \<noteq> (?h, ?r)" for h r a t
  proof (cases err)
    case None
    with StoreRoundData_result(2) [OF s1 [unfolded None] order, of h r a t] that show ?thesis by auto
  next
    case (Some e)
    with s1 have "d1 = d" unfolding StoreRoundData_def by (auto dest: WithTx_err)
    then show ?thesis by simp
  qed
  have here: "vote_hashes d' (?h, ?r, a, t) = Some (hash_column B hs b)"
    if "has_height d ?h" "\<forall>p \<in> Proposers data. has_validator d p" "has_validator d a" "round_vote data a t = Some b" for a t b
  proof -
    have "has_validator d (pick (Proposers data))" if "Proposers data \<noteq> {}"
      using ranges that \<open>\<forall>p \<in> Proposers data. has_validator d p\<close> by (simp add: ranges_def)
    from StoreRoundData_succeeds [of d ?h data pick ?S order ?r, OF \<open>has_height d ?h\<close> this] s1 have err: "err = None" by auto
    have "vote_hashes d1 (?h, ?r, a, t) = Some (stored_hash ?S b)"
      using StoreRoundData_result(2) [OF s1 [unfolded err] order, of ?h ?r a t] that by simp
    moreover have "(hr_Height hr', hr_Round hr') \<noteq> (?h, ?r)" if "(hr', data') \<in> set rs" for hr' data'
    proof -
      have "hr' \<noteq> hr" using Cons.prems(2) that x by force
      then show ?thesis by (cases hr; cases hr') auto
    qed
    moreover have "stored_hash ?S b = hash_column B hs b"
      using assms(4,5) by (cases "is_zero B b") (simp_all add: stored_hash_def hash_column_def)
    ultimately show ?thesis
      using tail [THEN conjunct2, THEN conjunct1, rule_format, of ?h ?r a t] by simp
  qed
  show ?case
  proof (intro conjI allI impI)
    show "same_refs d d'" using same_refs_trans refs tail by blast
    show "vote_hashes d' (h, r, a, t) = vote_hashes d (h, r, a, t)"
      if "\<forall>hr data. (hr, data) \<in> set (x # rs) \<longrightarrow> (hr_Height hr, hr_Round hr) \<noteq> (h, r)" for h r a t
    proof -
      have "(h, r) \<noteq> (?h, ?r)" using that [rule_format, of hr data] x by auto
      moreover have "vote_hashes d' (h, r, a, t) = vote_hashes d1 (h, r, a, t)"
        using tail [THEN conjunct2, THEN conjunct1, rule_format, of h r a t] that by simp
      ultimately show ?thesis using other by simp
    qed
    show "vote_hashes d' (hr_Height hr', hr_Round hr', a, t) = Some (hash_column B hs b)"
      if "(hr', data') \<in> set (x # rs) \<and> has_height d (hr_Height hr') \<and> (\<forall>p \<in> Proposers data'. has_validator d p)
         \<and> has_validator d a \<and> round_vote data' a t = Some b" for hr' data' a t b
    proof (cases "(hr', data') = x")
      case True
      with that here [of a t b] x show ?thesis by simp
    next
      case False
      with that have "(hr', data') \<in> set rs \<and> has_height d1 (hr_Height hr') \<and> (\<forall>p \<in> Proposers data'. has_validator d1 p)
         \<and> has_validator d1 a \<and> round_vote data' a t = Some b" by (simp add: has)
      then show ?thesis using tail [THEN conjunct2, THEN conjunct2, rule_format, of hr' data' a t b] by simp
    qed
  qed
qed


lemma StoreValidators_known:
  assumes "StoreValidators S None None h vs d = Some (d', err)"
  shows "has_height d' h" "v \<in> set vs \<Longrightarrow> has_validator d' (GetDisplayAddress v)"
proof -
  obtain d1 row where d1: "UpsertHeight (se_fk S) (se_eng S 0) (height_params h vs) d = Inr (d1, row)"
    by (simp add: UpsertHeight_def height_params_def ref_validator_def case_prod_beta)
  then have d': "store_validators S h 1 vs d1 = Some d'"
    using assms by (auto simp: StoreValidators_def WithTx_def split: option.splits)
  have "heights d1 = fst (upsert_row (\<lambda>r. h_Height r = h) (\<lambda>r. r\<lparr>h_BlockHash := None, h_BlockTime := None,
      h_ProposerAddress := None, h_TotalValidators := Some (int (length vs))\<rparr>) (new_height (se_eng S 0) (height_params h vs)) (heights d))"
    using d1 by (auto simp: UpsertHeight_def height_params_def case_prod_beta ref_validator_def)
  moreover have "h_Height (new_height (se_eng S 0) (height_params h vs)) = h" by (simp add: new_height_def height_params_def)
  ultimately have h1: "has_height d1 h"
    unfolding has_height_def by (simp only:) (rule upsert_row_matching(1), simp_all)
  note reset = store_validators_reset [OF h1 d']
  then show "has_height d' h" using h1 by (simp add: has_height_def)
  show "v \<in> set vs \<Longrightarrow> has_validator d' (GetDisplayAddress v)" using reset by (simp add: reset_snapshot_def)
qed

text \<open>A refresh whose requests both succeed.\<close>

lemma RefreshConsensus_success:
  assumes "\<not> IsPaused a" "fetch_both first S (data_fetcher S E a) w = Some ((Inr c, Inr vs), w1)"
    and "RefreshConsensus S E so V first a w = Some (a', w')"
  shows "\<exists>s1 err. so_vals so (rst_Height c) vs (app_Store a) = Some (s1, err)
    \<and> store_rounds so (Iter (round_env.truncate E) (VotesByRound (app_State a'))) s1 = Some (app_Store a')"
proof -
  let ?a = "update_state (\<lambda>s. SetConsensusStateError None (SetTMValidators vs s)) a"
  obtain a1 where a1: "consensus_seen E so c vs ?a = Some a1" "show_state E V a1 = Some a'"
    using assms by (auto simp: RefreshConsensus_def update_state_twice Let_def elim!: bind_SomeE)
  note shown = show_state_frame [OF a1(2)] and seen = consensus_seen_result(1) [OF a1(1)]
  obtain s1 err s2 where "so_vals so (rst_Height c) vs (app_Store a) = Some (s1, err)"
    "store_rounds so (Iter (round_env.truncate E) (AddProposer (round_env.truncate E) (VotesByRound (app_State a))
       (rst_Height c) (rst_Round c) (rst_Proposer c))) s1 = Some s2" "app_Store a1 = s2"
    using a1(1)
    by (auto simp: consensus_seen_def Let_def SetConsensusHeight_def SetConsensusStateError_def SetTMValidators_def elim!: bind_SomeE)
  then show ?thesis using shown seen by (simp add: SetConsensusStateError_def SetTMValidators_def)
qed


section \<open>Properties\<close>

text \<open>C2: what the screen shows is what the database holds. After a consensus refresh whose requests succeed, with no
  failing transaction, every vote the shared state has for the current height, cast by a validator of the fetched
  list in a round whose proposers are in that list too, is in the votes table under its slot with exactly its
  block hash (NULL for a nil vote).\<close>

theorem consensus_is_persisted:
  fixes E :: "('h, 'r, 'k, 'p, 'z) state_env_scheme" and Z :: "nat \<Rightarrow> ('h, 'r) store_env"
  defines "B \<equiv> round_env.truncate E"
  assumes "lawful_rounds B" "\<And>k. se_rounds (Z k) = B" "\<And>k. se_hash_str (Z k) = hs"
    and "\<not> IsPaused a" "fetch_both first S (data_fetcher S E a) w = Some ((Inr c, Inr vs), w1)"
    and "RefreshConsensus S E (sqlite_storer Z (\<lambda>_. None) (\<lambda>_. None) pick order config ct) V first a w = Some (a', w')"
    and "\<And>h r data. round_at B (VotesByRound (app_State a')) h r = Some data \<Longrightarrow> ranges pick order data"
    and "vote_at B (VotesByRound (app_State a')) (rst_Height c, r, v, t) = Some b" "v \<in> GetDisplayAddress ` set vs"
    and "GetProposers B (VotesByRound (app_State a')) (rst_Height c) r = Some ps" "ps \<subseteq> GetDisplayAddress ` set vs"
  shows "vote_hashes (snd (app_Store a')) (rst_Height c, r, v, t) = Some (hash_column B hs b)"
proof -
  let ?so = "sqlite_storer Z (\<lambda>_. None) (\<lambda>_. None) pick order config ct" and ?v = "VotesByRound (app_State a')"
  note Iter_mem = lawful_rounds.Iter_mem [OF assms(2)] and Iter_sorted = lawful_rounds.Iter_sorted [OF assms(2)]
  obtain n d where a: "app_Store a = (n, d)" by (cases "app_Store a")
  obtain n' d' where a': "app_Store a' = (n', d')" by (cases "app_Store a'")
  obtain s1 err where s1: "so_vals ?so (rst_Height c) vs (n, d) = Some (s1, err)"
    and rounds: "store_rounds ?so (Iter B ?v) s1 = Some (n', d')"
    using RefreshConsensus_success [OF assms(5-7)] unfolding a a' B_def by blast
  obtain d1 where d1: "s1 = (Suc n, d1)" "StoreValidators ((Z n)\<lparr>se_fk := True\<rparr>) None None (rst_Height c) vs d = Some (d1, err)"
    using s1 by (auto simp: sqlite_storer_ops)
  note known = StoreValidators_known [OF d1(2)]
  obtain data where data: "round_at B ?v (rst_Height c) r = Some data" "round_vote data v t = Some b"
    using assms(9) by (auto simp: vote_at_def round_vote_def bind_eq_Some_conv)
  have ps: "ps = Proposers data"
    using assms(11) data(1) by (auto simp: GetProposers_def round_at_def bind_eq_Some_conv split: option.splits)
  have "map (\<lambda>(hr, _). (hr_Height hr, hr_Round hr)) (Iter B ?v) = map (\<lambda>hr. (hr_Height hr, hr_Round hr)) (map fst (Iter B ?v))"
    by (simp add: case_prod_unfold)
  then have "distinct (map (\<lambda>hr. (hr_Height hr, hr_Round hr)) (map fst (Iter B ?v)))"
    using Iter_sorted [of ?v] by (simp only: strict_sorted_iff)
  then have "distinct (map fst (Iter B ?v))" by (simp only: distinct_map)
  note persist = store_rounds_persist [OF rounds [unfolded d1(1)] this _ assms(3-4), THEN conjunct2, THEN conjunct2, rule_format]
  have orders: "(hr, data) \<in> set (Iter B ?v) \<Longrightarrow> ranges pick order data" for hr data
    using assms(8) Iter_mem by blast
  let ?k = "\<lparr>hr_Height = rst_Height c, hr_Round = r\<rparr>"
  have "(?k, data) \<in> set (Iter B ?v)" using data(1) by (simp add: Iter_mem)
  moreover have "has_validator d1 x" if "x \<in> GetDisplayAddress ` set vs" for x using that known(2) by blast
  ultimately have "(?k, data) \<in> set (Iter B ?v) \<and> has_height d1 (hr_Height ?k) \<and> (\<forall>p \<in> Proposers data. has_validator d1 p)
      \<and> has_validator d1 v \<and> round_vote data v t = Some b"
    using known(1) assms(10,12) data(2) unfolding ps by auto
  from persist [OF orders this] have "vote_hashes d' (rst_Height c, r, v, t) = Some (hash_column B hs b)" by simp
  then show ?thesis by (simp add: a')
qed


text \<open>The sample network: one refresh of \<open>live_app\<close> reads height 7 and its only validator.\<close>

lemma live_sdk_fields:
  "he_parse live_sdk = he_parse sample_sdk" "he_Do live_sdk = he_Do sample_sdk" "ce_envelope live_sdk = ce_envelope sample_sdk"
  "ce_validators live_sdk = ce_validators sample_sdk" "ce_consensus_state live_sdk = (\<lambda>_. Inr [])"
  by (simp_all add: live_sdk_def)

lemma live_request: "request live_sdk rpc path (\<lambda>_. Inr x) w = Some (Inr x, w + 1)"
  by (rule answered_request) (simp_all add: live_sdk_fields sample_sdk_fields)

lemma live_consensus:
  "GetConsensusState live_sdk rpc w =
     Some (Inr \<lparr>rst_Height = 7, rst_Round = 0, rst_Step = 1, rst_StartTime = 0, rst_Proposer = ''A''\<rparr>, w + 1)"
proof -
  have "parseHeightRoundStep ''7/0/1'' = Inr (7, 0, 1)"
    by (simp add: parseHeightRoundStep_def ParseInt_def ParseUint_def digit_val_def i32_def)
  then show ?thesis
    by (simp add: GetConsensusState_def live_sdk_fields live_request) (simp add: live_sdk_def)
qed

lemma live_validators:
  "\<exists>w'. rpc_GetValidators live_sdk rpc w = Some (Inr [sample_comet_validator], w')"
proof -
  have "serves_validators live_sdk rpc [sample_comet_validator]"
    by (auto simp: serves_validators_def getValidatorsAtPage_def live_sdk_fields sample_sdk_fields(5) live_request)
  from validator_pages_serves [OF this, of 0 w] show ?thesis by (simp add: rpc_GetValidators_def)
qed

lemma live_fetch:
  "\<exists>w1. fetch_both True live_sdk (data_fetcher live_sdk fmap_state_env a) 0 =
     Some ((Inr \<lparr>rst_Height = 7, rst_Round = 0, rst_Step = 1, rst_StartTime = 0, rst_Proposer = ''A''\<rparr>,
       Inr (merge_validators [sample_comet_validator] [])), w1)" if "app_Config a = sample_config"
proof -
  let ?f = "data_fetcher live_sdk fmap_state_env a"
  obtain w1 where "rpc_GetValidators live_sdk (df_cometFetcher ?f) 1 = Some (Inr [sample_comet_validator], w1)"
    using live_validators by blast
  moreover have "cf_GetValidators (df_cosmosFetcher ?f) = (\<lambda>w. Some (Inr [], w))"
    by (simp add: data_fetcher_def that NewDataFetcher_def sample_config_def newNoopDataFetcher_def)
  ultimately show ?thesis
    by (simp add: fetch_both_def fetch_GetConsensusState_def fetch_GetValidators_def live_consensus)
qed


lemma live_app_fields:
  "app_Config live_app = sample_config" "app_Store live_app = (0, empty_database)" "\<not> IsPaused live_app"
  "VotesByRound (app_State live_app) = AddVote fmap_env (NewRoundDataMap fmap_env) 7 0 ''A'' PrevoteType sample_block"
  by (simp_all add: live_app_def Let_def NewApp_def app_State_def update_state_def NewWrapper_def NewState_def IsPaused_def
      fmap_state_env_truncate)

lemma live_app_ok: "app_ok (\<lambda>s. schema_ok (snd s)) 0 live_app"
proof -
  let ?a = "NewApp fmap_state_env list_grid sample_config 0 (0::nat, empty_database)"
  have "schema_ok empty_database" by (simp add: schema_ok_def keys_ok_def refs_ok_def empty_database_def)
  then have "app_ok (\<lambda>s. schema_ok (snd s)) 0 ?a"
    using NewWrapper_ok [of fmap_state_env list_grid sample_config "NewState fmap_state_env (cfg_RPCHost sample_config) 0" False]
    by (simp add: app_ok_def NewApp_def app_State_def NewWrapper_def NewState_def state_ok_def GetTMValidators_def
        GetNetworkHealth_def well_formed_validators_def builder_ok_def durations_ok_def NewBuilder_def)
  then show ?thesis by (simp add: live_app_def Let_def app_ok_def)
qed

lemma live_rounds:
  "round_at fmap_env (AddProposer fmap_env (AddVote fmap_env (NewRoundDataMap fmap_env) 7 0 ''A'' PrevoteType sample_block) 7 0 ''A'') h r =
     (if (h, r) = (7, 0) then Some \<lparr>Proposers = {''A''}, Votes = [''A'' \<mapsto> [PrevoteType \<mapsto> sample_block]]\<rparr> else None)"
  by (simp add: fmap_rounds.round_at_AddProposer fmap_rounds.round_at_AddVote fmap_rounds.round_at_new new_RoundData_def)

theorem consensus_is_persisted_witness:
  "\<exists>a' w'. RefreshConsensus live_sdk fmap_state_env (sqlite_storer (\<lambda>_. sample_store_env) (\<lambda>_. None) (\<lambda>_. None) (\<lambda>_. ''A'')
        (\<lambda>_. [(''A'', PrevoteType, sample_block)]) \<lparr>DatabasePath = '''', MaxRetainDays = 0, MaxRetainBlocks = 5\<rparr> (\<lambda>_ _. 0))
        sample_view True live_app 0 = Some (a', w')
     \<and> vote_hashes (snd (app_Store a')) (7, 0, ''A'', PrevoteType) = Some (Some (hex_encode True ''x''))"
proof -
  let ?order = "\<lambda>_. [(''A'', PrevoteType, sample_block)]" and ?pick = "\<lambda>_. ''A''"
  let ?so = "sqlite_storer (\<lambda>_. sample_store_env) (\<lambda>_. None) (\<lambda>_. None) ?pick ?order
    \<lparr>DatabasePath = '''', MaxRetainDays = 0, MaxRetainBlocks = 5\<rparr> (\<lambda>_ _. 0)"
  let ?c = "\<lparr>rst_Height = 7, rst_Round = 0, rst_Step = 1, rst_StartTime = 0, rst_Proposer = ''A''\<rparr>"
  let ?vs = "merge_validators [sample_comet_validator] []"
  obtain w1 where f: "fetch_both True live_sdk (data_fetcher live_sdk fmap_state_env live_app) 0 = Some ((Inr ?c, Inr ?vs), w1)"
    using live_fetch [OF live_app_fields(1)] by blast
  have wf: "well_formed_validators ?vs" and addr: "GetDisplayAddress ` set ?vs = {''A''}"
    by (simp_all add: well_formed_validators_def merge_validators_def merge_validator_def sample_comet_validator_def enumerate_eq_zip
        GetDisplayAddress_def split: option.split)
  let ?a = "update_state (\<lambda>s. SetConsensusStateError None (SetTMValidators ?vs s)) live_app"
  have "state_ok (SetTMValidators ?vs (app_State live_app))"
    using live_app_ok wf by (auto simp: app_ok_def state_ok_def SetTMValidators_def GetTMValidators_def GetNetworkHealth_def)
  then have "app_ok (\<lambda>s. schema_ok (snd s)) 0 ?a" using live_app_ok by (simp add: app_ok_def)
  then obtain a1 where a1: "consensus_seen fmap_state_env ?so ?c ?vs ?a = Some a1" "app_ok (\<lambda>s. schema_ok (snd s)) 0 a1"
    using sqlite_app.consensus_seen_keeps [of 0 ?a ?vs fmap_state_env _ _ _ ?pick ?order _ _ ?c] wf unfolding keeps_def by blast
  obtain a' where a': "show_state fmap_state_env sample_view a1 = Some a'" using show_state_ok [OF a1(2)] by blast
  have run: "RefreshConsensus live_sdk fmap_state_env ?so sample_view True live_app 0 = Some (a', w1)"
    by (simp add: RefreshConsensus_def live_app_fields f update_state_twice Let_def a1 a')
  have state: "VotesByRound (app_State a') = AddProposer fmap_env (AddVote fmap_env (NewRoundDataMap fmap_env) 7 0 ''A'' PrevoteType sample_block) 7 0 ''A''"
    using consensus_seen_result(1) [OF a1(1)] show_state_frame(1) [OF a'] live_app_fields(4)
    by (simp add: fmap_state_env_truncate SetConsensusStateError_def SetTMValidators_def)
  have votes: "vote_at fmap_env (VotesByRound (app_State a')) (7, 0, ''A'', PrevoteType) = Some sample_block"
    by (simp add: vote_at_def state live_rounds)
  have proposers: "GetProposers fmap_env (VotesByRound (app_State a')) 7 0 = Some {''A''}"
    by (simp add: fmap_rounds.GetProposers_round_at state live_rounds)
  have ranges: "ranges ?pick ?order data" if "round_at fmap_env (VotesByRound (app_State a')) h r = Some data" for h r data
    using that by (auto simp: state live_rounds ranges_def lists_votes_def round_vote_def split: if_splits)
  have "vote_hashes (snd (app_Store a')) (rst_Height ?c, 0, ''A'', PrevoteType) = Some (hash_column fmap_env (hex_encode True) sample_block)"
    by (rule consensus_is_persisted [where E = fmap_state_env and ps = "{''A''}", unfolded fmap_state_env_truncate,
          OF fmap_rounds.lawful_rounds_axioms _ _ live_app_fields(3) f run ranges])
      (simp_all add: sample_store_env_def votes proposers addr)
  moreover have "\<not> is_zero fmap_env sample_block" by (simp add: fmap_env_def sample_block_def zero_BlockID_def)
  ultimately show ?thesis using run by (intro exI [of _ a'] exI [of _ w1]) (simp add: hash_column_def sample_block_def)
qed

end
