(* ===== verification/Lifecycle.thy ===== *)
theory Lifecycle
  imports App
begin

text \<open>
  \<open>pkg/app.go\<close> and \<open>main\<close> of \<open>cmd/tmtop.go\<close>: the life of the process, from \<open>Start\<close> to its end. Three kinds of
  goroutines are modelled statement by statement where they touch what they share: the one of \<open>main\<close>, which spawns
  the tasks, blocks in the display and then calls \<open>Stop\<close>; the one that waits for a signal and calls \<open>Stop\<close>; and the
  spawned tasks, which return once \<open>chStop\<close> is closed or panic, and then run the \<open>shutdown\<close> of \<open>HandlePanic\<close>. They
  share \<open>chStop\<close>, the wait group, the websocket, the server and the store, and move in any order; a move is a
  partial function on the state of the process, undefined where the goroutine is blocked. The work of a task between
  two looks at \<open>chStop\<close> is the subject of \<open>App\<close> and no move here; a context may expire at any time.
\<close>

section \<open>State\<close>

type_synonym task = "string \<times> duration option"

text \<open>The statements of \<open>Stop\<close>; \<open>sc_expired\<close> says that the context of this call is done.\<close>

datatype stop_pc = SignalStop | CloseFetcher | AwaitFetcher | ShutdownServer | AwaitTasks | CloseStore | Stopped

record stop_call =
  sc_pc :: stop_pc
  sc_expired :: bool

text \<open>\<open>Starting\<close> holds whether the topology API is served and the tasks to spawn.\<close>

datatype main_phase = Starting bool "task list" | Spawning "task list" | Displaying | Stopping stop_call | Returned

datatype task_phase = Running | Panicked | Recovering stop_call | Finished

datatype signal_phase = Waiting | SignalStopping stop_call | SignalDone

record process =
  pr_main :: main_phase
  pr_signal :: signal_phase
  pr_tasks :: "(task \<times> task_phase) list"
  pr_wgDone :: int
  pr_display_stopped :: bool
  pr_chStop :: bool
  pr_server :: bool
  pr_server_down :: bool
  pr_ws_stopped :: bool
  pr_ws_exited :: bool
  pr_timed_out :: bool
  pr_store_closed :: bool
  pr_crashed :: bool

text \<open>The process as \<open>main\<close> enters \<open>Start\<close>, outside the analytics mode.\<close>

definition new_process :: "'tz Config \<Rightarrow> process" where
  "new_process config =
     \<lparr>pr_main = Starting (cfg_WithTopologyAPI config) (background_tasks config), pr_signal = Waiting, pr_tasks = [],
      pr_wgDone = 0, pr_display_stopped = False, pr_chStop = False, pr_server = False, pr_server_down = False, pr_ws_stopped = False,
      pr_ws_exited = False, pr_timed_out = False, pr_store_closed = False, pr_crashed = False\<rparr>"

text \<open>The process is over when \<open>main\<close> has returned or a panic has not been recovered.\<close>

definition ended :: "process \<Rightarrow> bool" where
  "ended p \<longleftrightarrow> pr_main p = Returned \<or> pr_crashed p"

section \<open>Stop\<close>

definition stop_entered :: stop_call where
  "stop_entered = \<lparr>sc_pc = SignalStop, sc_expired = False\<rparr>"

text \<open>One statement of \<open>Stop\<close>. \<open>DataFetcher.Close\<close> starts the close of the websocket and waits for it or the context;
  the server drains or gives up by itself; the last wait is for the wait group or the context. Errors are logged.\<close>

definition stop_step :: "stop_call \<Rightarrow> process \<Rightarrow> (stop_call \<times> process) option" where
  "stop_step c p =
     (case sc_pc c of
        SignalStop \<Rightarrow> Some (c\<lparr>sc_pc := CloseFetcher\<rparr>, p\<lparr>pr_chStop := True\<rparr>)
      | CloseFetcher \<Rightarrow> Some (c\<lparr>sc_pc := AwaitFetcher\<rparr>, p\<lparr>pr_ws_stopped := True\<rparr>)
      | AwaitFetcher \<Rightarrow> (if pr_ws_exited p \<or> sc_expired c then Some (c\<lparr>sc_pc := ShutdownServer\<rparr>, p) else None)
      | ShutdownServer \<Rightarrow>
          Some (c\<lparr>sc_pc := AwaitTasks\<rparr>, if pr_server p then p\<lparr>pr_server_down := True\<rparr> else p)
      | AwaitTasks \<Rightarrow>
          (if pr_wgDone p = 0 then Some (c\<lparr>sc_pc := CloseStore\<rparr>, p)
           else if sc_expired c then Some (c\<lparr>sc_pc := CloseStore\<rparr>, p\<lparr>pr_timed_out := True\<rparr>)
           else None)
      | CloseStore \<Rightarrow> Some (c\<lparr>sc_pc := Stopped\<rparr>, p\<lparr>pr_store_closed := True\<rparr>)
      | Stopped \<Rightarrow> None)"

section \<open>Goroutines\<close>

text \<open>\<open>spawn\<close> adds to the wait group before the goroutine runs; the deferred \<open>Done\<close> is the last thing it does.\<close>

definition spawn :: "task \<Rightarrow> process \<Rightarrow> process" where
  "spawn t p = p\<lparr>pr_wgDone := pr_wgDone p + 1, pr_tasks := pr_tasks p @ [(t, Running)]\<rparr>"

definition set_phase :: "nat \<Rightarrow> task_phase \<Rightarrow> process \<Rightarrow> process" where
  "set_phase i ph p = p\<lparr>pr_tasks := (pr_tasks p)[i := (fst (pr_tasks p ! i), ph)]\<rparr>"

definition task_done :: "nat \<Rightarrow> process \<Rightarrow> process" where
  "task_done i p = (set_phase i Finished p)\<lparr>pr_wgDone := pr_wgDone p - 1\<rparr>"

text \<open>The tasks with a deferred \<open>HandlePanic\<close>: the refreshers, which have an interval, and \<open>SubscribeCometBFT\<close>.\<close>

definition recovers :: "task \<Rightarrow> bool" where
  "recovers t \<longleftrightarrow> snd t \<noteq> None \<or> fst t = ''subscribe''"

text \<open>The tasks that start goroutines of their own, for \<open>RefreshConsensus\<close> and the probes of the crawler.\<close>

definition nests :: "task \<Rightarrow> bool" where
  "nests t \<longleftrightarrow> fst t = ''consensus'' \<or> fst t = ''crawler''"

text \<open>A loop returns on \<open>chStop\<close>, a refresher without a positive interval after its first refresh; \<open>Serve\<close> may fail at
  any time.\<close>

definition may_return :: "process \<Rightarrow> task \<Rightarrow> bool" where
  "may_return p t \<longleftrightarrow>
     (if fst t = ''topology'' then True else pr_chStop p \<or> (case snd t of Some d \<Rightarrow> d \<le> 0 | None \<Rightarrow> False))"

text \<open>\<open>main\<close> gets past the display when \<open>Run\<close> of tview returns: after its \<open>Stop\<close>, or when the user leaves.\<close>

definition main_moves :: "process \<Rightarrow> process option" where
  "main_moves p =
     (case pr_main p of
        Starting api ts \<Rightarrow> Some (p\<lparr>pr_main := Spawning ts, pr_server := api\<rparr>)
      | Spawning [] \<Rightarrow> Some (p\<lparr>pr_main := Displaying\<rparr>)
      | Spawning (t # ts) \<Rightarrow> Some (spawn t (p\<lparr>pr_main := Spawning ts\<rparr>))
      | Displaying \<Rightarrow> (if pr_display_stopped p then Some (p\<lparr>pr_main := Stopping stop_entered\<rparr>) else None)
      | Stopping c \<Rightarrow>
          (if sc_pc c = Stopped then Some (p\<lparr>pr_main := Returned\<rparr>)
           else map_option (\<lambda>(c, p). p\<lparr>pr_main := Stopping c\<rparr>) (stop_step c p))
      | Returned \<Rightarrow> None)"

text \<open>The user quits, or \<open>Run\<close> ends with an error: the move of the display itself.\<close>

definition user_quits :: "process \<Rightarrow> process option" where
  "user_quits p = (case pr_main p of Displaying \<Rightarrow> Some (p\<lparr>pr_main := Stopping stop_entered\<rparr>) | _ \<Rightarrow> None)"

text \<open>The first move of this goroutine is the arrival of a signal. Nothing follows its \<open>Stop\<close>.\<close>

definition signal_moves :: "process \<Rightarrow> process option" where
  "signal_moves p =
     (case pr_signal p of
        Waiting \<Rightarrow> Some (p\<lparr>pr_signal := SignalStopping stop_entered\<rparr>)
      | SignalStopping c \<Rightarrow>
          (if sc_pc c = Stopped then Some (p\<lparr>pr_signal := SignalDone\<rparr>)
           else map_option (\<lambda>(c, p). p\<lparr>pr_signal := SignalStopping c\<rparr>) (stop_step c p))
      | SignalDone \<Rightarrow> None)"

text \<open>After \<open>HandlePanic\<close> has recovered: \<open>shutdown\<close> stops the display, which lets \<open>main\<close> go on, calls \<open>Stop\<close> and panics
  again. The \<open>Stop\<close> of tview does nothing while the application does not run.\<close>

definition stop_display :: "process \<Rightarrow> process" where
  "stop_display p = (if pr_main p = Displaying then p\<lparr>pr_display_stopped := True\<rparr> else p)"

definition task_moves :: "nat \<Rightarrow> process \<Rightarrow> process option" where
  "task_moves i p =
     (if i < length (pr_tasks p) then
        (case pr_tasks p ! i of (t, ph) \<Rightarrow>
           (case ph of
              Running \<Rightarrow> if may_return p t then Some (task_done i p) else None
            | Panicked \<Rightarrow> Some (stop_display (set_phase i (Recovering stop_entered) p))
            | Recovering c \<Rightarrow>
                (if sc_pc c = Stopped then Some (p\<lparr>pr_crashed := True\<rparr>)
                 else map_option (\<lambda>(c, p). set_phase i (Recovering c) p) (stop_step c p))
            | Finished \<Rightarrow> None))
      else None)"

definition task_panics :: "nat \<Rightarrow> process \<Rightarrow> process option" where
  "task_panics i p =
     (if i < length (pr_tasks p) \<and> snd (pr_tasks p ! i) = Running
      then Some (if recovers (fst (pr_tasks p ! i)) then set_phase i Panicked p else p\<lparr>pr_crashed := True\<rparr>)
      else None)"

definition nested_panics :: "nat \<Rightarrow> process \<Rightarrow> process option" where
  "nested_panics i p =
     (if i < length (pr_tasks p) \<and> snd (pr_tasks p ! i) = Running \<and> nests (fst (pr_tasks p ! i))
      then Some (p\<lparr>pr_crashed := True\<rparr>) else None)"

text \<open>The deadline of a context, of five seconds in \<open>main\<close> and on a signal and of two in \<open>shutdown\<close>.\<close>

definition expire :: "stop_call \<Rightarrow> stop_call option" where
  "expire c = (if sc_expired c then None else Some (c\<lparr>sc_expired := True\<rparr>))"

definition main_deadline :: "process \<Rightarrow> process option" where
  "main_deadline p =
     (case pr_main p of Stopping c \<Rightarrow> map_option (\<lambda>c. p\<lparr>pr_main := Stopping c\<rparr>) (expire c) | _ \<Rightarrow> None)"

definition signal_deadline :: "process \<Rightarrow> process option" where
  "signal_deadline p =
     (case pr_signal p of SignalStopping c \<Rightarrow> map_option (\<lambda>c. p\<lparr>pr_signal := SignalStopping c\<rparr>) (expire c) | _ \<Rightarrow> None)"

definition task_deadline :: "nat \<Rightarrow> process \<Rightarrow> process option" where
  "task_deadline i p =
     (if i < length (pr_tasks p) then
        (case snd (pr_tasks p ! i) of
           Recovering c \<Rightarrow> map_option (\<lambda>c. set_phase i (Recovering c) p) (expire c)
         | _ \<Rightarrow> None)
      else None)"

definition websocket_exits :: "process \<Rightarrow> process option" where
  "websocket_exits p = (if pr_ws_stopped p \<and> \<not> pr_ws_exited p then Some (p\<lparr>pr_ws_exited := True\<rparr>) else None)"

datatype move = MainMoves | MainDeadline | SignalMoves | SignalDeadline | TaskMoves nat | TaskDeadline nat | TaskPanics nat
  | NestedPanics nat | WebsocketExits | UserQuits

definition make_move :: "move \<Rightarrow> process \<Rightarrow> process option" where
  "make_move m p =
     (if ended p then None
      else case m of
        MainMoves \<Rightarrow> main_moves p
      | MainDeadline \<Rightarrow> main_deadline p
      | SignalMoves \<Rightarrow> signal_moves p
      | SignalDeadline \<Rightarrow> signal_deadline p
      | TaskMoves i \<Rightarrow> task_moves i p
      | TaskDeadline i \<Rightarrow> task_deadline i p
      | TaskPanics i \<Rightarrow> task_panics i p
      | NestedPanics i \<Rightarrow> nested_panics i p
      | WebsocketExits \<Rightarrow> websocket_exits p
      | UserQuits \<Rightarrow> user_quits p)"

fun run_moves :: "move list \<Rightarrow> process \<Rightarrow> process option" where
  "run_moves [] p = Some p"
| "run_moves (m # ms) p = Option.bind (make_move m p) (run_moves ms)"


section \<open>Specification\<close>

text \<open>\<open>main\<close> may still spawn tasks.\<close>

definition starting :: "process \<Rightarrow> bool" where
  "starting p \<longleftrightarrow> (\<exists>api ts. pr_main p = Starting api ts) \<or> (\<exists>ts. pr_main p = Spawning ts)"

definition settled :: "process \<Rightarrow> bool" where
  "settled p \<longleftrightarrow> \<not> starting p \<and> (\<forall>x \<in> set (pr_tasks p). snd x = Finished)"

definition unfinished :: "process \<Rightarrow> nat" where
  "unfinished p = (\<Sum>x \<leftarrow> pr_tasks p. if snd x = Finished then 0 else 1)"

text \<open>The calls of \<open>Stop\<close> in progress, and those that no longer wait for the tasks.\<close>

definition calls :: "process \<Rightarrow> stop_call set" where
  "calls p = {c. pr_main p = Stopping c \<or> pr_signal p = SignalStopping c \<or> Recovering c \<in> snd ` set (pr_tasks p)}"

definition past_wait :: "stop_call \<Rightarrow> bool" where
  "past_wait c \<longleftrightarrow> sc_pc c = CloseStore \<or> sc_pc c = Stopped"

inductive reachable :: "process \<Rightarrow> process \<Rightarrow> bool" for p0 where
  start: "reachable p0 p0"
| step: "reachable p0 p \<Longrightarrow> make_move m p = Some q \<Longrightarrow> reachable p0 q"

text \<open>How many moves are left at most.\<close>

fun pc_weight :: "stop_pc \<Rightarrow> nat" where
  "pc_weight SignalStop = 6" | "pc_weight CloseFetcher = 5" | "pc_weight AwaitFetcher = 4" | "pc_weight ShutdownServer = 3"
| "pc_weight AwaitTasks = 2" | "pc_weight CloseStore = 1" | "pc_weight Stopped = 0"

definition call_weight :: "stop_call \<Rightarrow> nat" where
  "call_weight c = pc_weight (sc_pc c) + (if sc_expired c then 0 else 1)"

fun task_weight :: "task_phase \<Rightarrow> nat" where
  "task_weight Running = 10" | "task_weight Panicked = 9" | "task_weight (Recovering c) = call_weight c + 1"
| "task_weight Finished = 0"

fun main_weight :: "main_phase \<Rightarrow> nat" where
  "main_weight (Starting api ts) = 11 + 11 * length ts" | "main_weight (Spawning ts) = 10 + 11 * length ts"
| "main_weight Displaying = 9" | "main_weight (Stopping c) = call_weight c + 1" | "main_weight Returned = 0"

fun signal_weight :: "signal_phase \<Rightarrow> nat" where
  "signal_weight Waiting = 9" | "signal_weight (SignalStopping c) = call_weight c + 1" | "signal_weight SignalDone = 0"

definition weight :: "process \<Rightarrow> nat" where
  "weight p = main_weight (pr_main p) + signal_weight (pr_signal p) + (\<Sum>x \<leftarrow> pr_tasks p. task_weight (snd x))
     + (if pr_ws_exited p then 0 else 1) + (if pr_crashed p then 0 else 1)"

section \<open>Lemmas\<close>

lemmas process_defs = make_move_def main_moves_def signal_moves_def task_moves_def task_panics_def nested_panics_def
  main_deadline_def signal_deadline_def task_deadline_def websocket_exits_def user_quits_def expire_def

lemma set_phase_frame [simp]:
  "pr_main (set_phase i ph p) = pr_main p" "pr_signal (set_phase i ph p) = pr_signal p" "pr_server (set_phase i ph p) = pr_server p"
  "pr_chStop (set_phase i ph p) = pr_chStop p" "pr_ws_stopped (set_phase i ph p) = pr_ws_stopped p"
  "pr_store_closed (set_phase i ph p) = pr_store_closed p" "pr_ws_exited (set_phase i ph p) = pr_ws_exited p"
  "pr_crashed (set_phase i ph p) = pr_crashed p" "pr_timed_out (set_phase i ph p) = pr_timed_out p"
  "pr_wgDone (set_phase i ph p) = pr_wgDone p" "pr_display_stopped (set_phase i ph p) = pr_display_stopped p"
  "length (pr_tasks (set_phase i ph p)) = length (pr_tasks p)"
  by (simp_all add: set_phase_def)

lemma stop_display_frame [simp]:
  "pr_main (stop_display p) = pr_main p" "pr_signal (stop_display p) = pr_signal p" "pr_tasks (stop_display p) = pr_tasks p"
  "pr_wgDone (stop_display p) = pr_wgDone p" "pr_server (stop_display p) = pr_server p" "pr_chStop (stop_display p) = pr_chStop p"
  "pr_ws_stopped (stop_display p) = pr_ws_stopped p" "pr_store_closed (stop_display p) = pr_store_closed p"
  "pr_ws_exited (stop_display p) = pr_ws_exited p" "pr_crashed (stop_display p) = pr_crashed p"
  "pr_timed_out (stop_display p) = pr_timed_out p"
  by (simp_all add: stop_display_def)

lemma reachable_trans:
  assumes "reachable q r" "reachable p q"
  shows "reachable p r"
  using assms by (induction rule: reachable.induct) (blast intro: reachable.intros)+

lemma run_moves_append: "run_moves (ms @ ns) p = Option.bind (run_moves ms p) (run_moves ns)"
  by (induction ms arbitrary: p) (simp_all add: bind_assoc split: Option.bind_split)

lemma run_moves_reachable: "run_moves ms p = Some q \<Longrightarrow> reachable p q"
proof (induction ms arbitrary: p)
  case (Cons m ms)
  then obtain p1 where "make_move m p = Some p1" "run_moves ms p1 = Some q" by (auto simp: bind_eq_Some_conv)
  then show ?case using Cons.IH reachable_trans [OF _ reachable.step [OF reachable.start]] by blast
qed (simp add: reachable.start)

text \<open>What one statement of \<open>Stop\<close> leaves alone.\<close>

lemma stop_step_frame:
  assumes "stop_step c p = Some (c', p')"
  shows "pr_main p' = pr_main p" "pr_signal p' = pr_signal p" "pr_tasks p' = pr_tasks p" "pr_wgDone p' = pr_wgDone p"
    "pr_server p' = pr_server p" "pr_ws_exited p' = pr_ws_exited p" "pr_crashed p' = pr_crashed p"
    "sc_expired c' = sc_expired c" "pr_timed_out p \<Longrightarrow> pr_timed_out p'" "pr_store_closed p' \<Longrightarrow> pr_store_closed p \<or> past_wait c"
    "pc_weight (sc_pc c') < pc_weight (sc_pc c)" "pr_display_stopped p' = pr_display_stopped p"
  using assms by (auto simp: stop_step_def past_wait_def split: stop_pc.splits if_splits)

lemma stop_step_past:
  assumes "stop_step c p = Some (c', p')" "past_wait c'"
  shows "past_wait c \<or> pr_wgDone p = 0 \<or> sc_expired c \<and> pr_timed_out p'"
  using assms by (auto simp: stop_step_def past_wait_def split: stop_pc.splits if_splits)

text \<open>The deadline keeps a call from blocking.\<close>

lemma stop_step_expired: "sc_expired c \<Longrightarrow> sc_pc c \<noteq> Stopped \<Longrightarrow> stop_step c p \<noteq> None"
  by (cases "sc_pc c") (simp_all add: stop_step_def)

lemma sum_update:
  fixes f :: "'a \<Rightarrow> nat"
  shows "i < length xs \<Longrightarrow> (\<Sum>x \<leftarrow> xs[i := y]. f x) + f (xs ! i) = (\<Sum>x \<leftarrow> xs. f x) + f y"
proof (induction xs arbitrary: i)
  case (Cons x xs)
  show ?case
  proof (cases i)
    case (Suc j)
    then show ?thesis using Cons.IH [of j] Cons.prems by simp
  qed simp
qed simp

lemma unfinished_set_phase:
  "i < length (pr_tasks p) \<Longrightarrow> unfinished (set_phase i ph p) + (if snd (pr_tasks p ! i) = Finished then 0 else 1)
    = unfinished p + (if ph = Finished then 0 else 1)"
  using sum_update [where i = i and xs = "pr_tasks p" and y = "(fst (pr_tasks p ! i), ph)" and f = "\<lambda>x. if snd x = Finished then 0 else 1"]
  by (simp add: unfinished_def set_phase_def)

lemma weight_set_phase:
  "i < length (pr_tasks p) \<Longrightarrow> weight (set_phase i ph p) + task_weight (snd (pr_tasks p ! i)) = weight p + task_weight ph"
  using sum_update [where i = i and xs = "pr_tasks p" and y = "(fst (pr_tasks p ! i), ph)" and f = "\<lambda>x. task_weight (snd x)"]
  by (simp add: weight_def set_phase_def)

lemma unfinished_0: "unfinished p = 0 \<longleftrightarrow> (\<forall>x \<in> set (pr_tasks p). snd x = Finished)"
  by (auto simp: unfinished_def sum_list_eq_0_iff split: if_splits)

text \<open>Every move brings the end closer.\<close>

lemma call_weight_step: "stop_step c p = Some (c', p') \<Longrightarrow> call_weight c' < call_weight c"
  using stop_step_frame(8,11) by (fastforce simp: call_weight_def)

lemma call_weight_expire: "expire c = Some c' \<Longrightarrow> call_weight c' < call_weight c"
  by (auto simp: expire_def call_weight_def split: if_splits)

lemma call_weight_entered: "call_weight stop_entered = 7"
  by (simp add: call_weight_def stop_entered_def)

lemma main_moves_weight: "main_moves p = Some q \<Longrightarrow> weight q < weight p"
proof -
  assume m: "main_moves p = Some q"
  show ?thesis
  proof (cases "\<exists>c. pr_main p = Stopping c \<and> sc_pc c \<noteq> Stopped")
    case True
    then obtain c c' p' where c: "pr_main p = Stopping c" "stop_step c p = Some (c', p')" "q = p'\<lparr>pr_main := Stopping c'\<rparr>"
      using m by (auto simp: main_moves_def)
    then show ?thesis using call_weight_step [OF c(2)] by (simp add: weight_def stop_step_frame [OF c(2)])
  next
    case False
    then show ?thesis using m
      by (auto simp: main_moves_def weight_def spawn_def call_weight_entered split: main_phase.splits list.splits if_splits)
  qed
qed

lemma signal_moves_weight: "signal_moves p = Some q \<Longrightarrow> weight q < weight p"
proof -
  assume m: "signal_moves p = Some q"
  show ?thesis
  proof (cases "\<exists>c. pr_signal p = SignalStopping c \<and> sc_pc c \<noteq> Stopped")
    case True
    then obtain c c' p' where c: "pr_signal p = SignalStopping c" "stop_step c p = Some (c', p')"
      "q = p'\<lparr>pr_signal := SignalStopping c'\<rparr>"
      using m by (auto simp: signal_moves_def)
    then show ?thesis using call_weight_step [OF c(2)] by (simp add: weight_def stop_step_frame [OF c(2)])
  next
    case False
    then show ?thesis using m
      by (auto simp: signal_moves_def weight_def call_weight_entered split: signal_phase.splits if_splits)
  qed
qed

lemma weight_frame:
  "weight (p\<lparr>pr_wgDone := w\<rparr>) = weight p"
  "pr_main p' = pr_main p \<Longrightarrow> pr_signal p' = pr_signal p \<Longrightarrow> pr_tasks p' = pr_tasks p \<Longrightarrow>
    pr_ws_exited p' = pr_ws_exited p \<Longrightarrow> pr_crashed p' = pr_crashed p \<Longrightarrow> weight p' = weight p"
  by (simp_all add: weight_def)

lemma weight_crash: "\<not> ended p \<Longrightarrow> weight (p\<lparr>pr_crashed := True\<rparr>) < weight p"
  by (simp add: weight_def ended_def)

lemma set_phase_weight:
  "i < length (pr_tasks p) \<Longrightarrow> task_weight ph < task_weight (snd (pr_tasks p ! i)) \<Longrightarrow> weight (set_phase i ph p) < weight p"
  using weight_set_phase [of i p ph] by simp

text \<open>The cases of a move of a task.\<close>

lemma task_moves_cases:
  assumes "task_moves i p = Some q"
  obtains (returns) t where "i < length (pr_tasks p)" "pr_tasks p ! i = (t, Running)" "may_return p t" "q = task_done i p"
  | (enter) t where "i < length (pr_tasks p)" "pr_tasks p ! i = (t, Panicked)" "q = stop_display (set_phase i (Recovering stop_entered) p)"
  | (crash) t c where "i < length (pr_tasks p)" "pr_tasks p ! i = (t, Recovering c)" "sc_pc c = Stopped" "q = p\<lparr>pr_crashed := True\<rparr>"
  | (stop) t c c' p' where "i < length (pr_tasks p)" "pr_tasks p ! i = (t, Recovering c)" "sc_pc c \<noteq> Stopped"
      "stop_step c p = Some (c', p')" "q = set_phase i (Recovering c') p'"
  using assms by (auto simp: task_moves_def split: if_splits prod.splits task_phase.splits)

lemma task_moves_weight:
  assumes "task_moves i p = Some q" "\<not> ended p"
  shows "weight q < weight p"
  using assms(1)
proof (cases rule: task_moves_cases)
  case (returns t)
  then show ?thesis using set_phase_weight [of i p Finished] by (simp add: task_done_def weight_frame(1))
next
  case (enter t)
  have "weight (stop_display (set_phase i (Recovering stop_entered) p)) = weight (set_phase i (Recovering stop_entered) p)"
    by (rule weight_frame(2)) simp_all
  then show ?thesis using enter set_phase_weight [of i p "Recovering stop_entered"] by (simp add: call_weight_entered)
next
  case (crash t c)
  then show ?thesis using weight_crash [OF assms(2)] by simp
next
  case (stop t c c' p')
  note f = stop_step_frame [OF stop(4)]
  have "weight (set_phase i (Recovering c') p') < weight p'"
    by (rule set_phase_weight) (simp_all add: f stop call_weight_step [OF stop(4)])
  then show ?thesis using weight_frame(2) [of p' p] by (simp add: f stop)
qed

lemma make_move_weight:
  assumes "make_move m p = Some q"
  shows "weight q < weight p"
proof -
  have e: "\<not> ended p" using assms by (auto simp: make_move_def split: if_splits)
  show ?thesis
  proof (cases m)
    case MainMoves
    then show ?thesis using assms e main_moves_weight by (simp add: make_move_def)
  next
    case SignalMoves
    then show ?thesis using assms e signal_moves_weight by (simp add: make_move_def)
  next
    case (TaskMoves i)
    then show ?thesis using assms e task_moves_weight by (simp add: make_move_def)
  next
    case MainDeadline
    then obtain c c' where "pr_main p = Stopping c" "expire c = Some c'" "q = p\<lparr>pr_main := Stopping c'\<rparr>"
      using assms e by (auto simp: make_move_def main_deadline_def split: main_phase.splits)
    then show ?thesis using call_weight_expire by (simp add: weight_def)
  next
    case SignalDeadline
    then obtain c c' where "pr_signal p = SignalStopping c" "expire c = Some c'" "q = p\<lparr>pr_signal := SignalStopping c'\<rparr>"
      using assms e by (auto simp: make_move_def signal_deadline_def split: signal_phase.splits)
    then show ?thesis using call_weight_expire by (simp add: weight_def)
  next
    case (TaskDeadline i)
    then obtain c c' where "i < length (pr_tasks p)" "snd (pr_tasks p ! i) = Recovering c" "expire c = Some c'"
      "q = set_phase i (Recovering c') p"
      using assms e by (auto simp: make_move_def task_deadline_def split: task_phase.splits if_splits)
    then show ?thesis using call_weight_expire set_phase_weight by simp
  next
    case (TaskPanics i)
    then show ?thesis using assms e weight_crash [OF e] set_phase_weight [of i p Panicked]
      by (auto simp: make_move_def task_panics_def split: if_splits)
  next
    case (NestedPanics i)
    then show ?thesis using assms e weight_crash [OF e] by (auto simp: make_move_def nested_panics_def split: if_splits)
  next
    case WebsocketExits
    then show ?thesis using assms e by (auto simp: make_move_def websocket_exits_def weight_def split: if_splits)
  next
    case UserQuits
    then show ?thesis using assms e
      by (auto simp: make_move_def user_quits_def weight_def call_weight_entered split: main_phase.splits)
  qed
qed

lemma run_moves_weight: "run_moves ms p = Some q \<Longrightarrow> length ms + weight q \<le> weight p"
proof (induction ms arbitrary: p)
  case (Cons m ms)
  then obtain p1 where "make_move m p = Some p1" "run_moves ms p1 = Some q" by (auto simp: bind_eq_Some_conv)
  then show ?case using Cons.IH [of p1] make_move_weight [of m p p1] by simp
qed simp


text \<open>The wait group counts the unfinished tasks, so a recovering task only gets past it at its deadline.\<close>

definition wg_counts :: "process \<Rightarrow> bool" where
  "wg_counts p \<longleftrightarrow> pr_wgDone p = int (unfinished p)
     \<and> (\<forall>x \<in> set (pr_tasks p). \<forall>c. snd x = Recovering c \<longrightarrow> past_wait c \<longrightarrow> sc_expired c \<and> pr_timed_out p)"

lemma past_wait_entered [simp]: "\<not> past_wait stop_entered"
  by (simp add: past_wait_def stop_entered_def)

lemma expire_same: "expire c = Some c' \<Longrightarrow> past_wait c' = past_wait c \<and> sc_expired c' \<and> sc_pc c' = sc_pc c"
  by (auto simp: expire_def past_wait_def split: if_splits)

lemma wg_counts_cong:
  "wg_counts p \<Longrightarrow> pr_tasks q = pr_tasks p \<Longrightarrow> pr_wgDone q = pr_wgDone p \<Longrightarrow> (pr_timed_out p \<Longrightarrow> pr_timed_out q) \<Longrightarrow> wg_counts q"
  by (auto simp: wg_counts_def unfinished_def)

lemma wg_counts_set_phase:
  assumes "wg_counts p" "i < length (pr_tasks p)" "snd (pr_tasks p ! i) \<noteq> Finished" "ph \<noteq> Finished"
    "\<And>c. ph = Recovering c \<Longrightarrow> past_wait c \<Longrightarrow> sc_expired c \<and> pr_timed_out p"
  shows "wg_counts (set_phase i ph p)"
  using assms unfinished_set_phase [of i p ph] unfolding wg_counts_def
  by (auto simp: set_phase_def dest!: set_update_subset_insert [THEN subsetD])

lemma wg_counts_task_done:
  assumes "wg_counts p" "i < length (pr_tasks p)" "snd (pr_tasks p ! i) \<noteq> Finished"
  shows "wg_counts (task_done i p)"
proof -
  have "unfinished (task_done i p) = unfinished (set_phase i Finished p)" by (simp add: unfinished_def task_done_def)
  then have "pr_wgDone (task_done i p) = int (unfinished (task_done i p))"
    using assms unfinished_set_phase [of i p Finished] by (simp add: wg_counts_def task_done_def)
  then show ?thesis using assms(1) unfolding wg_counts_def
    by (auto simp: set_phase_def task_done_def dest!: set_update_subset_insert [THEN subsetD])
qed

lemma unfinished_pos: "i < length (pr_tasks p) \<Longrightarrow> snd (pr_tasks p ! i) \<noteq> Finished \<Longrightarrow> 0 < unfinished p"
  using unfinished_0 nth_mem by blast

lemma main_moves_frame:
  assumes "main_moves p = Some q"
  shows "pr_tasks q = pr_tasks p \<and> pr_wgDone q = pr_wgDone p \<and> (pr_timed_out p \<longrightarrow> pr_timed_out q) \<or> (\<exists>t. q = spawn t p \<or> (\<exists>ts. q = spawn t (p\<lparr>pr_main := ts\<rparr>)))"
  using assms by (auto simp: main_moves_def stop_step_frame split: main_phase.splits list.splits if_splits)

lemma wg_counts_spawn: "wg_counts p \<Longrightarrow> wg_counts (spawn t (p\<lparr>pr_main := m\<rparr>))" "wg_counts p \<Longrightarrow> wg_counts (spawn t p)"
  by (auto simp: wg_counts_def spawn_def unfinished_def)

lemma wg_counts_move:
  assumes "make_move m p = Some q" "wg_counts p"
  shows "wg_counts q"
proof (cases m)
  case MainMoves
  then have "main_moves p = Some q" using assms(1) by (simp add: make_move_def split: if_splits)
  from main_moves_frame [OF this] show ?thesis using assms(2) wg_counts_spawn wg_counts_cong [OF assms(2), of q] by blast
next
  case SignalMoves
  then have "pr_tasks q = pr_tasks p \<and> pr_wgDone q = pr_wgDone p \<and> (pr_timed_out p \<longrightarrow> pr_timed_out q)"
    using assms(1) by (auto simp: make_move_def signal_moves_def stop_step_frame split: signal_phase.splits if_splits)
  then show ?thesis using wg_counts_cong [OF assms(2)] by blast
next
  case (TaskMoves i)
  then have "task_moves i p = Some q" using assms(1) by (simp add: make_move_def split: if_splits)
  then show ?thesis
  proof (cases rule: task_moves_cases)
    case (returns t)
    then show ?thesis using wg_counts_task_done [OF assms(2)] by simp
  next
    case (enter t)
    have "wg_counts (set_phase i (Recovering stop_entered) p)" using enter(1,2) by (intro wg_counts_set_phase [OF assms(2)]) simp_all
    from wg_counts_cong [OF this] enter(3) show ?thesis by simp
  next
    case (crash t c)
    then show ?thesis using wg_counts_cong [OF assms(2), of q] by simp
  next
    case (stop t c c' p')
    note f = stop_step_frame [OF stop(4)]
    have p': "wg_counts p'" using wg_counts_cong [OF assms(2), of p'] f by simp
    have "past_wait c \<longrightarrow> sc_expired c \<and> pr_timed_out p" using assms(2) stop(1,2) nth_mem [OF stop(1)] by (auto simp: wg_counts_def)
    moreover have "pr_wgDone p \<noteq> 0" using assms(2) unfinished_pos [OF stop(1)] stop(2) by (simp add: wg_counts_def)
    ultimately have "past_wait c' \<Longrightarrow> sc_expired c' \<and> pr_timed_out p'" using stop_step_past [OF stop(4)] f(8,9) by auto
    then show ?thesis using wg_counts_set_phase [OF p', of i "Recovering c'"] stop f by simp
  qed
next
  case (TaskDeadline i)
  then obtain c c' where "i < length (pr_tasks p)" "snd (pr_tasks p ! i) = Recovering c" "expire c = Some c'"
    "q = set_phase i (Recovering c') p"
    using assms(1) by (auto simp: make_move_def task_deadline_def split: task_phase.splits if_splits)
  moreover have "past_wait c \<Longrightarrow> sc_expired c \<and> pr_timed_out p"
    using assms(2) calculation(1,2) nth_mem by (auto simp: wg_counts_def)
  ultimately show ?thesis using wg_counts_set_phase [OF assms(2), of i "Recovering c'"] expire_same [of c c'] by auto
next
  case (TaskPanics i)
  then show ?thesis using assms wg_counts_set_phase [OF assms(2), of i Panicked] wg_counts_cong [OF assms(2), of q]
    by (auto simp: make_move_def task_panics_def split: if_splits)
qed (use assms wg_counts_cong [OF assms(2), of q] in \<open>auto simp: process_defs split: if_splits main_phase.splits signal_phase.splits\<close>)

lemma wg_counts_new_process: "wg_counts (new_process config)"
  by (simp add: wg_counts_def new_process_def unfinished_def)

lemma reachable_wg_counts: "reachable (new_process config) p \<Longrightarrow> wg_counts p"
  by (induction rule: reachable.induct) (auto intro: wg_counts_new_process wg_counts_move)

text \<open>Once a call has got past the wait by the wait group, nothing writes to the store any more.\<close>

definition closed_last :: "process \<Rightarrow> bool" where
  "closed_last p \<longleftrightarrow> (starting p \<longrightarrow> pr_signal p = Waiting)
     \<and> (pr_store_closed p \<or> (\<exists>c \<in> calls p. past_wait c) \<longrightarrow> pr_timed_out p \<or> settled p)"

lemma closed_last_intro:
  assumes "closed_last p" "starting q \<Longrightarrow> pr_signal q = Waiting" "pr_timed_out p \<Longrightarrow> pr_timed_out q" "settled p \<Longrightarrow> settled q"
    "pr_store_closed q \<Longrightarrow> pr_store_closed p \<or> (\<exists>c \<in> calls p. past_wait c)"
    "\<And>c. c \<in> calls q \<Longrightarrow> past_wait c \<Longrightarrow> (\<exists>c \<in> calls p. past_wait c) \<or> pr_timed_out q \<or> settled q"
  shows "closed_last q"
  using assms unfolding closed_last_def by blast

lemma settled_cong: "starting q = starting p \<Longrightarrow> pr_tasks q = pr_tasks p \<Longrightarrow> settled q = settled p"
  by (simp add: settled_def)

lemma stop_step_settles:
  assumes "stop_step c p = Some (c', p')" "past_wait c'" "wg_counts p" "\<not> starting p" "c \<in> calls p"
  shows "(\<exists>c \<in> calls p. past_wait c) \<or> pr_timed_out p' \<or> settled p"
  using stop_step_past [OF assms(1,2)] assms(3-5) unfinished_0 [of p] by (auto simp: wg_counts_def settled_def)


lemma calls_set_phase:
  "i < length (pr_tasks p) \<Longrightarrow> c \<in> calls (set_phase i ph p) \<Longrightarrow> ph = Recovering c \<or> c \<in> calls p"
  by (auto simp: calls_def set_phase_def image_iff dest!: set_update_subset_insert [THEN subsetD])

lemma calls_nth: "i < length (pr_tasks p) \<Longrightarrow> snd (pr_tasks p ! i) = Recovering c \<Longrightarrow> c \<in> calls p"
  unfolding calls_def by (metis (mono_tags, lifting) imageI mem_Collect_eq nth_mem)

lemma calls_cong:
  "pr_main q = pr_main p \<Longrightarrow> pr_signal q = pr_signal p \<Longrightarrow> pr_tasks q = pr_tasks p \<Longrightarrow> calls q = calls p"
  by (simp add: calls_def)

text \<open>A move of a task that is not finished: nothing was settled, and only its own call may get past the wait.\<close>

lemma closed_last_set_phase:
  assumes "closed_last p" "i < length (pr_tasks p)" "snd (pr_tasks p ! i) \<noteq> Finished"
    "pr_main q = pr_main p" "pr_signal q = pr_signal p" "pr_tasks q = pr_tasks (set_phase i ph p)"
    "pr_timed_out p \<Longrightarrow> pr_timed_out q" "pr_store_closed q \<Longrightarrow> pr_store_closed p \<or> (\<exists>c \<in> calls p. past_wait c)"
    "\<And>c. ph = Recovering c \<Longrightarrow> past_wait c \<Longrightarrow> (\<exists>c \<in> calls p. past_wait c) \<or> pr_timed_out q"
  shows "closed_last q"
proof (rule closed_last_intro [OF assms(1)])
  show "pr_signal q = Waiting" if "starting q" using that assms(1,4,5) by (simp add: closed_last_def starting_def)
  show "settled q" if "settled p" using that assms(2,3) nth_mem by (auto simp: settled_def)
  have c: "calls q = calls (set_phase i ph p)" by (rule calls_cong) (simp_all add: assms(4-6) set_phase_def)
  show "(\<exists>c \<in> calls p. past_wait c) \<or> pr_timed_out q \<or> settled q" if "c \<in> calls q" "past_wait c" for c
    using that calls_set_phase [OF assms(2)] assms(9) unfolding c by blast
qed (use assms(7,8) in auto)

lemma closed_last_main:
  assumes "main_moves p = Some q" "wg_counts p" "closed_last p"
  shows "closed_last q"
proof (cases "\<exists>c. pr_main p = Stopping c \<and> sc_pc c \<noteq> Stopped")
  case True
  then obtain c c' p' where c: "pr_main p = Stopping c" "stop_step c p = Some (c', p')" "q = p'\<lparr>pr_main := Stopping c'\<rparr>"
    using assms(1) by (auto simp: main_moves_def)
  note f = stop_step_frame [OF c(2)]
  have ns: "\<not> starting p" "\<not> starting q" and mem: "c \<in> calls p" using c by (simp_all add: starting_def calls_def)
  have st: "settled q = settled p" using ns by (intro settled_cong) (simp_all add: c(3) f)
  show ?thesis
  proof (rule closed_last_intro [OF assms(3)])
    show "pr_store_closed q \<Longrightarrow> pr_store_closed p \<or> (\<exists>c \<in> calls p. past_wait c)" using f(10) mem by (auto simp: c(3))
    show "(\<exists>c \<in> calls p. past_wait c) \<or> pr_timed_out q \<or> settled q" if x: "x \<in> calls q" "past_wait x" for x
    proof (cases "x = c'")
      case True
      then show ?thesis using stop_step_settles [OF c(2) _ assms(2) ns(1) mem] x(2) st by (auto simp: c(3))
    next
      case False
      then have "x \<in> calls p" using x(1) by (auto simp: calls_def c(3) f)
      then show ?thesis using x(2) by blast
    qed
  qed (use ns st f(9) in \<open>auto simp: c(3)\<close>)
next
  case False
  show ?thesis
  proof (rule closed_last_intro [OF assms(3)])
    show "starting q \<Longrightarrow> pr_signal q = Waiting" "pr_timed_out p \<Longrightarrow> pr_timed_out q"
      "pr_store_closed q \<Longrightarrow> pr_store_closed p \<or> (\<exists>c \<in> calls p. past_wait c)" "settled p \<Longrightarrow> settled q"
      using assms(1,3) False
      by (auto simp: main_moves_def closed_last_def spawn_def starting_def settled_def split: main_phase.splits list.splits if_splits)
    have "calls q \<subseteq> insert stop_entered (calls p)"
      using assms(1) False
      by (fastforce simp: main_moves_def calls_def spawn_def split: main_phase.splits list.splits if_splits)
    then show "(\<exists>c \<in> calls p. past_wait c) \<or> pr_timed_out q \<or> settled q" if "c \<in> calls q" "past_wait c" for c
      using that by auto
  qed
qed

lemma closed_last_signal:
  assumes "signal_moves p = Some q" "wg_counts p" "closed_last p" "\<not> starting p"
  shows "closed_last q"
proof (cases "\<exists>c. pr_signal p = SignalStopping c \<and> sc_pc c \<noteq> Stopped")
  case True
  then obtain c c' p' where c: "pr_signal p = SignalStopping c" "stop_step c p = Some (c', p')"
    "q = p'\<lparr>pr_signal := SignalStopping c'\<rparr>"
    using assms(1) by (auto simp: signal_moves_def)
  note f = stop_step_frame [OF c(2)]
  have ns: "\<not> starting q" and mem: "c \<in> calls p" using c assms(4) by (simp_all add: starting_def calls_def f)
  have st: "settled q = settled p" using ns assms(4) by (intro settled_cong) (simp_all add: c(3) f)
  show ?thesis
  proof (rule closed_last_intro [OF assms(3)])
    show "pr_store_closed q \<Longrightarrow> pr_store_closed p \<or> (\<exists>c \<in> calls p. past_wait c)" using f(10) mem by (auto simp: c(3))
    show "(\<exists>c \<in> calls p. past_wait c) \<or> pr_timed_out q \<or> settled q" if x: "x \<in> calls q" "past_wait x" for x
    proof (cases "x = c'")
      case True
      then show ?thesis using stop_step_settles [OF c(2) _ assms(2,4) mem] x(2) st by (auto simp: c(3))
    next
      case False
      then have "x \<in> calls p" using x(1) by (auto simp: calls_def c(3) f)
      then show ?thesis using x(2) by blast
    qed
  qed (use ns st f(9) in \<open>auto simp: c(3)\<close>)
next
  case False
  then have "(pr_signal p = Waiting \<and> q = p\<lparr>pr_signal := SignalStopping stop_entered\<rparr>) \<or> q = p\<lparr>pr_signal := SignalDone\<rparr>"
    using assms(1) by (auto simp: signal_moves_def split: signal_phase.splits if_splits)
  then have "pr_main q = pr_main p" "pr_tasks q = pr_tasks p" "pr_timed_out q = pr_timed_out p" "pr_store_closed q = pr_store_closed p"
    "pr_signal q = SignalStopping stop_entered \<or> pr_signal q = SignalDone" by auto
  then show ?thesis
    by (intro closed_last_intro [OF assms(3)]) (use assms(4) in \<open>auto simp: starting_def settled_def calls_def\<close>)
qed


lemma closed_last_cong:
  "closed_last p \<Longrightarrow> pr_main q = pr_main p \<Longrightarrow> pr_signal q = pr_signal p \<Longrightarrow> pr_tasks q = pr_tasks p \<Longrightarrow>
    pr_timed_out q = pr_timed_out p \<Longrightarrow> pr_store_closed q = pr_store_closed p \<Longrightarrow> closed_last q"
  using calls_cong [of q p] settled_cong [of q p] by (simp add: closed_last_def starting_def)

lemma closed_last_expire:
  assumes "closed_last p" "c \<in> calls p" "expire c = Some c'" "calls q \<subseteq> insert c' (calls p)" "starting q = starting p"
    "pr_signal q = Waiting \<longleftrightarrow> pr_signal p = Waiting" "pr_tasks q = pr_tasks p" "pr_timed_out q = pr_timed_out p"
    "pr_store_closed q = pr_store_closed p"
  shows "closed_last q"
  by (rule closed_last_intro [OF assms(1)])
    (use assms expire_same [OF assms(3)] settled_cong [of q p] in \<open>auto simp: closed_last_def\<close>)

lemma closed_last_task:
  assumes "task_moves i p = Some q" "wg_counts p" "closed_last p"
  shows "closed_last q"
  using assms(1)
proof (cases rule: task_moves_cases)
  case (returns t)
  then show ?thesis
    by (intro closed_last_set_phase [OF assms(3), of i _ Finished]) (simp_all add: task_done_def set_phase_def)
next
  case (enter t)
  then show ?thesis
    by (intro closed_last_set_phase [OF assms(3), of i _ "Recovering stop_entered"]) (auto simp: set_phase_def)
next
  case (crash t c)
  then show ?thesis using closed_last_cong [OF assms(3), of q] by simp
next
  case (stop t c c' p')
  note f = stop_step_frame [OF stop(4)]
  have mem: "c \<in> calls p" using calls_nth [OF stop(1)] stop(2) by simp
  have "pr_wgDone p \<noteq> 0" using assms(2) unfinished_pos [OF stop(1)] stop(2) by (simp add: wg_counts_def)
  then have "(\<exists>c \<in> calls p. past_wait c) \<or> pr_timed_out p'" if "past_wait c'"
    using stop_step_past [OF stop(4) that] mem by blast
  moreover have "pr_store_closed p' \<Longrightarrow> pr_store_closed p \<or> (\<exists>c \<in> calls p. past_wait c)" using f(10) mem by blast
  ultimately show ?thesis using stop f(9)
    by (intro closed_last_set_phase [OF assms(3), of i _ "Recovering c'"]) (simp_all add: set_phase_def f(1-3))
qed

lemma closed_last_move:
  assumes "make_move m p = Some q" "wg_counts p" "closed_last p" "m = SignalMoves \<longrightarrow> \<not> starting p"
  shows "closed_last q"
proof (cases m)
  case MainMoves
  then show ?thesis using assms closed_last_main by (simp add: make_move_def split: if_splits)
next
  case SignalMoves
  then show ?thesis using assms closed_last_signal by (simp add: make_move_def split: if_splits)
next
  case (TaskMoves i)
  then show ?thesis using assms closed_last_task by (simp add: make_move_def split: if_splits)
next
  case MainDeadline
  then obtain c c' where "pr_main p = Stopping c" "expire c = Some c'" "q = p\<lparr>pr_main := Stopping c'\<rparr>"
    using assms(1) by (auto simp: make_move_def main_deadline_def split: main_phase.splits if_splits)
  then show ?thesis by (intro closed_last_expire [OF assms(3), of c c']) (auto simp: calls_def starting_def)
next
  case SignalDeadline
  then obtain c c' where "pr_signal p = SignalStopping c" "expire c = Some c'" "q = p\<lparr>pr_signal := SignalStopping c'\<rparr>"
    using assms(1) by (auto simp: make_move_def signal_deadline_def split: signal_phase.splits if_splits)
  then show ?thesis by (intro closed_last_expire [OF assms(3), of c c']) (auto simp: calls_def starting_def)
next
  case (TaskDeadline i)
  then obtain c c' where "i < length (pr_tasks p)" "snd (pr_tasks p ! i) = Recovering c" "expire c = Some c'"
    "q = set_phase i (Recovering c') p"
    using assms(1) by (auto simp: make_move_def task_deadline_def split: task_phase.splits if_splits)
  then show ?thesis using calls_nth [of i p c] expire_same [of c c']
    by (intro closed_last_set_phase [OF assms(3), of i _ "Recovering c'"]) (auto simp: set_phase_def)
next
  case (TaskPanics i)
  then have "q = set_phase i Panicked p \<or> q = p\<lparr>pr_crashed := True\<rparr>" "i < length (pr_tasks p)" "snd (pr_tasks p ! i) = Running"
    using assms(1) by (auto simp: make_move_def task_panics_def split: if_splits)
  then show ?thesis using closed_last_cong [OF assms(3), of q] closed_last_set_phase [OF assms(3), of i q Panicked]
    by (auto simp: set_phase_def)
next
  case UserQuits
  then have q: "pr_main p = Displaying" "q = p\<lparr>pr_main := Stopping stop_entered\<rparr>"
    using assms(1) by (auto simp: make_move_def user_quits_def split: main_phase.splits if_splits)
  then show ?thesis
    by (intro closed_last_intro [OF assms(3)]) (auto simp: starting_def settled_def calls_def)
qed (use assms closed_last_cong [OF assms(3), of q] in \<open>auto simp: process_defs split: if_splits\<close>)

text \<open>A schedule in which a signal comes while \<open>main\<close> may still spawn tasks.\<close>

definition early_signal :: "move list \<Rightarrow> process \<Rightarrow> bool" where
  "early_signal ms p \<longleftrightarrow> (\<exists>ks rest p1. ms = ks @ SignalMoves # rest \<and> run_moves ks p = Some p1 \<and> starting p1)"

lemma early_signal_Cons: "make_move m p = Some p1 \<Longrightarrow> early_signal ms p1 \<Longrightarrow> early_signal (m # ms) p"
  unfolding early_signal_def by (elim exE, rule_tac x = "m # ks" in exI) auto

lemma run_moves_inv:
  assumes "run_moves ms p = Some q" "wg_counts p" "closed_last p" "\<not> early_signal ms p"
  shows "wg_counts q \<and> closed_last q"
  using assms
proof (induction ms arbitrary: p)
  case (Cons m ms)
  then obtain p1 where p1: "make_move m p = Some p1" "run_moves ms p1 = Some q" by (auto simp: bind_eq_Some_conv)
  have "m = SignalMoves \<longrightarrow> \<not> starting p"
    using Cons.prems(4) unfolding early_signal_def by (metis append_Nil run_moves.simps(1))
  then show ?case
    using Cons.IH [OF p1(2)] wg_counts_move [OF p1(1)] closed_last_move [OF p1(1)] early_signal_Cons [OF p1(1)] Cons.prems by blast
qed simp

lemma closed_last_new_process: "closed_last (new_process config)"
  by (auto simp: closed_last_def new_process_def calls_def)


text \<open>How the calls of \<open>Stop\<close> come about.\<close>

definition same_flags :: "process \<Rightarrow> process \<Rightarrow> bool" where
  "same_flags p q \<longleftrightarrow> pr_server p = pr_server q \<and> pr_chStop p = pr_chStop q \<and> pr_ws_stopped p = pr_ws_stopped q
     \<and> pr_store_closed p = pr_store_closed q"

lemma calls_update:
  "calls (p\<lparr>pr_main := Stopping c\<rparr>) \<subseteq> insert c (calls p)" "calls (p\<lparr>pr_signal := SignalStopping c\<rparr>) \<subseteq> insert c (calls p)"
  "calls (p\<lparr>pr_main := Returned\<rparr>) \<subseteq> calls p" "calls (p\<lparr>pr_signal := SignalDone\<rparr>) \<subseteq> calls p"
  by (auto simp: calls_def)

lemma calls_move:
  assumes "make_move m p = Some q" "c' \<in> calls q"
  shows "c' \<in> calls p \<or> c' = stop_entered
    \<or> (\<exists>c \<in> calls p. expire c = Some c' \<or> (\<exists>p'. stop_step c p = Some (c', p') \<and> same_flags q p'))"
proof (cases m)
  case MainMoves
  then have q: "main_moves p = Some q" using assms(1) by (simp add: make_move_def split: if_splits)
  show ?thesis
  proof (cases "\<exists>c. pr_main p = Stopping c \<and> sc_pc c \<noteq> Stopped")
    case True
    then obtain c c1 p' where c: "pr_main p = Stopping c" "stop_step c p = Some (c1, p')" "q = p'\<lparr>pr_main := Stopping c1\<rparr>"
      using q by (auto simp: main_moves_def)
    have "calls p' = calls p" by (rule calls_cong) (simp_all add: stop_step_frame [OF c(2)])
    then have "c' = c1 \<or> c' \<in> calls p" using calls_update(1) [of c1 p'] assms(2) c(3) by blast
    moreover have "c \<in> calls p" using c(1) by (simp add: calls_def)
    ultimately show ?thesis using c(2,3) by (auto simp: same_flags_def)
  next
    case False
    then show ?thesis using q assms(2)
      by (fastforce simp: main_moves_def calls_def spawn_def split: main_phase.splits list.splits if_splits)
  qed
next
  case SignalMoves
  then have q: "signal_moves p = Some q" using assms(1) by (simp add: make_move_def split: if_splits)
  show ?thesis
  proof (cases "\<exists>c. pr_signal p = SignalStopping c \<and> sc_pc c \<noteq> Stopped")
    case True
    then obtain c c1 p' where c: "pr_signal p = SignalStopping c" "stop_step c p = Some (c1, p')"
      "q = p'\<lparr>pr_signal := SignalStopping c1\<rparr>"
      using q by (auto simp: signal_moves_def)
    have "calls p' = calls p" by (rule calls_cong) (simp_all add: stop_step_frame [OF c(2)])
    then have "c' = c1 \<or> c' \<in> calls p" using calls_update(2) [of c1 p'] assms(2) c(3) by blast
    moreover have "c \<in> calls p" using c(1) by (simp add: calls_def)
    ultimately show ?thesis using c(2,3) by (auto simp: same_flags_def)
  next
    case False
    then show ?thesis using q assms(2) by (fastforce simp: signal_moves_def calls_def split: signal_phase.splits if_splits)
  qed
next
  case (TaskMoves i)
  then have "task_moves i p = Some q" using assms(1) by (simp add: make_move_def split: if_splits)
  then show ?thesis
  proof (cases rule: task_moves_cases)
    case (returns t)
    then have "calls q = calls (set_phase i Finished p)" by (simp add: task_done_def calls_def)
    then show ?thesis using calls_set_phase [OF returns(1), of c' Finished] assms(2) by simp
  next
    case (enter t)
    then have "calls q = calls (set_phase i (Recovering stop_entered) p)" by (simp add: calls_def)
    then show ?thesis using calls_set_phase [OF enter(1), of c' "Recovering stop_entered"] assms(2) by auto
  next
    case (crash t c)
    then show ?thesis using assms(2) by (simp add: calls_def)
  next
    case (stop t c c1 p')
    have "calls p' = calls p" by (rule calls_cong) (simp_all add: stop_step_frame [OF stop(4)])
    moreover have "i < length (pr_tasks p')" using stop by (simp add: stop_step_frame [OF stop(4)])
    ultimately have "c' = c1 \<or> c' \<in> calls p" using calls_set_phase [of i p' c' "Recovering c1"] assms(2) stop(5) by auto
    moreover have "c \<in> calls p" using calls_nth [OF stop(1)] stop(2) by simp
    ultimately show ?thesis using stop(4,5) by (auto simp: set_phase_def same_flags_def)
  qed
next
  case MainDeadline
  then obtain c c1 where c: "pr_main p = Stopping c" "expire c = Some c1" "q = p\<lparr>pr_main := Stopping c1\<rparr>"
    using assms(1) by (auto simp: make_move_def main_deadline_def split: main_phase.splits if_splits)
  then have "c \<in> calls p" "c' = c1 \<or> c' \<in> calls p" using assms(2) by (auto simp: calls_def)
  then show ?thesis using c(2) by blast
next
  case SignalDeadline
  then obtain c c1 where c: "pr_signal p = SignalStopping c" "expire c = Some c1" "q = p\<lparr>pr_signal := SignalStopping c1\<rparr>"
    using assms(1) by (auto simp: make_move_def signal_deadline_def split: signal_phase.splits if_splits)
  then have "c \<in> calls p" "c' = c1 \<or> c' \<in> calls p" using assms(2) by (auto simp: calls_def)
  then show ?thesis using c(2) by blast
next
  case (TaskDeadline i)
  then obtain c c1 where c: "i < length (pr_tasks p)" "snd (pr_tasks p ! i) = Recovering c" "expire c = Some c1"
    "q = set_phase i (Recovering c1) p"
    using assms(1) by (auto simp: make_move_def task_deadline_def split: task_phase.splits if_splits)
  have "c \<in> calls p" "c' = c1 \<or> c' \<in> calls p" using calls_nth [OF c(1,2)] calls_set_phase [OF c(1)] assms(2) c(4) by auto
  then show ?thesis using c(3) by blast
next
  case (TaskPanics i)
  then have "i < length (pr_tasks p)" "q = set_phase i Panicked p \<or> q = p\<lparr>pr_crashed := True\<rparr>"
    using assms(1) by (auto simp: make_move_def task_panics_def split: if_splits)
  then show ?thesis using calls_set_phase [of i p c' Panicked] assms(2) by (auto simp: calls_def)
next
  case UserQuits
  then have "q = p\<lparr>pr_main := Stopping stop_entered\<rparr>"
    using assms(1) by (auto simp: make_move_def user_quits_def split: main_phase.splits if_splits)
  then show ?thesis using calls_update(1) [of stop_entered p] assms(2) by auto
qed (use assms in \<open>auto simp: process_defs calls_def split: if_splits\<close>)

lemma stop_step_flags:
  assumes "stop_step c p = Some (c', p')"
  shows "pr_chStop p \<Longrightarrow> pr_chStop p'" "pr_ws_stopped p \<Longrightarrow> pr_ws_stopped p'" "pr_store_closed p \<Longrightarrow> pr_store_closed p'"
  using assms by (auto simp: stop_step_def split: stop_pc.splits if_splits)

lemma task_move_frame:
  assumes "task_moves i p = Some q"
  shows "pr_main q = pr_main p" "pr_signal q = pr_signal p" "pr_server q = pr_server p" "i < length (pr_tasks p)"
  using assms by (cases rule: task_moves_cases; simp add: task_done_def stop_step_frame(1,2,5))+

lemma task_move_flags:
  assumes "task_moves i p = Some q"
  shows "pr_chStop p \<Longrightarrow> pr_chStop q" "pr_ws_stopped p \<Longrightarrow> pr_ws_stopped q" "pr_store_closed p \<Longrightarrow> pr_store_closed q"
  using assms by (cases rule: task_moves_cases; simp add: task_done_def stop_step_flags)+

text \<open>What the statements a call is past have left behind.\<close>

definition reached :: "process \<Rightarrow> stop_pc \<Rightarrow> bool" where
  "reached p pc \<longleftrightarrow> (pc_weight pc < 6 \<longrightarrow> pr_chStop p) \<and> (pc_weight pc < 5 \<longrightarrow> pr_ws_stopped p) \<and> (pc_weight pc < 1 \<longrightarrow> pr_store_closed p)"

definition signalled :: "process \<Rightarrow> bool" where
  "signalled p \<longleftrightarrow> (\<forall>c \<in> calls p. reached p (sc_pc c)) \<and> (pr_signal p = SignalDone \<longrightarrow> reached p Stopped)
     \<and> (pr_crashed p \<longrightarrow> (\<exists>x \<in> set (pr_tasks p). snd x \<noteq> Finished))"

lemma stop_step_reached: "stop_step c p = Some (c', p') \<Longrightarrow> reached p (sc_pc c) \<Longrightarrow> reached p' (sc_pc c')"
  by (auto simp: stop_step_def reached_def split: stop_pc.splits if_splits)

lemma flags_move:
  assumes "make_move m p = Some q"
  shows "(pr_chStop p \<longrightarrow> pr_chStop q) \<and> (pr_ws_stopped p \<longrightarrow> pr_ws_stopped q) \<and> (pr_store_closed p \<longrightarrow> pr_store_closed q)"
proof (cases m)
  case MainMoves
  then show ?thesis using assms
    by (auto simp: make_move_def main_moves_def spawn_def stop_step_flags split: main_phase.splits list.splits if_splits)
next
  case SignalMoves
  then show ?thesis using assms
    by (auto simp: make_move_def signal_moves_def stop_step_flags split: signal_phase.splits if_splits)
next
  case (TaskMoves i)
  then show ?thesis using assms task_move_flags by (simp add: make_move_def split: if_splits)
qed (use assms in \<open>auto simp: process_defs split: main_phase.splits signal_phase.splits task_phase.splits if_splits\<close>)

lemma reached_mono:
  "make_move m p = Some q \<Longrightarrow> reached p pc \<Longrightarrow> reached q pc"
  using flags_move unfolding reached_def by blast

lemma signal_done_move:
  assumes "make_move m p = Some q" "pr_signal q = SignalDone"
  shows "pr_signal p = SignalDone \<or> (\<exists>c. pr_signal p = SignalStopping c \<and> sc_pc c = Stopped)"
proof (cases m)
  case MainMoves
  then show ?thesis using assms
    by (auto simp: make_move_def main_moves_def spawn_def stop_step_frame(2) split: main_phase.splits list.splits if_splits)
next
  case SignalMoves
  then show ?thesis using assms by (auto simp: make_move_def signal_moves_def split: signal_phase.splits if_splits)
next
  case (TaskMoves i)
  then show ?thesis using assms task_move_frame(2) [of i p q] by (auto simp: make_move_def split: if_splits)
qed (use assms in \<open>auto simp: process_defs split: main_phase.splits signal_phase.splits task_phase.splits if_splits\<close>)

lemma crash_move:
  assumes "make_move m p = Some q" "pr_crashed q"
  shows "\<exists>x \<in> set (pr_tasks q). snd x \<noteq> Finished"
proof -
  have np: "\<not> pr_crashed p" using assms(1) by (auto simp: make_move_def ended_def split: if_splits)
  have unfin: ?thesis if "i < length (pr_tasks q)" "snd (pr_tasks q ! i) \<noteq> Finished" for i using that nth_mem by blast
  show ?thesis
  proof (cases m)
    case MainMoves
    then show ?thesis using assms np
      by (auto simp: make_move_def main_moves_def spawn_def stop_step_frame(7) split: main_phase.splits list.splits if_splits)
  next
    case SignalMoves
    then show ?thesis using assms np
      by (auto simp: make_move_def signal_moves_def stop_step_frame(7) split: signal_phase.splits if_splits)
  next
    case (TaskMoves i)
    then have "task_moves i p = Some q" using assms(1) by (simp add: make_move_def split: if_splits)
    then show ?thesis
      by (cases rule: task_moves_cases) (use assms np unfin [of i] in \<open>auto simp: task_done_def stop_step_frame(7)\<close>)
  next
    case (TaskPanics i)
    then show ?thesis using assms np unfin [of i] by (auto simp: make_move_def task_panics_def split: if_splits)
  next
    case (NestedPanics i)
    then show ?thesis using assms np unfin [of i] by (auto simp: make_move_def nested_panics_def split: if_splits)
  qed (use assms np in \<open>auto simp: process_defs split: main_phase.splits signal_phase.splits task_phase.splits if_splits\<close>)
qed

lemma signalled_move:
  assumes "make_move m p = Some q" "signalled p"
  shows "signalled q"
proof -
  have "reached q (sc_pc c)" if c: "c \<in> calls q" for c
    using calls_move [OF assms(1) c]
  proof (elim disjE bexE exE)
    show ?thesis if "c \<in> calls p" using that assms(2) reached_mono [OF assms(1)] by (simp add: signalled_def)
    show ?thesis if "c = stop_entered" using that by (simp add: reached_def stop_entered_def)
    show ?thesis if "c0 \<in> calls p" "expire c0 = Some c" for c0
      using that(1) assms(2) reached_mono [OF assms(1)] expire_same [OF that(2)] by (simp add: signalled_def)
    show ?thesis if "c0 \<in> calls p" "stop_step c0 p = Some (c, p') \<and> same_flags q p'" for c0 p'
      using that assms(2) stop_step_reached [of c0 p c p'] by (auto simp: signalled_def reached_def same_flags_def)
  qed
  moreover have "reached q Stopped" if "pr_signal q = SignalDone"
    using signal_done_move [OF assms(1) that] assms(2) reached_mono [OF assms(1), of Stopped]
    by (auto simp: signalled_def calls_def)
  ultimately show ?thesis using crash_move [OF assms(1)] by (simp add: signalled_def)
qed

lemma reachable_signalled: "reachable (new_process config) p \<Longrightarrow> signalled p"
proof (induction rule: reachable.induct)
  case start
  show ?case by (simp add: signalled_def new_process_def calls_def)
qed (rule signalled_move)

text \<open>No state of a live process is stuck: at worst the display returns or a deadline passes.\<close>

lemma main_not_stuck:
  assumes "\<not> ended p" "pr_main p = Stopping c"
  shows "make_move MainMoves p \<noteq> None \<or> make_move MainDeadline p \<noteq> None"
proof (cases "sc_expired c \<and> sc_pc c \<noteq> Stopped")
  case True
  then show ?thesis using assms stop_step_expired [of c p] by (auto simp: make_move_def main_moves_def)
next
  case False
  then show ?thesis using assms by (auto simp: make_move_def main_moves_def main_deadline_def expire_def)
qed

lemma not_stuck:
  assumes "\<not> ended p"
  shows "make_move MainMoves p \<noteq> None \<or> make_move MainDeadline p \<noteq> None \<or> make_move UserQuits p \<noteq> None"
proof (cases "pr_main p")
  case (Spawning ts)
  then show ?thesis using assms by (cases ts) (simp_all add: make_move_def main_moves_def)
next
  case (Stopping c)
  then show ?thesis using main_not_stuck [OF assms] by blast
qed (use assms in \<open>auto simp: make_move_def main_moves_def user_quits_def ended_def\<close>)

lemma tasks_weight: "weight (new_process config) \<le> 154"
  by (simp add: weight_def new_process_def background_tasks_def)

lemma stop_call_not_stuck: "sc_pc c \<noteq> Stopped \<Longrightarrow> expire c = None \<Longrightarrow> stop_step c p \<noteq> None"
  using stop_step_expired by (simp add: expire_def split: if_splits)

text \<open>The goroutine of \<open>main\<close> alone brings up the display with all tasks running.\<close>

definition displaying :: "'tz Config \<Rightarrow> process" where
  "displaying config = (new_process config)\<lparr>pr_main := Displaying, pr_server := cfg_WithTopologyAPI config,
     pr_tasks := map (\<lambda>t. (t, Running)) (background_tasks config), pr_wgDone := int (length (background_tasks config))\<rparr>"

lemma run_spawning:
  "pr_main p = Spawning ts \<Longrightarrow> \<not> pr_crashed p \<Longrightarrow> run_moves (replicate (length ts + 1) MainMoves) p =
     Some (p\<lparr>pr_main := Displaying, pr_tasks := pr_tasks p @ map (\<lambda>t. (t, Running)) ts, pr_wgDone := pr_wgDone p + int (length ts)\<rparr>)"
proof (induction ts arbitrary: p)
  case Nil
  then show ?case by (simp add: make_move_def ended_def main_moves_def)
next
  case (Cons t ts)
  let ?p = "spawn t (p\<lparr>pr_main := Spawning ts\<rparr>)"
  have "make_move MainMoves p = Some ?p" using Cons.prems by (simp add: make_move_def ended_def main_moves_def)
  moreover have "pr_main ?p = Spawning ts" "\<not> pr_crashed ?p" using Cons.prems by (simp_all add: spawn_def)
  ultimately show ?case using Cons.IH [of ?p] by (simp add: spawn_def algebra_simps)
qed

lemma run_start: "run_moves (replicate (length (background_tasks config) + 2) MainMoves) (new_process config) = Some (displaying config)"
proof -
  let ?p = "(new_process config)\<lparr>pr_main := Spawning (background_tasks config), pr_server := cfg_WithTopologyAPI config\<rparr>"
  have "make_move MainMoves (new_process config) = Some ?p" by (simp add: make_move_def ended_def main_moves_def new_process_def)
  moreover have "run_moves (replicate (length (background_tasks config) + 1) MainMoves) ?p = Some (displaying config)"
    using run_spawning [of ?p "background_tasks config"] by (simp add: displaying_def new_process_def)
  ultimately show ?thesis by simp
qed

text \<open>Without a panic and with a user who stays, \<open>main\<close> stays in the display.\<close>

definition undisturbed :: "process \<Rightarrow> bool" where
  "undisturbed p \<longleftrightarrow> (starting p \<or> pr_main p = Displaying) \<and> \<not> pr_display_stopped p \<and> \<not> pr_crashed p
     \<and> (\<forall>x \<in> set (pr_tasks p). snd x = Running \<or> snd x = Finished)"

lemma undisturbed_move:
  assumes "make_move m p = Some q" "undisturbed p" "m \<noteq> UserQuits" "\<nexists>i. m = TaskPanics i \<or> m = NestedPanics i"
  shows "undisturbed q"
proof (cases m)
  case MainMoves
  then have q: "main_moves p = Some q" using assms(1) by (simp add: make_move_def split: if_splits)
  then show ?thesis using assms(2)
    by (auto simp: undisturbed_def main_moves_def spawn_def starting_def split: main_phase.splits list.splits if_splits)
next
  case SignalMoves
  then have "pr_main q = pr_main p" "pr_display_stopped q = pr_display_stopped p" "pr_crashed q = pr_crashed p" "pr_tasks q = pr_tasks p"
    using assms(1) by (auto simp: make_move_def signal_moves_def stop_step_frame split: signal_phase.splits if_splits)
  then show ?thesis using assms(2) by (simp add: undisturbed_def starting_def)
next
  case (TaskMoves i)
  then have "task_moves i p = Some q" using assms(1) by (simp add: make_move_def split: if_splits)
  then show ?thesis
  proof (cases rule: task_moves_cases)
    case (returns t)
    then have "set (pr_tasks q) \<subseteq> insert (t, Finished) (set (pr_tasks p))" "pr_main q = pr_main p"
      "pr_display_stopped q = pr_display_stopped p" "pr_crashed q = pr_crashed p"
      by (auto simp: task_done_def set_phase_def dest!: set_update_subset_insert [THEN subsetD])
    then show ?thesis using assms(2) by (auto simp: undisturbed_def starting_def)
  qed (use assms(2) nth_mem in \<open>fastforce simp: undisturbed_def\<close>)+
next
  case (TaskDeadline i)
  then obtain c where "i < length (pr_tasks p)" "snd (pr_tasks p ! i) = Recovering c"
    using assms(1) by (auto simp: make_move_def task_deadline_def split: task_phase.splits if_splits)
  then have "\<exists>x \<in> set (pr_tasks p). snd x = Recovering c" using nth_mem by blast
  then have "\<not> undisturbed p" by (force simp: undisturbed_def)
  then show ?thesis using assms(2) by simp
next
  case WebsocketExits
  then show ?thesis using assms(1,2)
    by (auto simp: make_move_def websocket_exits_def undisturbed_def starting_def split: if_splits)
next
  case MainDeadline
  then show ?thesis using assms(1,2)
    by (auto simp: make_move_def main_deadline_def undisturbed_def starting_def split: main_phase.splits if_splits)
next
  case SignalDeadline
  then show ?thesis using assms(1,2)
    by (auto simp: make_move_def signal_deadline_def undisturbed_def starting_def split: signal_phase.splits if_splits)
qed (use assms(3,4) in auto)

lemma run_undisturbed:
  assumes "run_moves ms p = Some q" "undisturbed p" "UserQuits \<notin> set ms" "\<forall>i. TaskPanics i \<notin> set ms \<and> NestedPanics i \<notin> set ms"
  shows "undisturbed q"
  using assms
proof (induction ms arbitrary: p)
  case (Cons m ms)
  then obtain p1 where p1: "make_move m p = Some p1" "run_moves ms p1 = Some q" by (auto simp: bind_eq_Some_conv)
  have "undisturbed p1" by (rule undisturbed_move [OF p1(1) Cons.prems(2)]) (use Cons.prems(3,4) in auto)
  then show ?case using Cons.IH [OF p1(2)] Cons.prems(3,4) by simp
qed simp

lemma undisturbed_new_process: "undisturbed (new_process config)"
  by (simp add: undisturbed_def new_process_def starting_def)

lemmas run_simps = make_move_def ended_def main_moves_def signal_moves_def task_moves_def task_panics_def task_deadline_def
  websocket_exits_def user_quits_def expire_def stop_step_def stop_display_def stop_entered_def set_phase_def task_done_def may_return_def recovers_def

text \<open>A whole \<open>Stop\<close> of the goroutine of the signal, before \<open>main\<close> has made its first move.\<close>

definition early_run :: "move list" where
  "early_run = [SignalMoves, SignalMoves, SignalMoves, WebsocketExits, SignalMoves, SignalMoves, SignalMoves, SignalMoves, SignalMoves]"

lemma run_early: "run_moves early_run (new_process config) = Some ((new_process config)
   \<lparr>pr_signal := SignalDone, pr_chStop := True, pr_ws_stopped := True, pr_ws_exited := True, pr_store_closed := True\<rparr>)"
  by (simp add: early_run_def run_simps new_process_def)

text \<open>Samples: a refresher panics while the display is up; a signal shuts down the tasks.\<close>

definition panic_moves :: "move list" where
  "panic_moves = [TaskPanics 1, TaskMoves 1, TaskMoves 1, TaskMoves 1, WebsocketExits, TaskMoves 1, TaskMoves 1, TaskDeadline 1,
     TaskMoves 1, TaskMoves 1]"

definition signal_run :: "move list" where
  "signal_run = [SignalMoves, SignalMoves, SignalMoves, WebsocketExits, SignalMoves, SignalMoves] @ map TaskMoves [0..<11]
     @ [SignalMoves, SignalMoves, SignalMoves]"

abbreviation quiet_config :: "string Config" where
  "quiet_config \<equiv> sample_config\<lparr>cfg_WithTopologyAPI := False\<rparr>"

definition after_panic :: process where
  "after_panic = the (run_moves panic_moves (displaying quiet_config))"

lemma panic_run:
  "run_moves panic_moves (displaying quiet_config) = Some after_panic"
  "pr_store_closed after_panic" "fst (pr_tasks after_panic ! 1) = (''consensus'', Some (cfg_RefreshRate sample_config))"
  "\<exists>c. snd (pr_tasks after_panic ! 1) = Recovering c \<and> sc_pc c = Stopped" "length (pr_tasks after_panic) = 11"
  by (simp_all add: after_panic_def panic_moves_def run_simps displaying_def new_process_def background_tasks_def)

definition after_signal :: process where
  "after_signal = the (run_moves signal_run (displaying quiet_config))"

lemma signal_run:
  "run_moves signal_run (displaying quiet_config) = Some after_signal"
  "pr_main after_signal = Displaying" "\<not> pr_crashed after_signal" "pr_signal after_signal = SignalDone" "pr_ws_exited after_signal"
  "\<forall>x \<in> set (pr_tasks after_signal). snd x = Finished" "\<not> pr_display_stopped after_signal"
  by (simp_all add: after_signal_def signal_run_def upt_conv_Cons run_simps displaying_def new_process_def background_tasks_def)

section \<open>Properties\<close>

text \<open>C37: the store is closed last. For every schedule: the wait group counts the tasks that have not finished; the
  shutdown of a goroutine that panicked never gets to the store before its deadline, because the wait group it waits for
  counts that goroutine itself; and when the store is closed, all tasks have finished or a shutdown has timed out, unless
  a signal has arrived before the display was up.\<close>

theorem store_closed_last:
  assumes "run_moves ms (new_process config) = Some q"
  shows "pr_wgDone q = int (unfinished q)
    \<and> (\<forall>t c. (t, Recovering c) \<in> set (pr_tasks q) \<and> past_wait c \<longrightarrow> sc_expired c \<and> pr_timed_out q)
    \<and> (pr_store_closed q \<longrightarrow> pr_timed_out q \<or> (\<forall>x \<in> set (pr_tasks q). snd x = Finished)
         \<or> (\<exists>ks rest p. ms = ks @ SignalMoves # rest \<and> run_moves ks (new_process config) = Some p \<and> starting p))"
proof (intro conjI impI allI; (elim conjE)?)
  have wg: "wg_counts q" using reachable_wg_counts [OF run_moves_reachable [OF assms]] .
  then show "pr_wgDone q = int (unfinished q)" by (simp add: wg_counts_def)
  show "sc_expired c" "pr_timed_out q" if "(t, Recovering c) \<in> set (pr_tasks q)" "past_wait c" for t c
    using wg that by (fastforce simp: wg_counts_def)+
  show "pr_timed_out q \<or> (\<forall>x \<in> set (pr_tasks q). snd x = Finished)
         \<or> (\<exists>ks rest p. ms = ks @ SignalMoves # rest \<and> run_moves ks (new_process config) = Some p \<and> starting p)"
    if closed: "pr_store_closed q"
  proof (cases "early_signal ms (new_process config)")
    case True
    then show ?thesis unfolding early_signal_def by blast
  next
    case False
    from run_moves_inv [OF assms wg_counts_new_process closed_last_new_process False] closed show ?thesis
      by (auto simp: closed_last_def settled_def)
  qed
qed

theorem store_closed_last_witness:
  "pr_store_closed after_panic \<and> pr_timed_out after_panic \<and> pr_wgDone after_panic = int (unfinished after_panic)"
proof -
  have "run_moves (replicate (length (background_tasks quiet_config) + 2) MainMoves @ panic_moves) (new_process quiet_config) = Some after_panic"
    by (simp only: run_moves_append run_start bind.simps panic_run(1))
  note facts = store_closed_last [OF this]
  obtain c where c: "snd (pr_tasks after_panic ! 1) = Recovering c" "sc_pc c = Stopped" using panic_run(4) by blast
  then obtain t where t: "pr_tasks after_panic ! 1 = (t, Recovering c)" by (cases "pr_tasks after_panic ! 1") simp
  have "1 < length (pr_tasks after_panic)" using panic_run(5) by simp
  then have "(t, Recovering c) \<in> set (pr_tasks after_panic)" using nth_mem t by metis
  then have "pr_timed_out after_panic" using facts [THEN conjunct2, THEN conjunct1, rule_format, of t c] c(2) by (simp add: past_wait_def)
  then show ?thesis using panic_run(2) facts by simp
qed

text \<open>C38: the end of the process. No schedule makes more than 154 moves; a process that has not ended can always move;
  and once the display has returned, \<open>Stop\<close> is never blocked for good, whatever the other goroutines do: either its next
  statement can run or its deadline passes.\<close>

theorem process_ends:
  assumes "run_moves ms (new_process config) = Some p"
  shows "length ms \<le> 154 \<and> (\<not> ended p \<longrightarrow> (\<exists>m q. make_move m p = Some q))
    \<and> (\<forall>c. \<not> ended p \<and> pr_main p = Stopping c \<longrightarrow> make_move MainMoves p \<noteq> None \<or> make_move MainDeadline p \<noteq> None)"
proof (intro conjI impI allI; (elim conjE)?)
  show "length ms \<le> 154" using run_moves_weight [OF assms] tasks_weight [of config] by simp
  show "\<exists>m q. make_move m p = Some q" if "\<not> ended p" using not_stuck [OF that] by blast
  show "make_move MainMoves p \<noteq> None \<or> make_move MainDeadline p \<noteq> None" if "\<not> ended p" "pr_main p = Stopping c" for c
    using main_not_stuck [OF that] .
qed

theorem process_ends_witness:
  "\<exists>p. run_moves [UserQuits] (displaying quiet_config) = Some p \<and> (make_move MainMoves p \<noteq> None \<or> make_move MainDeadline p \<noteq> None)"
proof -
  let ?p = "(displaying quiet_config)\<lparr>pr_main := Stopping stop_entered\<rparr>"
  have r: "run_moves [UserQuits] (displaying quiet_config) = Some ?p"
    by (simp add: make_move_def ended_def user_quits_def displaying_def new_process_def)
  then have run: "run_moves (replicate (length (background_tasks quiet_config) + 2) MainMoves @ [UserQuits]) (new_process quiet_config) = Some ?p"
    by (simp only: run_moves_append run_start bind.simps)
  have "\<not> ended ?p" by (simp add: ended_def displaying_def new_process_def)
  then show ?thesis using process_ends [OF run] r by auto
qed


text \<open>C40: a signal shuts everything down but the process. Whatever the schedule, unless the user leaves the display or a
  goroutine panics the process does not end; and when nothing but the user can move any more, the signal has been
  handled: every task has finished, the websocket has exited and the store is closed, while \<open>main\<close> still waits in the
  display.\<close>

theorem signal_leaves_display:
  assumes "run_moves ms (new_process config) = Some q" "UserQuits \<notin> set ms"
    and "\<forall>i. TaskPanics i \<notin> set ms \<and> NestedPanics i \<notin> set ms"
  shows "\<not> ended q \<and> (starting q \<or> pr_main q = Displaying)
    \<and> ((\<forall>m. m \<noteq> UserQuits \<longrightarrow> make_move m q = None) \<longrightarrow>
         pr_main q = Displaying \<and> pr_signal q = SignalDone \<and> pr_chStop q
       \<and> pr_store_closed q \<and> pr_ws_exited q \<and> (\<forall>x \<in> set (pr_tasks q). snd x = Finished))"
proof -
  have stays: "undisturbed q" using run_undisturbed [OF assms(1) undisturbed_new_process assms(2,3)] .
  then have live: "\<not> ended q" by (auto simp: undisturbed_def ended_def starting_def)
  have "pr_main q = Displaying \<and> pr_signal q = SignalDone \<and> pr_chStop q \<and> pr_store_closed q \<and> pr_ws_exited q
      \<and> (\<forall>x \<in> set (pr_tasks q). snd x = Finished)" if still: "\<And>m. m \<noteq> UserQuits \<Longrightarrow> make_move m q = None"
  proof -
    have inv: "signalled q" using reachable_signalled [OF run_moves_reachable [OF assms(1)]] .
    have main: "pr_main q = Displaying"
    proof (cases "starting q")
      case True
      then have "make_move MainMoves q \<noteq> None"
        using live by (auto simp: starting_def make_move_def main_moves_def split: list.split)
      then show ?thesis using still [of MainMoves] by simp
    qed (use stays in \<open>simp add: undisturbed_def\<close>)
    have sig: "pr_signal q = SignalDone"
    proof (cases "pr_signal q")
      case (SignalStopping c)
      then show ?thesis using still [of SignalMoves] still [of SignalDeadline] live stop_call_not_stuck [of c q]
        by (auto simp: make_move_def signal_moves_def signal_deadline_def split: if_splits)
    qed (use still [of SignalMoves] live in \<open>auto simp: make_move_def signal_moves_def\<close>)
    then have flags: "pr_chStop q" "pr_ws_stopped q" "pr_store_closed q" using inv by (simp_all add: signalled_def reached_def)
    have ws: "pr_ws_exited q" using still [of WebsocketExits] live flags(2)
      by (auto simp: make_move_def websocket_exits_def split: if_splits)
    have "snd (pr_tasks q ! i) = Finished" if i: "i < length (pr_tasks q)" for i
    proof -
      have "snd (pr_tasks q ! i) = Running \<or> snd (pr_tasks q ! i) = Finished" using stays nth_mem [OF i] by (auto simp: undisturbed_def)
      moreover have "snd (pr_tasks q ! i) \<noteq> Running" using still [of "TaskMoves i"] live i flags(1)
        by (auto simp: make_move_def task_moves_def may_return_def split: prod.splits if_splits)
      ultimately show ?thesis by blast
    qed
    then have "\<forall>x \<in> set (pr_tasks q). snd x = Finished" by (metis in_set_conv_nth)
    then show ?thesis using main sig flags ws by blast
  qed
  then show ?thesis using stays live by (auto simp: undisturbed_def)
qed

theorem signal_leaves_display_witness:
  "\<not> ended after_signal \<and> pr_main after_signal = Displaying \<and> pr_store_closed after_signal \<and> pr_wgDone after_signal = 0"
proof -
  have run: "run_moves (replicate (length (background_tasks quiet_config) + 2) MainMoves @ signal_run) (new_process quiet_config) = Some after_signal"
    by (simp only: run_moves_append run_start bind.simps signal_run(1))
  have stays: "UserQuits \<notin> set (replicate (length (background_tasks quiet_config) + 2) MainMoves @ signal_run)"
    "\<forall>i. TaskPanics i \<notin> set (replicate (length (background_tasks quiet_config) + 2) MainMoves @ signal_run)
      \<and> NestedPanics i \<notin> set (replicate (length (background_tasks quiet_config) + 2) MainMoves @ signal_run)"
    by (auto simp: signal_run_def)
  have fin: "snd (pr_tasks after_signal ! i) = Finished" if "i < length (pr_tasks after_signal)" for i
    using signal_run(6) that nth_mem by blast
  have "make_move m after_signal = None" if m: "m \<noteq> UserQuits" for m
  proof (cases m)
    case (TaskMoves i)
    show ?thesis
    proof (cases "i < length (pr_tasks after_signal)")
      case True
      obtain t where "pr_tasks after_signal ! i = (t, Finished)"
        using fin [OF True] by (cases "pr_tasks after_signal ! i") simp
      then show ?thesis using TaskMoves by (simp add: make_move_def task_moves_def)
    qed (use TaskMoves in \<open>simp add: make_move_def task_moves_def\<close>)
  qed (use m in \<open>auto simp: process_defs signal_run dest: fin\<close>)
  then have "\<not> ended after_signal \<and> pr_main after_signal = Displaying \<and> pr_store_closed after_signal"
    using signal_leaves_display [OF run stays] by blast
  moreover have "unfinished after_signal = 0" using signal_run(6) unfinished_0 by blast
  ultimately show ?thesis using reachable_wg_counts [OF run_moves_reachable [OF run]] by (simp add: wg_counts_def)
qed

end
