(* ===== verification/Crawler.thy ===== *)
theory Crawler
  imports State
begin

text \<open>
  \<open>pkg/crawler/crawler.go\<close>: discovery of RPC peers. The crawler drains a mailbox of URLs
  (\<open>butils.Mailbox\<close>, a record of operations), starts one goroutine per URL that is due, and
  re-queues every known URL on a timer. A goroutine is a small state machine: each \<open>phase\<close> ends at
  a call on the shared \<open>State\<close>, which is atomic because of its mutex, so a batch of goroutines is an
  arbitrary interleaving of these steps (\<open>run_schedule\<close>). The network's replies and the clock are
  arguments. Reads that no other step of the crawler can affect are merged into one step.
\<close>

section \<open>Data\<close>

record 'm mailbox_ops =
  mb_new :: 'm
  mb_deliver :: "'m \<Rightarrow> string \<Rightarrow> 'm"
  mb_retrieve_all :: "'m \<Rightarrow> string list \<times> 'm"

definition rescanInterval :: duration where
  "rescanInterval = 15 * Second"

text \<open>The fields of the \<open>Crawler\<close> that change, with the shared state.\<close>

record ('h, 'k, 'p, 'm) Crawler =
  cr_state :: "('h, 'k, 'p) State"
  cr_mb :: 'm
  lastSeen :: "string \<rightharpoonup> instant"

text \<open>Where the goroutine of a URL is. The peers are those of the \<open>/net_info\<close> reply, with the
  index of the range loop.\<close>

datatype phase =
    Probe
  | StoreRPC RPC "Peer list"
  | StorePeers "Peer list"
  | ReadPeer "Peer list" nat
  | StorePeer RPC "Peer list" nat
  | DeliverPeer "Peer list" nat
  | Finished "Peer list"
  | Failed

type_synonym task = "string \<times> phase"
type_synonym reply = "(goerror + NetInfo) \<times> (goerror + ResultStatus)"

section \<open>Operations\<close>

definition EqualFold :: "string \<Rightarrow> string \<Rightarrow> bool" where
  "EqualFold s t \<longleftrightarrow> to_lower s = to_lower t"

definition New :: "'m mailbox_ops \<Rightarrow> ('h, 'k, 'p) State \<Rightarrow> ('h, 'k, 'p, 'm) Crawler" where
  "New M s = \<lparr>cr_state = s, cr_mb = mb_new M, lastSeen = Map.empty\<rparr>"

text \<open>The moniker of the first validator whose consensus key has the node's address.\<close>

fun match_moniker :: "TMValidators \<Rightarrow> RPC \<Rightarrow> RPC" where
  "match_moniker [] rpc = rpc"
| "match_moniker (cv # cvs) rpc =
     (case tv_CosmosValidator cv of
        None \<Rightarrow> match_moniker cvs rpc
      | Some c \<Rightarrow>
          (case cos_ConsensusPubkey c of
             None \<Rightarrow> match_moniker cvs rpc
           | Some address \<Rightarrow>
               (if EqualFold address (rpc_ValidatorAddress rpc)
                then rpc\<lparr>rpc_ValidatorMoniker := cos_Moniker c\<rparr>
                else match_moniker cvs rpc)))"

definition probed_rpc ::
    "('h, 'r, 'k, 'p, 'z) state_env_scheme \<Rightarrow> ('h, 'k, 'p) State \<Rightarrow> string \<Rightarrow> ResultStatus \<Rightarrow> RPC" where
  "probed_rpc E s rpcURL status =
     (let rpc = (case KnownRPCByURL E s rpcURL of None \<Rightarrow> zero_RPC | Some known \<Rightarrow> known)
      in match_moniker (GetTMValidators s)
           (rpc\<lparr>rpc_ID := rs_NodeID status, rpc_URL := rpcURL, rpc_Moniker := rs_Moniker status,
              rpc_ValidatorAddress := rs_ValidatorAddress status\<rparr>))"

definition peer_rpc ::
    "('h, 'r, 'k, 'p, 'z) state_env_scheme \<Rightarrow> ('h, 'k, 'p) State \<Rightarrow> Peer \<Rightarrow> RPC" where
  "peer_rpc E s peer =
     (let url = Peer_URL (url_port E) peer;
          rpc = (case KnownRPCByURL E s url of None \<Rightarrow> zero_RPC | Some known \<Rightarrow> known)
      in rpc\<lparr>rpc_ID := ni_DefaultNodeID (peer_NodeInfo peer), rpc_IP := peer_RemoteIP peer,
           rpc_URL := url, rpc_Moniker := ni_Moniker (peer_NodeInfo peer)\<rparr>)"

text \<open>One step of \<open>fetchOne\<close>.\<close>

definition fetch_step ::
    "('h, 'r, 'k, 'p, 'z) state_env_scheme \<Rightarrow> 'm mailbox_ops \<Rightarrow> reply \<Rightarrow> task \<Rightarrow> ('h, 'k, 'p) State \<times> 'm
      \<Rightarrow> task \<times> ('h, 'k, 'p) State \<times> 'm" where
  "fetch_step E M reply task = (\<lambda>(s, mb).
     let rpcURL = fst task
     in case snd task of
          Probe \<Rightarrow>
            (case reply of
               (Inr netInfo, Inr status) \<Rightarrow>
                 ((rpcURL, StoreRPC (probed_rpc E s rpcURL status) (net_Peers netInfo)), s, mb)
             | _ \<Rightarrow> ((rpcURL, Failed), s, mb))
        | StoreRPC rpc peers \<Rightarrow> ((rpcURL, StorePeers peers), AddKnownRPC E rpc s, mb)
        | StorePeers peers \<Rightarrow> ((rpcURL, ReadPeer peers 0), AddRPCPeers E rpcURL peers s, mb)
        | ReadPeer peers i \<Rightarrow>
            (if i < length peers then ((rpcURL, StorePeer (peer_rpc E s (peers ! i)) peers i), s, mb)
             else ((rpcURL, Finished peers), s, mb))
        | StorePeer rpc peers i \<Rightarrow> ((rpcURL, DeliverPeer peers i), AddKnownRPC E rpc s, mb)
        | DeliverPeer peers i \<Rightarrow>
            ((rpcURL, ReadPeer peers (i + 1)), s, mb_deliver M mb (Peer_URL (url_port E) (peers ! i)))
        | Finished peers \<Rightarrow> (task, s, mb)
        | Failed \<Rightarrow> (task, s, mb))"

text \<open>A schedule names, for each step, the goroutine that runs and what the network would answer.\<close>

definition sched_step ::
    "('h, 'r, 'k, 'p, 'z) state_env_scheme \<Rightarrow> 'm mailbox_ops \<Rightarrow> task list \<times> ('h, 'k, 'p) State \<times> 'm
      \<Rightarrow> nat \<times> reply \<Rightarrow> task list \<times> ('h, 'k, 'p) State \<times> 'm" where
  "sched_step E M = (\<lambda>(tasks, s, mb) (i, reply).
     if i < length tasks then
       let (t, s, mb) = fetch_step E M reply (tasks ! i) (s, mb) in (tasks[i := t], s, mb)
     else (tasks, s, mb))"

definition run_schedule ::
    "('h, 'r, 'k, 'p, 'z) state_env_scheme \<Rightarrow> 'm mailbox_ops \<Rightarrow> (nat \<times> reply) list
      \<Rightarrow> task list \<times> ('h, 'k, 'p) State \<times> 'm \<Rightarrow> task list \<times> ('h, 'k, 'p) State \<times> 'm" where
  "run_schedule E M sched c = foldl (sched_step E M) c sched"

text \<open>The loop over the retrieved URLs: which goroutines are started. Each turn reads the clock.\<close>

fun start_tasks ::
    "(string \<rightharpoonup> instant) \<Rightarrow> (string \<times> instant) list \<Rightarrow> task list \<times> (string \<rightharpoonup> instant)" where
  "start_tasks seen_at [] = ([], seen_at)"
| "start_tasks seen_at ((url, now) # urls) =
     (if (case seen_at url of None \<Rightarrow> False | Some prev \<Rightarrow> time_sub now prev < rescanInterval)
      then start_tasks seen_at urls
      else let (tasks, seen_at) = start_tasks (seen_at(url \<mapsto> now)) urls in ((url, Probe) # tasks, seen_at))"

text \<open>The handler of a notification: it waits for all its goroutines. \<open>nows\<close> are the clock readings,
  \<open>sched\<close> the interleaving.\<close>

definition on_notify ::
    "('h, 'r, 'k, 'p, 'z) state_env_scheme \<Rightarrow> 'm mailbox_ops \<Rightarrow> (nat \<Rightarrow> instant) \<Rightarrow> (nat \<times> reply) list
      \<Rightarrow> ('h, 'k, 'p, 'm) Crawler \<Rightarrow> task list \<times> ('h, 'k, 'p, 'm) Crawler" where
  "on_notify E M nows sched c =
     (let (urls, mb) = mb_retrieve_all M (cr_mb c);
          (tasks, seen_at) = start_tasks (lastSeen c) (zip urls (map nows [0..<length urls]));
          (tasks, s, mb) = run_schedule E M sched (tasks, cr_state c, mb)
      in (tasks, c\<lparr>cr_state := s, cr_mb := mb, lastSeen := seen_at\<rparr>))"

text \<open>The handler of a tick. A URL never seen reads as the zero time.\<close>

definition on_tick ::
    "('h, 'r, 'k, 'p, 'z) state_env_scheme \<Rightarrow> 'm mailbox_ops \<Rightarrow> instant \<Rightarrow> ('h, 'k, 'p, 'm) Crawler
      \<Rightarrow> ('h, 'k, 'p, 'm) Crawler" where
  "on_tick E M now c =
     c\<lparr>cr_mb := foldl (\<lambda>mb (_, rpc).
         if time_sub now (case lastSeen c (rpc_URL rpc) of None \<Rightarrow> 0 | Some t \<Rightarrow> t) \<ge> rescanInterval
         then mb_deliver M mb (rpc_URL rpc) else mb)
       (cr_mb c) (om_entries (rpcs_ops E) (KnownRPCs (cr_state c)))\<rparr>"

section \<open>Specification\<close>

text \<open>Every known RPC is stored under its own URL.\<close>

definition known_ok :: "('h, 'r, 'k, 'p, 'z) state_env_scheme \<Rightarrow> ('h, 'k, 'p) State \<Rightarrow> bool" where
  "known_ok E s \<longleftrightarrow> (\<forall>url rpc. KnownRPCByURL E s url = Some rpc \<longrightarrow> rpc_URL rpc = url)"

definition peers_known ::
    "('h, 'r, 'k, 'p, 'z) state_env_scheme \<Rightarrow> ('h, 'k, 'p) State \<Rightarrow> Peer list \<Rightarrow> nat \<Rightarrow> bool" where
  "peers_known E s peers n \<longleftrightarrow> (\<forall>i < n. IsKnownRPC E s (Peer_URL (url_port E) (peers ! i)))"

text \<open>What a goroutine has achieved by the time it is in a phase.\<close>

fun task_inv :: "('h, 'r, 'k, 'p, 'z) state_env_scheme \<Rightarrow> ('h, 'k, 'p) State \<Rightarrow> task \<Rightarrow> bool" where
  "task_inv E s (url, Probe) \<longleftrightarrow> True"
| "task_inv E s (url, Failed) \<longleftrightarrow> True"
| "task_inv E s (url, StoreRPC rpc peers) \<longleftrightarrow> rpc_URL rpc = url"
| "task_inv E s (url, StorePeers peers) \<longleftrightarrow> IsKnownRPC E s url"
| "task_inv E s (url, ReadPeer peers i) \<longleftrightarrow>
     IsKnownRPC E s url \<and> RPCPeers E s url = peers \<and> i \<le> length peers \<and> peers_known E s peers i"
| "task_inv E s (url, StorePeer rpc peers i) \<longleftrightarrow>
     IsKnownRPC E s url \<and> RPCPeers E s url = peers \<and> i < length peers \<and> peers_known E s peers i
     \<and> rpc_URL rpc = Peer_URL (url_port E) (peers ! i)"
| "task_inv E s (url, DeliverPeer peers i) \<longleftrightarrow>
     IsKnownRPC E s url \<and> RPCPeers E s url = peers \<and> i < length peers \<and> peers_known E s peers (i + 1)"
| "task_inv E s (url, Finished peers) \<longleftrightarrow>
     IsKnownRPC E s url \<and> RPCPeers E s url = peers \<and> peers_known E s peers (length peers)"

definition lawful_state :: "('h, 'r, 'k, 'p, 'z) state_env_scheme \<Rightarrow> bool" where
  "lawful_state E \<longleftrightarrow> ordered_map (rpcs_ops E) \<and> ordered_map (peers_ops E)"

definition config_inv ::
    "('h, 'r, 'k, 'p, 'z) state_env_scheme \<Rightarrow> task list \<times> ('h, 'k, 'p) State \<times> 'm \<Rightarrow> bool" where
  "config_inv E = (\<lambda>(tasks, s, mb). known_ok E s \<and> distinct (map fst tasks) \<and> (\<forall>t \<in> set tasks. task_inv E s t))"

text \<open>A URL that the rate limit allows to be probed.\<close>

definition due :: "(string \<rightharpoonup> instant) \<Rightarrow> string \<Rightarrow> instant \<Rightarrow> bool" where
  "due seen_at url now \<longleftrightarrow> (case seen_at url of None \<Rightarrow> True | Some prev \<Rightarrow> time_sub now prev \<ge> rescanInterval)"

text \<open>The mailbox of the witnesses.\<close>

definition list_mailbox :: "string list mailbox_ops" where
  "list_mailbox = \<lparr>mb_new = [], mb_deliver = (\<lambda>m u. m @ [u]), mb_retrieve_all = (\<lambda>m. (m, []))\<rparr>"

section \<open>Lemmas\<close>

lemma known_AddKnownRPC:
  "lawful_state E \<Longrightarrow> KnownRPCByURL E (AddKnownRPC E rpc s) url =
     (if url = rpc_URL rpc then Some rpc else KnownRPCByURL E s url)"
  by (simp add: lawful_state_def KnownRPCByURL_def AddKnownRPC_def ordered_map.om_get_set)

lemma IsKnownRPC_alt: "IsKnownRPC E s url \<longleftrightarrow> KnownRPCByURL E s url \<noteq> None"
  by (simp add: IsKnownRPC_def KnownRPCByURL_def)

lemma state_frame [simp]:
  "KnownRPCByURL E (AddRPCPeers E u ps s) url = KnownRPCByURL E s url"
  "IsKnownRPC E (AddRPCPeers E u ps s) url = IsKnownRPC E s url"
  "RPCPeers E (AddKnownRPC E rpc s) url = RPCPeers E s url"
  by (simp_all add: KnownRPCByURL_def IsKnownRPC_def AddRPCPeers_def RPCPeers_def AddKnownRPC_def)

lemma peers_AddRPCPeers:
  "lawful_state E \<Longrightarrow> RPCPeers E (AddRPCPeers E u ps s) url = (if url = u then ps else RPCPeers E s url)"
  by (simp add: lawful_state_def RPCPeers_def AddRPCPeers_def ordered_map.om_get_set)

lemma match_moniker_URL [simp]: "rpc_URL (match_moniker cvs rpc) = rpc_URL rpc"
  by (induction cvs rpc rule: match_moniker.induct) (auto split: option.splits)

lemma probed_rpc_URL [simp]: "rpc_URL (probed_rpc E s url status) = url"
  by (simp add: probed_rpc_def Let_def)

lemma peer_rpc_URL [simp]: "rpc_URL (peer_rpc E s peer) = Peer_URL (url_port E) peer"
  by (simp add: peer_rpc_def Let_def)

text \<open>How a step of one goroutine looks to the others: no RPC is forgotten, and only the peers of
  its own URL change.\<close>

lemma fetch_step_frame:
  assumes "lawful_state E" "fetch_step E M reply t (s, mb) = (t', s', mb')"
  shows "fst t' = fst t" "IsKnownRPC E s url \<Longrightarrow> IsKnownRPC E s' url"
    "url \<noteq> fst t \<Longrightarrow> RPCPeers E s' url = RPCPeers E s url"
  using assms
  by (auto simp: fetch_step_def Let_def IsKnownRPC_alt known_AddKnownRPC peers_AddRPCPeers
      split: phase.splits sum.splits prod.splits if_splits)

lemma task_inv_frame:
  assumes "task_inv E s t" "\<And>url. IsKnownRPC E s url \<Longrightarrow> IsKnownRPC E s' url"
    "RPCPeers E s' (fst t) = RPCPeers E s (fst t)"
  shows "task_inv E s' t"
  using assms by (cases "(E, s, t)" rule: task_inv.cases) (auto simp: peers_known_def)

lemma fetch_step_inv:
  assumes "lawful_state E" "known_ok E s" "task_inv E s t" "fetch_step E M reply t (s, mb) = (t', s', mb')"
  shows "known_ok E s' \<and> task_inv E s' t'"
proof (cases t)
  case t: (Pair url ph)
  have known: "\<And>url. IsKnownRPC E s url \<Longrightarrow> IsKnownRPC E s' url"
    using fetch_step_frame(2) [OF assms(1,4)] .
  show ?thesis
  proof (cases ph)
    case (StoreRPC rpc peers)
    with assms t show ?thesis
      by (auto simp: fetch_step_def known_ok_def IsKnownRPC_alt known_AddKnownRPC split: if_splits)
  next
    case (StorePeers peers)
    with assms t show ?thesis
      by (auto simp: fetch_step_def known_ok_def peers_AddRPCPeers peers_known_def)
  next
    case (ReadPeer peers i)
    with assms t show ?thesis
      by (auto simp: fetch_step_def split: if_splits)
  next
    case (StorePeer rpc peers i)
    with assms t show ?thesis
      by (auto simp: fetch_step_def known_ok_def IsKnownRPC_alt known_AddKnownRPC peers_known_def
          less_Suc_eq split: if_splits)
  next
    case (DeliverPeer peers i)
    with assms t show ?thesis by (auto simp: fetch_step_def)
  qed (use assms t in \<open>auto simp: fetch_step_def split: sum.splits prod.splits\<close>)
qed

lemma sched_step_inv:
  assumes "lawful_state E" "config_inv E c"
  shows "config_inv E (sched_step E M c x)"
proof -
  obtain tasks s mb i reply where c: "c = (tasks, s, mb)" and x: "x = (i, reply)"
    by (metis prod_cases3 surj_pair)
  show ?thesis
  proof (cases "i < length tasks")
    case True
    obtain t' s' mb' where st: "fetch_step E M reply (tasks ! i) (s, mb) = (t', s', mb')"
      by (metis prod_cases3)
    have inv: "known_ok E s" "distinct (map fst tasks)" "\<forall>t \<in> set tasks. task_inv E s t"
      using assms(2) by (auto simp: c config_inv_def)
    have I: "known_ok E s' \<and> task_inv E s' t'"
      using fetch_step_inv [OF assms(1) inv(1) _ st] inv(3) True by simp
    have fst: "fst t' = fst (tasks ! i)" using fetch_step_frame(1) [OF assms(1) st] .
    then have m: "map fst (tasks[i := t']) = map fst tasks" using True
      by (simp add: map_update) (metis list_update_id nth_map)
    have "task_inv E s' t" if "t \<in> set (tasks[i := t'])" for t
    proof -
      from that obtain j where j: "j < length tasks" "t = tasks[i := t'] ! j" by (auto simp: in_set_conv_nth)
      show ?thesis
      proof (cases "j = i")
        case True
        with I j show ?thesis by simp
      next
        case False
        with j have t: "t = tasks ! j" by simp
        have "fst t \<noteq> fst (tasks ! i)"
          using inv(2) False j True t by (metis distinct_conv_nth length_map nth_map)
        then show ?thesis
          using task_inv_frame [of E s t s'] fetch_step_frame [OF assms(1) st] inv(3) j t by (metis nth_mem)
      qed
    qed
    with I inv(2) m True st show ?thesis by (simp add: c x sched_step_def config_inv_def)
  qed (use assms(2) in \<open>simp add: c x sched_step_def\<close>)
qed

lemma run_schedule_inv:
  "lawful_state E \<Longrightarrow> config_inv E c \<Longrightarrow> config_inv E (run_schedule E M sched c)"
  unfolding run_schedule_def by (rule foldl_invariant) (auto intro: sched_step_inv)

lemma run_schedule_known:
  assumes "lawful_state E"
  shows "IsKnownRPC E (fst (snd c)) url \<Longrightarrow> IsKnownRPC E (fst (snd (run_schedule E M sched c))) url"
  unfolding run_schedule_def
proof (induction sched arbitrary: c)
  case (Cons x sched)
  obtain tasks s mb i reply where c: "c = (tasks, s, mb)" and x: "x = (i, reply)"
    by (metis prod_cases3 surj_pair)
  obtain t' s' mb' where st: "fetch_step E M reply (tasks ! i) (s, mb) = (t', s', mb')"
    by (metis prod_cases3)
  have "IsKnownRPC E (fst (snd (sched_step E M c x))) url"
    using Cons.prems fetch_step_frame(2) [OF assms st] by (simp add: c x sched_step_def st)
  from Cons.IH [OF this] show ?case by simp
qed simp

lemma run_schedule_fsts:
  assumes "lawful_state E"
  shows "map fst (fst (run_schedule E M sched c)) = map fst (fst c)"
  unfolding run_schedule_def
proof (induction sched arbitrary: c)
  case (Cons x sched)
  obtain tasks s mb i reply where c: "c = (tasks, s, mb)" and x: "x = (i, reply)"
    by (metis prod_cases3 surj_pair)
  obtain t' s' mb' where st: "fetch_step E M reply (tasks ! i) (s, mb) = (t', s', mb')"
    by (metis prod_cases3)
  have "map fst (tasks[i := t']) = map fst tasks" if "i < length tasks"
    using fetch_step_frame(1) [OF assms st] that
    by (simp add: map_update) (metis list_update_id nth_map)
  then have "map fst (fst (sched_step E M c x)) = map fst (fst c)"
    by (simp add: c x sched_step_def st)
  with Cons.IH [of "sched_step E M c x"] show ?case by simp
qed simp

lemma rescanInterval_val: "rescanInterval = 15000000000"
  by (simp add: rescanInterval_def Second_def)

lemma start_tasks_spec:
  "start_tasks seen_at urls = (tasks, seen_at') \<Longrightarrow>
   (\<forall>(u, now) \<in> set urls. t0 \<le> now \<and> now < t0 + rescanInterval) \<Longrightarrow>
   (\<forall>(u, ph) \<in> set tasks. ph = Probe \<and> (\<exists>now. (u, now) \<in> set urls \<and> due seen_at u now))
   \<and> distinct (map fst tasks)
   \<and> (\<forall>u prev. seen_at u = Some prev \<longrightarrow> t0 \<le> prev \<longrightarrow> prev < t0 + rescanInterval \<longrightarrow> u \<notin> fst ` set tasks)"
proof (induction seen_at urls arbitrary: tasks seen_at' rule: start_tasks.induct)
  case (2 seen_at url now urls)
  have range: "t0 \<le> now" "now < t0 + rescanInterval" using 2(4) by auto
  have close: "time_sub now prev < rescanInterval" if "t0 \<le> prev" "prev < t0 + rescanInterval" for prev
    using that range by (auto simp: time_sub_def rescanInterval_val)
  show ?case
  proof (cases "case seen_at url of None \<Rightarrow> False | Some prev \<Rightarrow> time_sub now prev < rescanInterval")
    case True
    then have "start_tasks seen_at urls = (tasks, seen_at')" using 2(3) by simp
    from "2.IH"(1) [OF True this] 2(4) show ?thesis by fastforce
  next
    case False
    obtain ts s' where st: "start_tasks (seen_at(url \<mapsto> now)) urls = (ts, s')" by fastforce
    with False 2(3) have tasks: "tasks = (url, Probe) # ts" by simp
    have "\<forall>(u, now) \<in> set urls. t0 \<le> now \<and> now < t0 + rescanInterval" using 2(4) by simp
    note IH = "2.IH"(2) [OF False st this]
    have new: "url \<notin> fst ` set ts" using IH range by (metis fun_upd_same)
    have d: "due seen_at url now" using False by (auto simp: due_def not_less split: option.splits)
    have A: "\<forall>(u, ph) \<in> set tasks. ph = Probe \<and> (\<exists>t. (u, t) \<in> set ((url, now) # urls) \<and> due seen_at u t)"
    proof -
      have "ph = Probe \<and> (\<exists>t. (u, t) \<in> set urls \<and> due seen_at u t)" if "(u, ph) \<in> set ts" for u ph
      proof -
        have "u \<noteq> url" using new that by force
        then show ?thesis using IH that by (fastforce simp: due_def)
      qed
      with d show ?thesis unfolding tasks by fastforce
    qed
    have B: "u \<notin> fst ` set tasks" if "seen_at u = Some prev" "t0 \<le> prev" "prev < t0 + rescanInterval" for u prev
    proof -
      have "u \<noteq> url" using False close [OF that(2,3)] that(1) by auto
      with IH that show ?thesis unfolding tasks by auto
    qed
    show ?thesis using A B new IH unfolding tasks by auto
  qed
qed simp

lemma fetch_peers_finish:
  "i \<le> length peers \<Longrightarrow>
   \<exists>s' mb'. run_schedule E M (replicate (3 * (length peers - i) + 1) (0, reply)) ([(url, ReadPeer peers i)], s, mb)
     = ([(url, Finished peers)], s', mb')"
proof (induction "length peers - i" arbitrary: i s mb)
  case 0
  then show ?case by (simp add: run_schedule_def sched_step_def fetch_step_def)
next
  case (Suc n)
  then have i: "i < length peers" and n: "n = length peers - Suc i" by simp_all
  have "3 * (length peers - i) + 1 = Suc (Suc (Suc (3 * (length peers - Suc i) + 1)))" using i by simp
  then show ?case using Suc(1) [OF n] i
    by (simp add: run_schedule_def sched_step_def fetch_step_def)
qed

section \<open>Properties\<close>

text \<open>C8: one batch of the crawler, under every interleaving of its goroutines and whatever the
  network answers: no URL is probed twice, none less than 15 seconds after its last probe; every
  RPC stays stored under its own URL and none is forgotten; and a goroutine that finishes has
  recorded its node, the peers it reported, and every one of them as a known RPC.\<close>

theorem on_notify_spec:
  assumes "lawful_state E" "known_ok E (cr_state c)"
    and "\<forall>i. t0 \<le> nows i \<and> nows i < t0 + rescanInterval"
    and run: "on_notify E M nows sched c = (tasks, c')"
  shows "known_ok E (cr_state c')
    \<and> (\<forall>url. IsKnownRPC E (cr_state c) url \<longrightarrow> IsKnownRPC E (cr_state c') url)
    \<and> distinct (map fst tasks)
    \<and> (\<forall>(url, ph) \<in> set tasks. \<exists>i. due (lastSeen c) url (nows i))
    \<and> (\<forall>(url, ph) \<in> set tasks. \<forall>peers. ph = Finished peers \<longrightarrow>
         IsKnownRPC E (cr_state c') url \<and> RPCPeers E (cr_state c') url = peers
         \<and> (\<forall>peer \<in> set peers. IsKnownRPC E (cr_state c') (Peer_URL (url_port E) peer)))"
proof -
  obtain urls mb where m: "mb_retrieve_all M (cr_mb c) = (urls, mb)" by fastforce
  obtain ts sn where st: "start_tasks (lastSeen c) (zip urls (map nows [0..<length urls])) = (ts, sn)" by fastforce
  obtain tasks' s' mb' where r: "run_schedule E M sched (ts, cr_state c, mb) = (tasks', s', mb')"
    by (metis prod_cases3)
  have fin: "tasks = tasks'" "cr_state c' = s'" using run by (auto simp: on_notify_def m st r)
  have z: "\<forall>(u, now) \<in> set (zip urls (map nows [0..<length urls])). (\<exists>i. now = nows i) \<and> t0 \<le> now \<and> now < t0 + rescanInterval"
    using assms(3) by (auto dest!: set_zip_rightD)
  then have S: "\<forall>(u, ph) \<in> set ts. ph = Probe \<and> (\<exists>now. (u, now) \<in> set (zip urls (map nows [0..<length urls]))
      \<and> due (lastSeen c) u now)" "distinct (map fst ts)"
    using start_tasks_spec [OF st, of t0] by fast+
  have "config_inv E (ts, cr_state c, mb)"
    using assms(2) S by (fastforce simp: config_inv_def)
  from run_schedule_inv [OF assms(1) this, of M sched] have I: "config_inv E (tasks', s', mb')" by (simp add: r)
  have K: "IsKnownRPC E s' url" if "IsKnownRPC E (cr_state c) url" for url
    using run_schedule_known [OF assms(1), of "(ts, cr_state c, mb)" url M sched] that by (simp add: r)
  have fsts: "map fst tasks' = map fst ts"
    using run_schedule_fsts [OF assms(1), of M sched "(ts, cr_state c, mb)"] by (simp add: r)
  have due: "\<exists>i. due (lastSeen c) url (nows i)" if "(url, ph) \<in> set tasks'" for url ph
  proof -
    have "url \<in> fst ` set ts" using that fsts by (metis fst_conv image_eqI list.set_map)
    then obtain ph' where "(url, ph') \<in> set ts" by auto
    with S(1) obtain now where n: "(url, now) \<in> set (zip urls (map nows [0..<length urls]))"
      "due (lastSeen c) url now" by blast
    from bspec [OF z n(1)] n(2) show ?thesis by auto
  qed
  have F: "IsKnownRPC E s' url \<and> RPCPeers E s' url = peers
      \<and> (\<forall>peer \<in> set peers. IsKnownRPC E s' (Peer_URL (url_port E) peer))" if "(url, Finished peers) \<in> set tasks'" for url peers
  proof -
    have "task_inv E s' (url, Finished peers)" using I that by (auto simp: config_inv_def)
    then show ?thesis by (auto simp: peers_known_def in_set_conv_nth)
  qed
  show ?thesis using I K due F S(2) fsts by (auto simp: fin config_inv_def)
qed

text \<open>A goroutine whose two requests succeed finishes: it needs four steps and three per peer.\<close>

theorem fetchOne_finishes:
  "\<exists>s' mb'. run_schedule E M (replicate (3 * length (net_Peers netInfo) + 4) (0, (Inr netInfo, Inr status)))
     ([(url, Probe)], s, mb) = ([(url, Finished (net_Peers netInfo))], s', mb')"
proof -
  let ?x = "(0, (Inr netInfo, Inr status))"
  have n: "3 * length (net_Peers netInfo) + 4 = Suc (Suc (Suc (3 * (length (net_Peers netInfo) - 0) + 1)))"
    by simp
  have "\<exists>s1. run_schedule E M [?x, ?x, ?x] ([(url, Probe)], s, mb) =
      ([(url, ReadPeer (net_Peers netInfo) 0)], s1, mb)"
    by (simp add: run_schedule_def sched_step_def fetch_step_def)
  then obtain s1 where s1: "run_schedule E M [?x, ?x, ?x] ([(url, Probe)], s, mb) =
      ([(url, ReadPeer (net_Peers netInfo) 0)], s1, mb)" by blast
  have "run_schedule E M (replicate (3 * length (net_Peers netInfo) + 4) ?x) ([(url, Probe)], s, mb) =
      run_schedule E M (replicate (3 * (length (net_Peers netInfo) - 0) + 1) ?x)
        (run_schedule E M [?x, ?x, ?x] ([(url, Probe)], s, mb))"
    unfolding n by (simp only: run_schedule_def replicate_Suc foldl_Cons foldl_Nil)
  then show ?thesis
    using fetch_peers_finish [of 0 "net_Peers netInfo" E M "(Inr netInfo, Inr status)" url s1 mb]
    by (simp only: s1)
qed


theorem on_notify_spec_witness:
  "\<exists>tasks c'. on_notify fmap_state_env list_mailbox (\<lambda>_. 5)
      (replicate 9 (0, (Inr \<lparr>net_Listening = True, net_Listeners = [], net_NPeers = ''0'', net_Peers = []\<rparr>,
         Inr \<lparr>rs_NodeID = ''id'', rs_Moniker = ''m'', rs_Network = ''n'', rs_Version = ''v'',
           rs_ValidatorAddress = ''A''\<rparr>)))
      ((New list_mailbox (NewState fmap_state_env ''u'' 0))\<lparr>cr_mb := [''u'', ''u'']\<rparr>) = (tasks, c')
    \<and> distinct (map fst tasks) \<and> known_ok fmap_state_env (cr_state c')"
proof -
  let ?r = "(Inr \<lparr>net_Listening = True, net_Listeners = [], net_NPeers = ''0'', net_Peers = []\<rparr>,
         Inr \<lparr>rs_NodeID = ''id'', rs_Moniker = ''m'', rs_Network = ''n'', rs_Version = ''v'',
           rs_ValidatorAddress = ''A''\<rparr>)"
  let ?c = "(New list_mailbox (NewState fmap_state_env ''u'' 0))\<lparr>cr_mb := [''u'', ''u'']\<rparr>"
  have l: "lawful_state fmap_state_env"
    by (simp add: lawful_state_def fmap_state_env_def round_env.defs alist_ordered.ordered_map_axioms)
  have k: "known_ok fmap_state_env (cr_state ?c)"
    by (simp add: known_ok_def KnownRPCByURL_def New_def NewState_def fmap_state_env_def round_env.defs
        alist_ordered.om_get_new)
  obtain tasks c' where run: "on_notify fmap_state_env list_mailbox (\<lambda>_. 5) (replicate 9 (0, ?r)) ?c = (tasks, c')"
    by fastforce
  have t: "\<forall>i::nat. (5::int) \<le> 5 \<and> 5 < 5 + rescanInterval" by (simp add: rescanInterval_val)
  from on_notify_spec [OF l k t run] run show ?thesis by blast
qed


end
