(* ===== verification/Spec2Isabelle.thy ===== *)
theory Spec2Isabelle
  imports Cmd Server Cli Persist Lifecycle App Websocket Returns Fetchers Metrics Analytics Queries Store Config Crawler Topology Asn Decentralization Observe State Utils
begin

text \<open>
  \<^bold>\<open>tmtop\<close>: a terminal program that shows the consensus of a CometBFT (Tendermint) chain while it happens. This
  library models the Go code under \<open>src/cmd\<close> and \<open>src/pkg\<close> and proves what its parts guarantee, and what they
  do not.

  \<^bold>\<open>The program.\<close> \<open>cmd/tmtop.go\<close> reads flags, configuration file and environment into an \<open>InputConfig\<close>, which
  \<open>pkg/config\<close> validates. \<open>pkg/app.go\<close> opens the SQLite store of \<open>pkg/db\<close> when a retention is configured and
  starts a set of loops around one shared \<open>State\<close> (\<open>pkg/types/state.go\<close>): refreshers call \<open>pkg/fetcher\<close>
  periodically and put the answers into the state, a websocket delivers consensus events, which the state turns into
  the votes of each round, the metrics builder (\<open>pkg/metrics\<close>) into timings and equivocations and the store into rows;
  a crawler (\<open>pkg/crawler\<close>) discovers the peers, from which \<open>pkg/topology\<close> computes the graph it serves over
  HTTP. After each change \<open>pkg/display\<close> redraws the screen from the state. In analytics mode the program
  only runs one of the reports of \<open>pkg/analytics\<close> over the store.

  \<^bold>\<open>Theories.\<close> Each models the files named with it; the definitions keep the names of the source, with a prefix or
  suffix where several types share a method name.
  \<^item> \<open>Prelude\<close>, \<open>GoFloat\<close>: the Go integers, strings, \<open>strconv\<close> and \<open>float64\<close> the program uses. Signed integers are
    \<open>int\<close> with the wrap-around written out (\<open>i64\<close>, \<open>i32\<close>), a finite float is the rational it denotes and every
    operation rounds to 53 bits.
  \<^item> \<open>Butils\<close>: the interfaces of the third-party containers, as locales with instances.
  \<^item> \<open>Votes\<close> (\<open>types/vote.go\<close>, \<open>round_data.go\<close>), \<open>Validators\<close>, \<open>NetInfo\<close>, \<open>State\<close>: the data model and the shared state.
  \<^item> \<open>Utils\<close>, \<open>Config\<close> (\<open>config\<close>, \<open>refresher\<close>), \<open>Cmd\<close> (\<open>cmd/tmtop.go\<close>, \<open>logger\<close>): helpers, settings, start.
  \<^item> \<open>CometRpc\<close> (\<open>http/http.go\<close>, \<open>comet_rpc.go\<close>), \<open>Fetchers\<close> (\<open>cosmos_*.go\<close>, \<open>data_fetcher.go\<close>), \<open>Websocket\<close>
    (\<open>comet_rpc_websocket.go\<close>): the clients. A call is a transformer of the outside world that returns an error or a
    value, or \<open>None\<close> when it panics or never returns; the websocket is an \<open>inductive\<close> step relation. \<open>Returns\<close> shows when the
    clients return, from assumptions on \<open>net/url\<close> and on the answers of the nodes alone.
  \<^item> \<open>Tables\<close>, \<open>Queries\<close> (\<open>db/sqlc\<close>), \<open>Db\<close> (\<open>db.go\<close>), \<open>Store\<close> (\<open>consensus_store.go\<close>, \<open>store.go\<close>): a record of tables, one
    function per query with the constraints of the schema, opening, migrations, transactions, retention, and what of the consensus is stored.
  \<^item> \<open>Analytics\<close>, \<open>Cli\<close> (\<open>pkg/analytics\<close>): the reports and their command line.
  \<^item> \<open>HealthTypes\<close>, \<open>Observe\<close>, \<open>Decentralization\<close>, \<open>Metrics\<close>, \<open>Asn\<close> (\<open>pkg/metrics\<close>, \<open>pkg/asn\<close>): network health.
  \<^item> \<open>Crawler\<close>, \<open>Topology\<close>, \<open>Server\<close> (\<open>pkg/crawler\<close>, \<open>pkg/topology\<close>, \<open>http/server.go\<close>): peers, graph and its API. The
    goroutines of the crawler run under an arbitrary schedule.
  \<^item> \<open>Panels\<close>, \<open>Grids\<close>, \<open>Display\<close> (\<open>pkg/display\<close>): texts, tables, keys and layout.
  \<^item> \<open>App\<close> (\<open>pkg/app.go\<close>): the application as a record over all of these, one handler per loop and \<open>run_app\<close> over any sequence
    of ticks, events, keys and writes of the crawler. \<open>Persist\<close> composes a refresh with the store: which votes it leaves in the database. \<open>Lifecycle\<close> is the
    process from \<open>Start\<close> to its end: the goroutines of \<open>main\<close>, of the signal handler and of the tasks with \<open>Stop\<close>, \<open>HandlePanic\<close> and the wait
    group, interleaved in any order.

  \<^bold>\<open>Interfaces.\<close> \<open>sorted_map\<close> and \<open>ordered_map\<close> state the laws of the containers; \<open>lawful_rounds\<close> builds the votes of a chain
  on them and is a \<open>vote_store\<close>, the abstract map from slots to block IDs. \<open>cosmos_source\<close> and \<open>plain_source\<close> are what the
  data fetcher needs of a chain client (interpreted on the three clients and on the one \<open>NewDataFetcher\<close> chooses). \<open>table_content\<close> is
  what tview asks of a table (five interpretations). \<open>consensus_storer\<close> is the Go interface \<open>ConsensusStorer\<close> with its contract
  (invariant, atomicity, no error from retention), interpreted on the no-op, on SQLite and, with a stronger invariant, to show that no block
  time is ever stored; \<open>app_storer\<close> extends it with what the application needs not to panic.

  \<^bold>\<open>What is shown.\<close>
  \<^item> Data and state: the votes refine a finite map; percentages stay in their bounds; events are applied in order.
  \<^item> Store: constraints of the schema are kept by every operation and by retention, which leaves exactly the rows within its windows; rounds are read back as stored, transactions are all or
    nothing; after a refresh the votes on the screen are in the database. Opening a database without the second migration always fails, so a first start with the default flags does.
  \<^item> Analytics: streaks, rankings and percentages equal their specification; on a database the program has written
    every report by time window is empty.
  \<^item> Metrics: equivocations are sound and complete within the window, timings are accounted for, the decentralization figures equal
    their definition, a snapshot agrees with the state.
  \<^item> Network: paging and chunked downloads collect everything in order, with one request for each chunk; every subscription has a number of
    its own and survives reconnections under every interleaving;
    the crawler probes no peer twice and loses none; crawl and topology equal the reachable peers and their links; the answers of
    the API on each branch, with the redirection of paths that are not clean; nothing is assumed of the CORS wrapper.
  \<^item> Display and application: no sequence of keys and events panics or leaves the invariant, if nodes answer as CometBFT does and URLs
    parse; what each refresh, the pause and the keys
    change; layouts of tables and panels.
  \<^item> Life of the process: the store is closed last unless a shutdown times out, which one after a panic always does, or a signal comes
    before the display is up, in which case the tasks may run on the closed store; every schedule ends and \<open>Stop\<close> cannot be blocked for good; a signal shuts down everything but the display, so the process stays.

  \<^bold>\<open>Effects and nondeterminism.\<close> The clock, the world of the network, driver failures, the order of map iteration and the schedule of goroutines are
  arguments, over which the theorems quantify. Third-party code is a record of functions; what is assumed of it is a named predicate or a
  locale, with an instance that satisfies it. A panic is \<open>None\<close> and a Go error a value of \<open>Inl\<close> or \<open>Some\<close>. Loops that may run forever
  (paging, the genesis download) are \<open>partial_function (option)\<close>; all others terminate by a structural or lexicographic
  measure, and no fuel is used: the loops over events and schedules recurse on the list of what happens.

  \<^bold>\<open>Not modelled.\<close> Locks and data races (each accessor and each handler is one atomic step); process exit codes other than
  those of \<open>Cmd\<close> and \<open>Cli\<close>; listening sockets and connections that break while a response is written; the codecs of CometBFT, the
  Cosmos SDK, JSON and DOT; rendering by tview and the colours, titles and fonts given to it, and
  the restoring of the terminal; log messages, apart from those a
  theorem mentions; the scanning of SQL rows into Go structs; generated mocks and embedded static files.
\<close>

end
